(* ===== verification/Prelude.thy ===== *)
theory Prelude
  imports Main "HOL-Library.Word"
begin

unbundle bit_operations_syntax

text \<open>
  The vocabulary the component theories share.

  \<^item> Type synonyms for the machine integers of the C++ sources:
    \<^verbatim>\<open>uint8_t\<close> to \<^verbatim>\<open>uint64_t\<close> are words of that width, so that addition wraps
    and the bitwise operators are those of the library.
  \<^item> The C casts between widths (\<open>sext32\<close>, \<open>sext16\<close>, \<open>sext64\<close>) and the bit
    tests of the sources (\<open>flag\<close>).
  \<^item> Byte strings: little-endian splitting and assembling of a value
    (\<open>le_bytes\<close>, \<open>le_val\<close>), the byte swap of src/helper.hh, and the view of a
    flat byte memory as values of n bytes (\<open>mem_load\<close>, \<open>mem_store\<close>).
  \<^item> The named theorem collections of the development.
\<close>

section \<open>Machine integers\<close>

type_synonym u8 = "8 word"
type_synonym u16 = "16 word"
type_synonym u32 = "32 word"
type_synonym u64 = "64 word"

text \<open>A flat byte memory, indexed by a 32-bit physical address.\<close>

type_synonym bytes = "u32 \<Rightarrow> u8"

named_theorems exc_defs \<open>definitions of the exception helpers\<close>
named_theorems mem_simps \<open>read-after-write facts of memories\<close>
named_theorems frame_simps \<open>fields an operation leaves alone\<close>

text \<open>\<^verbatim>\<open>sext32\<close> and \<^verbatim>\<open>sext64\<close> of src/interpret.cc are the same cast, written
  once as a cast chain and once with shifts.\<close>

definition sext32 :: "u32 \<Rightarrow> u64" where
  "sext32 v = scast v"

definition sext64 :: "u32 \<Rightarrow> u64" where
  "sext64 x = signed_drop_bit 32 (push_bit 32 (ucast x))"

definition sext16 :: "u16 \<Rightarrow> u64" where
  "sext16 v = scast v"

definition sext8 :: "u8 \<Rightarrow> u64" where
  "sext8 v = scast v"

text \<open>A C condition \<^verbatim>\<open>(x & m)\<close>: true when some bit of the mask is set.\<close>

definition flag :: "'a::len word \<Rightarrow> 'a word \<Rightarrow> bool" where
  "flag x m \<longleftrightarrow> x AND m \<noteq> 0"

text \<open>C booleans stored in integers.\<close>

definition b2w :: "bool \<Rightarrow> 'a::len word" where
  "b2w b = (if b then 1 else 0)"

section \<open>Bytes\<close>

text \<open>The object representation of a value of n bytes on the little-endian host.\<close>

primrec le_bytes :: "nat \<Rightarrow> u64 \<Rightarrow> u8 list" where
  "le_bytes 0 v = []"
| "le_bytes (Suc n) v = ucast v # le_bytes n (drop_bit 8 v)"

primrec le_val :: "u8 list \<Rightarrow> u64" where
  "le_val [] = 0"
| "le_val (b # bs) = ucast b OR push_bit 8 (le_val bs)"

text \<open>\<^verbatim>\<open>bswap<EL>\<close> of src/helper.hh for the big-endian instance (\<^verbatim>\<open>EL\<close> is false) on
  a value of n bytes; the result has n bytes too.\<close>

definition bswap :: "nat \<Rightarrow> u64 \<Rightarrow> u64" where
  "bswap n v = le_val (rev (le_bytes n v))"

text \<open>\<^verbatim>\<open>*reinterpret_cast<T*>(mem+a)\<close>, read and written, for a type of n bytes.\<close>

definition mem_load :: "nat \<Rightarrow> bytes \<Rightarrow> u32 \<Rightarrow> u64" where
  "mem_load n m a = le_val (map (\<lambda>i. m (a + of_nat i)) [0..<n])"

primrec put_bytes :: "u8 list \<Rightarrow> bytes \<Rightarrow> u32 \<Rightarrow> bytes" where
  "put_bytes [] m a = m"
| "put_bytes (b # bs) m a = put_bytes bs (m(a := b)) (a + 1)"

definition mem_store :: "nat \<Rightarrow> bytes \<Rightarrow> u32 \<Rightarrow> u64 \<Rightarrow> bytes" where
  "mem_store n m a v = put_bytes (le_bytes n v) m a"

section \<open>Words\<close>

lemma flag_single_bit [simp]: "flag x (2 ^ n) \<longleftrightarrow> bit x n"
  by (simp add: flag_def and_exp_eq_0_iff_not_bit)

lemma flag_0 [simp]: "\<not> flag 0 m"
  by (simp add: flag_def)

lemma bit_flagI: "bit x n \<Longrightarrow> bit m n \<Longrightarrow> flag x m"
  unfolding flag_def by (metis bit_0_eq bit_and_iff bot_apply bot_bool_def)

text \<open>The bits of a numeral that is a power of two, or a run of ones.\<close>

lemma bit_of_exp:
  fixes c :: "'a::len word"
  assumes "c = 2 ^ k" "k < LENGTH('a)"
  shows "bit c n \<longleftrightarrow> n = k"
  using assms(2) unfolding assms(1) by (auto simp: bit_exp_iff)

lemma bit_of_field:
  fixes c :: "'a::len word"
  assumes "c = push_bit a (mask b)"
  shows "bit c n \<longleftrightarrow> a \<le> n \<and> n < a + b \<and> n < LENGTH('a)"
  unfolding assms by (auto simp: bit_simps)

lemma field_bits:
  fixes x :: "'a::len word"
  assumes "x AND push_bit a (mask b) = x" "bit x n"
  shows "a \<le> n \<and> n < a + b"
proof -
  have "bit (x AND push_bit a (mask b)) n" using assms by (simp only:)
  then show ?thesis by (auto simp: bit_simps)
qed

lemma drop_bit_eq_iff:
  fixes x y :: "'a::len word"
  shows "drop_bit k x = drop_bit k y \<longleftrightarrow> (\<forall>n\<ge>k. bit x n = bit y n)"
proof
  assume eq: "drop_bit k x = drop_bit k y"
  have "bit (drop_bit k w) (n - k) = bit w n" if "k \<le> n" for w :: "'a word" and n
    using that by (simp add: bit_drop_bit_eq)
  then show "\<forall>n\<ge>k. bit x n = bit y n" using eq by metis
next
  assume "\<forall>n\<ge>k. bit x n = bit y n"
  then show "drop_bit k x = drop_bit k y" by (intro bit_word_eqI) (simp add: bit_drop_bit_eq)
qed

lemma bit_of_int_field:
  fixes c :: int
  assumes "c = push_bit a (mask b)"
  shows "bit c n \<longleftrightarrow> a \<le> n \<and> n < a + b"
  unfolding assms by (auto simp: bit_simps)

lemma sext64_eq_sext32: "sext64 = sext32"
  by (rule ext, rule bit_word_eqI) (auto simp: sext64_def sext32_def bit_simps)

lemma ucast_sext32 [simp]: "(ucast (sext32 v) :: u32) = v"
  by (rule bit_word_eqI) (auto simp: sext32_def bit_simps)

lemma sext32_inject [simp]: "sext32 a = sext32 b \<longleftrightarrow> a = b"
  by (metis ucast_sext32)

lemma sint_sext32 [simp]: "sint (sext32 v) = sint v"
  by (simp add: sext32_def sint_up_scast is_up)

lemma unat_eqI: "unat x = unat y \<Longrightarrow> x = y"
  by (rule unsigned_word_eqI)

lemma unat_and_mask: "unat (x AND mask n) = unat x mod 2 ^ n"
  for x :: "'a::len word"
  by (simp only: take_bit_eq_mask [symmetric] unsigned_take_bit_eq) (simp add: take_bit_eq_mod)

lemma unat_and_not_mask: "unat (x AND NOT (mask n)) = unat x - unat x mod 2 ^ n"
  for x :: "'a::len word"
proof -
  have "x = (x AND NOT (mask n)) + (x AND mask n)"
    by (subst disjunctive_add_eq_or) (auto intro!: bit_word_eqI simp: bit_simps)
  moreover have "x AND mask n \<le> x" by (rule word_and_le2)
  ultimately show ?thesis
    by (metis add_diff_cancel_right' unat_and_mask unat_sub)
qed

section \<open>Byte strings\<close>

lemma length_le_bytes [simp]: "length (le_bytes n v) = n"
  by (induction n arbitrary: v) auto

lemma le_val_le_bytes: "le_val (le_bytes n v) = take_bit (8 * n) v"
proof (induction n arbitrary: v)
  case 0
  then show ?case by simp
next
  case (Suc n)
  show ?case
    by (rule bit_word_eqI) (auto simp: Suc bit_simps)
qed

lemma bit_le_val_bound: "bit (le_val bs) i \<Longrightarrow> i < 8 * length bs"
proof (induction bs arbitrary: i)
  case Nil
  then show ?case by simp
next
  case (Cons b bs)
  then show ?case
    using Cons.IH [of "i - 8"] by (fastforce simp: bit_simps dest: bit_imp_le_length)
qed

lemma le_bytes_le_val:
  "length bs \<le> 8 \<Longrightarrow> le_bytes (length bs) (le_val bs) = bs"
proof (induction bs)
  case Nil
  then show ?case by simp
next
  case (Cons b bs)
  have "drop_bit 8 (le_val (b # bs)) = le_val bs"
  proof (rule bit_word_eqI)
    fix i
    show "bit (drop_bit 8 (le_val (b # bs))) i = bit (le_val bs) i"
      using bit_le_val_bound [of bs i] Cons.prems
      by (auto simp: bit_simps dest: bit_imp_le_length)
  qed
  moreover have "(ucast (le_val (b # bs)) :: u8) = b"
    by (rule bit_word_eqI) (auto simp: bit_simps)
  ultimately show ?case using Cons by simp
qed

lemma bswap_bswap: "n \<le> 8 \<Longrightarrow> bswap n (bswap n v) = take_bit (8 * n) v"
  using le_bytes_le_val [of "rev (le_bytes n v)"]
  by (simp add: bswap_def le_val_le_bytes)

lemma le_val_8: "le_val (le_bytes 8 v) = v"
  by (simp add: le_val_le_bytes take_bit_word_eq_self)

lemma le_val_4: "ucast (le_val (le_bytes 4 (ucast (v :: u32)))) = v"
  by (rule bit_word_eqI) (simp add: le_val_le_bytes bit_simps)

lemma le_bytes_take_bit: "le_bytes n (take_bit (8 * n) v) = le_bytes n v"
proof (induction n arbitrary: v)
  case 0
  then show ?case by simp
next
  case (Suc n)
  have "drop_bit 8 (take_bit (8 * Suc n) v) = take_bit (8 * n) (drop_bit 8 v)"
    by (rule bit_word_eqI) (auto simp: bit_simps)
  moreover have "(ucast (take_bit (8 * Suc n) v) :: u8) = ucast v"
    by (rule bit_word_eqI) (auto simp: bit_simps)
  ultimately show ?case using Suc by simp
qed

lemma bswap_take_bit [simp]: "bswap n (take_bit (8 * n) v) = bswap n v"
  by (simp add: bswap_def le_bytes_take_bit)

section \<open>Byte memories\<close>

lemma put_bytes_at:
  "length bs \<le> 2 ^ 32 \<Longrightarrow>
   put_bytes bs m a x = (if unat (x - a) < length bs then bs ! unat (x - a) else m x)"
proof (induction bs arbitrary: m a)
  case Nil
  then show ?case by simp
next
  case (Cons b bs)
  show ?case
  proof (cases "x = a")
    case True
    have "unat (- 1 :: u32) = 2 ^ 32 - 1" by (simp add: unat_eq_nat_uint uint_word_ariths)
    with True Cons show ?thesis by simp
  next
    case False
    then have nz: "x - a \<noteq> 0" by simp
    have "x - (a + 1) = (x - a) - 1" by simp
    then have "unat (x - (a + 1)) = unat (x - a) - 1"
      using unat_minus_one [OF nz] by (simp only:)
    moreover have "0 < unat (x - a)" using nz by (simp add: unat_gt_0)
    ultimately have "unat (x - a) = Suc (unat (x - (a + 1)))" by simp
    with False Cons show ?thesis by simp
  qed
qed

lemma mem_store_at:
  "n \<le> 8 \<Longrightarrow> mem_store n m a v x =
     (if unat (x - a) < n then le_bytes n v ! unat (x - a) else m x)"
  by (simp add: mem_store_def put_bytes_at)

lemma mem_load_cong:
  "(\<And>i. i < n \<Longrightarrow> m (a + of_nat i) = m' (a + of_nat i)) \<Longrightarrow> mem_load n m a = mem_load n m' a"
  unfolding mem_load_def by (rule arg_cong [where f = le_val]) (rule map_cong, auto)

lemma mem_load_store_same [mem_simps]:
  assumes "n \<le> 8"
  shows "mem_load n (mem_store n m a v) a = take_bit (8 * n) v"
proof -
  have "map (\<lambda>i. mem_store n m a v (a + of_nat i)) [0..<n] = le_bytes n v"
    using assms by (auto simp: list_eq_iff_nth_eq mem_store_at unat_of_nat)
  then show ?thesis
    by (simp add: mem_load_def le_val_le_bytes)
qed

lemma mem_load_store_disjoint [mem_simps]:
  assumes "n \<le> 8" "\<And>i. i < k \<Longrightarrow> n \<le> unat (b + of_nat i - a)"
  shows "mem_load k (mem_store n m a v) b = mem_load k m b"
  using assms by (intro mem_load_cong) (force simp: mem_store_at not_less [symmetric])

lemma mem_load_small: "mem_load n m a = take_bit (8 * n) (mem_load n m a)"
proof (rule bit_word_eqI)
  fix i
  show "bit (mem_load n m a) i = bit (take_bit (8 * n) (mem_load n m a)) i"
    using bit_le_val_bound [of "map (\<lambda>i. m (a + of_nat i)) [0..<n]" i]
    by (auto simp: mem_load_def bit_simps)
qed

end
