(* ===== verification/Byte_Store.thy ===== *)
theory Byte_Store
  imports Prelude
begin

text \<open>
  The interface between the CPU's data accesses and whatever holds the bytes:
  the flat backing store, or the write-back cache in front of it.  A provider
  offers a byte load and a byte store on its own state, an invariant, the view
  of the state as a byte memory, and the key that tells which addresses name
  the same cell (the low-memory alias makes two addresses name one cell).  The
  lemmas derive the behaviour of the byte loops of a multi-byte access.
\<close>

primrec load_loop :: "(u32 \<Rightarrow> 's \<Rightarrow> u8 \<times> 's) \<Rightarrow> nat \<Rightarrow> u32 \<Rightarrow> 's \<Rightarrow> u8 list \<times> 's" where
  "load_loop ld 0 a s = ([], s)"
| "load_loop ld (Suc n) a s =
     (let (b, s) = ld a s; (bs, s) = load_loop ld n (a + 1) s in (b # bs, s))"

primrec store_loop :: "(u32 \<Rightarrow> u8 \<Rightarrow> 's \<Rightarrow> 's) \<Rightarrow> u8 list \<Rightarrow> u32 \<Rightarrow> 's \<Rightarrow> 's" where
  "store_loop st [] a s = s"
| "store_loop st (b # bs) a s = store_loop st bs (a + 1) (st a b s)"

locale byte_store =
  fixes ld :: "u32 \<Rightarrow> 's \<Rightarrow> u8 \<times> 's"
    and st :: "u32 \<Rightarrow> u8 \<Rightarrow> 's \<Rightarrow> 's"
    and inv :: "'s \<Rightarrow> bool"
    and view :: "'s \<Rightarrow> u32 \<Rightarrow> u8"
    and key :: "u32 \<Rightarrow> u32"
  assumes ld_val: "inv s \<Longrightarrow> fst (ld a s) = view s a"
    and ld_view: "inv s \<Longrightarrow> view (snd (ld a s)) = view s"
    and ld_inv: "inv s \<Longrightarrow> inv (snd (ld a s))"
    and st_view: "inv s \<Longrightarrow> view (st a v s) x = (if key x = key a then v else view s x)"
    and st_inv: "inv s \<Longrightarrow> inv (st a v s)"
begin

lemma loads:
  assumes "inv s"
  shows "fst (load_loop ld n a s) = map (\<lambda>i. view s (a + of_nat i)) [0..<n]
    \<and> view (snd (load_loop ld n a s)) = view s \<and> inv (snd (load_loop ld n a s))"
  using assms
proof (induction n arbitrary: a s)
  case 0
  then show ?case by simp
next
  case (Suc n)
  obtain b t where bt: "ld a s = (b, t)" by fastforce
  have t: "b = view s a" "view t = view s" "inv t"
    using ld_val [OF Suc.prems, of a] ld_view [OF Suc.prems, of a] ld_inv [OF Suc.prems, of a]
    by (simp_all add: bt)
  obtain bs u where u: "load_loop ld n (a + 1) t = (bs, u)" by fastforce
  have "map (\<lambda>i. view s (a + of_nat i)) [0..<Suc n]
      = view s a # map (\<lambda>i. view s (a + 1 + of_nat i)) [0..<n]"
    by (subst upt_conv_Cons) (simp_all add: map_Suc_upt [symmetric] add.assoc del: upt_Suc)
  then show ?case
    using Suc.IH [OF t(3), of "a + 1"] t by (simp add: bt u del: upt_Suc)
qed

lemma stores_inv: "inv s \<Longrightarrow> inv (store_loop st bs a s)"
  by (induction bs arbitrary: a s) (simp_all add: st_inv)

lemma stores_frame:
  assumes "inv s" "\<And>i. i < length bs \<Longrightarrow> key x \<noteq> key (a + of_nat i)"
  shows "view (store_loop st bs a s) x = view s x"
  using assms
proof (induction bs arbitrary: a s)
  case Nil
  then show ?case by simp
next
  case (Cons b bs)
  have "key x \<noteq> key (a + 1 + of_nat i)" if "i < length bs" for i
    using Cons.prems(2) [of "Suc i"] that by (simp add: add.assoc)
  moreover have "view (st a b s) x = view s x"
    using Cons.prems(2) [of 0] by (simp add: st_view [OF Cons.prems(1)])
  ultimately show ?case
    using Cons.IH [OF st_inv [OF Cons.prems(1)], of "a + 1"] by simp
qed

lemma stores_hit:
  assumes "inv s" "i < length bs"
    and distinct: "inj_on (\<lambda>j. key (a + of_nat j)) {..<length bs}"
  shows "view (store_loop st bs a s) (a + of_nat i) = bs ! i"
  using assms
proof (induction bs arbitrary: a s i)
  case Nil
  then show ?case by simp
next
  case (Cons b bs)
  note inv' = st_inv [OF Cons.prems(1), of a b]
  show ?case
  proof (cases i)
    case 0
    have "key a \<noteq> key (a + 1 + of_nat k)" if "k < length bs" for k
      using inj_onD [OF Cons.prems(3), of 0 "Suc k"] that by (auto simp: add.assoc)
    then show ?thesis
      using stores_frame [OF inv', of bs a "a + 1"] 0
      by (simp add: st_view [OF Cons.prems(1)])
  next
    case (Suc k)
    have d: "inj_on (\<lambda>j. key (a + 1 + of_nat j)) {..<length bs}"
    proof (rule inj_onI)
      fix j l assume "j \<in> {..<length bs}" "l \<in> {..<length bs}"
        "key (a + 1 + of_nat j) = key (a + 1 + of_nat l)"
      then show "j = l"
        using inj_onD [OF Cons.prems(3), of "Suc j" "Suc l"] by (simp add: add.assoc)
    qed
    show ?thesis
      using Cons.IH [OF inv', of k "a + 1"] d Cons.prems(2) Suc by (simp add: add.assoc)
  qed
qed

text \<open>A multi-byte load returns what the last multi-byte store wrote.\<close>

lemma load_after_store:
  assumes "inv s"
    and distinct: "inj_on (\<lambda>j. key (a + of_nat j)) {..<length bs}"
  shows "fst (load_loop ld (length bs) a (store_loop st bs a s)) = bs"
proof -
  have "view (store_loop st bs a s) (a + of_nat i) = bs ! i" if "i < length bs" for i
    using assms(1) that distinct by (rule stores_hit)
  then have "map (\<lambda>i. view (store_loop st bs a s) (a + of_nat i)) [0..<length bs] = bs"
    by (intro nth_equalityI) simp_all
  then show ?thesis
    using loads [OF stores_inv [OF assms(1)]] by simp
qed

text \<open>The same through another name of the same cells.\<close>

lemma load_after_store_alias:
  assumes "inv s"
    and distinct: "inj_on (\<lambda>j. key (a + of_nat j)) {..<length bs}"
    and same: "\<And>s x y. inv s \<Longrightarrow> key x = key y \<Longrightarrow> view s x = view s y"
    and alt: "\<And>j. j < length bs \<Longrightarrow> key (b + of_nat j) = key (a + of_nat j)"
  shows "fst (load_loop ld (length bs) b (store_loop st bs a s)) = bs"
proof -
  have "view (store_loop st bs a s) (b + of_nat i) = bs ! i" if "i < length bs" for i
    using stores_hit [OF assms(1) that distinct] same [OF stores_inv [OF assms(1)] alt [OF that]]
    by (rule trans [rotated])
  then have "map (\<lambda>i. view (store_loop st bs a s) (b + of_nat i)) [0..<length bs] = bs"
    by (intro nth_equalityI) simp_all
  then show ?thesis
    using loads [OF stores_inv [OF assms(1)]] by simp
qed

end

end
