(* ===== verification/Cache_Model.thy ===== *)
theory Cache_Model
  imports Memory_Map Byte_Store
begin

text \<open>
  The optional write-back data cache (src/cache_model.hh, src/cache_model.cc)
  over the flat backing store: direct mapped, lines of 32 bytes.  The state of
  an operation is the pair of the cache and the DRAM bytes; \<open>rd\<close> is the
  \<^verbatim>\<open>route_devices\<close> flag of the store, which decides whether raw pointers go
  through the low-memory alias.

  \<open>cm_view\<close> is the byte the CPU sees at an address.  The lemmas show that the
  cache implements a flat byte memory for the CPU as long as no clean line is
  stale (\<open>cm_inv\<close>), that the write-back and invalidate operations are invisible
  to the CPU or drop exactly one line, and what each of them guarantees to a
  device that accesses DRAM directly.
\<close>

section \<open>State\<close>

definition L1_LINE :: u32 where "L1_LINE = 32"
definition L1_SIZE :: u32 where "L1_SIZE = 128 * 1024"
definition L1_SETS :: u32 where "L1_SETS = L1_SIZE div L1_LINE"
definition L1_OFF :: u32 where "L1_OFF = L1_LINE - 1"

record cline =
  valid :: bool
  dirty :: bool
  tag :: u32
  data :: "u32 \<Rightarrow> u8"

record cache_model =
  l1 :: "u32 \<Rightarrow> cline"
  n_fill :: u64
  n_evict :: u64
  n_wb :: u64
  n_inval :: u64
  n_cstore :: u64
  n_cload :: u64
  n_stale :: u64
  n_specfill :: u64
  n_snoopinv :: u64

type_synonym cm_state = "cache_model \<times> bytes"

definition cline_init :: cline where
  "cline_init = \<lparr>valid = False, dirty = False, tag = 0, data = (\<lambda>_. 0)\<rparr>"

definition cache_model_init :: cache_model where
  "cache_model_init = \<lparr>l1 = (\<lambda>_. cline_init), n_fill = 0, n_evict = 0, n_wb = 0, n_inval = 0,
     n_cstore = 0, n_cload = 0, n_stale = 0, n_specfill = 0, n_snoopinv = 0\<rparr>"

section \<open>Geometry\<close>

definition set_of :: "u32 \<Rightarrow> u32" where
  "set_of pa = (pa div L1_LINE) mod L1_SETS"

definition tag_of :: "u32 \<Rightarrow> u32" where
  "tag_of pa = (pa div L1_LINE) div L1_SETS"

definition line_base :: "u32 \<Rightarrow> u32 \<Rightarrow> u32" where
  "line_base tg st = (tg * L1_SETS + st) * L1_LINE"

definition line_start :: "u32 \<Rightarrow> u32" where
  "line_start pa = pa AND NOT L1_OFF"

definition line_off :: "u32 \<Rightarrow> u32" where
  "line_off pa = pa AND L1_OFF"

section \<open>Operations\<close>

definition dram_rd :: "bool \<Rightarrow> bytes \<Rightarrow> u32 \<Rightarrow> u8" where
  "dram_rd rd m pa = m (get_raw_ptr rd pa)"

definition dram_wr :: "bool \<Rightarrow> u32 \<Rightarrow> u8 \<Rightarrow> bytes \<Rightarrow> bytes" where
  "dram_wr rd pa v m = m(get_raw_ptr rd pa := v)"

definition line_to_dram :: "bool \<Rightarrow> u32 \<Rightarrow> (u32 \<Rightarrow> u8) \<Rightarrow> bytes \<Rightarrow> bytes" where
  "line_to_dram rd base d m =
     fold (\<lambda>i m. dram_wr rd (base + of_nat i) (d (of_nat i)) m) [0..<32] m"

definition line_from_dram :: "bool \<Rightarrow> u32 \<Rightarrow> bytes \<Rightarrow> (u32 \<Rightarrow> u8) \<Rightarrow> (u32 \<Rightarrow> u8)" where
  "line_from_dram rd base m d =
     fold (\<lambda>i d. d(of_nat i := dram_rd rd m (base + of_nat i))) [0..<32] d"

definition set_line :: "u32 \<Rightarrow> cline \<Rightarrow> cache_model \<Rightarrow> cache_model" where
  "set_line st l c = c\<lparr>l1 := (l1 c)(st := l)\<rparr>"

definition fill :: "bool \<Rightarrow> u32 \<Rightarrow> cm_state \<Rightarrow> cm_state" where
  "fill rd pa = (\<lambda>(c, m).
     let st = set_of pa; tg = tag_of pa; l = l1 c st in
     if valid l \<and> tag l = tg then (c, m)
     else
       let (c, m) =
             (if valid l \<and> dirty l
              then (c\<lparr>n_evict := n_evict c + 1\<rparr>, line_to_dram rd (line_base (tag l) st) (data l) m)
              else (c, m));
           d = line_from_dram rd (pa AND NOT L1_OFF) m (data l)
       in ((set_line st (l\<lparr>data := d, valid := True, dirty := False, tag := tg\<rparr>) c)
             \<lparr>n_fill := n_fill c + 1\<rparr>, m))"

record presence =
  resident :: bool
  p_dirty :: bool
  cached :: u8

definition probe :: "u32 \<Rightarrow> cache_model \<Rightarrow> presence" where
  "probe pa c =
     (let l = l1 c (set_of pa) in
      if valid l \<and> tag l = tag_of pa
      then \<lparr>resident = True, p_dirty = dirty l, cached = data l (pa AND L1_OFF)\<rparr>
      else \<lparr>resident = False, p_dirty = False, cached = 0\<rparr>)"

definition spec_fill :: "bool \<Rightarrow> u32 \<Rightarrow> cm_state \<Rightarrow> cm_state" where
  "spec_fill rd pa = (\<lambda>(c, m).
     if \<not> resident (probe pa c)
     then (let (c, m) = fill rd pa (c, m) in (c\<lparr>n_specfill := n_specfill c + 1\<rparr>, m))
     else (c, m))"

definition snoop_inval :: "u32 \<Rightarrow> cache_model \<Rightarrow> cache_model" where
  "snoop_inval pa c =
     (let st = set_of pa; l = l1 c st in
      if valid l \<and> tag l = tag_of pa
      then (set_line st (l\<lparr>valid := False\<rparr>) c)\<lparr>n_snoopinv := n_snoopinv c + 1\<rparr>
      else c)"

text \<open>The loop bodies of \<^verbatim>\<open>cload\<close> and \<^verbatim>\<open>cstore\<close>, one byte each.\<close>

definition cload_byte :: "bool \<Rightarrow> bool \<Rightarrow> u32 \<Rightarrow> cm_state \<Rightarrow> u8 \<times> cm_state" where
  "cload_byte rd stale_detect pa s =
     (let (c, m) = fill rd pa s;
          l = l1 c (set_of pa);
          cv = data l (pa AND L1_OFF);
          c = (if stale_detect \<and> \<not> dirty l \<and> cv \<noteq> dram_rd rd m pa
               then c\<lparr>n_stale := n_stale c + 1\<rparr> else c)
      in (cv, (c, m)))"

definition cstore_byte :: "bool \<Rightarrow> u32 \<Rightarrow> u8 \<Rightarrow> cm_state \<Rightarrow> cm_state" where
  "cstore_byte rd pa v s =
     (let (c, m) = fill rd pa s; st = set_of pa; l = l1 c st
      in (set_line st (l\<lparr>data := (data l)(pa AND L1_OFF := v), dirty := True\<rparr>) c, m))"

primrec cload_loop :: "bool \<Rightarrow> bool \<Rightarrow> nat \<Rightarrow> u32 \<Rightarrow> cm_state \<Rightarrow> u8 list \<times> cm_state" where
  "cload_loop rd sd 0 pa s = ([], s)"
| "cload_loop rd sd (Suc n) pa s =
     (let (b, s) = cload_byte rd sd pa s; (bs, s) = cload_loop rd sd n (pa + 1) s in (b # bs, s))"

primrec cstore_loop :: "bool \<Rightarrow> u8 list \<Rightarrow> u32 \<Rightarrow> cm_state \<Rightarrow> cm_state" where
  "cstore_loop rd [] pa s = s"
| "cstore_loop rd (b # bs) pa s = cstore_loop rd bs (pa + 1) (cstore_byte rd pa b s)"

definition cload :: "bool \<Rightarrow> bool \<Rightarrow> nat \<Rightarrow> u32 \<Rightarrow> cm_state \<Rightarrow> u8 list \<times> cm_state" where
  "cload rd stale_detect n pa s =
     (let (bs, (c, m)) = cload_loop rd stale_detect n pa s in (bs, (c\<lparr>n_cload := n_cload c + 1\<rparr>, m)))"

definition cstore :: "bool \<Rightarrow> u8 list \<Rightarrow> u32 \<Rightarrow> cm_state \<Rightarrow> cm_state" where
  "cstore rd bs pa s =
     (let (c, m) = cstore_loop rd bs pa s in (c\<lparr>n_cstore := n_cstore c + 1\<rparr>, m))"

text \<open>The CACHE operations.\<close>

definition wb :: "bool \<Rightarrow> u32 \<Rightarrow> cm_state \<Rightarrow> cm_state" where
  "wb rd st = (\<lambda>(c, m).
     let l = l1 c st in
     if valid l \<and> dirty l
     then ((set_line st (l\<lparr>dirty := False\<rparr>) c)\<lparr>n_wb := n_wb c + 1\<rparr>,
           line_to_dram rd (line_base (tag l) st) (data l) m)
     else (c, m))"

definition drop_line :: "u32 \<Rightarrow> cache_model \<Rightarrow> cache_model" where
  "drop_line st c = (set_line st ((l1 c st)\<lparr>valid := False\<rparr>) c)\<lparr>n_inval := n_inval c + 1\<rparr>"

definition hit :: "u32 \<Rightarrow> cache_model \<Rightarrow> bool" where
  "hit pa c \<longleftrightarrow> valid (l1 c (set_of pa)) \<and> tag (l1 c (set_of pa)) = tag_of pa"

definition hit_wb :: "bool \<Rightarrow> u32 \<Rightarrow> cm_state \<Rightarrow> cm_state" where
  "hit_wb rd pa = (\<lambda>(c, m). if hit pa c then wb rd (set_of pa) (c, m) else (c, m))"

definition hit_inval :: "u32 \<Rightarrow> cm_state \<Rightarrow> cm_state" where
  "hit_inval pa = (\<lambda>(c, m). if hit pa c then (drop_line (set_of pa) c, m) else (c, m))"

definition hit_wb_inval :: "bool \<Rightarrow> u32 \<Rightarrow> cm_state \<Rightarrow> cm_state" where
  "hit_wb_inval rd pa = (\<lambda>(c, m).
     if hit pa c
     then (let (c, m) = wb rd (set_of pa) (c, m) in (drop_line (set_of pa) c, m))
     else (c, m))"

definition index_inval :: "u32 \<Rightarrow> cm_state \<Rightarrow> cm_state" where
  "index_inval idx = (\<lambda>(c, m).
     if valid (l1 c (set_of idx)) then (drop_line (set_of idx) c, m) else (c, m))"

definition index_wb_inval :: "bool \<Rightarrow> u32 \<Rightarrow> cm_state \<Rightarrow> cm_state" where
  "index_wb_inval rd idx s =
     (let (c, m) = wb rd (set_of idx) s in
      if valid (l1 c (set_of idx)) then (drop_line (set_of idx) c, m) else (c, m))"

section \<open>The abstract memory\<close>

text \<open>The raw address of the line a set holds, and the byte the CPU sees.\<close>

definition held_line :: "bool \<Rightarrow> u32 \<Rightarrow> cache_model \<Rightarrow> u32" where
  "held_line rd st c = get_raw_ptr rd (line_base (tag (l1 c st)) st)"

definition holds :: "bool \<Rightarrow> u32 \<Rightarrow> cache_model \<Rightarrow> bool" where
  "holds rd pa c \<longleftrightarrow>
     valid (l1 c (set_of pa)) \<and> held_line rd (set_of pa) c = get_raw_ptr rd (line_start pa)"

definition cm_view :: "bool \<Rightarrow> cm_state \<Rightarrow> u32 \<Rightarrow> u8" where
  "cm_view rd = (\<lambda>(c, m) pa.
     if holds rd pa c then data (l1 c (set_of pa)) (line_off pa) else dram_rd rd m pa)"

text \<open>The invariant: tags are those of 32-bit addresses, and no clean line is stale.\<close>

definition cm_inv :: "bool \<Rightarrow> cm_state \<Rightarrow> bool" where
  "cm_inv rd = (\<lambda>(c, m).
     (\<forall>st. valid (l1 c st) \<longrightarrow> tag (l1 c st) < 0x8000) \<and>
     (\<forall>pa. holds rd pa c \<longrightarrow> \<not> dirty (l1 c (set_of pa)) \<longrightarrow>
        data (l1 c (set_of pa)) (line_off pa) = dram_rd rd m pa))"

section \<open>Geometry lemmas\<close>

lemmas l1_geometry = L1_SETS_def L1_SIZE_def L1_LINE_def L1_OFF_def

lemma unat_set_of: "unat (set_of pa) = unat pa div 32 mod 4096"
  by (simp add: set_of_def l1_geometry unat_div unat_mod)

lemma unat_tag_of: "unat (tag_of pa) = unat pa div 131072"
  by (simp add: tag_of_def l1_geometry unat_div flip: div_mult2_eq)

lemma unat_line_off: "unat (line_off pa) = unat pa mod 32"
  using unat_and_mask [of pa 5] by (simp add: line_off_def l1_geometry mask_numeral)

lemma unat_line_start: "unat (line_start pa) = unat pa - unat pa mod 32"
  using unat_and_not_mask [of pa 5] by (simp add: line_start_def l1_geometry mask_numeral)

lemma set_of_bound: "set_of pa < L1_SETS"
  by (simp add: set_of_def l1_geometry word_mod_less_divisor)

lemma tag_of_bound: "tag_of pa < 0x8000"
  using unsigned_less [of pa, where 'a = nat] by (simp add: word_less_nat_alt unat_tag_of less_mult_imp_div_less)

lemma line_off_bound: "unat (line_off pa) < 32"
  by (simp add: unat_line_off)

lemma unat_line_base:
  assumes "tg < 0x8000" "st < L1_SETS"
  shows "unat (line_base tg st) = (unat tg * 4096 + unat st) * 32"
proof -
  have "unat tg < 0x8000" "unat st < 4096"
    using assms by (simp_all add: word_less_nat_alt l1_geometry)
  then have "(unat tg * 4096 + unat st) * 32 < 2 ^ 32" by simp
  moreover have "line_base tg st = of_nat ((unat tg * 4096 + unat st) * 32)"
    by (simp add: line_base_def l1_geometry)
  ultimately show ?thesis by (simp only: unat_of_nat) simp
qed

lemma line_base_of [simp]: "line_base (tag_of pa) (set_of pa) = line_start pa"
proof (rule unsigned_word_eqI)
  show "unat (line_base (tag_of pa) (set_of pa)) = unat (line_start pa)"
    using div_mult2_eq [of "unat pa" 32 4096]
    by (simp add: unat_line_base [OF tag_of_bound set_of_bound] unat_tag_of unat_set_of
        unat_line_start minus_mod_eq_div_mult div_mult_mod_eq)
qed

lemma set_of_line_base:
  assumes "tg < 0x8000" "st < L1_SETS"
  shows "set_of (line_base tg st) = st"
proof (rule unsigned_word_eqI)
  have "unat st < 4096" using assms(2) by (simp add: word_less_nat_alt l1_geometry)
  then show "unat (set_of (line_base tg st)) = unat st"
    by (simp add: unat_set_of unat_line_base assms)
qed

section \<open>Lines and raw addresses\<close>

text \<open>The alias moves whole lines: it keeps the set and the offset.\<close>

lemma alias_nat:
  fixes x :: nat
  shows "(x + 0x08000000) div 32 mod 4096 = x div 32 mod 4096"
    and "(x + 0x08000000) mod 32 = x mod 32"
    and "x - x mod 32 < 0x80000 \<longleftrightarrow> x < 0x80000"
proof -
  have "(x + 0x08000000) div 32 = x div 32 + 0x400000"
    using div_plus_div_distrib_dvd_right [of 32 "0x08000000" x] by simp
  moreover have "(x div 32 + 0x400000) mod 4096 = x div 32 mod 4096"
    using mod_add_eq [of "x div 32" 4096 "0x400000"] by simp
  ultimately show "(x + 0x08000000) div 32 mod 4096 = x div 32 mod 4096" by simp
  show "(x + 0x08000000) mod 32 = x mod 32"
    using mod_add_eq [of x 32 "0x08000000"] by simp
  have "x - x mod 32 < 0x80000 \<longleftrightarrow> x div 32 < 0x4000"
    by (simp add: minus_mod_eq_mult_div)
  also have "\<dots> \<longleftrightarrow> x < 0x80000"
    by (simp add: div_less_iff_less_mult)
  finally show "x - x mod 32 < 0x80000 \<longleftrightarrow> x < 0x80000" .
qed

lemma set_of_raw [simp]: "set_of (get_raw_ptr rd pa) = set_of pa"
  by (rule unat_eqI) (simp add: unat_set_of unat_get_raw_ptr alias_nat)

lemma line_off_raw [simp]: "line_off (get_raw_ptr rd pa) = line_off pa"
  by (rule unat_eqI) (simp add: unat_line_off unat_get_raw_ptr alias_nat)

lemma line_start_raw: "line_start (get_raw_ptr rd pa) = get_raw_ptr rd (line_start pa)"
  by (rule unat_eqI) (simp add: unat_line_start unat_get_raw_ptr alias_nat)

lemma addr_split: "pa = line_start pa + line_off pa"
  unfolding line_start_def line_off_def
  by (subst disjunctive_add_eq_or) (auto intro!: bit_word_eqI simp: bit_simps)

lemma line_start_idem [simp]: "line_start (line_start pa) = line_start pa"
  by (simp add: line_start_def ac_simps)

lemma line_off_start [simp]: "line_off (line_start pa) = 0"
  by (rule bit_word_eqI) (simp add: line_start_def line_off_def bit_simps)

lemma set_of_start [simp]: "set_of (line_start pa) = set_of pa"
  by (rule unat_eqI)
    (simp add: unat_set_of unat_line_start minus_mod_eq_mult_div)

lemma raw_split: "get_raw_ptr rd pa = get_raw_ptr rd (line_start pa) + line_off pa"
  by (metis addr_split line_off_raw line_start_raw)

lemma raw_eq_iff:
  "get_raw_ptr rd x = get_raw_ptr rd y \<longleftrightarrow>
     get_raw_ptr rd (line_start x) = get_raw_ptr rd (line_start y) \<and> line_off x = line_off y"
  by (metis line_off_raw line_start_raw raw_split)

lemma raw_line_set:
  "get_raw_ptr rd (line_start x) = get_raw_ptr rd (line_start y) \<Longrightarrow> set_of x = set_of y"
  by (metis set_of_raw set_of_start)

text \<open>An address inside a line that starts at an aligned base.\<close>

lemma line_start_add:
  assumes "line_off base = 0" "i < 32"
  shows "line_start (base + of_nat i) = base" and "line_off (base + of_nat i) = of_nat i"
proof -
  have b: "unat base mod 32 = 0"
    using assms(1) by (metis unat_0 unat_line_off)
  then obtain q where q: "unat base = 32 * q" by blast
  have "unat base < 2 ^ 32" using unsigned_less [of base, where 'a = nat] by simp
  with q have "unat base + 31 < 2 ^ 32" by simp
  with assms(2) have u: "unat (base + of_nat i) = unat base + i"
    by (subst unat_add_lem [THEN iffD1]) (simp_all add: unat_of_nat)
  have m: "(unat base + i) mod 32 = i" using q assms(2) by simp
  show "line_start (base + of_nat i) = base"
    by (rule unat_eqI) (simp add: unat_line_start u m)
  show "line_off (base + of_nat i) = of_nat i"
    by (rule unat_eqI)
      (use assms(2) in \<open>simp add: unat_line_off u m unat_of_nat\<close>)
qed

lemma fold_upd_at:
  "inj_on f (set is) \<Longrightarrow> distinct is \<Longrightarrow>
   fold (\<lambda>i m. m(f i := g i)) is m x =
     (if x \<in> f ` set is then g (the_inv_into (set is) f x) else m x)"
proof (induction "is" arbitrary: m)
  case Nil
  then show ?case by simp
next
  case (Cons j js)
  have inj: "inj_on f (set js)" using Cons.prems by simp
  show ?case
  proof (cases "x \<in> f ` set js")
    case True
    then obtain k where k: "k \<in> set js" "x = f k" by blast
    have "the_inv_into (set js) f x = k" "the_inv_into (set (j # js)) f x = k"
      using k Cons.prems inj by (auto intro: the_inv_into_f_eq)
    with True Cons inj show ?thesis by simp
  next
    case False
    have "x = f j \<Longrightarrow> the_inv_into (set (j # js)) f x = j"
      using Cons.prems by (simp add: the_inv_into_f_f)
    with False Cons inj show ?thesis by auto
  qed
qed

lemma of_nat_inj32: "inj_on (of_nat :: nat \<Rightarrow> u32) {0..<32}"
  by (auto simp: inj_on_def word_unat_eq_iff unat_of_nat)

lemma line_from_dram_at:
  assumes "line_off base = 0"
  shows "line_from_dram rd base m d (line_off pa) = dram_rd rd m (base + line_off pa)"
proof -
  let ?k = "unat (line_off pa)"
  have k: "?k \<in> {0..<32}" "of_nat ?k = line_off pa"
    using line_off_bound [of pa] by simp_all
  then have "the_inv_into {0..<32} of_nat (line_off pa) = ?k"
    using of_nat_inj32 by (metis the_inv_into_f_f)
  with k of_nat_inj32 show ?thesis
    unfolding line_from_dram_def by (subst fold_upd_at) (auto simp: image_iff Bex_def)
qed

lemma line_to_dram_at:
  assumes b: "line_off base = 0"
  shows "dram_rd rd (line_to_dram rd base d m) pa =
    (if get_raw_ptr rd (line_start pa) = get_raw_ptr rd base then d (line_off pa) else dram_rd rd m pa)"
proof -
  let ?f = "\<lambda>i. get_raw_ptr rd (base + of_nat i)"
  let ?I = "{0..<32::nat}"
  have raw: "get_raw_ptr rd pa = ?f i \<longleftrightarrow>
      get_raw_ptr rd (line_start pa) = get_raw_ptr rd base \<and> line_off pa = of_nat i"
    if "i < 32" for i pa
    using that by (subst raw_eq_iff) (simp add: line_start_add [OF b])
  have inj: "inj_on ?f ?I"
    using raw of_nat_inj32 by (auto simp: inj_on_def line_start_add [OF b])
  have inv: "the_inv_into ?I ?f (get_raw_ptr rd pa) = unat (line_off pa)"
    if "get_raw_ptr rd (line_start pa) = get_raw_ptr rd base"
    using inj that raw [of "unat (line_off pa)" pa] line_off_bound [of pa]
    by (intro the_inv_into_f_eq) auto
  have mem: "get_raw_ptr rd pa \<in> ?f ` ?I \<longleftrightarrow> get_raw_ptr rd (line_start pa) = get_raw_ptr rd base"
    using raw [of "unat (line_off pa)" pa] raw line_off_bound [of pa]
    by (auto simp: image_iff Bex_def)
  show ?thesis
    unfolding line_to_dram_def dram_wr_def dram_rd_def
    by (subst fold_upd_at) (use inj mem inv in \<open>auto simp only: set_upt distinct_upt fun_upd_apply
        of_nat_unat ucast_id if_True if_False refl split: if_split\<close>)
qed

section \<open>Filling and writing back a line\<close>

text \<open>DRAM once the line of a set has been written back if it is dirty.\<close>

definition cleaned :: "bool \<Rightarrow> u32 \<Rightarrow> cm_state \<Rightarrow> bytes" where
  "cleaned rd st = (\<lambda>(c, m).
     if valid (l1 c st) \<and> dirty (l1 c st)
     then line_to_dram rd (line_base (tag (l1 c st)) st) (data (l1 c st)) m else m)"

lemma cm_invD:
  assumes "cm_inv rd (c, m)"
  shows "valid (l1 c st) \<Longrightarrow> tag (l1 c st) < 0x8000"
    and "holds rd pa c \<Longrightarrow> \<not> dirty (l1 c (set_of pa)) \<Longrightarrow>
      data (l1 c (set_of pa)) (line_off pa) = dram_rd rd m pa"
  using assms by (auto simp: cm_inv_def)

lemma line_off_line_base:
  "tg < 0x8000 \<Longrightarrow> st < L1_SETS \<Longrightarrow> line_off (line_base tg st) = 0"
  by (rule unat_eqI) (simp add: unat_line_off unat_line_base)

lemma hit_holds: "hit pa c \<Longrightarrow> holds rd pa c"
  by (simp add: hit_def holds_def held_line_def)

text \<open>Writing a line back makes DRAM agree with the view on that set and touches
  no other set.\<close>

lemma cleaned_at:
  assumes inv: "cm_inv rd (c, m)"
  shows "dram_rd rd (cleaned rd (set_of pa) (c, m)) x =
    (if set_of x = set_of pa then cm_view rd (c, m) x else dram_rd rd m x)"
proof (cases "valid (l1 c (set_of pa)) \<and> dirty (l1 c (set_of pa))")
  case True
  let ?st = "set_of pa" and ?base = "line_base (tag (l1 c (set_of pa))) (set_of pa)"
  have tg: "tag (l1 c ?st) < 0x8000" using True cm_invD(1) [OF inv] by blast
  have off: "line_off ?base = 0" and st: "set_of ?base = ?st"
    using tg set_of_bound by (simp_all add: line_off_line_base set_of_line_base)
  have "set_of x = ?st" if "get_raw_ptr rd (line_start x) = get_raw_ptr rd ?base"
    using that st by (metis set_of_raw set_of_start)
  with True off show ?thesis
    by (auto simp: cleaned_def line_to_dram_at cm_view_def holds_def held_line_def)
next
  case False
  then show ?thesis
    using cm_invD(2) [OF inv, of x] by (auto simp: cleaned_def cm_view_def holds_def)
qed

lemma fill_hit: "hit pa c \<Longrightarrow> fill rd pa (c, m) = (c, m)"
  by (simp add: fill_def hit_def Let_def)

lemma fill_miss:
  assumes "\<not> hit pa c"
  shows "snd (fill rd pa (c, m)) = cleaned rd (set_of pa) (c, m)"
    and "l1 (fst (fill rd pa (c, m))) = (l1 c)(set_of pa := (l1 c (set_of pa))
      \<lparr>data := line_from_dram rd (line_start pa) (cleaned rd (set_of pa) (c, m))
                  (data (l1 c (set_of pa))),
       valid := True, dirty := False, tag := tag_of pa\<rparr>)"
  using assms
  by (auto simp: fill_def hit_def Let_def cleaned_def set_line_def line_start_def)

lemma line_from_dram_same_line:
  assumes "get_raw_ptr rd (line_start pa) = get_raw_ptr rd (line_start x)"
  shows "line_from_dram rd (line_start pa) m d (line_off x) = dram_rd rd m x"
proof -
  have "get_raw_ptr rd (line_start pa + line_off x) = get_raw_ptr rd x"
    using assms line_start_add [of "line_start pa" "unat (line_off x)"] line_off_bound [of x]
    by (subst raw_eq_iff) simp
  then show ?thesis by (simp add: line_from_dram_at dram_rd_def)
qed

lemma fill_view:
  assumes inv: "cm_inv rd s"
  shows "cm_view rd (fill rd pa s) = cm_view rd s"
proof
  fix x
  obtain c m where s: "s = (c, m)" by fastforce
  show "cm_view rd (fill rd pa s) x = cm_view rd s x"
  proof (cases "hit pa c")
    case True
    then show ?thesis by (simp add: s fill_hit)
  next
    case False
    note f = fill_miss [OF False, of rd m]
    obtain c' m' where cm: "fill rd pa (c, m) = (c', m')" by fastforce
    have "cm_view rd (c', m') x = (if set_of x = set_of pa then dram_rd rd m' x else cm_view rd (c, m) x)"
      using f cleaned_at [OF inv [unfolded s], of pa x]
      by (auto simp: cm cm_view_def holds_def held_line_def line_from_dram_same_line)
    then show ?thesis
      using f(1) cleaned_at [OF inv [unfolded s], of pa x] by (simp add: s cm)
  qed
qed

lemma fill_inv:
  assumes inv: "cm_inv rd s"
  shows "cm_inv rd (fill rd pa s)"
proof -
  obtain c m where s: "s = (c, m)" by fastforce
  show ?thesis
  proof (cases "hit pa c")
    case True
    then show ?thesis using inv by (simp add: s fill_hit)
  next
    case False
    note f = fill_miss [OF False, of rd m]
    obtain c' m' where cm: "fill rd pa (c, m) = (c', m')" by fastforce
    have "data (l1 c' (set_of x)) (line_off x) = dram_rd rd m' x"
      if "holds rd x c'" "\<not> dirty (l1 c' (set_of x))" for x
      using that f cleaned_at [OF inv [unfolded s], of pa x] cm_invD(2) [OF inv [unfolded s], of x]
      by (auto simp: cm holds_def held_line_def line_from_dram_same_line split: if_splits)
    then show ?thesis
      using f(2) cm_invD(1) [OF inv [unfolded s]] tag_of_bound [of pa]
      by (auto simp: s cm cm_inv_def)
  qed
qed

lemma fill_makes_hit: "hit pa (fst (fill rd pa s))"
  by (cases s; cases "hit pa (fst s)") (simp_all add: fill_hit fill_miss(2) hit_def)

section \<open>CPU accesses\<close>

lemma cm_view_stats [simp]:
  "cm_view rd (c\<lparr>n_stale := x\<rparr>, m) = cm_view rd (c, m)"
  "cm_view rd (c\<lparr>n_cload := x\<rparr>, m) = cm_view rd (c, m)"
  "cm_view rd (c\<lparr>n_cstore := x\<rparr>, m) = cm_view rd (c, m)"
  "cm_view rd (c\<lparr>n_specfill := x\<rparr>, m) = cm_view rd (c, m)"
  "cm_inv rd (c\<lparr>n_stale := x\<rparr>, m) = cm_inv rd (c, m)"
  "cm_inv rd (c\<lparr>n_cload := x\<rparr>, m) = cm_inv rd (c, m)"
  "cm_inv rd (c\<lparr>n_cstore := x\<rparr>, m) = cm_inv rd (c, m)"
  "cm_inv rd (c\<lparr>n_specfill := x\<rparr>, m) = cm_inv rd (c, m)"
  by (simp_all add: fun_eq_iff cm_view_def cm_inv_def holds_def held_line_def)

lemma cm_view_raw:
  assumes "get_raw_ptr rd x = get_raw_ptr rd y"
  shows "cm_view rd s x = cm_view rd s y"
proof -
  have "get_raw_ptr rd (line_start x) = get_raw_ptr rd (line_start y)" "line_off x = line_off y"
    using assms by (simp_all add: raw_eq_iff [of rd x y])
  moreover from this have "set_of x = set_of y" by (blast intro: raw_line_set)
  ultimately show ?thesis
    using assms by (cases s) (simp add: cm_view_def holds_def dram_rd_def)
qed

lemma cload_byte_correct:
  assumes "cm_inv rd s"
  shows "fst (cload_byte rd sd pa s) = cm_view rd s pa"
    and "cm_view rd (snd (cload_byte rd sd pa s)) = cm_view rd s"
    and "cm_inv rd (snd (cload_byte rd sd pa s))"
proof -
  obtain c m where cm: "fill rd pa s = (c, m)" by fastforce
  have h: "holds rd pa c"
    using hit_holds [OF fill_makes_hit [of pa rd s]] by (simp add: cm)
  have v: "cm_view rd (c, m) = cm_view rd s" and i: "cm_inv rd (c, m)"
    using fill_view [OF assms, of pa] fill_inv [OF assms, of pa] by (simp_all add: cm)
  have "fst (cload_byte rd sd pa s) = cm_view rd (c, m) pa"
    using h by (simp add: cload_byte_def cm cm_view_def line_off_def Let_def)
  then show "fst (cload_byte rd sd pa s) = cm_view rd s pa" by (simp add: v)
  show "cm_view rd (snd (cload_byte rd sd pa s)) = cm_view rd s"
    "cm_inv rd (snd (cload_byte rd sd pa s))"
    using v i by (simp_all add: cload_byte_def cm Let_def)
qed

text \<open>With the invariant the stale-read detector never fires.\<close>

lemma cload_byte_not_stale:
  assumes "cm_inv rd s"
  shows "cload_byte rd True pa s = cload_byte rd False pa s"
proof -
  obtain c m where cm: "fill rd pa s = (c, m)" by fastforce
  have "holds rd pa c"
    using hit_holds [OF fill_makes_hit [of pa rd s]] by (simp add: cm)
  moreover have "cm_inv rd (c, m)" using fill_inv [OF assms, of pa] by (simp add: cm)
  ultimately show ?thesis
    using cm_invD(2) [of rd c m pa] by (auto simp: cload_byte_def cm Let_def line_off_def)
qed

lemma cstore_byte_view:
  assumes "cm_inv rd s"
  shows "cm_view rd (cstore_byte rd pa v s) x =
    (if get_raw_ptr rd x = get_raw_ptr rd pa then v else cm_view rd s x)"
proof -
  obtain c m where cm: "fill rd pa s = (c, m)" by fastforce
  have h: "hit pa c" using fill_makes_hit [of pa rd s] by (simp add: cm)
  have "cm_view rd (cstore_byte rd pa v s) x =
    (if get_raw_ptr rd x = get_raw_ptr rd pa then v else cm_view rd (c, m) x)"
  proof (cases "get_raw_ptr rd (line_start x) = get_raw_ptr rd (line_start pa)")
    case True
    then have "set_of x = set_of pa" by (rule raw_line_set)
    with True h show ?thesis
      by (auto simp: cstore_byte_def cm Let_def cm_view_def holds_def held_line_def hit_def
          set_line_def raw_eq_iff [of rd x pa] line_off_def [symmetric])
  next
    case False
    with h show ?thesis
      by (auto simp: cstore_byte_def cm Let_def cm_view_def holds_def held_line_def hit_def
          set_line_def raw_eq_iff [of rd x pa])
  qed
  then show ?thesis using fill_view [OF assms, of pa] by (simp add: cm)
qed

lemma cstore_byte_inv:
  assumes "cm_inv rd s"
  shows "cm_inv rd (cstore_byte rd pa v s)"
proof -
  obtain c m where cm: "fill rd pa s = (c, m)" by fastforce
  have "cm_inv rd (c, m)" using fill_inv [OF assms, of pa] by (simp add: cm)
  then show ?thesis
    unfolding cstore_byte_def cm
    by (auto simp: Let_def cm_inv_def holds_def held_line_def set_line_def split: if_splits)
qed

interpretation cm: byte_store "cload_byte rd sd" "cstore_byte rd" "cm_inv rd" "cm_view rd" "get_raw_ptr rd"
  by unfold_locales (simp_all add: cload_byte_correct cstore_byte_view cstore_byte_inv)

interpretation dram: byte_store "\<lambda>a m. (dram_rd rd m a, m)" "dram_wr rd" "\<lambda>_. True" "dram_rd rd" "get_raw_ptr rd"
  by unfold_locales (auto simp: dram_rd_def dram_wr_def)

lemma cload_loop_eq: "cload_loop rd sd n pa s = load_loop (cload_byte rd sd) n pa s"
  by (induction n arbitrary: pa s) (simp_all add: split_def)

lemma cstore_loop_eq: "cstore_loop rd bs pa s = store_loop (cstore_byte rd) bs pa s"
  by (induction bs arbitrary: pa s) simp_all

lemma cload_correct:
  assumes "cm_inv rd s"
  shows "fst (cload rd sd n pa s) = map (\<lambda>i. cm_view rd s (pa + of_nat i)) [0..<n]"
    and "cm_view rd (snd (cload rd sd n pa s)) = cm_view rd s"
    and "cm_inv rd (snd (cload rd sd n pa s))"
  using cm.loads [OF assms, of sd n pa]
  by (simp_all add: cload_def cload_loop_eq split_def Let_def)

lemma cstore_inv: "cm_inv rd s \<Longrightarrow> cm_inv rd (cstore rd bs pa s)"
  using cm.stores_inv [of rd s bs pa] by (simp add: cstore_def cstore_loop_eq split_def Let_def)

lemma cstore_view: "cm_view rd (cstore rd bs pa s) = cm_view rd (store_loop (cstore_byte rd) bs pa s)"
  by (simp add: cstore_def cstore_loop_eq split_def Let_def)

section \<open>CACHE operations\<close>

lemma wb_parts:
  "snd (wb rd st (c, m)) = cleaned rd st (c, m)"
  "l1 (fst (wb rd st (c, m))) = (l1 c)(st := (l1 c st)\<lparr>dirty := dirty (l1 c st) \<and> \<not> valid (l1 c st)\<rparr>)"
  by (auto simp: wb_def cleaned_def Let_def set_line_def fun_eq_iff)

lemma wb_view:
  assumes "cm_inv rd (c, m)"
  shows "cm_view rd (wb rd (set_of pa) (c, m)) = cm_view rd (c, m)"
proof
  fix x
  obtain c' m' where w: "wb rd (set_of pa) (c, m) = (c', m')" by fastforce
  have "holds rd x c' = holds rd x c" "data (l1 c' (set_of x)) = data (l1 c (set_of x))"
    using wb_parts(2) [of rd "set_of pa" c m] by (auto simp: w holds_def held_line_def)
  moreover have "dram_rd rd m' x = (if set_of x = set_of pa then cm_view rd (c, m) x else dram_rd rd m x)"
    using wb_parts(1) [of rd "set_of pa" c m] cleaned_at [OF assms, of pa x] by (simp add: w)
  ultimately show "cm_view rd (wb rd (set_of pa) (c, m)) x = cm_view rd (c, m) x"
    by (auto simp: w cm_view_def)
qed

lemma wb_inv:
  assumes "cm_inv rd (c, m)"
  shows "cm_inv rd (wb rd (set_of pa) (c, m))"
proof -
  obtain c' m' where w: "wb rd (set_of pa) (c, m) = (c', m')" by fastforce
  note l = wb_parts(2) [of rd "set_of pa" c m, unfolded w fst_conv]
  have h: "holds rd x c' = holds rd x c" for x
    by (auto simp: l holds_def held_line_def)
  have "data (l1 c' (set_of x)) (line_off x) = dram_rd rd m' x"
    if "holds rd x c'" "\<not> dirty (l1 c' (set_of x))" for x
    using that cleaned_at [OF assms, of pa x] wb_parts(1) [of rd "set_of pa" c m]
      cm_invD(2) [OF assms, of x]
    by (auto simp: h l w cm_view_def split: if_splits)
  then show ?thesis
    using cm_invD(1) [OF assms] by (auto simp: w cm_inv_def l)
qed

lemma wb_clean: "valid (l1 (fst (wb rd st s)) st) \<Longrightarrow> \<not> dirty (l1 (fst (wb rd st s)) st)"
  by (cases s) (auto simp: wb_def Let_def set_line_def)

lemma drop_line_inv: "cm_inv rd (c, m) \<Longrightarrow> cm_inv rd (drop_line st c, m)"
  by (auto simp: cm_inv_def drop_line_def set_line_def holds_def held_line_def split: if_splits)

lemma drop_line_view:
  "cm_view rd (drop_line st c, m) x = (if set_of x = st then dram_rd rd m x else cm_view rd (c, m) x)"
  by (auto simp: cm_view_def drop_line_def set_line_def holds_def held_line_def)

text \<open>Dropping a clean line is invisible.\<close>

lemma clean_set_view:
  assumes "cm_inv rd (c, m)" "valid (l1 c (set_of x)) \<Longrightarrow> \<not> dirty (l1 c (set_of x))"
  shows "cm_view rd (c, m) x = dram_rd rd m x"
  using assms cm_invD(2) [OF assms(1), of x] by (simp add: cm_view_def holds_def)

lemma drop_clean_view:
  assumes "cm_inv rd (c, m)" "valid (l1 c st) \<Longrightarrow> \<not> dirty (l1 c st)"
  shows "cm_view rd (drop_line st c, m) = cm_view rd (c, m)"
  using assms by (auto simp: fun_eq_iff drop_line_view clean_set_view)

lemma wb_drop_view:
  assumes "cm_inv rd (c, m)" "wb rd (set_of pa) (c, m) = (c', m')"
  shows "cm_view rd (drop_line (set_of pa) c', m') = cm_view rd (c, m)"
    and "cm_inv rd (drop_line (set_of pa) c', m')"
  using wb_inv [OF assms(1), of pa] wb_view [OF assms(1), of pa] wb_clean [of rd "set_of pa" "(c, m)"]
  by (simp_all add: assms(2) drop_clean_view drop_line_inv)

lemma hit_wb_inval_correct:
  assumes "cm_inv rd s"
  shows "cm_view rd (hit_wb_inval rd pa s) = cm_view rd s" and "cm_inv rd (hit_wb_inval rd pa s)"
  using assms by (cases s; auto simp: hit_wb_inval_def wb_drop_view split: prod.split)+

lemma index_wb_inval_correct:
  assumes "cm_inv rd s"
  shows "cm_view rd (index_wb_inval rd pa s) = cm_view rd s" and "cm_inv rd (index_wb_inval rd pa s)"
  using assms wb_view [of rd "fst s" "snd s" pa] wb_inv [of rd "fst s" "snd s" pa]
  by (cases s; auto simp: index_wb_inval_def wb_drop_view split: prod.split)+

lemma hit_wb_correct:
  assumes "cm_inv rd s"
  shows "cm_view rd (hit_wb rd pa s) = cm_view rd s" and "cm_inv rd (hit_wb rd pa s)"
  using assms by (cases s; simp add: hit_wb_def wb_view wb_inv)+

lemma spec_fill_correct:
  assumes "cm_inv rd s"
  shows "cm_view rd (spec_fill rd pa s) = cm_view rd s" and "cm_inv rd (spec_fill rd pa s)"
  using fill_view [OF assms, of pa] fill_inv [OF assms, of pa] assms
  by (cases s; auto simp: spec_fill_def split: prod.split)+

text \<open>A cell of the backing store is written only where raw addresses agree.\<close>

lemma raw_eq_cases:
  "get_raw_ptr rd x = get_raw_ptr rd y \<Longrightarrow> x = y \<or> y = x + 0x08000000 \<or> x = y + 0x08000000"
  by (cases "x < 0x00080000"; cases "y < 0x00080000"; cases rd)
    (simp_all add: get_raw_ptr_def mc_alias_def)

lemma raw_inj_window: "n \<le> 16 \<Longrightarrow> inj_on (\<lambda>j. get_raw_ptr rd (a + of_nat j)) {..<n}"
proof (rule inj_onI)
  fix j k assume n: "n \<le> 16" and j: "j \<in> {..<n}" and k: "k \<in> {..<n}"
    and eq: "get_raw_ptr rd (a + of_nat j) = get_raw_ptr rd (a + of_nat k)"
  have u: "unat (of_nat i :: u32) = i" "unat (of_nat i + 0x08000000 :: u32) = i + 0x08000000"
    if "i < 16" for i
  proof -
    show "unat (of_nat i :: u32) = i" using that by (simp add: unat_of_nat)
    then show "unat (of_nat i + 0x08000000 :: u32) = i + 0x08000000"
      using that by (subst unat_add_lem [THEN iffD1]) simp_all
  qed
  have far: "(of_nat i :: u32) \<noteq> of_nat l + 0x08000000" if "i < 16" "l < 16" for i l
  proof
    assume "(of_nat i :: u32) = of_nat l + 0x08000000"
    then have "i = l + 0x08000000" using u(1) [OF that(1)] u(2) [OF that(2)] by simp
    with that show False by simp
  qed
  have jk: "j < 16" "k < 16" using n j k by auto
  have "(of_nat j :: u32) = of_nat k"
    using raw_eq_cases [OF eq] far [OF jk] far [OF jk(2,1)]
    unfolding add.assoc add_left_cancel by blast
  then have "unat (of_nat j :: u32) = unat (of_nat k :: u32)" by (simp only:)
  then show "j = k" by (simp only: u(1) [OF jk(1)] u(1) [OF jk(2)])
qed

lemma raw_inj_small: "n \<le> 8 \<Longrightarrow> inj_on (\<lambda>j. get_raw_ptr rd (a + of_nat j)) {..<n}"
  by (rule raw_inj_window) simp

section \<open>The cache refines a flat memory\<close>

text \<open>What the CPU can do to the cache without losing data, as a list of operations;
  the abstract memory ignores everything but loads and stores.\<close>

datatype cm_op =
    Op_load nat u32
  | Op_store "u8 list" u32
  | Op_hit_wb u32
  | Op_hit_wb_inval u32
  | Op_index_wb_inval u32
  | Op_spec_fill u32

primrec cm_step :: "bool \<Rightarrow> bool \<Rightarrow> cm_op \<Rightarrow> cm_state \<Rightarrow> u8 list \<times> cm_state" where
  "cm_step rd sd (Op_load n pa) s = cload rd sd n pa s"
| "cm_step rd sd (Op_store bs pa) s = ([], cstore rd bs pa s)"
| "cm_step rd sd (Op_hit_wb pa) s = ([], hit_wb rd pa s)"
| "cm_step rd sd (Op_hit_wb_inval pa) s = ([], hit_wb_inval rd pa s)"
| "cm_step rd sd (Op_index_wb_inval pa) s = ([], index_wb_inval rd pa s)"
| "cm_step rd sd (Op_spec_fill pa) s = ([], spec_fill rd pa s)"

primrec flat_step :: "bool \<Rightarrow> cm_op \<Rightarrow> bytes \<Rightarrow> u8 list \<times> bytes" where
  "flat_step rd (Op_load n pa) m = (map (\<lambda>i. dram_rd rd m (pa + of_nat i)) [0..<n], m)"
| "flat_step rd (Op_store bs pa) m = ([], store_loop (dram_wr rd) bs pa m)"
| "flat_step rd (Op_hit_wb pa) m = ([], m)"
| "flat_step rd (Op_hit_wb_inval pa) m = ([], m)"
| "flat_step rd (Op_index_wb_inval pa) m = ([], m)"
| "flat_step rd (Op_spec_fill pa) m = ([], m)"

primrec run :: "('o \<Rightarrow> 's \<Rightarrow> u8 list \<times> 's) \<Rightarrow> 'o list \<Rightarrow> 's \<Rightarrow> u8 list list \<times> 's" where
  "run step [] s = ([], s)"
| "run step (x # xs) s = (let (r, s) = step x s; (rs, s) = run step xs s in (r # rs, s))"

definition cm_rel :: "bool \<Rightarrow> cm_state \<Rightarrow> bytes \<Rightarrow> bool" where
  "cm_rel rd s m \<longleftrightarrow> cm_inv rd s \<and> cm_view rd s = dram_rd rd m"

lemma cm_rel_stores:
  "cm_rel rd s m \<Longrightarrow> cm_rel rd (store_loop (cstore_byte rd) bs pa s) (store_loop (dram_wr rd) bs pa m)"
proof (induction bs arbitrary: pa s m)
  case Nil
  then show ?case by simp
next
  case (Cons b bs)
  have "cm_rel rd (cstore_byte rd pa b s) (dram_wr rd pa b m)"
    using Cons.prems
    by (auto simp: cm_rel_def cstore_byte_inv cstore_byte_view fun_eq_iff dram_rd_def dram_wr_def)
  then show ?case by (simp add: Cons.IH)
qed

lemma cm_step_sim:
  assumes "cm_rel rd s m"
  shows "fst (cm_step rd sd x s) = fst (flat_step rd x m)
    \<and> cm_rel rd (snd (cm_step rd sd x s)) (snd (flat_step rd x m))"
proof (cases x)
  case (Op_store bs pa)
  have "cm_rel rd (cstore rd bs pa s) (store_loop (dram_wr rd) bs pa m)"
    using cm_rel_stores [OF assms, of bs pa] cstore_inv [of rd s bs pa] assms
    by (simp add: cm_rel_def cstore_view)
  then show ?thesis by (simp add: Op_store)
qed (use assms in \<open>simp_all add: cm_rel_def cload_correct hit_wb_correct hit_wb_inval_correct
      index_wb_inval_correct spec_fill_correct\<close>)

lemma run_sim:
  "cm_rel rd s m \<Longrightarrow> fst (run (cm_step rd sd) ops s) = fst (run (flat_step rd) ops m)
    \<and> cm_rel rd (snd (run (cm_step rd sd) ops s)) (snd (run (flat_step rd) ops m))"
proof (induction ops arbitrary: s m)
  case Nil
  then show ?case by simp
next
  case (Cons x xs)
  obtain r s' where c: "cm_step rd sd x s = (r, s')" by (cases "cm_step rd sd x s")
  obtain r' m' where f: "flat_step rd x m = (r', m')" by (cases "flat_step rd x m")
  have "r = r'" "cm_rel rd s' m'"
    using cm_step_sim [OF Cons.prems, of sd x] by (simp_all add: c f)
  then show ?case
    using Cons.IH by (simp add: c f split_def Let_def)
qed

lemma cm_init_rel: "cm_rel rd (cache_model_init, m) m"
  by (simp add: cm_rel_def cm_inv_def cm_view_def holds_def cache_model_init_def cline_init_def
      fun_eq_iff)

section \<open>Properties\<close>

text \<open>C1.  A cold cache in front of any DRAM contents is indistinguishable from the
  flat memory: every sequence of cached loads, cached stores, write-backs,
  write-back-invalidates and speculative fills returns the values the flat
  memory returns, and leaves a view equal to that memory, whatever the low-memory
  alias makes of the addresses.\<close>

theorem cache_refines_flat_memory:
  "fst (run (cm_step rd sd) ops (cache_model_init, m)) = fst (run (flat_step rd) ops m) \<and>
   cm_view rd (snd (run (cm_step rd sd) ops (cache_model_init, m)))
     = dram_rd rd (snd (run (flat_step rd) ops m)) \<and>
   cm_inv rd (snd (run (cm_step rd sd) ops (cache_model_init, m)))"
  using run_sim [OF cm_init_rel] by (auto simp: cm_rel_def)

text \<open>Device reads: once the CPU has written back the line of an address with
  \<^verbatim>\<open>hit_wb\<close>, DRAM holds what the CPU sees in every byte of the line, provided the
  line is not cached under its other name.\<close>

theorem hit_wb_publishes_line:
  assumes "cm_inv rd (c, m)" "holds rd pa c \<Longrightarrow> hit pa c"
    and "get_raw_ptr rd (line_start x) = get_raw_ptr rd (line_start pa)"
  shows "dram_rd rd (snd (hit_wb rd pa (c, m))) x = cm_view rd (c, m) x"
proof (cases "hit pa c")
  case True
  have "set_of x = set_of pa" using assms(3) by (rule raw_line_set)
  with True show ?thesis
    using cleaned_at [OF assms(1), of pa x] by (simp add: hit_wb_def wb_parts(1))
next
  case False
  with assms have "\<not> holds rd x c"
    by (metis holds_def raw_line_set)
  with False show ?thesis by (simp add: hit_wb_def cm_view_def)
qed

theorem hit_wb_publishes_line_witness:
  "dram_rd True (snd (hit_wb True 0x1004 (cstore True [7] 0x1004 (cache_model_init, \<lambda>_. 0)))) 0x1004 = 7"
proof -
  let ?s = "cstore True [7] 0x1004 (cache_model_init, \<lambda>_. 0)"
  have i: "cm_inv True (fst ?s, snd ?s)"
    using cm_init_rel [of True "\<lambda>_. 0"] by (simp add: cstore_inv cm_rel_def)
  have h: "hit 0x1004 (fst ?s)"
    by (simp add: cstore_def cstore_byte_def fill_def hit_def Let_def set_line_def
        cache_model_init_def cline_init_def split_def)
  have "cm_view True (fst ?s, snd ?s) 0x1004 = 7"
    using cm_init_rel [of True "\<lambda>_. 0"]
    by (simp add: cstore_view cstore_byte_view cm_rel_def)
  then show ?thesis
    using hit_wb_publishes_line [OF i h refl, simplified] by simp
qed

text \<open>Device writes: DRAM bytes of a line that no cache line holds can be changed
  without breaking the invariant.\<close>

lemma dram_wr_inv:
  assumes "cm_inv rd (c, m)" "\<not> holds rd x c"
  shows "cm_inv rd (c, dram_wr rd x v m)"
proof -
  have "get_raw_ptr rd y \<noteq> get_raw_ptr rd x" if "holds rd y c" for y
    using that assms(2) raw_line_set [of rd y x] by (auto simp: raw_eq_iff [of rd y x] holds_def)
  then show ?thesis
    using assms(1) by (auto simp: cm_inv_def dram_rd_def dram_wr_def)
qed

lemma not_holds_after_inval:
  assumes "holds rd pa c \<Longrightarrow> hit pa c"
    and "get_raw_ptr rd (line_start x) = get_raw_ptr rd (line_start pa)"
  shows "\<not> holds rd x (fst (hit_inval pa (c, m)))"
proof -
  have "set_of x = set_of pa" using assms(2) by (rule raw_line_set)
  then show ?thesis
    using assms by (auto simp: hit_inval_def drop_line_def set_line_def holds_def held_line_def)
qed

text \<open>Device writes: after \<^verbatim>\<open>hit_inval\<close> on the line, a byte that DMA writes into
  DRAM is the byte the next cached load returns, the invariant holds, and no byte
  outside the line changes for the CPU.\<close>

theorem hit_inval_exposes_dma:
  assumes "cm_inv rd (c, m)" "holds rd pa c \<Longrightarrow> hit pa c"
    and line: "get_raw_ptr rd (line_start x) = get_raw_ptr rd (line_start pa)"
    and inval: "hit_inval pa (c, m) = (c', m')"
  shows "cm_inv rd (c', dram_wr rd x v m') \<and>
    fst (cload_byte rd sd x (c', dram_wr rd x v m')) = v \<and>
    (get_raw_ptr rd (line_start y) \<noteq> get_raw_ptr rd (line_start pa) \<longrightarrow>
      cm_view rd (c', dram_wr rd x v m') y = cm_view rd (c, m) y)"
proof (intro conjI impI)
  have nh: "\<not> holds rd x c'"
    using not_holds_after_inval [OF assms(2) line, of m] by (simp add: inval)
  have "cm_inv rd (c', m')"
    using assms(1) inval by (auto simp: hit_inval_def drop_line_inv split: if_splits)
  then show i: "cm_inv rd (c', dram_wr rd x v m')" using nh by (rule dram_wr_inv)
  have "cm_view rd (c', dram_wr rd x v m') x = v"
    using nh by (simp add: cm_view_def dram_rd_def dram_wr_def)
  then show "fst (cload_byte rd sd x (c', dram_wr rd x v m')) = v"
    by (simp only: cload_byte_correct(1) [OF i])
  assume y: "get_raw_ptr rd (line_start y) \<noteq> get_raw_ptr rd (line_start pa)"
  then have "get_raw_ptr rd y \<noteq> get_raw_ptr rd x" using line by (metis raw_eq_iff)
  then have "cm_view rd (c', dram_wr rd x v m') y = cm_view rd (c', m') y"
    by (simp add: cm_view_def dram_rd_def dram_wr_def)
  also have "\<dots> = cm_view rd (c, m) y"
    using inval y drop_line_view [of rd "set_of pa" c m y]
    by (auto simp: hit_inval_def cm_view_def hit_def holds_def held_line_def split: if_splits)
  finally show "cm_view rd (c', dram_wr rd x v m') y = cm_view rd (c, m) y" .
qed

theorem hit_inval_exposes_dma_witness:
  "fst (cload_byte True True 0x1004
     (fst (hit_inval 0x1004 (cstore True [7] 0x1004 (cache_model_init, \<lambda>_. 0))),
      dram_wr True 0x1004 9 (snd (hit_inval 0x1004 (cstore True [7] 0x1004 (cache_model_init, \<lambda>_. 0)))))) = 9"
proof -
  let ?s = "cstore True [7] 0x1004 (cache_model_init, \<lambda>_. 0)"
  have i: "cm_inv True (fst ?s, snd ?s)"
    using cm_init_rel [of True "\<lambda>_. 0"] by (simp add: cstore_inv cm_rel_def)
  have h: "hit 0x1004 (fst ?s)"
    by (simp add: cstore_def cstore_byte_def fill_def hit_def Let_def set_line_def
        cache_model_init_def cline_init_def split_def)
  show ?thesis
    using hit_inval_exposes_dma [OF i h refl, of "fst (hit_inval 0x1004 ?s)"
        "snd (hit_inval 0x1004 ?s)" 9 True 0]
    by simp
qed

end
