(* ===== verification/Bus.thy ===== *)
theory Bus
  imports Cache_Model
begin

text \<open>
  The memory system a CPU access reaches (src/sparse_mem.hh and the routing in
  src/sparse_mem.cc): the flat backing store, the optional write-back cache, and
  the memory-mapped devices.

  \<open>io\<close> gathers what a memory access may change: the \<^verbatim>\<open>sparse_mem\<close> object, the
  cache model, the device state \<open>dev\<close>, and the three flags of \<^verbatim>\<open>state_t\<close> that
  devices set (\<^verbatim>\<open>brk\<close>, \<^verbatim>\<open>irq_poke\<close>, \<^verbatim>\<open>gfx_next_icnt\<close>).  The devices are reached
  through the record \<open>dev_ops\<close>, one field per member function the CPU and the
  router call; a device sees the CPU only through \<open>dev_view\<close>, the instruction
  count and the Count register.

  Values are 64-bit words: an access of n bytes yields the n-byte object
  zero-extended, and a store takes the value converted to 64 bits.  Address
  arithmetic is modulo 2 to the 32, so that the bytes of an unaligned access at
  the very end of the 4 GB mapping wrap instead of leaving it.
\<close>

section \<open>State\<close>

record 'd io =
  mem :: bytes
  route_devices :: bool
  cache_active :: bool
  g_cmodel :: "cache_model option"
  g_stale_detect :: bool
  brk :: u8
  irq_poke :: bool
  gfx_next_icnt :: u64
  dev :: 'd

record dev_view =
  v_icnt :: u64
  v_count :: u32

record 'd dev_ops =
  has_np :: "'d \<Rightarrow> bool"
  has_hpc :: "'d \<Rightarrow> bool"
  has_scc :: "'d \<Rightarrow> bool"
  scc_read :: "u32 \<Rightarrow> 'd io \<Rightarrow> u8 \<times> 'd io"
  scc_write :: "u32 \<Rightarrow> u8 \<Rightarrow> 'd io \<Rightarrow> 'd io"
  scc_tick :: "u64 \<Rightarrow> 'd io \<Rightarrow> 'd io"
  np_read :: "dev_view \<Rightarrow> u32 \<Rightarrow> nat \<Rightarrow> 'd io \<Rightarrow> u64 \<times> 'd io"
  np_write :: "dev_view \<Rightarrow> u32 \<Rightarrow> u64 \<Rightarrow> nat \<Rightarrow> 'd io \<Rightarrow> 'd io"
  newport_retrace :: "dev_view \<Rightarrow> 'd io \<Rightarrow> 'd io"
  mc_read :: "dev_view \<Rightarrow> u32 \<Rightarrow> nat \<Rightarrow> 'd io \<Rightarrow> u32 \<times> 'd io"
  mc_write :: "dev_view \<Rightarrow> u32 \<Rightarrow> u32 \<Rightarrow> nat \<Rightarrow> 'd io \<Rightarrow> 'd io"
  hpc_read :: "dev_view \<Rightarrow> u32 \<Rightarrow> nat \<Rightarrow> 'd io \<Rightarrow> u32 \<times> 'd io"
  hpc_write :: "dev_view \<Rightarrow> u32 \<Rightarrow> u32 \<Rightarrow> nat \<Rightarrow> 'd io \<Rightarrow> 'd io"
  enet_poll :: "dev_view \<Rightarrow> 'd io \<Rightarrow> 'd io"
  ioc2_ip2_pending :: "'d io \<Rightarrow> bool"
  ioc2_ip3_pending :: "'d io \<Rightarrow> bool"

section \<open>Routing\<close>

definition SCC_BASE :: u32 where "SCC_BASE = 0x1fbd9830"
definition SCC_END :: u32 where "SCC_END = 0x1fbd983f"
definition NEWPORT_BASE :: u32 where "NEWPORT_BASE = 0x1f0f0000"
definition NEWPORT_SIZE :: u32 where "NEWPORT_SIZE = 0x2000"

text \<open>\<^verbatim>\<open>static_cast<T>\<close> of a device register to the n-byte access type.\<close>

definition as_size :: "nat \<Rightarrow> u64 \<Rightarrow> u64" where
  "as_size n v = take_bit (8 * n) v"

definition route_load :: "'d dev_ops \<Rightarrow> dev_view \<Rightarrow> nat \<Rightarrow> u32 \<Rightarrow> 'd io \<Rightarrow> u64 \<times> 'd io" where
  "route_load D vw n pa io0 =
     (if SCC_BASE \<le> pa \<and> pa \<le> SCC_END
      then (let (v, io1) = scc_read D (pa - SCC_BASE) io0 in (as_size n (ucast v), io1))
      else if has_np D (dev io0) \<and> NEWPORT_BASE \<le> pa \<and> pa < NEWPORT_BASE + NEWPORT_SIZE
      then (let (v, io1) = np_read D vw (pa - NEWPORT_BASE) n io0 in (as_size n v, io1))
      else case compute_mem_range_type pa of
        mc_regs \<Rightarrow> (let (v, io1) = mc_read D vw (pa AND 0x1ffff) n io0 in (as_size n (ucast v), io1))
      | hpc_regs \<Rightarrow> (let (v, io1) = hpc_read D vw (pa AND 0x7ffff) n io0 in (as_size n (ucast v), io1))
      | _ \<Rightarrow> (mem_load n (mem io0) pa, io0))"

definition route_store :: "'d dev_ops \<Rightarrow> dev_view \<Rightarrow> nat \<Rightarrow> u32 \<Rightarrow> u64 \<Rightarrow> 'd io \<Rightarrow> 'd io" where
  "route_store D vw n pa v io0 =
     (if SCC_BASE \<le> pa \<and> pa \<le> SCC_END then scc_write D (pa - SCC_BASE) (ucast v) io0
      else if has_np D (dev io0) \<and> NEWPORT_BASE \<le> pa \<and> pa < NEWPORT_BASE + NEWPORT_SIZE
      then np_write D vw (pa - NEWPORT_BASE) (as_size n v) n io0
      else case compute_mem_range_type pa of
        mc_regs \<Rightarrow> mc_write D vw (pa AND 0x1ffff) (ucast v) n io0
      | hpc_regs \<Rightarrow> hpc_write D vw (pa AND 0x7ffff) (ucast v) n io0
      | _ \<Rightarrow>
          (let io1 = (if pa AND NOT 0xfff = 0x1fd00000 \<and> as_size n v \<noteq> 0 then io0\<lparr>brk := 1\<rparr> else io0)
           in io1\<lparr>mem := mem_store n (mem io1) pa v\<rparr>))"

section \<open>CPU accesses\<close>

definition get_T :: "'d dev_ops \<Rightarrow> dev_view \<Rightarrow> nat \<Rightarrow> u32 \<Rightarrow> 'd io \<Rightarrow> u64 \<times> 'd io" where
  "get_T D vw n byte_addr io0 =
     (case (g_cmodel io0, cache_active io0) of
        (Some c, True) \<Rightarrow>
          (let (bs, (c', m')) = cload (route_devices io0) (g_stale_detect io0) n byte_addr (c, mem io0)
           in (le_val bs, io0\<lparr>g_cmodel := Some c', mem := m'\<rparr>))
      | _ \<Rightarrow>
          if route_devices io0
          then (if in_device_window byte_addr then route_load D vw n byte_addr io0
                else (mem_load n (mem io0) (mc_alias byte_addr), io0))
          else (mem_load n (mem io0) byte_addr, io0))"

definition set_T :: "'d dev_ops \<Rightarrow> dev_view \<Rightarrow> nat \<Rightarrow> u32 \<Rightarrow> u64 \<Rightarrow> 'd io \<Rightarrow> 'd io" where
  "set_T D vw n byte_addr v io0 =
     (case (g_cmodel io0, cache_active io0) of
        (Some c, True) \<Rightarrow>
          (let (c', m') = cstore (route_devices io0) (le_bytes n v) byte_addr (c, mem io0)
           in io0\<lparr>g_cmodel := Some c', mem := m'\<rparr>)
      | _ \<Rightarrow>
          if route_devices io0
          then (if in_device_window byte_addr then route_store D vw n byte_addr v io0
                else io0\<lparr>mem := mem_store n (mem io0) (mc_alias byte_addr) v\<rparr>)
          else io0\<lparr>mem := mem_store n (mem io0) byte_addr v\<rparr>)"

section \<open>A machine without devices\<close>

text \<open>The memory system before any device is attached, as the constructors leave it;
  it also serves the concrete runs of the witnesses.\<close>

definition no_devices :: "unit dev_ops" where
  "no_devices = \<lparr>has_np = (\<lambda>_. False), has_hpc = (\<lambda>_. False), has_scc = (\<lambda>_. False),
     scc_read = (\<lambda>_ s. (0, s)), scc_write = (\<lambda>_ _ s. s), scc_tick = (\<lambda>_ s. s),
     np_read = (\<lambda>_ _ _ s. (0, s)), np_write = (\<lambda>_ _ _ _ s. s), newport_retrace = (\<lambda>_ s. s),
     mc_read = (\<lambda>_ _ _ s. (0, s)), mc_write = (\<lambda>_ _ _ _ s. s),
     hpc_read = (\<lambda>_ _ _ s. (0, s)), hpc_write = (\<lambda>_ _ _ _ s. s), enet_poll = (\<lambda>_ s. s),
     ioc2_ip2_pending = (\<lambda>_. False), ioc2_ip3_pending = (\<lambda>_. False)\<rparr>"

definition io_init :: "'d \<Rightarrow> 'd io" where
  "io_init d = \<lparr>mem = sparse_mem_clear, route_devices = False, cache_active = False,
     g_cmodel = None, g_stale_detect = False, brk = 0, irq_poke = False,
     gfx_next_icnt = - 1, dev = d\<rparr>"

section \<open>Memory accesses that stay in memory\<close>

text \<open>An access that reaches no device: uncached outside the device window, or cached.\<close>

definition plain_access :: "u32 \<Rightarrow> 'd io \<Rightarrow> bool" where
  "plain_access a io0 \<longleftrightarrow>
     (g_cmodel io0 \<noteq> None \<and> cache_active io0) \<or> \<not> route_devices io0 \<or> \<not> in_device_window a"

text \<open>The cache invariant lifted to the memory system.\<close>

definition io_inv :: "'d io \<Rightarrow> bool" where
  "io_inv io0 = (case g_cmodel io0 of None \<Rightarrow> True | Some c \<Rightarrow> cm_inv (route_devices io0) (c, mem io0))"

section \<open>Lemmas\<close>

lemma get_T_uncached:
  "g_cmodel io0 = None \<or> \<not> cache_active io0 \<Longrightarrow> plain_access a io0 \<Longrightarrow>
   get_T D vw n a io0 = (mem_load n (mem io0) (get_raw_ptr (route_devices io0) a), io0)"
  by (auto simp: get_T_def plain_access_def get_raw_ptr_def split: option.split bool.split)

lemma set_T_uncached:
  "g_cmodel io0 = None \<or> \<not> cache_active io0 \<Longrightarrow> plain_access a io0 \<Longrightarrow>
   set_T D vw n a v io0 = io0\<lparr>mem := mem_store n (mem io0) (get_raw_ptr (route_devices io0) a) v\<rparr>"
  by (auto simp: set_T_def plain_access_def get_raw_ptr_def split: option.split bool.split)

lemma get_T_cached:
  "g_cmodel io0 = Some c \<Longrightarrow> cache_active io0 \<Longrightarrow>
   cload (route_devices io0) (g_stale_detect io0) n a (c, mem io0) = (bs, c', m') \<Longrightarrow>
   get_T D vw n a io0 = (le_val bs, io0\<lparr>g_cmodel := Some c', mem := m'\<rparr>)"
  by (simp add: get_T_def)

lemma set_T_cached:
  "g_cmodel io0 = Some c \<Longrightarrow> cache_active io0 \<Longrightarrow>
   cstore (route_devices io0) (le_bytes n v) a (c, mem io0) = (c', m') \<Longrightarrow>
   set_T D vw n a v io0 = io0\<lparr>g_cmodel := Some c', mem := m'\<rparr>"
  by (simp add: set_T_def)

lemma cload_after_cstore:
  assumes "cm_inv rd s" "n \<le> 8"
  shows "fst (cload rd sd n a (cstore rd (le_bytes n v) a s)) = le_bytes n v"
proof -
  have "fst (cload rd sd n a (cstore rd (le_bytes n v) a s)) =
      map (\<lambda>i. cm_view rd (store_loop (cstore_byte rd) (le_bytes n v) a s) (a + of_nat i)) [0..<n]"
    using cload_correct(1) [OF cstore_inv [OF assms(1)], of sd n a "le_bytes n v" a]
    by (simp add: cstore_view)
  also have "\<dots> = fst (load_loop (cload_byte rd sd) n a (store_loop (cstore_byte rd) (le_bytes n v) a s))"
    using cm.loads [OF cm.stores_inv [OF assms(1)]] by simp
  also have "\<dots> = le_bytes n v"
    using cm.load_after_store [OF assms(1), of a "le_bytes n v" sd] raw_inj_small [OF assms(2), of rd a]
    by simp
  finally show ?thesis .
qed

lemma set_T_io_inv:
  assumes "io_inv io0" "plain_access a io0" "g_cmodel io0 = None \<or> cache_active io0"
  shows "io_inv (set_T D vw n a v io0)"
proof (cases "g_cmodel io0")
  case None
  then show ?thesis using assms by (simp add: set_T_uncached io_inv_def)
next
  case (Some c)
  obtain c' m' where cs: "cstore (route_devices io0) (le_bytes n v) a (c, mem io0) = (c', m')"
    by (cases "cstore (route_devices io0) (le_bytes n v) a (c, mem io0)")
  have "cm_inv (route_devices io0) (c', m')"
    using cstore_inv [of "route_devices io0" "(c, mem io0)" "le_bytes n v" a] assms(1) Some
    by (simp add: cs io_inv_def)
  then show ?thesis
    using Some assms(3) by (simp add: set_T_cached [OF Some _ cs] io_inv_def)
qed

lemma get_after_set:
  assumes "n \<le> 8" "io_inv io0" "plain_access a io0"
  shows "fst (get_T D vw' n a (set_T D vw n a v io0)) = take_bit (8 * n) v"
proof (cases "g_cmodel io0 = None \<or> \<not> cache_active io0")
  case True
  have "plain_access a (set_T D vw n a v io0)"
    using assms(3) by (simp add: set_T_uncached [OF True] plain_access_def)
  with True assms show ?thesis
    by (simp add: set_T_uncached [OF True] get_T_uncached mem_load_store_same)
next
  case False
  then obtain c where c: "g_cmodel io0 = Some c" and act: "cache_active io0" by auto
  obtain c' m' where cs: "cstore (route_devices io0) (le_bytes n v) a (c, mem io0) = (c', m')"
    by (cases "cstore (route_devices io0) (le_bytes n v) a (c, mem io0)")
  obtain bs c2 m2 where cl: "cload (route_devices io0) (g_stale_detect io0) n a (c', m') = (bs, c2, m2)"
    by (cases "cload (route_devices io0) (g_stale_detect io0) n a (c', m')") auto
  have "bs = le_bytes n v"
    using cload_after_cstore [of "route_devices io0" "(c, mem io0)" n "g_stale_detect io0" a v] assms c
    by (simp add: cs cl io_inv_def)
  then show ?thesis
    by (simp add: set_T_cached [OF c act cs] get_T_cached [of _ c'] act cl le_val_le_bytes)
qed

text \<open>A CPU load returns the value of the CPU store before it to the same physical
  address, for every access size and every alignment, whether the access goes through the
  write-back cache or straight to memory, as long as it does not address a device.\<close>

theorem bus_load_after_store:
  assumes "n \<le> 8" "io_inv io0" "plain_access a io0"
  shows "fst (get_T D vw' n a (set_T D vw n a v io0)) = take_bit (8 * n) v"
  using assms by (rule get_after_set)

theorem bus_load_after_store_witness:
  "fst (get_T no_devices \<lparr>v_icnt = 0, v_count = 0\<rparr> 4 0x08001002
     (set_T no_devices \<lparr>v_icnt = 0, v_count = 0\<rparr> 4 0x08001002 0xdeadbeef
       ((io_init ())\<lparr>g_cmodel := Some cache_model_init, cache_active := True\<rparr>))) = 0xdeadbeef"
proof -
  have i: "io_inv ((io_init ())\<lparr>g_cmodel := Some cache_model_init, cache_active := True\<rparr>)"
    using cm_init_rel by (auto simp: io_inv_def io_init_def cm_rel_def)
  have p: "plain_access 0x08001002 ((io_init ())\<lparr>g_cmodel := Some cache_model_init, cache_active := True\<rparr>)"
    by (simp add: plain_access_def)
  show ?thesis
    using bus_load_after_store [OF _ i p, of 4 no_devices "\<lparr>v_icnt = 0, v_count = 0\<rparr>" "\<lparr>v_icnt = 0, v_count = 0\<rparr>" "0xdeadbeef"]
    by (simp add: take_bit_eq_mod)
qed

end
