(* ===== verification/Mips_State.thy ===== *)
theory Mips_State
  imports Bus
begin

text \<open>
  The architectural state of the simulated R4400 (\<^verbatim>\<open>state_t\<close> of src/interpret.hh)
  and the fields of an instruction word.  Register files are functions on 5-bit
  words, so an index is always in range as it is in the code, where every index
  is masked with 31.  \<open>g_utlb\<close> is the file-level micro-TLB of src/interpret.cc;
  \<open>sys\<close> is the memory system of the theory Bus; \<open>console_out\<close> is what the simulator's
  putchar port has printed, \<open>cw_matched\<close> the matcher state of \<^verbatim>\<open>console_watch\<close> and \<open>g_sctag\<close> the
  secondary-cache tags that the CACHE instruction emulates under \<^verbatim>\<open>SCSIZE\<close>.

  \<open>env\<close> holds what is fixed during a run: the command-line choice of the
  CPU, the environment overrides that \<^verbatim>\<open>initState\<close> reads, the device operations,
  and the floating-point primitives of SoftFloat and of the host, which are not
  part of the sources.  The knobs that change floating-point results (\<^verbatim>\<open>FP_DIVTRAP\<close>,
  \<^verbatim>\<open>FP_QNAN_TRAP\<close>, \<^verbatim>\<open>FP_HW_DENORM\<close>, \<^verbatim>\<open>FP_NODIVTRAP\<close>, \<^verbatim>\<open>FP_NATIVE\<close>) are fields too; the
  knobs that only log are off.
\<close>

section \<open>State\<close>

datatype fp_reg_state = fp_unknown | fp_sp | fp_dp

datatype fcr = CP1_CR0 | CP1_CR31 | CP1_CR25 | CP1_CR26 | CP1_CR28

record tlb_entry_t =
  entry_hi :: u64
  entry_lo0 :: u64
  entry_lo1 :: u64
  page_mask :: u32

record utlb_entry =
  u_vpn :: u64
  u_asid :: u64
  u_ppn :: u32
  u_dirty :: bool
  u_valid :: bool
  u_cached :: bool

record 'd state_t =
  pc :: u64
  gpr :: "5 word \<Rightarrow> u64"
  lo_reg :: u64
  hi_reg :: u64
  cpr0 :: "5 word \<Rightarrow> u32"
  cpr1 :: "5 word \<Rightarrow> u64"
  fcr1 :: "fcr \<Rightarrow> u32"
  icnt :: u64
  cpr1_state :: "5 word \<Rightarrow> fp_reg_state"
  tlb :: "nat \<Rightarrow> tlb_entry_t"
  cpr0_64 :: "5 word \<Rightarrow> u64"
  silent :: bool
  in_delay_slot :: bool
  ll_armed :: bool
  tlb_fault :: bool
  g_utlb :: "u64 \<Rightarrow> utlb_entry"
  console_out :: "u8 list"
  cw_matched :: nat
  g_sctag :: "u32 \<Rightarrow> u32 option"
  sys :: "'d io"

definition NUM_TLB_ENTRIES :: nat where "NUM_TLB_ENTRIES = 48"

section \<open>Environment\<close>

datatype fpOperation =
    fp_abs | fp_neg | fp_mov | fp_add | fp_sub | fp_mul | fp_div | fp_sqrt | fp_rsqrt | fp_recip

datatype fe_round = FE_TONEAREST | FE_TOWARDZERO | FE_UPWARD | FE_DOWNWARD

text \<open>SoftFloat arithmetic takes the rounding mode (\<^verbatim>\<open>softfloat_roundingMode\<close>) as an
  argument; host arithmetic and conversions work on the bit patterns.\<close>

record fp_ops =
  sf_f64 :: "fpOperation \<Rightarrow> u8 \<Rightarrow> u64 \<Rightarrow> u64 \<Rightarrow> u64"
  sf_f32 :: "fpOperation \<Rightarrow> u8 \<Rightarrow> u32 \<Rightarrow> u32 \<Rightarrow> u32"
  host_f64 :: "fpOperation \<Rightarrow> u64 \<Rightarrow> u64 \<Rightarrow> u64"
  host_f32 :: "fpOperation \<Rightarrow> u32 \<Rightarrow> u32 \<Rightarrow> u32"
  f32_of_f64 :: "u64 \<Rightarrow> u32"
  f64_of_f32 :: "u32 \<Rightarrow> u64"
  f32_of_i64 :: "int \<Rightarrow> u32"
  f64_of_i64 :: "int \<Rightarrow> u64"
  i64_of_f64 :: "u64 \<Rightarrow> u64"
  i32_of_f64 :: "u64 \<Rightarrow> u32"
  nearbyint :: "fe_round \<Rightarrow> u64 \<Rightarrow> u64"

record 'd env =
  cpu_r5000 :: bool
  g_fastdelay :: bool
  INT_POLL :: u64
  env_PRID :: "u32 option"
  env_CP0CONFIG :: "u32 option"
  env_SCSIZE :: "u32 option"
  env_SCLINE :: "u32 option"
  FP_DIVTRAP :: bool
  FP_QNAN_TRAP :: bool
  FP_HW_DENORM :: bool
  FP_NODIVTRAP :: bool
  FP_NATIVE :: bool
  devops :: "'d dev_ops"
  fpu :: fp_ops

text \<open>An R4400 without devices, for the concrete runs of the witnesses; its floating-point
  primitives return their first operand.\<close>

definition base_env :: "unit env" where
  "base_env = \<lparr>cpu_r5000 = False, g_fastdelay = False, INT_POLL = 1, env_PRID = None,
     env_CP0CONFIG = None, env_SCSIZE = None, env_SCLINE = None, FP_DIVTRAP = False, FP_QNAN_TRAP = False,
     FP_HW_DENORM = False, FP_NODIVTRAP = False, FP_NATIVE = False, devops = no_devices,
     fpu = \<lparr>sf_f64 = (\<lambda>_ _ a _. a), sf_f32 = (\<lambda>_ _ a _. a), host_f64 = (\<lambda>_ a _. a),
       host_f32 = (\<lambda>_ a _. a), f32_of_f64 = ucast, f64_of_f32 = ucast, f32_of_i64 = of_int,
       f64_of_i64 = of_int, i64_of_f64 = id, i32_of_f64 = ucast, nearbyint = (\<lambda>_ a. a)\<rparr>\<rparr>"

section \<open>Instruction fields\<close>

definition f_op :: "u32 \<Rightarrow> u32" where "f_op inst = drop_bit 26 inst"
definition f_rs :: "u32 \<Rightarrow> 5 word" where "f_rs inst = ucast (drop_bit 21 inst AND 31)"
definition f_rt :: "u32 \<Rightarrow> 5 word" where "f_rt inst = ucast (drop_bit 16 inst AND 31)"
definition f_rd :: "u32 \<Rightarrow> 5 word" where "f_rd inst = ucast (drop_bit 11 inst AND 31)"
definition f_sa :: "u32 \<Rightarrow> 5 word" where "f_sa inst = ucast (drop_bit 6 inst AND 31)"
definition f_funct :: "u32 \<Rightarrow> u32" where "f_funct inst = inst AND 63"

text \<open>\<^verbatim>\<open>int16_t himm = inst & 0xffff; int32_t imm = himm\<close>, as the 64-bit summand.\<close>

definition f_simm :: "u32 \<Rightarrow> u64" where "f_simm inst = scast (ucast inst :: u16)"
definition f_uimm :: "u32 \<Rightarrow> u64" where "f_uimm inst = ucast (inst AND 0xffff)"

section \<open>Status bits and CP0 register numbers\<close>

definition SR_IE :: u32 where "SR_IE = 0x1"
definition SR_EXL :: u32 where "SR_EXL = 0x2"
definition SR_ERL :: u32 where "SR_ERL = 0x4"
definition SR_UX :: u32 where "SR_UX = 0x20"
definition SR_SX :: u32 where "SR_SX = 0x40"
definition SR_KX :: u32 where "SR_KX = 0x80"
definition SR_BEV :: u32 where "SR_BEV = 0x400000"
definition SR_CU0 :: u32 where "SR_CU0 = 0x10000000"
definition SR_CU1 :: u32 where "SR_CU1 = 0x20000000"
definition SR_CU2 :: u32 where "SR_CU2 = 0x40000000"

abbreviation CPR0_INDEX :: "5 word" where "CPR0_INDEX \<equiv> 0"
abbreviation CPR0_RANDOM :: "5 word" where "CPR0_RANDOM \<equiv> 1"
abbreviation CPR0_ENTRYLO0 :: "5 word" where "CPR0_ENTRYLO0 \<equiv> 2"
abbreviation CPR0_ENTRYLO1 :: "5 word" where "CPR0_ENTRYLO1 \<equiv> 3"
abbreviation CPR0_CONTEXT :: "5 word" where "CPR0_CONTEXT \<equiv> 4"
abbreviation CPR0_PAGEMASK :: "5 word" where "CPR0_PAGEMASK \<equiv> 5"
abbreviation CPR0_WIRED :: "5 word" where "CPR0_WIRED \<equiv> 6"
abbreviation CPR0_BADVADDR :: "5 word" where "CPR0_BADVADDR \<equiv> 8"
abbreviation CPR0_COUNT :: "5 word" where "CPR0_COUNT \<equiv> 9"
abbreviation CPR0_ENTRYHI :: "5 word" where "CPR0_ENTRYHI \<equiv> 10"
abbreviation CPR0_COMPARE :: "5 word" where "CPR0_COMPARE \<equiv> 11"
abbreviation CPR0_SR :: "5 word" where "CPR0_SR \<equiv> 12"
abbreviation CPR0_CAUSE :: "5 word" where "CPR0_CAUSE \<equiv> 13"
abbreviation CPR0_EPC :: "5 word" where "CPR0_EPC \<equiv> 14"
abbreviation CPR0_PRID :: "5 word" where "CPR0_PRID \<equiv> 15"
abbreviation CPR0_CONFIG :: "5 word" where "CPR0_CONFIG \<equiv> 16"
abbreviation CPR0_XCONTEXT :: "5 word" where "CPR0_XCONTEXT \<equiv> 20"
abbreviation CPR0_ERROREPC :: "5 word" where "CPR0_ERROREPC \<equiv> 30"

lemmas sr_bits = SR_IE_def SR_EXL_def SR_ERL_def SR_UX_def SR_SX_def SR_KX_def SR_BEV_def
  SR_CU0_def SR_CU1_def SR_CU2_def

section \<open>Reading and writing registers\<close>

abbreviation gpr_of :: "'d state_t \<Rightarrow> 5 word \<Rightarrow> u64" where
  "gpr_of s r \<equiv> gpr s r"

definition set_gpr :: "5 word \<Rightarrow> u64 \<Rightarrow> 'd state_t \<Rightarrow> 'd state_t" where
  "set_gpr r v s = s\<lparr>gpr := (gpr s)(r := v)\<rparr>"

definition set_cpr0 :: "5 word \<Rightarrow> u32 \<Rightarrow> 'd state_t \<Rightarrow> 'd state_t" where
  "set_cpr0 r v s = s\<lparr>cpr0 := (cpr0 s)(r := v)\<rparr>"

definition set_cpr0_64 :: "5 word \<Rightarrow> u64 \<Rightarrow> 'd state_t \<Rightarrow> 'd state_t" where
  "set_cpr0_64 r v s = s\<lparr>cpr0_64 := (cpr0_64 s)(r := v)\<rparr>"

definition set_fcr1 :: "fcr \<Rightarrow> u32 \<Rightarrow> 'd state_t \<Rightarrow> 'd state_t" where
  "set_fcr1 r v s = s\<lparr>fcr1 := (fcr1 s)(r := v)\<rparr>"

definition pc4 :: "'d state_t \<Rightarrow> 'd state_t" where
  "pc4 s = s\<lparr>pc := pc s + 4\<rparr>"

lemmas reg_defs = set_gpr_def set_cpr0_def set_cpr0_64_def set_fcr1_def pc4_def

definition view_of :: "'d state_t \<Rightarrow> dev_view" where
  "view_of s = \<lparr>v_icnt = icnt s, v_count = cpr0 s CPR0_COUNT\<rparr>"

section \<open>Reset\<close>

definition PRID_VALUE :: u32 where "PRID_VALUE = 0x00000440"
definition PRID_R5000 :: u32 where "PRID_R5000 = 0x00002320"

text \<open>The value-initialised object, before \<^verbatim>\<open>initState\<close>.\<close>

definition state_zero :: "'d io \<Rightarrow> 'd state_t" where
  "state_zero io0 = \<lparr>pc = 0, gpr = (\<lambda>_. 0), lo_reg = 0, hi_reg = 0, cpr0 = (\<lambda>_. 0), cpr1 = (\<lambda>_. 0),
     fcr1 = (\<lambda>_. 0), icnt = 0, cpr1_state = (\<lambda>_. fp_unknown),
     tlb = (\<lambda>_. \<lparr>entry_hi = 0, entry_lo0 = 0, entry_lo1 = 0, page_mask = 0\<rparr>),
     cpr0_64 = (\<lambda>_. 0), silent = False, in_delay_slot = False, ll_armed = False, tlb_fault = False,
     g_utlb = (\<lambda>_. \<lparr>u_vpn = 0, u_asid = 0, u_ppn = 0, u_dirty = False, u_valid = False, u_cached = False\<rparr>),
     console_out = [], cw_matched = 0, g_sctag = (\<lambda>_. None), sys = io0\<rparr>"

definition config_value :: "'d env \<Rightarrow> u32" where
  "config_value E =
     (let cv = (case env_CP0CONFIG E of Some v \<Rightarrow> v
                | None \<Rightarrow> if cpu_r5000 E then 0x0002e6f3 else 0x0002e4b3)
      in if env_SCSIZE E \<noteq> None
         then (let ln = (case env_SCLINE E of Some l \<Rightarrow> l | None \<Rightarrow> 16);
                   sb = (if 128 \<le> ln then 3 else if 64 \<le> ln then 2 else if 32 \<le> ln then 1 else 0)
               in (cv AND NOT (push_bit 17 1 OR push_bit 22 3)) OR push_bit 22 sb)
         else cv)"

definition initState :: "'d env \<Rightarrow> 'd state_t \<Rightarrow> 'd state_t" where
  "initState E s0 =
     (let s1 = set_cpr0 CPR0_SR (cpr0 s0 CPR0_SR OR (SR_ERL OR SR_BEV OR SR_CU0 OR SR_CU2)) s0;
          s2 = set_cpr0 CPR0_RANDOM (of_nat (NUM_TLB_ENTRIES - 1)) s1;
          pv = (case env_PRID E of Some v \<Rightarrow> v
                | None \<Rightarrow> if cpu_r5000 E then PRID_R5000 else PRID_VALUE);
          s3 = set_cpr0_64 CPR0_PRID (ucast pv) (set_cpr0 CPR0_PRID pv s2);
          cv = config_value E
      in set_cpr0_64 CPR0_CONFIG (ucast cv) (set_cpr0 CPR0_CONFIG cv s3))"

section \<open>Host stops\<close>

text \<open>The ways the simulator process itself ends inside an instruction: \<^verbatim>\<open>exit(-1)\<close>,
  a failed \<^verbatim>\<open>assert\<close>, an undefined host operation (integer division),
  \<^verbatim>\<open>__builtin_unreachable\<close>, and a chain of branches in delay slots deeper than the given bound.\<close>

datatype host_stop = Exit_unhandled | Assert_failed | Host_division | Unreachable | Delay_slot_depth

type_synonym 'd result = "host_stop + 'd state_t"

definition on_next :: "'d result \<Rightarrow> ('d state_t \<Rightarrow> 'd result) \<Rightarrow> 'd result" where
  "on_next r f = (case r of Inl e \<Rightarrow> Inl e | Inr s \<Rightarrow> f s)"

lemma on_next_simps [simp]: "on_next (Inl e) f = Inl e" "on_next (Inr s) f = f s"
  by (simp_all add: on_next_def)

lemma on_next_Inr: "on_next r f = Inr t \<longleftrightarrow> (\<exists>s. r = Inr s \<and> f s = Inr t)"
  by (cases r) simp_all

end
