(* ===== verification/Exceptions.thy ===== *)
theory Exceptions
  imports Mips_State
begin

text \<open>
  Exception entry, interrupt delivery and the operating-mode tests of
  src/interpret.cc: \<^verbatim>\<open>set_exc_pc\<close>, \<^verbatim>\<open>exc_vector\<close>, \<^verbatim>\<open>raise_common\<close> and the functions
  built on them, \<^verbatim>\<open>maybe_take_interrupt\<close>, \<^verbatim>\<open>in_64b_mode\<close>.

  The locale \<open>exc_entry\<close> is the contract every exception raiser keeps; its
  interpretations cover each raiser of the file.
\<close>

section \<open>Entry\<close>

definition exl :: "'d state_t \<Rightarrow> bool" where
  "exl s \<longleftrightarrow> flag (cpr0 s CPR0_SR) SR_EXL"

definition erl :: "'d state_t \<Rightarrow> bool" where
  "erl s \<longleftrightarrow> flag (cpr0 s CPR0_SR) SR_ERL"

definition IP7 :: u32 where "IP7 = push_bit 15 1"
definition BD :: u32 where "BD = push_bit 31 1"

definition set_exc_pc :: "'d state_t \<Rightarrow> 'd state_t" where
  "set_exc_pc s =
     (if exl s then s
      else if in_delay_slot s
      then set_cpr0 CPR0_CAUSE (cpr0 s CPR0_CAUSE OR BD)
            (set_cpr0_64 CPR0_EPC (pc s - 4) (set_cpr0 CPR0_EPC (ucast (pc s - 4)) s))
      else set_cpr0 CPR0_CAUSE (cpr0 s CPR0_CAUSE AND NOT BD)
            (set_cpr0_64 CPR0_EPC (pc s) (set_cpr0 CPR0_EPC (ucast (pc s)) s)))"

definition exc_vector :: "u32 \<Rightarrow> bool \<Rightarrow> bool \<Rightarrow> bool \<Rightarrow> u32" where
  "exc_vector sr is_refill exl_was_set is_xtlb =
     (let base = (if flag sr SR_BEV then 0xBFC00200 else 0x80000000);
          offset = (if is_refill \<and> \<not> exl_was_set then (if is_xtlb then 0x080 else 0x000) else 0x180)
      in base + offset)"

text \<open>The writes of Cause.ExcCode and of Status every exception makes.\<close>

definition EXC_MASK :: u32 where "EXC_MASK = push_bit 2 0x1f"
definition CE_MASK :: u32 where "CE_MASK = push_bit 28 0x3"

definition with_exccode :: "u32 \<Rightarrow> u32 \<Rightarrow> u32" where
  "with_exccode code cause = (cause AND NOT EXC_MASK) OR push_bit 2 code"

definition enter_sr :: "u32 \<Rightarrow> u32" where
  "enter_sr sr = (sr AND NOT SR_ERL) OR SR_EXL"

definition raise_common :: "u32 \<Rightarrow> 'd state_t \<Rightarrow> 'd state_t" where
  "raise_common code s0 =
     (let exl_was_set = exl s0;
          s1 = set_cpr0 CPR0_CAUSE (with_exccode code (cpr0 s0 CPR0_CAUSE)) s0;
          s2 = set_cpr0 CPR0_SR (enter_sr (cpr0 s1 CPR0_SR)) s1;
          s3 = s2\<lparr>ll_armed := False\<rparr>
      in s3\<lparr>pc := sext32 (exc_vector (cpr0 s3 CPR0_SR) False exl_was_set False)\<rparr>)"

definition raise_adel :: "'d state_t \<Rightarrow> 'd state_t" where
  "raise_adel s = raise_common 4 (set_exc_pc s)"

definition raise_ades :: "'d state_t \<Rightarrow> 'd state_t" where
  "raise_ades s = raise_common 5 (set_exc_pc s)"

definition take_exception_ri :: "'d state_t \<Rightarrow> 'd state_t" where
  "take_exception_ri s = raise_common 10 (set_exc_pc s)"

definition take_exception_cpu :: "u32 \<Rightarrow> 'd state_t \<Rightarrow> 'd state_t" where
  "take_exception_cpu ce s0 =
     (let s1 = set_exc_pc s0;
          exl_was_set = exl s1;
          s2 = set_cpr0 CPR0_CAUSE
                 ((cpr0 s1 CPR0_CAUSE AND NOT EXC_MASK AND NOT CE_MASK)
                   OR push_bit 2 11 OR push_bit 28 (ce AND 0x3)) s1;
          s3 = (set_cpr0 CPR0_SR (enter_sr (cpr0 s2 CPR0_SR)) s2)\<lparr>ll_armed := False\<rparr>
      in s3\<lparr>pc := sext32 (exc_vector (cpr0 s3 CPR0_SR) False exl_was_set False)\<rparr>)"

definition take_exception_fpe :: "'d state_t \<Rightarrow> 'd state_t" where
  "take_exception_fpe s0 =
     (let s1 = set_exc_pc s0;
          exl_was_set = exl s1;
          s2 = set_cpr0 CPR0_CAUSE (with_exccode 15 (cpr0 s1 CPR0_CAUSE)) s1;
          s3 = set_cpr0 CPR0_SR (enter_sr (cpr0 s2 CPR0_SR)) s2;
          s4 = (set_fcr1 CP1_CR31 (fcr1 s3 CP1_CR31 OR push_bit 17 1) s3)\<lparr>ll_armed := False\<rparr>
      in s4\<lparr>pc := sext32 (exc_vector (cpr0 s4 CPR0_SR) False exl_was_set False)\<rparr>)"

text \<open>\<^verbatim>\<open>raise_ri\<close> prints a diagnostic and raises Reserved Instruction.\<close>

definition raise_ri :: "'d state_t \<Rightarrow> 'd state_t" where
  "raise_ri s = take_exception_ri s"

definition raise_overflow :: "'d state_t \<Rightarrow> 'd state_t" where
  "raise_overflow s = raise_common 12 (set_exc_pc s)"

definition raise_trap :: "'d state_t \<Rightarrow> 'd state_t" where
  "raise_trap s = raise_common 13 (set_exc_pc s)"

definition raise_syscall :: "'d state_t \<Rightarrow> 'd state_t" where
  "raise_syscall s = raise_common 8 (set_exc_pc s)"

definition raise_break :: "'d state_t \<Rightarrow> 'd state_t" where
  "raise_break s = raise_common 9 (set_exc_pc s)"

text \<open>\<^verbatim>\<open>raise_int\<close>, the interrupt entry used by the co-simulation harness.\<close>

definition raise_int :: "u32 \<Rightarrow> 'd state_t \<Rightarrow> 'd state_t" where
  "raise_int epc s0 =
     (let s1 = set_cpr0 CPR0_EPC epc s0;
          s2 = set_cpr0 CPR0_CAUSE IP7 s1;
          s3 = set_cpr0 CPR0_SR (enter_sr (cpr0 s2 CPR0_SR)) s2
      in s3\<lparr>pc := sext32 0xBFC00180\<rparr>)"

section \<open>Modes\<close>

definition in_64b_mode :: "'d state_t \<Rightarrow> bool" where
  "in_64b_mode s =
     (let sr = cpr0 s CPR0_SR;
          ksu = drop_bit 3 sr AND 3;
          kernel = (ksu = 0 \<or> exl s \<or> erl s);
          user = (ksu = 2 \<and> \<not> exl s \<and> \<not> erl s);
          super = (ksu = 1 \<and> \<not> exl s \<and> \<not> erl s)
      in kernel \<or> (user \<and> flag sr SR_UX) \<or> (super \<and> flag sr SR_SX))"

definition is_64b_gated :: "u32 \<Rightarrow> bool" where
  "is_64b_gated inst =
     (if f_op inst = 0x19 then True
      else if f_op inst \<noteq> 0 then False
      else f_funct inst \<in> {0x14, 0x16, 0x17, 0x1c, 0x1d, 0x1e, 0x1f, 0x2c, 0x2d, 0x2e, 0x2f,
                           0x38, 0x3a, 0x3b})"

section \<open>Timer and interrupts\<close>

definition timer_tick :: "'d state_t \<Rightarrow> 'd state_t" where
  "timer_tick s0 =
     (let s1 = set_cpr0 CPR0_COUNT (cpr0 s0 CPR0_COUNT + 1) s0
      in if cpr0 s1 CPR0_COUNT = cpr0 s1 CPR0_COMPARE
         then set_cpr0 CPR0_CAUSE (cpr0 s1 CPR0_CAUSE OR IP7) s1 else s1)"

definition set_ip :: "nat \<Rightarrow> bool \<Rightarrow> 'd state_t \<Rightarrow> 'd state_t" where
  "set_ip b p s =
     set_cpr0 CPR0_CAUSE
       (if p then cpr0 s CPR0_CAUSE OR push_bit b 1 else cpr0 s CPR0_CAUSE AND NOT (push_bit b 1)) s"

definition interrupt_enabled :: "'d state_t \<Rightarrow> bool" where
  "interrupt_enabled s \<longleftrightarrow>
     flag (cpr0 s CPR0_SR) SR_IE \<and> \<not> flag (cpr0 s CPR0_SR) (SR_EXL OR SR_ERL) \<and>
     (cpr0 s CPR0_CAUSE AND cpr0 s CPR0_SR) AND 0xff00 \<noteq> 0"

definition maybe_take_interrupt :: "'d env \<Rightarrow> 'd state_t \<Rightarrow> 'd state_t" where
  "maybe_take_interrupt E s0 =
     (let D = devops E;
          s1 = (if has_scc D (dev (sys s0)) then s0\<lparr>sys := scc_tick D 1 (sys s0)\<rparr> else s0);
          s2 = (if gfx_next_icnt (sys s1) \<le> icnt s1
                then s1\<lparr>sys := newport_retrace D (view_of s1) (sys s1)\<rparr> else s1);
          s3 = timer_tick s2
      in if \<not> irq_poke (sys s3) \<and> icnt s3 AND (INT_POLL E - 1) \<noteq> 0 then s3
         else
           let s4 = s3\<lparr>sys := (sys s3)\<lparr>irq_poke := False\<rparr>\<rparr>;
               s5 = (if has_hpc D (dev (sys s4))
                     then s4\<lparr>sys := enet_poll D (view_of s4) (sys s4)\<rparr> else s4);
               s6 = set_ip 10 (has_hpc D (dev (sys s5)) \<and> ioc2_ip2_pending D (sys s5)) s5;
               s7 = (if has_np D (dev (sys s6))
                     then set_ip 11 (has_hpc D (dev (sys s6)) \<and> ioc2_ip3_pending D (sys s6)) s6
                     else s6)
           in if interrupt_enabled s7 then raise_common 0 (set_exc_pc s7) else s7)"

lemmas exc_raisers [exc_defs] = raise_adel_def raise_ades_def take_exception_ri_def
  take_exception_cpu_def take_exception_fpe_def raise_ri_def raise_overflow_def raise_trap_def
  raise_syscall_def raise_break_def raise_common_def set_exc_pc_def reg_defs

section \<open>Status and Cause fields\<close>

definition bev :: "'d state_t \<Rightarrow> bool" where
  "bev s \<longleftrightarrow> flag (cpr0 s CPR0_SR) SR_BEV"

definition general_vector :: "'d state_t \<Rightarrow> u64" where
  "general_vector s = (if bev s then 0xFFFFFFFFBFC00380 else 0xFFFFFFFF80000180)"

lemma bit_sr:
  "bit SR_IE n \<longleftrightarrow> n = 0" "bit SR_EXL n \<longleftrightarrow> n = 1" "bit SR_ERL n \<longleftrightarrow> n = 2"
  "bit SR_UX n \<longleftrightarrow> n = 5" "bit SR_SX n \<longleftrightarrow> n = 6" "bit SR_BEV n \<longleftrightarrow> n = 22" "bit SR_CU1 n \<longleftrightarrow> n = 29"
  by (rule bit_of_exp; simp add: sr_bits)+

lemma flag_bits:
  "flag x SR_IE \<longleftrightarrow> bit x 0" "flag x SR_EXL \<longleftrightarrow> bit x 1" "flag x SR_ERL \<longleftrightarrow> bit x 2"
  "flag x SR_BEV \<longleftrightarrow> bit x 22" "flag x SR_CU1 \<longleftrightarrow> bit x 29"
  using flag_single_bit [of x 0] flag_single_bit [of x 1] flag_single_bit [of x 2]
    flag_single_bit [of x 22] flag_single_bit [of x 29]
  by (simp_all add: sr_bits)

lemma bit_enter_sr:
  "bit (enter_sr sr) n \<longleftrightarrow> n = 1 \<or> n \<noteq> 2 \<and> bit sr n"
  by (auto simp: enter_sr_def bit_simps bit_sr dest: bit_imp_le_length)

lemma bit_exc_mask: "bit EXC_MASK n \<longleftrightarrow> 2 \<le> n \<and> n < 7"
  by (subst bit_of_field [of _ 2 5]) (auto simp: EXC_MASK_def mask_eq_exp_minus_1)

lemma bit_ce_mask: "bit CE_MASK n \<longleftrightarrow> 28 \<le> n \<and> n < 30"
  by (subst bit_of_field [of _ 28 2]) (auto simp: CE_MASK_def mask_eq_exp_minus_1)

lemma bit_with_exccode:
  "bit (with_exccode code cause) n \<longleftrightarrow>
     n < 32 \<and> (2 \<le> n \<and> bit code (n - 2) \<or> \<not> (2 \<le> n \<and> n < 7) \<and> bit cause n)"
  by (auto simp: with_exccode_def bit_simps bit_exc_mask dest: bit_imp_le_length)

lemma mask5: "(0x1f :: u32) = mask 5"
  by (simp add: mask_numeral)

lemma small_code: "code AND 0x1f = code \<Longrightarrow> bit code n \<Longrightarrow> n < 5" for code :: u32
  unfolding mask5 by (metis bit_and_iff bit_mask_iff)

lemma exccode_with_exccode:
  assumes "code AND 0x1f = code"
  shows "drop_bit 2 (with_exccode code cause) AND 0x1f = code"
  unfolding mask5
  by (rule bit_word_eqI) (auto simp: bit_with_exccode bit_simps dest: small_code [OF assms])

lemma sext32_vectors:
  "sext32 0x80000180 = 0xFFFFFFFF80000180" "sext32 0xBFC00380 = 0xFFFFFFFFBFC00380"
  "sext32 0x80000000 = 0xFFFFFFFF80000000" "sext32 0x80000080 = 0xFFFFFFFF80000080"
  "sext32 0xBFC00200 = 0xFFFFFFFFBFC00200" "sext32 0xBFC00280 = 0xFFFFFFFFBFC00280"
  by (simp_all add: sext32_def)

lemma vector_general:
  "sext32 (exc_vector (enter_sr (cpr0 s CPR0_SR)) False b x) = general_vector s"
  by (simp add: exc_vector_def general_vector_def bev_def flag_bits bit_enter_sr sext32_vectors)

section \<open>The contract of an exception raiser\<close>

locale exc_entry =
  fixes raise :: "'d state_t \<Rightarrow> 'd state_t" and code :: u32
  assumes epc: "\<not> exl s \<Longrightarrow> cpr0_64 (raise s) CPR0_EPC = (if in_delay_slot s then pc s - 4 else pc s)"
    and epc32: "\<not> exl s \<Longrightarrow> cpr0 (raise s) CPR0_EPC = ucast (if in_delay_slot s then pc s - 4 else pc s)"
    and bd: "\<not> exl s \<Longrightarrow> bit (cpr0 (raise s) CPR0_CAUSE) 31 = in_delay_slot s"
    and nested_epc: "exl s \<Longrightarrow> cpr0_64 (raise s) CPR0_EPC = cpr0_64 s CPR0_EPC \<and>
          cpr0 (raise s) CPR0_EPC = cpr0 s CPR0_EPC"
    and nested_bd: "exl s \<Longrightarrow> bit (cpr0 (raise s) CPR0_CAUSE) 31 = bit (cpr0 s CPR0_CAUSE) 31"
    and exccode: "drop_bit 2 (cpr0 (raise s) CPR0_CAUSE) AND 0x1f = code"
    and sr: "cpr0 (raise s) CPR0_SR = enter_sr (cpr0 s CPR0_SR)"
    and vector: "pc (raise s) = general_vector s"
    and ll: "\<not> ll_armed (raise s)"
    and frame: "gpr (raise s) = gpr s" "tlb (raise s) = tlb s" "g_utlb (raise s) = g_utlb s"
          "sys (raise s) = sys s" "hi_reg (raise s) = hi_reg s" "lo_reg (raise s) = lo_reg s"
          "in_delay_slot (raise s) = in_delay_slot s" "cpr1 (raise s) = cpr1 s"
    and frame0: "r \<notin> {CPR0_EPC, CPR0_CAUSE, CPR0_SR} \<Longrightarrow> cpr0 (raise s) r = cpr0 s r"
          "r \<noteq> CPR0_EPC \<Longrightarrow> cpr0_64 (raise s) r = cpr0_64 s r"
begin

lemma enters_kernel: "exl (raise s)" "\<not> erl (raise s)"
  by (simp_all add: exl_def erl_def sr flag_bits bit_enter_sr)

lemma in_64b: "in_64b_mode (raise s)"
  using enters_kernel by (simp add: in_64b_mode_def Let_def)

lemma no_interrupt: "\<not> interrupt_enabled (raise s)"
  using enters_kernel(1)
  by (auto simp: interrupt_enabled_def exl_def flag_bits bit_simps bit_sr intro: bit_flagI [of _ 1])

text \<open>A second exception before the handler has saved the first one keeps the first
  one's return address.\<close>

lemma nested_keeps_epc:
  "cpr0_64 (raise (raise s)) CPR0_EPC = cpr0_64 (raise s) CPR0_EPC"
  using nested_epc [OF enters_kernel(1)] by blast

end

section \<open>The raisers keep the contract\<close>

lemma bit_BD: "bit BD n \<longleftrightarrow> n = 31"
  by (rule bit_of_exp) (simp_all add: BD_def)

lemma bit_IP7: "bit IP7 n \<longleftrightarrow> n = 15"
  by (rule bit_of_exp) (simp_all add: IP7_def)

lemma set_exc_pc_parts:
  "\<not> exl s \<Longrightarrow> cpr0_64 (set_exc_pc s) CPR0_EPC = (if in_delay_slot s then pc s - 4 else pc s)"
  "\<not> exl s \<Longrightarrow> cpr0 (set_exc_pc s) CPR0_EPC = ucast (if in_delay_slot s then pc s - 4 else pc s)"
  "\<not> exl s \<Longrightarrow> bit (cpr0 (set_exc_pc s) CPR0_CAUSE) 31 = in_delay_slot s"
  "exl s \<Longrightarrow> set_exc_pc s = s"
  "cpr0 (set_exc_pc s) CPR0_SR = cpr0 s CPR0_SR"
  by (simp_all add: set_exc_pc_def reg_defs bit_simps bit_BD)

lemma set_exc_pc_frame [simp]:
  "gpr (set_exc_pc s) = gpr s" "tlb (set_exc_pc s) = tlb s" "g_utlb (set_exc_pc s) = g_utlb s"
  "sys (set_exc_pc s) = sys s" "hi_reg (set_exc_pc s) = hi_reg s" "lo_reg (set_exc_pc s) = lo_reg s"
  "in_delay_slot (set_exc_pc s) = in_delay_slot s" "cpr1 (set_exc_pc s) = cpr1 s"
  "fcr1 (set_exc_pc s) = fcr1 s" "pc (set_exc_pc s) = pc s" "icnt (set_exc_pc s) = icnt s"
  "tlb_fault (set_exc_pc s) = tlb_fault s" "ll_armed (set_exc_pc s) = ll_armed s"
  "exl (set_exc_pc s) = exl s"
  by (simp_all add: set_exc_pc_def reg_defs exl_def)

lemma set_exc_pc_frame0:
  "r \<notin> {CPR0_EPC, CPR0_CAUSE} \<Longrightarrow> cpr0 (set_exc_pc s) r = cpr0 s r"
  "r \<noteq> CPR0_EPC \<Longrightarrow> cpr0_64 (set_exc_pc s) r = cpr0_64 s r"
  by (auto simp: set_exc_pc_def reg_defs)

lemma raise_common_parts:
  "cpr0 (raise_common code s) CPR0_CAUSE = with_exccode code (cpr0 s CPR0_CAUSE)"
  "cpr0 (raise_common code s) CPR0_SR = enter_sr (cpr0 s CPR0_SR)"
  "r \<notin> {CPR0_CAUSE, CPR0_SR} \<Longrightarrow> cpr0 (raise_common code s) r = cpr0 s r"
  "pc (raise_common code s) = general_vector s"
  "\<not> ll_armed (raise_common code s)"
  using vector_general [of s]
  by (simp_all add: raise_common_def Let_def reg_defs)

lemma raise_common_frame [simp]:
  "gpr (raise_common code s) = gpr s" "tlb (raise_common code s) = tlb s"
  "g_utlb (raise_common code s) = g_utlb s" "sys (raise_common code s) = sys s"
  "hi_reg (raise_common code s) = hi_reg s" "lo_reg (raise_common code s) = lo_reg s"
  "in_delay_slot (raise_common code s) = in_delay_slot s" "cpr1 (raise_common code s) = cpr1 s"
  "cpr0_64 (raise_common code s) = cpr0_64 s" "tlb_fault (raise_common code s) = tlb_fault s"
  "fcr1 (raise_common code s) = fcr1 s" "icnt (raise_common code s) = icnt s"
  by (simp_all add: raise_common_def Let_def reg_defs)

lemma general_vector_exc_pc [simp]: "general_vector (set_exc_pc s) = general_vector s"
  by (simp add: general_vector_def bev_def set_exc_pc_parts)

lemma common_entry:
  assumes "code AND 0x1f = code"
  shows "exc_entry (\<lambda>s. raise_common code (set_exc_pc s)) code"
  using small_code [OF assms, of 29]
  by unfold_locales
    (auto simp: raise_common_parts set_exc_pc_parts set_exc_pc_frame0 bit_with_exccode
      exccode_with_exccode [OF assms])

lemmas raisers_ext = raise_adel_def [abs_def] raise_ades_def [abs_def] take_exception_ri_def [abs_def]
  raise_ri_def [abs_def] raise_overflow_def [abs_def] raise_trap_def [abs_def]
  raise_syscall_def [abs_def] raise_break_def [abs_def]

interpretation adel: exc_entry raise_adel 4 unfolding raisers_ext by (rule common_entry) simp
interpretation ades: exc_entry raise_ades 5 unfolding raisers_ext by (rule common_entry) simp
interpretation ri: exc_entry take_exception_ri 10 unfolding raisers_ext by (rule common_entry) simp
interpretation rsvd: exc_entry raise_ri 10 unfolding raisers_ext by (rule common_entry) simp
interpretation ovf: exc_entry raise_overflow 12 unfolding raisers_ext by (rule common_entry) simp
interpretation trap: exc_entry raise_trap 13 unfolding raisers_ext by (rule common_entry) simp
interpretation sysc: exc_entry raise_syscall 8 unfolding raisers_ext by (rule common_entry) simp
interpretation brkp: exc_entry raise_break 9 unfolding raisers_ext by (rule common_entry) simp

text \<open>Coprocessor Unusable also writes Cause.CE, FP exceptions also set FCSR.E.\<close>

definition with_ce :: "u32 \<Rightarrow> u32 \<Rightarrow> u32" where
  "with_ce ce cause = (cause AND NOT CE_MASK) OR push_bit 28 (ce AND 0x3)"

lemma bit_with_ce:
  "bit (with_ce ce cause) n \<longleftrightarrow> n < 32 \<and>
     (28 \<le> n \<and> n < 30 \<and> bit ce (n - 28) \<or> \<not> (28 \<le> n \<and> n < 30) \<and> bit cause n)"
proof -
  have "(0x3 :: u32) = mask 2" by (simp add: mask_eq_exp_minus_1)
  then have "with_ce ce cause = (cause AND NOT CE_MASK) OR push_bit 28 (ce AND mask 2)"
    by (simp only: with_ce_def)
  then show ?thesis
    by (auto simp: bit_simps bit_ce_mask dest: bit_imp_le_length)
qed

lemma cpu_cause_alt:
  "(cause AND NOT EXC_MASK AND NOT CE_MASK) OR push_bit 2 11 OR push_bit 28 (ce AND 0x3)
     = with_exccode 11 (with_ce ce cause)"
proof (rule bit_word_eqI)
  fix n
  have m: "(0x3 :: u32) = mask 2" by (simp add: mask_eq_exp_minus_1)
  show "bit ((cause AND NOT EXC_MASK AND NOT CE_MASK) OR push_bit 2 11 OR push_bit 28 (ce AND 0x3)) n
      \<longleftrightarrow> bit (with_exccode 11 (with_ce ce cause)) n"
    unfolding m
    by (simp only: bit_with_exccode bit_with_ce bit_and_iff bit_or_iff bit_not_iff bit_push_bit_iff
        bit_mask_iff bit_exc_mask bit_ce_mask) (auto dest: bit_imp_le_length)
qed

lemma take_exception_cpu_alt:
  "take_exception_cpu ce s =
     raise_common 11 (set_cpr0 CPR0_CAUSE (with_ce ce (cpr0 (set_exc_pc s) CPR0_CAUSE)) (set_exc_pc s))"
  unfolding take_exception_cpu_def raise_common_def Let_def cpu_cause_alt
  by (simp add: reg_defs exl_def set_exc_pc_parts)

lemma take_exception_fpe_alt:
  "take_exception_fpe s = set_fcr1 CP1_CR31 (fcr1 s CP1_CR31 OR push_bit 17 1) (raise_common 15 (set_exc_pc s))"
  by (simp add: take_exception_fpe_def raise_common_def Let_def reg_defs)

interpretation cpun: exc_entry "take_exception_cpu ce" 11 for ce
  by unfold_locales
    (auto simp: take_exception_cpu_alt raise_common_parts set_exc_pc_parts set_exc_pc_frame0 set_cpr0_def
      bit_with_exccode bit_with_ce exccode_with_exccode general_vector_def bev_def
      dest: small_code [of 11, simplified])

interpretation fpe: exc_entry take_exception_fpe 15
proof -
  have c: "exc_entry (\<lambda>s. raise_common 15 (set_exc_pc s)) 15" by (rule common_entry) simp
  show "exc_entry take_exception_fpe 15"
    using c by (simp add: exc_entry_def take_exception_fpe_alt set_fcr1_def)
qed

end
