(* ===== verification/Interrupts.thy ===== *)
theory Interrupts
  imports Exceptions
begin

text \<open>
  Properties of interrupt delivery, and the list of the synchronous exceptions with
  their codes, each of which keeps the contract \<open>exc_entry\<close>.
\<close>

section \<open>Polling\<close>

text \<open>The state \<^verbatim>\<open>maybe_take_interrupt\<close> reaches just before it decides.\<close>

definition devices_ticked :: "'d env \<Rightarrow> 'd state_t \<Rightarrow> 'd state_t" where
  "devices_ticked E s0 =
     (let D = devops E;
          s1 = (if has_scc D (dev (sys s0)) then s0\<lparr>sys := scc_tick D 1 (sys s0)\<rparr> else s0)
      in if gfx_next_icnt (sys s1) \<le> icnt s1
         then s1\<lparr>sys := newport_retrace D (view_of s1) (sys s1)\<rparr> else s1)"

definition polled :: "'d env \<Rightarrow> 'd state_t \<Rightarrow> 'd state_t" where
  "polled E s3 =
     (let D = devops E;
          s4 = s3\<lparr>sys := (sys s3)\<lparr>irq_poke := False\<rparr>\<rparr>;
          s5 = (if has_hpc D (dev (sys s4))
                then s4\<lparr>sys := enet_poll D (view_of s4) (sys s4)\<rparr> else s4);
          s6 = set_ip 10 (has_hpc D (dev (sys s5)) \<and> ioc2_ip2_pending D (sys s5)) s5
      in if has_np D (dev (sys s6))
         then set_ip 11 (has_hpc D (dev (sys s6)) \<and> ioc2_ip3_pending D (sys s6)) s6
         else s6)"

definition poll_due :: "'d env \<Rightarrow> 'd state_t \<Rightarrow> bool" where
  "poll_due E s \<longleftrightarrow> irq_poke (sys s) \<or> icnt s AND (INT_POLL E - 1) = 0"

lemma maybe_take_interrupt_alt:
  "maybe_take_interrupt E s =
     (let t = timer_tick (devices_ticked E s)
      in if \<not> poll_due E t then t
         else if interrupt_enabled (polled E t) then raise_common 0 (set_exc_pc (polled E t))
         else polled E t)"
  unfolding maybe_take_interrupt_def devices_ticked_def polled_def poll_due_def Let_def
  by (simp only: de_Morgan_disj if_cancel)

lemma devices_ticked_frame [simp]:
  "pc (devices_ticked E s) = pc s" "gpr (devices_ticked E s) = gpr s" "cpr0 (devices_ticked E s) = cpr0 s"
  "cpr0_64 (devices_ticked E s) = cpr0_64 s" "tlb (devices_ticked E s) = tlb s"
  "g_utlb (devices_ticked E s) = g_utlb s" "in_delay_slot (devices_ticked E s) = in_delay_slot s"
  "icnt (devices_ticked E s) = icnt s" "ll_armed (devices_ticked E s) = ll_armed s"
  by (simp_all add: devices_ticked_def Let_def)

lemma timer_tick_frame [simp]:
  "pc (timer_tick s) = pc s" "gpr (timer_tick s) = gpr s" "cpr0_64 (timer_tick s) = cpr0_64 s"
  "tlb (timer_tick s) = tlb s" "g_utlb (timer_tick s) = g_utlb s" "sys (timer_tick s) = sys s"
  "in_delay_slot (timer_tick s) = in_delay_slot s" "icnt (timer_tick s) = icnt s"
  "ll_armed (timer_tick s) = ll_armed s"
  by (simp_all add: timer_tick_def Let_def reg_defs)

lemma polled_frame [simp]:
  "pc (polled E s) = pc s" "gpr (polled E s) = gpr s" "cpr0_64 (polled E s) = cpr0_64 s"
  "tlb (polled E s) = tlb s" "g_utlb (polled E s) = g_utlb s"
  "in_delay_slot (polled E s) = in_delay_slot s" "icnt (polled E s) = icnt s"
  "ll_armed (polled E s) = ll_armed s"
  by (simp_all add: polled_def set_ip_def Let_def reg_defs)

lemma tick_poll_cpr0:
  "r \<noteq> CPR0_CAUSE \<Longrightarrow> cpr0 (polled E s) r = cpr0 s r"
  "r \<notin> {CPR0_COUNT, CPR0_CAUSE} \<Longrightarrow> cpr0 (timer_tick s) r = cpr0 s r"
  "cpr0 (timer_tick s) CPR0_COUNT = cpr0 s CPR0_COUNT + 1"
  by (simp_all add: polled_def timer_tick_def set_ip_def Let_def reg_defs)

text \<open>Polling drives IP2 and IP3 only; every other Cause bit is kept.\<close>

lemma set_ip_cause_bit:
  "b < 32 \<Longrightarrow> bit (cpr0 (set_ip b p s) CPR0_CAUSE) n = (if n = b then p else bit (cpr0 s CPR0_CAUSE) n)"
  by (auto simp: set_ip_def reg_defs bit_simps dest: bit_imp_le_length)

lemma polled_cause_bit:
  "n \<notin> {10, 11} \<Longrightarrow> bit (cpr0 (polled E s) CPR0_CAUSE) n = bit (cpr0 s CPR0_CAUSE) n"
  by (simp add: polled_def Let_def set_ip_cause_bit)

lemma timer_tick_cause_bit:
  "bit (cpr0 (timer_tick s) CPR0_CAUSE) n \<longleftrightarrow>
     bit (cpr0 s CPR0_CAUSE) n \<or> n = 15 \<and> cpr0 s CPR0_COUNT + 1 = cpr0 s CPR0_COMPARE"
  by (auto simp: timer_tick_def Let_def reg_defs bit_simps bit_IP7)

lemma interrupt_enabled_alt:
  "interrupt_enabled s \<longleftrightarrow> bit (cpr0 s CPR0_SR) 0 \<and> \<not> exl s \<and> \<not> erl s \<and>
     (\<exists>n. 8 \<le> n \<and> n < 16 \<and> bit (cpr0 s CPR0_CAUSE) n \<and> bit (cpr0 s CPR0_SR) n)"
proof -
  have m: "(0xff00 :: u32) = push_bit 8 (mask 8)" by (simp add: mask_eq_exp_minus_1)
  have nz: "w \<noteq> 0 \<longleftrightarrow> (\<exists>n. n < 32 \<and> bit w n)" for w :: u32
    by (auto simp: bit_eq_iff dest: bit_imp_le_length)
  have a: "(cpr0 s CPR0_CAUSE AND cpr0 s CPR0_SR) AND 0xff00 \<noteq> 0 \<longleftrightarrow>
      (\<exists>n. 8 \<le> n \<and> n < 16 \<and> bit (cpr0 s CPR0_CAUSE) n \<and> bit (cpr0 s CPR0_SR) n)"
    unfolding nz m
    by (intro arg_cong [where f = Ex] ext) (auto simp: bit_simps)
  have "flag (cpr0 s CPR0_SR) (SR_EXL OR SR_ERL) \<longleftrightarrow> exl s \<or> erl s"
    unfolding flag_def nz exl_def erl_def by (simp only: bit_and_iff bit_or_iff bit_sr) blast
  then show ?thesis
    unfolding interrupt_enabled_def a flag_bits by blast
qed

interpretation intr: exc_entry "\<lambda>s. raise_common 0 (set_exc_pc s)" 0
  by (rule common_entry) simp

text \<open>An interrupt line that is sampled high while Status enables it is delivered in the same step.\<close>

lemma sampled_delivered:
  assumes "INT_POLL E = 1" "bit (cpr0 s CPR0_SR) 0" "\<not> exl s" "\<not> erl s" "\<not> in_delay_slot s"
    and "8 \<le> n" "n < 16" "bit (cpr0 s CPR0_SR) n"
    and "bit (cpr0 (polled E (timer_tick (devices_ticked E s))) CPR0_CAUSE) n"
  shows "pc (maybe_take_interrupt E s) = general_vector s \<and>
    cpr0_64 (maybe_take_interrupt E s) CPR0_EPC = pc s \<and>
    drop_bit 2 (cpr0 (maybe_take_interrupt E s) CPR0_CAUSE) AND 0x1f = 0 \<and>
    bit (cpr0 (maybe_take_interrupt E s) CPR0_CAUSE) n \<and>
    exl (maybe_take_interrupt E s) \<and> \<not> ll_armed (maybe_take_interrupt E s) \<and>
    sys (maybe_take_interrupt E s) = sys (polled E (timer_tick (devices_ticked E s)))"
proof -
  let ?p = "polled E (timer_tick (devices_ticked E s))"
  have due: "poll_due E t" for t :: "'a state_t" by (simp add: poll_due_def assms(1))
  have sr: "cpr0 ?p CPR0_SR = cpr0 s CPR0_SR" by (simp add: tick_poll_cpr0)
  have ex: "\<not> exl ?p" "\<not> erl ?p" using assms(3,4) by (simp_all add: exl_def erl_def sr)
  have en: "interrupt_enabled ?p"
    using assms(2,6-9) ex by (auto simp: interrupt_enabled_alt sr)
  have eq: "maybe_take_interrupt E s = raise_common 0 (set_exc_pc ?p)"
    by (simp add: maybe_take_interrupt_alt Let_def due en)
  have "general_vector ?p = general_vector s" by (simp add: general_vector_def bev_def sr)
  moreover have "bit (cpr0 (raise_common 0 (set_exc_pc ?p)) CPR0_CAUSE) n"
    using assms(5-9) ex(1)
    by (simp add: raise_common_parts bit_with_exccode set_exc_pc_def reg_defs bit_simps bit_BD)
  ultimately show ?thesis
    using intr.epc [OF ex(1)] intr.vector [of ?p] intr.exccode [of ?p] intr.enters_kernel(1) [of ?p]
      intr.ll [of ?p] assms(5) intr.frame(4) [of ?p]
    by (simp add: eq)
qed

section \<open>Properties\<close>

text \<open>The synchronous exceptions the instructions raise, with their ExcCode; \<open>ce\<close> is the
  coprocessor number of Coprocessor Unusable.\<close>

definition raisers :: "u32 \<Rightarrow> (('d state_t \<Rightarrow> 'd state_t) \<times> u32) list" where
  "raisers ce =
     [(raise_adel, 4), (raise_ades, 5), (raise_syscall, 8), (raise_break, 9), (raise_ri, 10),
      (take_exception_ri, 10), (take_exception_cpu ce, 11), (raise_overflow, 12), (raise_trap, 13),
      (take_exception_fpe, 15)]"

lemma raisers_entry: "(raise, code) \<in> set (raisers ce) \<Longrightarrow> exc_entry raise code"
  unfolding raisers_def
  using adel.exc_entry_axioms ades.exc_entry_axioms sysc.exc_entry_axioms brkp.exc_entry_axioms
    rsvd.exc_entry_axioms ri.exc_entry_axioms cpun.exc_entry_axioms ovf.exc_entry_axioms
    trap.exc_entry_axioms fpe.exc_entry_axioms
  by auto

text \<open>Whatever the devices do, after \<^verbatim>\<open>maybe_take_interrupt\<close> has polled them no
  interrupt that Status enables is left pending and undelivered.\<close>

theorem no_interrupt_left_pending:
  assumes "INT_POLL E = 1"
  shows "\<not> interrupt_enabled (maybe_take_interrupt E s)"
proof -
  have due: "poll_due E t" for t :: "'a state_t" by (simp add: poll_due_def assms)
  show ?thesis
    by (simp add: maybe_take_interrupt_alt Let_def due intr.no_interrupt)
qed

theorem no_interrupt_left_pending_witness:
  "\<not> interrupt_enabled (maybe_take_interrupt base_env
      ((state_zero (io_init ()))\<lparr>cpr0 := (\<lambda>_. 0)(CPR0_SR := 0x8001, CPR0_COMPARE := 1)\<rparr>))"
  by (rule no_interrupt_left_pending) (simp add: base_env_def)

text \<open>While interrupts are disabled, or an exception or error level is active, the
  program counter, Status, EPC and the general registers are left alone: only Count, the
  pending bits of Cause and the devices move.\<close>

theorem interrupts_masked:
  assumes "\<not> (bit (cpr0 s CPR0_SR) 0 \<and> \<not> exl s \<and> \<not> erl s)"
  shows "pc (maybe_take_interrupt E s) = pc s \<and> gpr (maybe_take_interrupt E s) = gpr s \<and>
    cpr0_64 (maybe_take_interrupt E s) = cpr0_64 s \<and>
    cpr0 (maybe_take_interrupt E s) CPR0_COUNT = cpr0 s CPR0_COUNT + 1 \<and>
    (\<forall>r. r \<notin> {CPR0_COUNT, CPR0_CAUSE} \<longrightarrow> cpr0 (maybe_take_interrupt E s) r = cpr0 s r)"
proof -
  let ?t = "timer_tick (devices_ticked E s)"
  have "\<not> interrupt_enabled (polled E ?t)"
    using assms by (auto simp: interrupt_enabled_alt exl_def erl_def tick_poll_cpr0)
  then show ?thesis
    by (auto simp: maybe_take_interrupt_alt Let_def tick_poll_cpr0)
qed

theorem interrupts_masked_witness:
  "pc (maybe_take_interrupt base_env
      ((state_zero (io_init ()))\<lparr>cpr0 := (\<lambda>_. 0)(CPR0_SR := 0x8002, CPR0_COMPARE := 1)\<rparr>)) = 0"
  by (simp add: interrupts_masked state_zero_def exl_def flag_def SR_EXL_def)

text \<open>The timer interrupt: when Count reaches Compare with interrupts enabled and the
  timer unmasked, the very same step delivers it.  EPC is the interrupted instruction,
  ExcCode is 0, the timer bit is pending and execution continues at the general vector with
  EXL set.\<close>

theorem timer_interrupt_delivered:
  assumes "INT_POLL E = 1" "bit (cpr0 s CPR0_SR) 0" "\<not> exl s" "\<not> erl s" "bit (cpr0 s CPR0_SR) 15"
    and "cpr0 s CPR0_COUNT + 1 = cpr0 s CPR0_COMPARE" "\<not> in_delay_slot s"
  shows "pc (maybe_take_interrupt E s) = general_vector s \<and>
    cpr0_64 (maybe_take_interrupt E s) CPR0_EPC = pc s \<and>
    drop_bit 2 (cpr0 (maybe_take_interrupt E s) CPR0_CAUSE) AND 0x1f = 0 \<and>
    bit (cpr0 (maybe_take_interrupt E s) CPR0_CAUSE) 15 \<and>
    exl (maybe_take_interrupt E s) \<and> \<not> ll_armed (maybe_take_interrupt E s)"
proof -
  have "bit (cpr0 (polled E (timer_tick (devices_ticked E s))) CPR0_CAUSE) 15"
    using assms(6) by (simp add: polled_cause_bit timer_tick_cause_bit)
  from sampled_delivered [OF assms(1-4,7) _ _ assms(5) this] show ?thesis by simp
qed

theorem timer_interrupt_delivered_witness:
  "pc (maybe_take_interrupt base_env
      ((state_zero (io_init ()))\<lparr>cpr0 := (\<lambda>_. 0)(CPR0_SR := 0x8001, CPR0_COMPARE := 1)\<rparr>)) = 0xFFFFFFFF80000180"
proof -
  let ?s = "(state_zero (io_init ()))\<lparr>cpr0 := (\<lambda>_. 0)(CPR0_SR := 0x8001, CPR0_COMPARE := 1)\<rparr>"
  have "\<not> exl ?s" "\<not> erl ?s" "general_vector ?s = 0xFFFFFFFF80000180" "\<not> in_delay_slot ?s"
    by (simp_all add: exl_def erl_def general_vector_def bev_def flag_def sr_bits state_zero_def)
  then show ?thesis
    by (subst timer_interrupt_delivered [THEN conjunct1]) (simp_all add: base_env_def)
qed

end
