(* ===== verification/TLB.thy ===== *)
theory TLB
  imports Interrupts
begin

text \<open>
  Address translation (src/interpret.cc): the 48-entry TLB, the direct-mapped
  micro-TLB in front of it, the TLB exceptions, and the TLB instructions that
  \<^verbatim>\<open>execMips\<close> executes in place.

  The lemmas show that the micro-TLB never changes what a translation returns
  or which exception it raises: the locale \<open>lookaside\<close> is the contract of such
  a table (a flush empties it, a fill adds one pair and may drop others), its
  client lemmas keep a table sound for the function it caches, and the
  micro-TLB interprets it.  The last section states exception entry for all synchronous
  exceptions, the TLB exceptions included.
\<close>

section \<open>CP0 staging registers\<close>

definition cp0_write_mask :: "5 word \<Rightarrow> u64 \<Rightarrow> u64" where
  "cp0_write_mask rd v =
     (if rd = CPR0_ENTRYHI
      then (v AND 0xc000000000000000) OR (v AND 0x000000ffffffe000) OR (v AND 0x00000000000000ff)
      else if rd = CPR0_PAGEMASK then v AND 0x0000000001ffe000
      else if rd = CPR0_ENTRYLO0 \<or> rd = CPR0_ENTRYLO1 then v AND 0x000000003fffffff
      else v)"

definition tlb_set_fault_state :: "u64 \<Rightarrow> 'd state_t \<Rightarrow> 'd state_t" where
  "tlb_set_fault_state va s0 =
     (let s1 = set_cpr0_64 CPR0_BADVADDR va (set_cpr0 CPR0_BADVADDR (ucast va) s0);
          r = drop_bit 62 va AND 0x3;
          vpn2 = drop_bit 13 va AND 0x7ffffff;
          asid = cpr0_64 s1 CPR0_ENTRYHI AND 0xff;
          ehi = push_bit 62 r OR push_bit 13 vpn2 OR asid;
          s2 = set_cpr0 CPR0_ENTRYHI (ucast ehi) (set_cpr0_64 CPR0_ENTRYHI ehi s1);
          ctx = (cpr0_64 s2 CPR0_CONTEXT AND NOT 0x7fffff) OR push_bit 4 (drop_bit 13 va AND 0x7ffff);
          s3 = set_cpr0 CPR0_CONTEXT (ucast ctx) (set_cpr0_64 CPR0_CONTEXT ctx s2);
          xctx = (cpr0_64 s3 CPR0_XCONTEXT AND NOT 0x1ffffffff)
                   OR push_bit 4 (drop_bit 13 va AND 0x7ffffff) OR push_bit 31 r
      in set_cpr0 CPR0_XCONTEXT (ucast xctx) (set_cpr0_64 CPR0_XCONTEXT xctx s3))"

definition raise_tlb :: "u64 \<Rightarrow> u32 \<Rightarrow> bool \<Rightarrow> bool \<Rightarrow> 'd state_t \<Rightarrow> 'd state_t" where
  "raise_tlb va exccode is_refill is_xtlb s0 =
     (let exl_was_set = exl s0;
          s1 = set_exc_pc (tlb_set_fault_state va s0);
          s2 = set_cpr0 CPR0_CAUSE (with_exccode exccode (cpr0 s1 CPR0_CAUSE)) s1;
          s3 = set_cpr0 CPR0_SR (enter_sr (cpr0 s2 CPR0_SR)) s2
      in s3\<lparr>pc := sext32 (exc_vector (cpr0 s3 CPR0_SR) (is_refill \<and> \<not> exl_was_set) exl_was_set is_xtlb),
            tlb_fault := True\<rparr>)"

section \<open>Micro-TLB\<close>

definition UTLB_SZ :: u64 where "UTLB_SZ = 64"

type_synonym utlb = "u64 \<Rightarrow> utlb_entry"

definition utlb_flush :: "utlb \<Rightarrow> utlb" where
  "utlb_flush t = (\<lambda>i. (t i)\<lparr>u_valid := False\<rparr>)"

definition utlb_slot :: "u64 \<Rightarrow> u64" where
  "utlb_slot vpn = vpn AND (UTLB_SZ - 1)"

definition utlb_probe :: "utlb \<Rightarrow> u64 \<times> u64 \<Rightarrow> (u32 \<times> bool \<times> bool) option" where
  "utlb_probe t = (\<lambda>(vpn, asid).
     let ce = t (utlb_slot vpn) in
     if u_valid ce \<and> u_vpn ce = vpn \<and> u_asid ce = asid
     then Some (u_ppn ce, u_dirty ce, u_cached ce) else None)"

definition utlb_fill :: "u64 \<times> u64 \<Rightarrow> u32 \<times> bool \<times> bool \<Rightarrow> utlb \<Rightarrow> utlb" where
  "utlb_fill = (\<lambda>(vpn, asid) (ppn, d, c) t.
     t(utlb_slot vpn := \<lparr>u_vpn = vpn, u_asid = asid, u_ppn = ppn, u_dirty = d, u_valid = True,
        u_cached = c\<rparr>))"

section \<open>The TLB proper\<close>

datatype tlb_op = op_fetch | op_load | op_store

definition entry_pm :: "tlb_entry_t \<Rightarrow> u64" where
  "entry_pm e = ucast (page_mask e) AND 0x1ffe000"

definition entry_global :: "tlb_entry_t \<Rightarrow> bool" where
  "entry_global e \<longleftrightarrow> flag (entry_lo0 e) 1 \<and> flag (entry_lo1 e) 1"

definition tlb_match :: "u64 \<Rightarrow> u64 \<Rightarrow> tlb_entry_t \<Rightarrow> bool" where
  "tlb_match va cur_asid e =
     (let pm = entry_pm e;
          vpnMask = NOT (pm OR 0x1fff) AND 0x000000ffffffe000;
          e_hi = entry_hi e
      in va AND vpnMask = e_hi AND vpnMask \<and> drop_bit 62 va AND 0x3 = drop_bit 62 e_hi AND 0x3 \<and>
         (entry_global e \<or> cur_asid = e_hi AND 0xff))"

definition pair_mask :: "tlb_entry_t \<Rightarrow> u64" where
  "pair_mask e = entry_pm e OR 0x1fff"

definition off_mask :: "tlb_entry_t \<Rightarrow> u64" where
  "off_mask e = drop_bit 1 (pair_mask e)"

definition sel_bit :: "tlb_entry_t \<Rightarrow> u64" where
  "sel_bit e = drop_bit 1 (pair_mask e + 1)"

definition entry_lo_of :: "u64 \<Rightarrow> tlb_entry_t \<Rightarrow> u64" where
  "entry_lo_of va e = (if va AND sel_bit e \<noteq> 0 then entry_lo1 e else entry_lo0 e)"

definition entry_pa :: "u64 \<Rightarrow> tlb_entry_t \<Rightarrow> u64" where
  "entry_pa va e =
     push_bit 12 (drop_bit 6 (entry_lo_of va e) AND 0xfffffff) OR (va AND off_mask e)"

definition tlb_search :: "(u64 \<Rightarrow> u64 \<Rightarrow> tlb_entry_t \<Rightarrow> bool) \<Rightarrow> u64 \<Rightarrow> u64 \<Rightarrow> (nat \<Rightarrow> tlb_entry_t) \<Rightarrow> nat option" where
  "tlb_search m va asid t = find (\<lambda>i. m va asid (t i)) [0..<NUM_TLB_ENTRIES]"

definition set_cache_active :: "bool \<Rightarrow> 'd state_t \<Rightarrow> 'd state_t" where
  "set_cache_active b s = s\<lparr>sys := (sys s)\<lparr>cache_active := b\<rparr>\<rparr>"

definition cur_asid_of :: "'d state_t \<Rightarrow> u64" where
  "cur_asid_of s = cpr0_64 s CPR0_ENTRYHI AND 0xff"

definition compat_va :: "u64 \<Rightarrow> bool" where
  "compat_va va \<longleftrightarrow> (ucast (drop_bit 32 va) :: u32) = 0x00000000 \<or> (ucast (drop_bit 32 va) :: u32) = 0xffffffff"

text \<open>The segments that bypass the TLB: kseg0, kseg1 and xkphys.\<close>

definition unmapped_pa :: "u64 \<Rightarrow> u32 option" where
  "unmapped_pa va =
     (let lo32 = (ucast va :: u32) in
      if compat_va va
      then (if drop_bit 29 lo32 = 0x4 \<or> drop_bit 29 lo32 = 0x5 then Some (lo32 AND 0x1fffffff) else None)
      else if drop_bit 62 va AND 0x3 = 0x2 then Some (ucast (va AND 0xffffffffff)) else None)"

definition in_kseg0 :: "u64 \<Rightarrow> bool" where
  "in_kseg0 va \<longleftrightarrow> compat_va va \<and> drop_bit 29 (ucast va :: u32) = 0x4"

text \<open>The CAM part of \<^verbatim>\<open>va_translate_inner\<close>, after the micro-TLB has missed.\<close>

definition va_translate_cam :: "u64 \<Rightarrow> tlb_op \<Rightarrow> 'd state_t \<Rightarrow> u32 \<times> 'd state_t" where
  "va_translate_cam va op s =
     (let xtlb = \<not> compat_va va;
          cur_asid = cur_asid_of s;
          code = (if op = op_store then 3 else 2)
      in case tlb_search tlb_match va cur_asid (tlb s) of
           None \<Rightarrow> (0, raise_tlb va code True xtlb s)
         | Some i \<Rightarrow>
             let e = tlb s i; e_lo = entry_lo_of va e in
             if \<not> flag e_lo 0x2 then (0, raise_tlb va code False xtlb s)
             else if op = op_store \<and> \<not> flag e_lo 0x4 then (0, raise_tlb va 1 False xtlb s)
             else
               let pa = entry_pa va e;
                   cca_cached = (drop_bit 3 e_lo AND 7 = 3);
                   s1 = s\<lparr>g_utlb := utlb_fill (drop_bit 12 va, cur_asid)
                            (ucast (drop_bit 12 pa), flag e_lo 0x4, cca_cached) (g_utlb s)\<rparr>;
                   s2 = (if cca_cached \<and> op \<noteq> op_fetch then set_cache_active True s1 else s1)
               in (ucast pa, s2))"

definition va_translate :: "u64 \<Rightarrow> tlb_op \<Rightarrow> 'd state_t \<Rightarrow> u32 \<times> 'd state_t" where
  "va_translate va op s0 =
     (let s = set_cache_active False s0 in
      case unmapped_pa va of
        Some pa \<Rightarrow>
          (pa, if in_kseg0 va \<and> op \<noteq> op_fetch then set_cache_active True s else s)
      | None \<Rightarrow>
          (case utlb_probe (g_utlb s) (drop_bit 12 va, cur_asid_of s) of
             Some (ppn, d, c) \<Rightarrow>
               if \<not> (op = op_store \<and> \<not> d)
               then (push_bit 12 ppn OR ucast (va AND 0xfff),
                     if c \<and> op \<noteq> op_fetch then set_cache_active True s else s)
               else va_translate_cam va op s
           | None \<Rightarrow> va_translate_cam va op s))"

section \<open>The debugger's probe\<close>

definition probe_match :: "u64 \<Rightarrow> u64 \<Rightarrow> tlb_entry_t \<Rightarrow> bool" where
  "probe_match va cur_asid e =
     (let wide = \<not> compat_va va;
          cmp_mask = (if wide then NOT 0x3 else 0xffffffff);
          m = NOT (entry_pm e OR 0x1fff) AND cmp_mask;
          e_hi = entry_hi e
      in va AND m = e_hi AND m \<and> (wide \<longrightarrow> drop_bit 62 va AND 0x3 = drop_bit 62 e_hi AND 0x3) \<and>
         (entry_global e \<or> cur_asid = e_hi AND 0xff))"

definition tlb_probe_ro :: "u64 \<Rightarrow> 'd state_t \<Rightarrow> u32 option" where
  "tlb_probe_ro va s =
     (case unmapped_pa va of
        Some pa \<Rightarrow> Some pa
      | None \<Rightarrow>
          (case tlb_search probe_match va (cur_asid_of s) (tlb s) of
             None \<Rightarrow> None
           | Some i \<Rightarrow>
               if \<not> flag (entry_lo_of va (tlb s i)) 0x2 then None
               else Some (ucast (entry_pa va (tlb s i)))))"

section \<open>TLB instructions\<close>

definition valid_page_mask :: "u32 \<Rightarrow> bool" where
  "valid_page_mask pm \<longleftrightarrow> pm \<in> {0x0000000, 0x0006000, 0x001e000, 0x007e000, 0x01fe000, 0x07fe000, 0x1ffe000}"

definition tlbr :: "'d state_t \<Rightarrow> 'd state_t" where
  "tlbr s =
     (let idx = unat (cpr0 s CPR0_INDEX AND 63); e = tlb s idx in
      if idx < NUM_TLB_ENTRIES
      then s\<lparr>cpr0_64 := (cpr0_64 s)(CPR0_ENTRYHI := entry_hi e, CPR0_ENTRYLO0 := entry_lo0 e,
                          CPR0_ENTRYLO1 := entry_lo1 e),
             cpr0 := (cpr0 s)(CPR0_ENTRYHI := ucast (entry_hi e), CPR0_ENTRYLO0 := ucast (entry_lo0 e),
                       CPR0_ENTRYLO1 := ucast (entry_lo1 e), CPR0_PAGEMASK := page_mask e)\<rparr>
      else s)"

definition staged_entry :: "'d state_t \<Rightarrow> tlb_entry_t" where
  "staged_entry s = \<lparr>entry_hi = cpr0_64 s CPR0_ENTRYHI, entry_lo0 = cpr0_64 s CPR0_ENTRYLO0,
     entry_lo1 = cpr0_64 s CPR0_ENTRYLO1, page_mask = cpr0 s CPR0_PAGEMASK\<rparr>"

definition tlb_write :: "nat \<Rightarrow> 'd state_t \<Rightarrow> 'd result" where
  "tlb_write idx s =
     (if idx < NUM_TLB_ENTRIES
      then (if valid_page_mask (cpr0 s CPR0_PAGEMASK)
            then Inr (s\<lparr>tlb := (tlb s)(idx := staged_entry s), g_utlb := utlb_flush (g_utlb s)\<rparr>)
            else Inl Assert_failed)
      else Inr (s\<lparr>g_utlb := utlb_flush (g_utlb s)\<rparr>))"

definition tlbwi :: "'d state_t \<Rightarrow> 'd result" where
  "tlbwi s = tlb_write (unat (cpr0 s CPR0_INDEX AND 63)) s"

definition next_random :: "u32 \<Rightarrow> u32 \<Rightarrow> u32" where
  "next_random random wired =
     (if random AND 63 \<le> wired AND 63 then of_nat (NUM_TLB_ENTRIES - 1) else (random AND 63) - 1)"

definition tlbwr :: "'d state_t \<Rightarrow> 'd result" where
  "tlbwr s = on_next (tlb_write (unat (cpr0 s CPR0_RANDOM AND 63)) s)
     (\<lambda>s. Inr (set_cpr0 CPR0_RANDOM (next_random (cpr0 s CPR0_RANDOM) (cpr0 s CPR0_WIRED)) s))"

definition tlbp_match :: "u64 \<Rightarrow> u64 \<Rightarrow> tlb_entry_t \<Rightarrow> bool" where
  "tlbp_match probe_hi probe_asid e =
     (let m = NOT (ucast (page_mask e OR 0x1fff)) in
      probe_hi AND m = entry_hi e AND m \<and> (entry_global e \<or> probe_asid = entry_hi e AND 0xff))"

definition tlbp :: "'d state_t \<Rightarrow> 'd state_t" where
  "tlbp s =
     (let probe_hi = cpr0_64 s CPR0_ENTRYHI in
      case tlb_search tlbp_match probe_hi (probe_hi AND 0xff) (tlb s) of
        Some i \<Rightarrow> set_cpr0 CPR0_INDEX (of_nat i) s
      | None \<Rightarrow> set_cpr0 CPR0_INDEX (cpr0 s CPR0_INDEX OR push_bit 31 1) s)"

section \<open>The contract of a lookaside table\<close>

locale lookaside =
  fixes probe :: "'t \<Rightarrow> 'k \<Rightarrow> 'v option"
    and fill :: "'k \<Rightarrow> 'v \<Rightarrow> 't \<Rightarrow> 't"
    and flush :: "'t \<Rightarrow> 't"
  assumes probe_flush: "probe (flush t) k = None"
    and probe_fill: "probe (fill k v t) k = Some v"
    and probe_fill_other: "k' \<noteq> k \<Longrightarrow> probe (fill k v t) k' = Some w \<Longrightarrow> probe t k' = Some w"
begin

lemma flush_sound: "probe (flush t) k = Some v \<Longrightarrow> f k = Some v"
  by (simp add: probe_flush)

lemma fill_sound:
  assumes "\<And>k v. probe t k = Some v \<Longrightarrow> f k = Some v" "f k0 = Some v0"
    and "probe (fill k0 v0 t) k = Some v"
  shows "f k = Some v"
proof (cases "k = k0")
  case True
  then show ?thesis using assms(2,3) by (simp add: probe_fill)
next
  case False
  then have "probe t k = Some v" using assms(3) by (rule probe_fill_other)
  then show ?thesis by (rule assms(1))
qed

end

interpretation ut: lookaside utlb_probe utlb_fill utlb_flush
proof
  fix t :: utlb and k k' :: "u64 \<times> u64" and v w :: "u32 \<times> bool \<times> bool"
  show "utlb_probe (utlb_flush t) k = None"
    by (simp add: utlb_probe_def utlb_flush_def split_def Let_def)
  show "utlb_probe (utlb_fill k v t) k = Some v"
    by (simp add: utlb_probe_def utlb_fill_def split_def Let_def)
  show "utlb_probe t k' = Some w" if "k' \<noteq> k" "utlb_probe (utlb_fill k v t) k' = Some w"
  proof (cases "utlb_slot (fst k') = utlb_slot (fst k)")
    case True
    with that show ?thesis
      by (simp add: utlb_probe_def utlb_fill_def split_def Let_def prod_eq_iff split: if_splits)
  next
    case False
    with that(2) show ?thesis
      by (simp add: utlb_probe_def utlb_fill_def split_def)
  qed
qed

section \<open>Page uniformity\<close>

text \<open>What the CAM says about a page: the physical page, the dirty bit and cacheability of
  a valid translation.\<close>

definition cam_page :: "(nat \<Rightarrow> tlb_entry_t) \<Rightarrow> u64 \<times> u64 \<Rightarrow> (u32 \<times> bool \<times> bool) option" where
  "cam_page t = (\<lambda>(vpn, asid).
     let va = push_bit 12 vpn in
     case tlb_search tlb_match va asid t of
       None \<Rightarrow> None
     | Some i \<Rightarrow>
         let e_lo = entry_lo_of va (t i) in
         if flag e_lo 0x2
         then Some (ucast (drop_bit 12 (entry_pa va (t i))), flag e_lo 0x4, drop_bit 3 e_lo AND 7 = 3)
         else None)"

definition same_page :: "u64 \<Rightarrow> u64 \<Rightarrow> bool" where
  "same_page va va' \<longleftrightarrow> drop_bit 12 va = drop_bit 12 va'"

lemma same_page_bit: "same_page va va' \<Longrightarrow> 12 \<le> n \<Longrightarrow> bit va n = bit va' n"
  unfolding same_page_def drop_bit_eq_iff by blast

lemma same_page_and:
  assumes "same_page va va'" "\<And>n. n < 12 \<Longrightarrow> \<not> bit m n"
  shows "va AND m = va' AND m"
proof (rule bit_word_eqI)
  fix n
  show "bit (va AND m) n = bit (va' AND m) n"
    using same_page_bit [OF assms(1), of n] assms(2) [of n] by (cases "n < 12") (simp_all add: bit_simps)
qed

lemma mask13: "(0x1fff :: u64) = mask 13"
  by (simp add: mask_eq_exp_minus_1)

lemma same_page_match:
  assumes "same_page va va'"
  shows "tlb_match va asid e = tlb_match va' asid e"
proof -
  have m: "va AND (NOT (entry_pm e OR 0x1fff) AND 0x000000ffffffe000)
      = va' AND (NOT (entry_pm e OR 0x1fff) AND 0x000000ffffffe000)"
    by (rule same_page_and [OF assms]) (simp add: mask13 bit_simps del: mask_numeral)
  have "drop_bit 62 va = drop_bit 62 va'"
    by (rule bit_word_eqI) (simp add: bit_simps same_page_bit [OF assms])
  with m show ?thesis by (simp add: tlb_match_def Let_def)
qed

lemma same_page_search:
  "same_page va va' \<Longrightarrow> tlb_search tlb_match va asid t = tlb_search tlb_match va' asid t"
  using same_page_match by (simp add: tlb_search_def)

lemma sel_bit_low: "n < 12 \<Longrightarrow> \<not> bit (sel_bit e) n"
proof -
  assume n: "n < 12"
  have "pair_mask e = push_bit 13 (drop_bit 13 (entry_pm e)) OR mask 13"
    unfolding pair_mask_def mask13 by (rule bit_word_eqI) (auto simp: bit_simps)
  also have "\<dots> = push_bit 13 (drop_bit 13 (entry_pm e)) + mask 13"
    by (rule disjunctive_add_eq_or [symmetric]) (rule bit_word_eqI, auto simp: bit_simps)
  finally have "pair_mask e + 1 = push_bit 13 (drop_bit 13 (entry_pm e) + 1)"
    by (simp add: push_bit_add mask_eq_exp_minus_1)
  then have "sel_bit e = drop_bit 1 (push_bit 13 (drop_bit 13 (entry_pm e) + 1))"
    by (simp only: sel_bit_def)
  with n show ?thesis by (simp add: bit_simps)
qed

lemma same_page_lo: "same_page va va' \<Longrightarrow> entry_lo_of va e = entry_lo_of va' e"
  unfolding entry_lo_of_def using same_page_and [OF _ sel_bit_low] by metis

lemma off_mask_low: "n < 12 \<Longrightarrow> bit (off_mask e) n"
  unfolding off_mask_def pair_mask_def mask13 by (simp add: bit_simps del: mask_numeral)

lemma entry_pa_bit:
  "bit (entry_pa va e) n =
     (if n < 12 then bit va n
      else bit (push_bit 12 (drop_bit 6 (entry_lo_of va e) AND 0xfffffff)) n \<or> bit va n \<and> bit (off_mask e) n)"
  unfolding entry_pa_def using off_mask_low [of n e] by (auto simp: bit_simps)

lemma same_page_pa:
  assumes "same_page va va'"
  shows "drop_bit 12 (entry_pa va e) = drop_bit 12 (entry_pa va' e)"
  by (rule bit_word_eqI)
    (simp add: entry_pa_bit bit_drop_bit_eq same_page_bit [OF assms] same_page_lo [OF assms])

lemma pa_from_page:
  "(ucast (entry_pa va e) :: u32) = push_bit 12 (ucast (drop_bit 12 (entry_pa va e))) OR ucast (va AND 0xfff)"
proof -
  have m: "(0xfff :: u64) = mask 12" by (simp add: mask_eq_exp_minus_1)
  show ?thesis
    unfolding m by (rule bit_word_eqI) (auto simp: bit_simps entry_pa_bit)
qed

lemma same_page_self: "same_page va (push_bit 12 (drop_bit 12 va))"
  unfolding same_page_def by (rule bit_word_eqI) (auto simp: bit_simps dest: bit_imp_le_length)

section \<open>The micro-TLB is transparent\<close>

definition utlb_sound :: "'d state_t \<Rightarrow> bool" where
  "utlb_sound s \<longleftrightarrow> (\<forall>k v. utlb_probe (g_utlb s) k = Some v \<longrightarrow> cam_page (tlb s) k = Some v)"

text \<open>Translation by the architectural TLB alone.\<close>

definition va_translate_ref :: "u64 \<Rightarrow> tlb_op \<Rightarrow> 'd state_t \<Rightarrow> u32 \<times> 'd state_t" where
  "va_translate_ref va op s0 =
     (let s = set_cache_active False s0 in
      case unmapped_pa va of
        Some pa \<Rightarrow> (pa, if in_kseg0 va \<and> op \<noteq> op_fetch then set_cache_active True s else s)
      | None \<Rightarrow> (let (pa, t) = va_translate_cam va op s in (pa, t\<lparr>g_utlb := g_utlb s0\<rparr>)))"

lemma set_cache_active_frame [simp]:
  "tlb (set_cache_active b s) = tlb s" "g_utlb (set_cache_active b s) = g_utlb s"
  "cpr0_64 (set_cache_active b s) = cpr0_64 s" "cpr0 (set_cache_active b s) = cpr0 s"
  "gpr (set_cache_active b s) = gpr s" "pc (set_cache_active b s) = pc s"
  "tlb_fault (set_cache_active b s) = tlb_fault s" "ll_armed (set_cache_active b s) = ll_armed s"
  "in_delay_slot (set_cache_active b s) = in_delay_slot s" "mem (sys (set_cache_active b s)) = mem (sys s)"
  "cur_asid_of (set_cache_active b s) = cur_asid_of s" "exl (set_cache_active b s) = exl s"
  "(set_cache_active b s)\<lparr>g_utlb := t\<rparr> = set_cache_active b (s\<lparr>g_utlb := t\<rparr>)"
  by (simp_all add: set_cache_active_def cur_asid_of_def exl_def)

lemma raise_tlb_frame [simp]:
  "tlb (raise_tlb va c r x s) = tlb s" "g_utlb (raise_tlb va c r x s) = g_utlb s"
  "gpr (raise_tlb va c r x s) = gpr s" "sys (raise_tlb va c r x s) = sys s"
  "tlb_fault (raise_tlb va c r x s)" "ll_armed (raise_tlb va c r x s) = ll_armed s"
  "in_delay_slot (raise_tlb va c r x s) = in_delay_slot s"
  by (simp_all add: raise_tlb_def tlb_set_fault_state_def Let_def reg_defs)

lemma utlb_sound_cong:
  "tlb t = tlb s \<Longrightarrow> g_utlb t = g_utlb s \<Longrightarrow> utlb_sound s \<Longrightarrow> utlb_sound t"
  by (simp add: utlb_sound_def)

lemma utlb_sound_cache_active [simp]: "utlb_sound (set_cache_active b s) = utlb_sound s"
  by (simp add: utlb_sound_def)

lemma cam_page_of_va:
  assumes "cam_page t (drop_bit 12 va, asid) = Some (ppn, d, c)"
  obtains i where "tlb_search tlb_match va asid t = Some i" "flag (entry_lo_of va (t i)) 0x2"
    "d = flag (entry_lo_of va (t i)) 0x4" "c = (drop_bit 3 (entry_lo_of va (t i)) AND 7 = 3)"
    "ppn = ucast (drop_bit 12 (entry_pa va (t i)))"
  using assms same_page_search [OF same_page_self, of va asid t] same_page_lo [OF same_page_self, of va]
    same_page_pa [OF same_page_self, of va]
  by (auto simp: cam_page_def Let_def split: option.splits if_splits)

lemma cam_page_of_hit:
  assumes "tlb_search tlb_match va asid t = Some i" "flag (entry_lo_of va (t i)) 0x2"
  shows "cam_page t (drop_bit 12 va, asid) = Some (ucast (drop_bit 12 (entry_pa va (t i))),
    flag (entry_lo_of va (t i)) 0x4, drop_bit 3 (entry_lo_of va (t i)) AND 7 = 3)"
  using assms same_page_search [OF same_page_self, of va asid t] same_page_lo [OF same_page_self, of va]
    same_page_pa [OF same_page_self, of va]
  by (simp add: cam_page_def Let_def)

text \<open>A micro-TLB hit that is not a store to a clean page gives what the CAM gives.\<close>

lemma utlb_hit_cam:
  assumes "utlb_sound s" "utlb_probe (g_utlb s) (drop_bit 12 va, cur_asid_of s) = Some (ppn, d, c)"
    and "\<not> (op = op_store \<and> \<not> d)"
  shows "fst (va_translate_cam va op s) = push_bit 12 ppn OR ucast (va AND 0xfff)"
    and "(snd (va_translate_cam va op s))\<lparr>g_utlb := g_utlb s\<rparr>
      = (if c \<and> op \<noteq> op_fetch then set_cache_active True s else s)"
proof -
  have "cam_page (tlb s) (drop_bit 12 va, cur_asid_of s) = Some (ppn, d, c)"
    using assms(1,2) by (simp add: utlb_sound_def)
  then obtain i where i: "tlb_search tlb_match va (cur_asid_of s) (tlb s) = Some i"
      "flag (entry_lo_of va (tlb s i)) 0x2" "d = flag (entry_lo_of va (tlb s i)) 0x4"
      "c = (drop_bit 3 (entry_lo_of va (tlb s i)) AND 7 = 3)"
      "ppn = ucast (drop_bit 12 (entry_pa va (tlb s i)))"
    by (rule cam_page_of_va)
  show "fst (va_translate_cam va op s) = push_bit 12 ppn OR ucast (va AND 0xfff)"
    using i assms(3) pa_from_page [of va "tlb s i"] by (auto simp: va_translate_cam_def Let_def)
  show "(snd (va_translate_cam va op s))\<lparr>g_utlb := g_utlb s\<rparr>
      = (if c \<and> op \<noteq> op_fetch then set_cache_active True s else s)"
    using i assms(3) by (auto simp: va_translate_cam_def Let_def)
qed

lemma va_translate_cam_sound:
  assumes "utlb_sound s"
  shows "utlb_sound (snd (va_translate_cam va op s))"
proof (cases "tlb_search tlb_match va (cur_asid_of s) (tlb s)")
  case None
  then show ?thesis
    using assms by (simp add: va_translate_cam_def Let_def utlb_sound_def)
next
  case (Some i)
  let ?k = "(drop_bit 12 va, cur_asid_of s)"
  let ?v = "(ucast (drop_bit 12 (entry_pa va (tlb s i))), flag (entry_lo_of va (tlb s i)) 0x4,
    drop_bit 3 (entry_lo_of va (tlb s i)) AND 7 = 3)"
  show ?thesis
  proof (cases "flag (entry_lo_of va (tlb s i)) 0x2 \<and> \<not> (op = op_store \<and> \<not> flag (entry_lo_of va (tlb s i)) 0x4)")
    case True
    have "cam_page (tlb s) ?k = Some ?v" using Some True by (intro cam_page_of_hit) auto
    then have "cam_page (tlb s) k = Some v" if "utlb_probe (utlb_fill ?k ?v (g_utlb s)) k = Some v" for k v
      using that assms ut.fill_sound [of "g_utlb s" "cam_page (tlb s)" ?k ?v k v]
      by (auto simp: utlb_sound_def)
    moreover have "g_utlb (snd (va_translate_cam va op s)) = utlb_fill ?k ?v (g_utlb s)"
      and "tlb (snd (va_translate_cam va op s)) = tlb s"
      using Some True by (auto simp: va_translate_cam_def Let_def)
    ultimately show ?thesis by (simp add: utlb_sound_def)
  next
    case False
    then have "g_utlb (snd (va_translate_cam va op s)) = g_utlb s" "tlb (snd (va_translate_cam va op s)) = tlb s"
      using Some by (auto simp: va_translate_cam_def Let_def)
    with assms show ?thesis by (auto intro: utlb_sound_cong)
  qed
qed

text \<open>A mapped address translates as the CAM alone would do it, up to the micro-TLB.\<close>

lemma mapped_translate:
  fixes op :: tlb_op
  assumes "utlb_sound s" "unmapped_pa va = None"
  defines "r \<equiv> va_translate_cam va op (set_cache_active False s)"
  shows "fst (va_translate va op s) = fst r"
    "(snd (va_translate va op s))\<lparr>g_utlb := g_utlb s\<rparr> = (snd r)\<lparr>g_utlb := g_utlb s\<rparr>"
    "utlb_sound (snd (va_translate va op s))"
proof -
  let ?s = "set_cache_active False s"
  have snd: "utlb_sound ?s" using assms(1) by (rule utlb_sound_cong [rotated 2]) simp_all
  have "fst (va_translate va op s) = fst r \<and>
    (snd (va_translate va op s))\<lparr>g_utlb := g_utlb s\<rparr> = (snd r)\<lparr>g_utlb := g_utlb s\<rparr> \<and>
    utlb_sound (snd (va_translate va op s))"
  proof (cases "\<exists>ppn d c. utlb_probe (g_utlb ?s) (drop_bit 12 va, cur_asid_of ?s) = Some (ppn, d, c) \<and>
      \<not> (op = op_store \<and> \<not> d)")
    case True
    then obtain ppn d c where hit: "utlb_probe (g_utlb ?s) (drop_bit 12 va, cur_asid_of ?s) = Some (ppn, d, c)"
        "\<not> (op = op_store \<and> \<not> d)" by blast
    note cam = utlb_hit_cam [OF snd hit]
    have "va_translate va op s = (push_bit 12 ppn OR ucast (va AND 0xfff),
        if c \<and> op \<noteq> op_fetch then set_cache_active True ?s else ?s)"
      using hit assms(2) by (simp add: va_translate_def Let_def)
    with cam snd show ?thesis
      by (auto simp: r_def intro: utlb_sound_cong)
  next
    case False
    then have "va_translate va op s = r"
      using assms(2) by (auto simp: r_def va_translate_def Let_def split: option.split)
    then show ?thesis
      using va_translate_cam_sound [OF snd] by (simp add: r_def)
  qed
  then show "fst (va_translate va op s) = fst r"
    "(snd (va_translate va op s))\<lparr>g_utlb := g_utlb s\<rparr> = (snd r)\<lparr>g_utlb := g_utlb s\<rparr>"
    "utlb_sound (snd (va_translate va op s))" by simp_all
qed

section \<open>Properties\<close>

text \<open>C7.  The micro-TLB is purely an accelerator.  When every entry of it agrees with the
  architectural TLB, a translation returns the physical address, raises the exception and
  leaves the state that the 48-entry search alone would have, for fetches, loads and stores
  and for every page size, and every entry still agrees afterwards.\<close>

theorem utlb_transparent:
  assumes "utlb_sound s"
  shows "fst (va_translate va op s) = fst (va_translate_ref va op s) \<and>
    (snd (va_translate va op s))\<lparr>g_utlb := g_utlb s\<rparr> = snd (va_translate_ref va op s) \<and>
    utlb_sound (snd (va_translate va op s))"
proof (cases "unmapped_pa va")
  case (Some pa)
  then show ?thesis
    using assms by (simp add: va_translate_def va_translate_ref_def Let_def utlb_sound_def)
next
  case None
  then show ?thesis
    using mapped_translate [OF assms None, of op] by (simp add: va_translate_ref_def Let_def split_def)
qed

theorem utlb_transparent_witness:
  "fst (va_translate 0x2345 op_load
     ((state_zero (io_init ()))\<lparr>tlb := (\<lambda>_. \<lparr>entry_hi = 0x2000, entry_lo0 = 0x1046, entry_lo1 = 0,
        page_mask = 0\<rparr>)\<rparr>)) = 0x41345"
proof -
  let ?s = "(state_zero (io_init ()))\<lparr>tlb := (\<lambda>_. \<lparr>entry_hi = 0x2000, entry_lo0 = 0x1046, entry_lo1 = 0,
    page_mask = 0\<rparr>)\<rparr>"
  have "utlb_sound ?s"
    by (simp add: utlb_sound_def state_zero_def utlb_probe_def split_def)
  then have "fst (va_translate 0x2345 op_load ?s) = fst (va_translate_ref 0x2345 op_load ?s)"
    using utlb_transparent by blast
  also have "\<dots> = 0x41345"
    by (simp add: va_translate_ref_def va_translate_cam_def unmapped_pa_def compat_va_def state_zero_def
        cur_asid_of_def tlb_search_def NUM_TLB_ENTRIES_def tlb_match_def entry_pm_def entry_global_def
        entry_lo_of_def sel_bit_def pair_mask_def off_mask_def entry_pa_def flag_def Let_def split_def
        set_cache_active_def upt_rec)
  finally show ?thesis .
qed

section \<open>Exception entry\<close>

text \<open>What every synchronous exception does, whoever raises it.\<close>

definition entered :: "'d state_t \<Rightarrow> u32 \<Rightarrow> 'd state_t \<Rightarrow> bool" where
  "entered t code s \<longleftrightarrow>
     drop_bit 2 (cpr0 t CPR0_CAUSE) AND 0x1f = code \<and>
     (if exl s
      then cpr0_64 t CPR0_EPC = cpr0_64 s CPR0_EPC \<and> cpr0 t CPR0_EPC = cpr0 s CPR0_EPC \<and>
           bit (cpr0 t CPR0_CAUSE) 31 = bit (cpr0 s CPR0_CAUSE) 31
      else cpr0_64 t CPR0_EPC = (if in_delay_slot s then pc s - 4 else pc s) \<and>
           cpr0 t CPR0_EPC = ucast (if in_delay_slot s then pc s - 4 else pc s) \<and>
           bit (cpr0 t CPR0_CAUSE) 31 = in_delay_slot s) \<and>
     exl t \<and> \<not> erl t \<and> gpr t = gpr s \<and> tlb t = tlb s \<and> sys t = sys s"

definition refill_vector :: "bool \<Rightarrow> 'd state_t \<Rightarrow> u64" where
  "refill_vector x s =
     (if bev s then (if x then 0xFFFFFFFFBFC00280 else 0xFFFFFFFFBFC00200)
      else (if x then 0xFFFFFFFF80000080 else 0xFFFFFFFF80000000))"

lemma raisers_entered:
  assumes "(raise, code) \<in> set (raisers ce)"
  shows "entered (raise s) code s \<and> \<not> ll_armed (raise s) \<and> pc (raise s) = general_vector s"
proof -
  note e = raisers_entry [OF assms]
  show ?thesis
    unfolding entered_def
    using exc_entry.epc [OF e, of s] exc_entry.epc32 [OF e, of s] exc_entry.bd [OF e, of s]
      exc_entry.nested_epc [OF e, of s] exc_entry.nested_bd [OF e, of s] exc_entry.exccode [OF e, of s]
      exc_entry.enters_kernel [OF e, of s] exc_entry.ll [OF e, of s] exc_entry.vector [OF e, of s]
      exc_entry.frame(1,2,4) [OF e, of s]
    by simp
qed

lemma fault_state_frame:
  "exl (tlb_set_fault_state va s) = exl s" "in_delay_slot (tlb_set_fault_state va s) = in_delay_slot s"
  "pc (tlb_set_fault_state va s) = pc s" "cpr0_64 (tlb_set_fault_state va s) CPR0_EPC = cpr0_64 s CPR0_EPC"
  "cpr0 (tlb_set_fault_state va s) CPR0_EPC = cpr0 s CPR0_EPC"
  "cpr0 (tlb_set_fault_state va s) CPR0_CAUSE = cpr0 s CPR0_CAUSE"
  "cpr0 (tlb_set_fault_state va s) CPR0_SR = cpr0 s CPR0_SR"
  by (simp_all add: tlb_set_fault_state_def Let_def reg_defs exl_def)

lemma raise_tlb_parts:
  "cpr0 (raise_tlb va c r x s) CPR0_SR = enter_sr (cpr0 s CPR0_SR)"
  "cpr0 (raise_tlb va c r x s) CPR0_CAUSE = with_exccode c (cpr0 (set_exc_pc (tlb_set_fault_state va s)) CPR0_CAUSE)"
  "cpr0 (raise_tlb va c r x s) CPR0_EPC = cpr0 (set_exc_pc (tlb_set_fault_state va s)) CPR0_EPC"
  "cpr0_64 (raise_tlb va c r x s) = cpr0_64 (set_exc_pc (tlb_set_fault_state va s))"
  "pc (raise_tlb va c r x s) = (if r \<and> \<not> exl s then refill_vector x s else general_vector s)"
  by (simp_all add: raise_tlb_def Let_def reg_defs set_exc_pc_parts fault_state_frame exc_vector_def refill_vector_def
      general_vector_def bev_def flag_bits bit_enter_sr sext32_vectors)

lemma raise_tlb_entered:
  assumes "c \<in> {1, 2, 3}"
  shows "entered (raise_tlb va c r x s) c s"
proof -
  have code: "c AND 0x1f = c" using assms by auto
  have "\<not> bit c 29" using small_code [OF code, of 29] by auto
  then show ?thesis
    unfolding entered_def
    by (cases "exl s")
      (simp_all add: exl_def [of "raise_tlb va c r x s"] erl_def raise_tlb_parts exccode_with_exccode [OF code]
        set_exc_pc_parts fault_state_frame bit_with_exccode flag_bits bit_enter_sr)
qed

text \<open>C9.  Exception entry.  Every synchronous exception (address error, system call, breakpoint, reserved
  instruction, coprocessor unusable, overflow, trap, floating point; TLB modification, refill and invalid)
  records its code in Cause.ExcCode, sets EXL, clears ERL and changes no general register, TLB entry, memory
  or device.  Raised while EXL is clear it saves the address of the instruction, or of the branch when the
  instruction sits in a delay slot, in both views of EPC and records the delay slot in Cause.BD; raised while
  EXL is set it keeps EPC and BD, so that the interrupted context survives.  All but the TLB exceptions drop
  the load-linked reservation and go to the general vector; a TLB exception keeps the reservation, stages the
  address in BadVAddr and goes to the refill vector when it is a refill with EXL clear, to the general vector
  otherwise.\<close>

theorem exception_entry:
  "((raise, code) \<in> set (raisers ce) \<longrightarrow>
      entered (raise s) code s \<and> \<not> ll_armed (raise s) \<and> pc (raise s) = general_vector s) \<and>
   (c \<in> {1, 2, 3} \<longrightarrow>
      entered (raise_tlb va c r x s) c s \<and> ll_armed (raise_tlb va c r x s) = ll_armed s \<and>
      cpr0_64 (raise_tlb va c r x s) CPR0_BADVADDR = va \<and>
      pc (raise_tlb va c r x s) = (if r \<and> \<not> exl s then refill_vector x s else general_vector s))"
proof -
  have "cpr0_64 (raise_tlb va c r x s) CPR0_BADVADDR = va"
    by (simp add: raise_tlb_parts set_exc_pc_frame0 tlb_set_fault_state_def Let_def reg_defs)
  then show ?thesis
    using raisers_entered [of raise code ce s] raise_tlb_entered [of c va r x s] by (simp add: raise_tlb_parts)
qed

theorem exception_entry_witness:
  "entered (take_exception_cpu 1 (state_zero (io_init ()))) 11 (state_zero (io_init ())) \<and>
   entered (raise_tlb 0x3000 2 True False (state_zero (io_init ()))) 2 (state_zero (io_init ())) \<and>
   pc (raise_tlb 0x3000 2 True False (state_zero (io_init ()))) = 0xFFFFFFFF80000000"
proof -
  let ?s = "state_zero (io_init ())"
  have "(take_exception_cpu 1 :: unit state_t \<Rightarrow> unit state_t, 11) \<in> set (raisers 1)" by (simp add: raisers_def)
  moreover have "\<not> exl ?s" "refill_vector False ?s = 0xFFFFFFFF80000000"
    by (simp_all add: exl_def bev_def refill_vector_def state_zero_def flag_def)
  ultimately show ?thesis
    using exception_entry [of "take_exception_cpu 1" 11 1 ?s 2 "0x3000" True False] by simp
qed

end
