(* ===== verification/TLB_Instructions.thy ===== *)
theory TLB_Instructions
  imports TLB
begin

text \<open>
  The TLB instructions: what they keep of the micro-TLB invariant, the walk of
  Random between Wired and the last entry, the agreement of TLBP with
  translation on well-formed entries, and the refill round trip: the state that
  a refill exception leaves is enough for the handler's write to make the
  faulting access succeed.
\<close>

section \<open>Writing entries\<close>

lemma utlb_sound_flush: "utlb_sound (s\<lparr>tlb := t, g_utlb := utlb_flush u\<rparr>)"
  by (simp add: utlb_sound_def ut.probe_flush)

lemma utlb_sound_set_cpr0 [simp]: "utlb_sound (set_cpr0 r v s) = utlb_sound s"
  by (simp add: utlb_sound_def set_cpr0_def)

lemma tlb_write_sound: "tlb_write idx s = Inr t \<Longrightarrow> utlb_sound t"
  by (auto simp: tlb_write_def utlb_sound_def ut.probe_flush split: if_splits)

text \<open>C8.  TLBWI and TLBWR leave no stale micro-TLB entry behind, whatever the micro-TLB
  held before them.\<close>

theorem tlb_writes_keep_utlb_sound:
  assumes "tlbwi s = Inr t \<or> tlbwr s = Inr t"
  shows "utlb_sound t"
  using assms by (auto simp: tlbwi_def tlbwr_def on_next_Inr dest: tlb_write_sound)

theorem tlb_writes_keep_utlb_sound_witness:
  "utlb_sound (projr (tlbwi (state_zero (io_init ()))))"
  by (rule tlb_writes_keep_utlb_sound [of "state_zero (io_init ())"])
    (simp add: tlbwi_def tlb_write_def state_zero_def NUM_TLB_ENTRIES_def valid_page_mask_def)

section \<open>Random and Wired\<close>

definition random_ok :: "'d state_t \<Rightarrow> bool" where
  "random_ok s \<longleftrightarrow> cpr0 s CPR0_WIRED AND 63 \<le> cpr0 s CPR0_RANDOM AND 63 \<and>
     cpr0 s CPR0_RANDOM AND 63 < of_nat NUM_TLB_ENTRIES"

lemma mask6: "unat (x AND 63 :: u32) = unat x mod 64"
  using unat_and_mask [of x 6] by (simp add: mask_eq_exp_minus_1)

lemma next_random_ok:
  assumes "wired AND 63 \<le> random AND 63" "random AND 63 < 48"
  shows "wired AND 63 \<le> next_random random wired AND 63 \<and> next_random random wired AND 63 < 48"
proof (cases "random AND 63 \<le> wired AND 63")
  case True
  then have e: "random AND 63 = wired AND 63" using assms(1) by simp
  have "wired AND 63 \<le> 47"
    using assms(2) e by (simp add: word_less_nat_alt word_le_nat_alt mask6)
  with True show ?thesis by (simp add: next_random_def NUM_TLB_ENTRIES_def)
next
  case False
  let ?r = "unat (random AND 63)" and ?w = "unat (wired AND 63)"
  have lt: "?w < ?r" using False by (simp add: word_le_nat_alt)
  have r: "?r < 48" using assms(2) by (simp add: word_less_nat_alt)
  have "random AND 63 \<noteq> 0" using lt by auto
  then have u: "unat ((random AND 63) - 1) = ?r - 1" by (rule unat_minus_one)
  have "unat (((random AND 63) - 1) AND 63) = ?r - 1"
    using r u by (simp add: mask6)
  then show ?thesis
    using False lt r by (simp add: next_random_def word_le_nat_alt word_less_nat_alt) linarith
qed

text \<open>As long as Random is at or above Wired, TLBWR replaces an entry that is not
  wired, every wired entry keeps its mapping, and Random stays in range.\<close>

theorem tlbwr_spares_wired:
  assumes "random_ok s" "tlbwr s = Inr t"
  shows "(\<forall>i < unat (cpr0 s CPR0_WIRED AND 63). tlb t i = tlb s i) \<and>
    tlb t (unat (cpr0 s CPR0_RANDOM AND 63)) = staged_entry s \<and> random_ok t"
proof -
  let ?idx = "unat (cpr0 s CPR0_RANDOM AND 63)"
  have lt: "?idx < NUM_TLB_ENTRIES" and w: "unat (cpr0 s CPR0_WIRED AND 63) \<le> ?idx"
    using assms(1) by (simp_all add: random_ok_def word_less_nat_alt word_le_nat_alt NUM_TLB_ENTRIES_def)
  obtain u where u: "tlb_write ?idx s = Inr u"
    and t: "t = set_cpr0 CPR0_RANDOM (next_random (cpr0 u CPR0_RANDOM) (cpr0 u CPR0_WIRED)) u"
    using assms(2) by (auto simp: tlbwr_def on_next_Inr)
  then have tu: "tlb t = (tlb s)(?idx := staged_entry s)" "cpr0 u = cpr0 s"
    using lt by (auto simp: tlb_write_def set_cpr0_def split: if_splits)
  have "random_ok t"
    using next_random_ok [of "cpr0 s CPR0_WIRED" "cpr0 s CPR0_RANDOM"] assms(1)
    by (simp add: t random_ok_def set_cpr0_def tu(2) NUM_TLB_ENTRIES_def)
  with w show ?thesis by (simp add: tu(1))
qed

theorem tlbwr_spares_wired_witness:
  "random_ok (projr (tlbwr ((state_zero (io_init ()))\<lparr>cpr0 := (\<lambda>_. 0)(CPR0_WIRED := 2, CPR0_RANDOM := 5)\<rparr>)))"
proof -
  let ?s = "(state_zero (io_init ()))\<lparr>cpr0 := (\<lambda>_. 0)(CPR0_WIRED := 2, CPR0_RANDOM := 5)\<rparr>"
  have "random_ok ?s" by (simp add: random_ok_def NUM_TLB_ENTRIES_def)
  moreover obtain t where "tlbwr ?s = Inr t"
    by (simp add: tlbwr_def tlb_write_def NUM_TLB_ENTRIES_def valid_page_mask_def)
  ultimately show ?thesis using tlbwr_spares_wired by fastforce
qed

text \<open>Nothing resets Random when Wired is raised above it, so the next TLBWR
  overwrites a wired entry.\<close>

theorem tlbwr_below_wired_overwrites:
  assumes "cpr0 s CPR0_RANDOM AND 63 < cpr0 s CPR0_WIRED AND 63" "cpr0 s CPR0_RANDOM AND 63 < 48"
    and "valid_page_mask (cpr0 s CPR0_PAGEMASK)"
  shows "\<exists>t. tlbwr s = Inr t \<and> (\<exists>i < unat (cpr0 s CPR0_WIRED AND 63). tlb t i = staged_entry s)"
proof -
  have "unat (cpr0 s CPR0_RANDOM AND 63) < 48"
    "unat (cpr0 s CPR0_RANDOM AND 63) < unat (cpr0 s CPR0_WIRED AND 63)"
    using assms(1,2) by (simp_all add: word_less_nat_alt)
  then show ?thesis
    using assms(3)
    by (auto simp: tlbwr_def tlb_write_def NUM_TLB_ENTRIES_def set_cpr0_def
        intro!: exI [of _ "unat (cpr0 s CPR0_RANDOM AND 63)"])
qed

theorem tlbwr_below_wired_overwrites_witness:
  "\<exists>t. tlbwr ((state_zero (io_init ()))\<lparr>cpr0 := (\<lambda>_. 0)(CPR0_WIRED := 8, CPR0_RANDOM := 5)\<rparr>) = Inr t \<and>
     (\<exists>i < 8. tlb t i = staged_entry ((state_zero (io_init ()))\<lparr>cpr0 := (\<lambda>_. 0)(CPR0_WIRED := 8, CPR0_RANDOM := 5)\<rparr>))"
  using tlbwr_below_wired_overwrites
    [of "(state_zero (io_init ()))\<lparr>cpr0 := (\<lambda>_. 0)(CPR0_WIRED := 8, CPR0_RANDOM := 5)\<rparr>"]
  by (simp add: valid_page_mask_def)

section \<open>Well-formed entries and TLBP\<close>

text \<open>What the write masks guarantee of an EntryHi value and of a stored entry.\<close>

definition wf_hi :: "u64 \<Rightarrow> bool" where
  "wf_hi v \<longleftrightarrow> cp0_write_mask CPR0_ENTRYHI v = v"

definition wf_entry :: "tlb_entry_t \<Rightarrow> bool" where
  "wf_entry e \<longleftrightarrow> wf_hi (entry_hi e) \<and> page_mask e AND 0x1ffe000 = page_mask e"

lemma hi_masks: "(0xc000000000000000 :: u64) = push_bit 62 (mask 2)"
  "(0x000000ffffffe000 :: u64) = push_bit 13 (mask 27)" "(0xff :: u64) = mask 8"
  "(0x1ffe000 :: u64) = push_bit 13 (mask 12)" "(0x3 :: u64) = mask 2"
  by (simp_all add: mask_eq_exp_minus_1)

lemma bit_write_mask_hi:
  "bit (cp0_write_mask CPR0_ENTRYHI v) n \<longleftrightarrow> bit v n \<and> (n < 8 \<or> 13 \<le> n \<and> n < 40 \<or> 62 \<le> n)"
  unfolding cp0_write_mask_def if_P [OF refl] hi_masks
  by (auto simp: bit_simps dest: bit_imp_le_length)

lemma wf_hi_bit: "wf_hi v \<Longrightarrow> bit v n \<Longrightarrow> n < 8 \<or> 13 \<le> n \<and> n < 40 \<or> 62 \<le> n"
  unfolding wf_hi_def by (metis bit_write_mask_hi)

lemma cp0_write_mask_idem: "cp0_write_mask rd (cp0_write_mask rd v) = cp0_write_mask rd v"
proof (cases "rd = CPR0_ENTRYHI")
  case True
  then show ?thesis by (intro bit_word_eqI) (auto simp: bit_write_mask_hi)
next
  case False
  then show ?thesis by (simp add: cp0_write_mask_def and.assoc)
qed

lemma and_mask_eq_iff:
  fixes x y m :: u64
  shows "x AND m = y AND m \<longleftrightarrow> (\<forall>n. bit m n \<longrightarrow> bit x n = bit y n)"
proof
  assume eq: "x AND m = y AND m"
  have "bit (x AND m) n = bit (y AND m) n" for n by (simp only: eq)
  then show "\<forall>n. bit m n \<longrightarrow> bit x n = bit y n" by (auto simp: bit_and_iff)
next
  assume "\<forall>n. bit m n \<longrightarrow> bit x n = bit y n"
  then show "x AND m = y AND m" by (intro bit_word_eqI) (auto simp: bit_and_iff)
qed

lemma wf_entry_pm:
  assumes "wf_entry e"
  shows "ucast (page_mask e OR 0x1fff) = entry_pm e OR 0x1fff"
proof -
  have m: "(0x1ffe000 :: u32) = push_bit 13 (mask 12)" "(0x1fff :: u32) = mask 13"
    by (simp_all add: mask_eq_exp_minus_1)
  have "bit (page_mask e) n \<Longrightarrow> 13 \<le> n \<and> n < 25" for n
    using assms field_bits [of "page_mask e" 13 12 n] unfolding wf_entry_def m by simp
  then show ?thesis
    unfolding entry_pm_def hi_masks mask13 m by (intro bit_word_eqI) (force simp: bit_simps)
qed

text \<open>On well-formed values the comparison of TLBP is that of a translation.\<close>

lemma tlbp_match_eq:
  assumes hi: "wf_hi hi" and e: "wf_entry e"
  shows "tlbp_match hi asid e = tlb_match hi asid e"
proof -
  let ?pm = "entry_pm e" and ?ehi = "entry_hi e"
  note pm = wf_entry_pm [OF e]
  have pm_bit: "bit ?pm n \<Longrightarrow> 13 \<le> n \<and> n < 25" for n
    unfolding entry_pm_def hi_masks by (auto simp: bit_simps)
  have ehi: "wf_hi ?ehi" using e by (simp add: wf_entry_def)
  have b1: "bit (NOT (?pm OR 0x1fff)) n \<longleftrightarrow> n < 64 \<and> \<not> bit ?pm n \<and> 13 \<le> n" for n
    unfolding mask13 by (auto simp: bit_simps)
  have b2: "bit (NOT (?pm OR 0x1fff) AND 0x000000ffffffe000) n \<longleftrightarrow> n < 40 \<and> \<not> bit ?pm n \<and> 13 \<le> n" for n
    unfolding mask13 hi_masks(2) by (auto simp: bit_simps)
  have mid: "bit hi n = bit ?ehi n" if "40 \<le> n" "n < 62" for n
    using wf_hi_bit [OF hi, of n] wf_hi_bit [OF ehi, of n] that by auto
  have "drop_bit 62 w AND mask 2 = drop_bit 62 w" for w :: u64
    by (rule bit_word_eqI) (auto simp: bit_simps dest: bit_imp_le_length)
  then have r2: "drop_bit 62 hi AND 0x3 = drop_bit 62 ?ehi AND 0x3 \<longleftrightarrow> (\<forall>n\<ge>62. bit hi n = bit ?ehi n)"
    unfolding hi_masks(5) by (simp only: drop_bit_eq_iff)
  have "hi AND NOT (?pm OR 0x1fff) = ?ehi AND NOT (?pm OR 0x1fff) \<longleftrightarrow>
      hi AND (NOT (?pm OR 0x1fff) AND 0x000000ffffffe000)
        = ?ehi AND (NOT (?pm OR 0x1fff) AND 0x000000ffffffe000) \<and>
      drop_bit 62 hi AND 0x3 = drop_bit 62 ?ehi AND 0x3" (is "?L \<longleftrightarrow> ?R")
  proof
    assume L: ?L
    then have "bit hi n = bit ?ehi n" if "62 \<le> n" for n
      using that pm_bit [of n] bit_imp_le_length [of hi n] bit_imp_le_length [of ?ehi n]
      unfolding and_mask_eq_iff b1 by force
    moreover have "hi AND (NOT (?pm OR 0x1fff) AND 0x000000ffffffe000)
        = ?ehi AND (NOT (?pm OR 0x1fff) AND 0x000000ffffffe000)"
      using L unfolding and_mask_eq_iff b1 b2 by simp
    ultimately show ?R using r2 by blast
  next
    assume R: ?R
    then have hi62: "\<forall>n\<ge>62. bit hi n = bit ?ehi n" using r2 by blast
    have "bit hi n = bit ?ehi n" if "\<not> bit ?pm n" "13 \<le> n" for n
      using R [THEN conjunct1] hi62 that mid [of n] unfolding and_mask_eq_iff b2
      by (cases "n < 40"; cases "n < 62") auto
    then show ?L unfolding and_mask_eq_iff b1 by blast
  qed
  then show ?thesis
    unfolding tlbp_match_def tlb_match_def Let_def pm by blast
qed

lemma tlbp_search_eq:
  assumes "wf_hi hi" "\<forall>i < NUM_TLB_ENTRIES. wf_entry (t i)"
  shows "tlb_search tlbp_match hi asid t = tlb_search tlb_match hi asid t"
  unfolding tlb_search_def
  by (rule find_cong) (use assms tlbp_match_eq in auto)

text \<open>An address belongs to EntryHi when it agrees with it in region and virtual page number.\<close>

definition named_by :: "u64 \<Rightarrow> u64 \<Rightarrow> bool" where
  "named_by hi va \<longleftrightarrow> cp0_write_mask CPR0_ENTRYHI va AND NOT 0xff = hi AND NOT 0xff"

lemma named_by_match:
  assumes "named_by hi va" "wf_hi hi"
  shows "tlb_match va asid e = tlb_match hi asid e"
proof -
  have eq: "bit va n = bit hi n" if "13 \<le> n \<and> n < 40 \<or> 62 \<le> n" for n
  proof (cases "n < 64")
    case True
    then have "bit (cp0_write_mask CPR0_ENTRYHI va) n = bit hi n"
      using assms(1) that unfolding named_by_def and_mask_eq_iff hi_masks(3) by (auto simp: bit_simps)
    then show ?thesis using that by (simp add: bit_write_mask_hi)
  qed (use bit_imp_le_length [of va n] bit_imp_le_length [of hi n] in auto)
  have "va AND (NOT (entry_pm e OR 0x1fff) AND 0x000000ffffffe000)
      = hi AND (NOT (entry_pm e OR 0x1fff) AND 0x000000ffffffe000)"
    unfolding hi_masks(2) by (rule bit_word_eqI) (use eq in \<open>auto simp: bit_simps less_diff_conv2\<close>)
  moreover have "drop_bit 62 va AND 0x3 = drop_bit 62 hi AND 0x3"
    unfolding hi_masks(5) by (rule bit_word_eqI) (use eq in \<open>auto simp: bit_simps\<close>)
  ultimately show ?thesis by (simp add: tlb_match_def Let_def)
qed

text \<open>What a translation does by the entry it uses: an invalid page, a store to a clean page, or
  the physical address with the cacheability of the page.\<close>

definition by_entry :: "u64 \<Rightarrow> tlb_op \<Rightarrow> tlb_entry_t \<Rightarrow> 'd state_t \<Rightarrow> u32 \<times> 'd state_t" where
  "by_entry va op e s =
     (let lo = entry_lo_of va e in
      if \<not> bit lo 1 then (0, raise_tlb va (if op = op_store then 3 else 2) False (\<not> compat_va va) s)
      else if op = op_store \<and> \<not> bit lo 2 then (0, raise_tlb va 1 False (\<not> compat_va va) s)
      else (ucast (entry_pa va e), set_cache_active (drop_bit 3 lo AND 7 = 3 \<and> op \<noteq> op_fetch) s))"

lemma flag_vd: "flag x 0x2 \<longleftrightarrow> bit x 1" "flag x 0x4 \<longleftrightarrow> bit x 2" for x :: u64
  using flag_single_bit [of x 1] flag_single_bit [of x 2] by simp_all

lemma keep_utlb: "g_utlb t = u \<Longrightarrow> t\<lparr>g_utlb := u\<rparr> = t"
  by (erule subst) simp

lemma raise_tlb_keep_utlb [simp]: "(raise_tlb va c r x s)\<lparr>g_utlb := g_utlb s\<rparr> = raise_tlb va c r x s"
  by (rule keep_utlb) simp

lemma cam_by_entry:
  assumes "tlb_search tlb_match va (cur_asid_of s) (tlb s) = Some i" "\<not> cache_active (sys s)"
  shows "fst (va_translate_cam va op s) = fst (by_entry va op (tlb s i) s)"
    "(snd (va_translate_cam va op s))\<lparr>g_utlb := g_utlb s\<rparr> = snd (by_entry va op (tlb s i) s)"
proof -
  have [simp]: "set_cache_active False s = s" using assms(2) by (simp add: set_cache_active_def)
  show "fst (va_translate_cam va op s) = fst (by_entry va op (tlb s i) s)"
    "(snd (va_translate_cam va op s))\<lparr>g_utlb := g_utlb s\<rparr> = snd (by_entry va op (tlb s i) s)"
    using assms(1) by (auto simp: va_translate_cam_def by_entry_def Let_def flag_vd)
qed

lemma tlbp_index:
  assumes "wf_hi (cpr0_64 s CPR0_ENTRYHI)" "\<forall>i < NUM_TLB_ENTRIES. wf_entry (tlb s i)"
  shows "case tlb_search tlb_match (cpr0_64 s CPR0_ENTRYHI) (cur_asid_of s) (tlb s) of
      Some i \<Rightarrow> cpr0 (tlbp s) CPR0_INDEX = of_nat i \<and> i < NUM_TLB_ENTRIES \<and>
        \<not> bit (cpr0 (tlbp s) CPR0_INDEX) 31
    | None \<Rightarrow> bit (cpr0 (tlbp s) CPR0_INDEX) 31"
proof (cases "tlb_search tlb_match (cpr0_64 s CPR0_ENTRYHI) (cur_asid_of s) (tlb s)")
  case None
  have "bit (x OR push_bit 31 1) 31" for x :: u32 by (simp only: bit_or_iff bit_push_bit_iff) simp
  with None show ?thesis
    using tlbp_search_eq [OF assms, of "cur_asid_of s"]
    by (simp add: tlbp_def Let_def cur_asid_of_def set_cpr0_def)
next
  case (Some i)
  then have i: "i < NUM_TLB_ENTRIES"
    by (auto simp: tlb_search_def find_Some_iff)
  have "\<not> bit i 31" using i by (simp add: bit_iff_odd NUM_TLB_ENTRIES_def)
  then have "\<not> bit (of_nat i :: u32) 31" by (simp add: bit_of_nat_iff)
  with Some i show ?thesis
    using tlbp_search_eq [OF assms, of "cur_asid_of s"]
    by (simp add: tlbp_def Let_def cur_asid_of_def set_cpr0_def)
qed

lemma small_page:
  assumes "page_mask e = 0"
  shows "entry_lo_of va e = (if bit va 12 then entry_lo1 e else entry_lo0 e)"
    and "entry_pa va e = push_bit 12 (drop_bit 6 (entry_lo_of va e) AND 0xfffffff) OR (va AND 0xfff)"
proof -
  have "sel_bit e = 0x1000" "off_mask e = 0xfff"
    using assms by (simp_all add: sel_bit_def off_mask_def pair_mask_def entry_pm_def)
  moreover have "va AND 0x1000 \<noteq> 0 \<longleftrightarrow> bit va 12"
    using flag_single_bit [of va 12] by (simp add: flag_def)
  ultimately show "entry_lo_of va e = (if bit va 12 then entry_lo1 e else entry_lo0 e)"
    "entry_pa va e = push_bit 12 (drop_bit 6 (entry_lo_of va e) AND 0xfffffff) OR (va AND 0xfff)"
    by (simp_all add: entry_lo_of_def entry_pa_def)
qed

text \<open>C32.  TLBP agrees with translation.  Let the TLB entries and EntryHi be well formed (what the write
  masks of CP0 guarantee) and the micro-TLB sound, and take any address of a mapped segment with the region and the
  virtual page number of EntryHi.  If TLBP reports failure (bit 31 of Index), a fetch, load or store of the
  address under the current ASID takes the refill exception; otherwise Index names one of the 48 entries, and
  the translation goes by exactly that entry: its physical page and cacheability, or the invalid or
  modified exception of that page.  The micro-TLB contents apart, this is the whole resulting state.\<close>

theorem tlbp_agrees_with_translation:
  assumes "wf_hi (cpr0_64 s CPR0_ENTRYHI)" "\<forall>i < NUM_TLB_ENTRIES. wf_entry (tlb s i)"
    and "utlb_sound s" "unmapped_pa va = None" "named_by (cpr0_64 s CPR0_ENTRYHI) va"
  shows "let idx = cpr0 (tlbp s) CPR0_INDEX; r = va_translate va op s; s0 = set_cache_active False s;
             res = (fst r, (snd r)\<lparr>g_utlb := g_utlb s\<rparr>) in
    if bit idx 31 then res = (0, raise_tlb va (if op = op_store then 3 else 2) True (\<not> compat_va va) s0)
    else unat idx < NUM_TLB_ENTRIES \<and> res = by_entry va op (tlb s (unat idx)) s0"
proof -
  let ?s0 = "set_cache_active False s"
  note tr = mapped_translate [OF assms(3,4), of op]
  have search: "tlb_search tlb_match va (cur_asid_of ?s0) (tlb ?s0)
      = tlb_search tlb_match (cpr0_64 s CPR0_ENTRYHI) (cur_asid_of s) (tlb s)"
    unfolding tlb_search_def by (simp add: named_by_match [OF assms(5,1)])
  show ?thesis
  proof (cases "tlb_search tlb_match va (cur_asid_of ?s0) (tlb ?s0)")
    case None
    have "(raise_tlb va c r x ?s0)\<lparr>g_utlb := g_utlb s\<rparr> = raise_tlb va c r x ?s0" for c r x
      by (rule keep_utlb) simp
    moreover have "bit (cpr0 (tlbp s) CPR0_INDEX) 31"
      using tlbp_index [OF assms(1,2), folded search] unfolding None by simp
    ultimately show ?thesis
      using None tr(1,2) by (simp add: Let_def va_translate_cam_def)
  next
    case (Some i)
    have "\<not> cache_active (sys ?s0)" by (simp add: set_cache_active_def)
    note e = cam_by_entry [OF Some this, of op]
    have i: "cpr0 (tlbp s) CPR0_INDEX = of_nat i" "i < NUM_TLB_ENTRIES" "\<not> bit (cpr0 (tlbp s) CPR0_INDEX) 31"
      using tlbp_index [OF assms(1,2), folded search] unfolding Some option.case by blast+
    have "unat (of_nat i :: u32) = i" using i(2) by (simp add: unat_of_nat NUM_TLB_ENTRIES_def)
    then show ?thesis
      using i e tr(1,2) by (simp add: Let_def prod_eq_iff)
  qed
qed

theorem tlbp_agrees_with_translation_witness:
  "fst (va_translate 0x2345 op_load ((state_zero (io_init ()))\<lparr>tlb := (\<lambda>_. \<lparr>entry_hi = 0x2000, entry_lo0 = 0x1046,
     entry_lo1 = 0, page_mask = 0\<rparr>), cpr0_64 := (\<lambda>_. 0)(CPR0_ENTRYHI := 0x2000)\<rparr>)) = 0x41345"
proof -
  let ?e = "\<lparr>entry_hi = 0x2000, entry_lo0 = 0x1046, entry_lo1 = 0, page_mask = 0\<rparr>"
  let ?s = "(state_zero (io_init ()))\<lparr>tlb := (\<lambda>_. ?e), cpr0_64 := (\<lambda>_. 0)(CPR0_ENTRYHI := 0x2000)\<rparr>"
  have "wf_hi (cpr0_64 ?s CPR0_ENTRYHI)" "\<forall>i < NUM_TLB_ENTRIES. wf_entry (tlb ?s i)"
    "named_by (cpr0_64 ?s CPR0_ENTRYHI) 0x2345" "unmapped_pa 0x2345 = None"
    by (simp_all add: wf_hi_def wf_entry_def cp0_write_mask_def named_by_def unmapped_pa_def compat_va_def)
  moreover have "utlb_sound ?s" by (simp add: utlb_sound_def state_zero_def utlb_probe_def split_def)
  moreover have "\<not> bit (cpr0 (tlbp ?s) CPR0_INDEX) 31" by code_simp
  moreover have "fst (by_entry 0x2345 op_load ?e (set_cache_active False ?s)) = 0x41345"
    by (simp add: by_entry_def small_page bit_iff_odd)
  ultimately show ?thesis
    using tlbp_agrees_with_translation [of ?s "0x2345" op_load] by (simp add: Let_def prod_eq_iff)
qed

section \<open>Refill\<close>

lemma fault_state_entryhi:
  "cpr0_64 (tlb_set_fault_state va s) CPR0_ENTRYHI =
     push_bit 62 (drop_bit 62 va AND 0x3) OR push_bit 13 (drop_bit 13 va AND 0x7ffffff)
       OR (cpr0_64 s CPR0_ENTRYHI AND 0xff)"
  by (simp add: tlb_set_fault_state_def Let_def reg_defs)

lemma raise_tlb_entryhi:
  "cpr0_64 (raise_tlb va c r x s) CPR0_ENTRYHI = cpr0_64 (tlb_set_fault_state va s) CPR0_ENTRYHI"
  by (simp add: raise_tlb_def Let_def reg_defs set_exc_pc_frame0)

lemma bit_fault_entryhi:
  "bit (cpr0_64 (tlb_set_fault_state va s) CPR0_ENTRYHI) n \<longleftrightarrow>
     (if n < 8 then bit (cpr0_64 s CPR0_ENTRYHI) n
      else (13 \<le> n \<and> n < 40 \<or> 62 \<le> n) \<and> bit va n)"
proof -
  have m: "(0x7ffffff :: u64) = mask 27" by (simp add: mask_eq_exp_minus_1)
  show ?thesis
    unfolding fault_state_entryhi hi_masks m by (auto simp: bit_simps dest: bit_imp_le_length)
qed

text \<open>The EntryHi a TLB exception leaves is well formed, keeps the ASID, and an entry
  written with it and a 4 KB page mask matches the faulting address.\<close>

lemma fault_entryhi_wf: "wf_hi (cpr0_64 (tlb_set_fault_state va s) CPR0_ENTRYHI)"
  unfolding wf_hi_def
  by (rule bit_word_eqI) (auto simp: bit_write_mask_hi bit_fault_entryhi)

lemma fault_entryhi_asid:
  "cpr0_64 (tlb_set_fault_state va s) CPR0_ENTRYHI AND 0xff = cur_asid_of s"
  unfolding cur_asid_of_def hi_masks
  by (rule bit_word_eqI) (auto simp: bit_fault_entryhi bit_simps)

lemma fault_entryhi_match:
  assumes "entry_hi e = cpr0_64 (tlb_set_fault_state va s) CPR0_ENTRYHI" "page_mask e = 0"
  shows "tlb_match va (cur_asid_of s) e"
proof -
  have "va AND (NOT (entry_pm e OR 0x1fff) AND 0x000000ffffffe000)
      = entry_hi e AND (NOT (entry_pm e OR 0x1fff) AND 0x000000ffffffe000)"
    unfolding assms(1) hi_masks mask13
    by (rule bit_word_eqI) (auto simp: bit_fault_entryhi bit_simps)
  moreover have "drop_bit 62 va AND 0x3 = drop_bit 62 (entry_hi e) AND 0x3"
    unfolding assms(1) hi_masks
    by (rule bit_word_eqI) (auto simp: bit_fault_entryhi bit_simps)
  ultimately show ?thesis
    using fault_entryhi_asid [of va s] by (simp add: tlb_match_def Let_def assms(1))
qed

lemma search_after_write:
  assumes "tlb_search m va asid t = None" "m va asid e" "idx < NUM_TLB_ENTRIES"
  shows "tlb_search m va asid (t(idx := e)) = Some idx"
proof -
  have none: "\<not> m va asid (t i)" if "i < NUM_TLB_ENTRIES" for i
    using assms(1) that by (auto simp: tlb_search_def find_None_iff)
  show ?thesis
    unfolding tlb_search_def find_Some_iff
    by (rule exI [of _ idx]) (use assms none in auto)
qed

text \<open>The refill handler's write, from the staging registers the exception left: it loads
  EntryLo0 and EntryLo1, selects 4 KB pages and writes the entry.\<close>

definition refill_write :: "nat \<Rightarrow> u64 \<Rightarrow> u64 \<Rightarrow> 'd state_t \<Rightarrow> 'd result" where
  "refill_write idx lo0 lo1 s =
     tlb_write idx (s\<lparr>cpr0_64 := (cpr0_64 s)(CPR0_ENTRYLO0 := lo0, CPR0_ENTRYLO1 := lo1),
                      cpr0 := (cpr0 s)(CPR0_PAGEMASK := 0)\<rparr>)"

text \<open>C33.  A TLB refill makes progress: after a refill exception on an address, writing any
  TLB slot from the staged EntryHi with the 4 KB page mask and a valid (and, for a store, dirty) page makes the
  retried access translate to that page without any exception.\<close>

theorem refill_then_retry:
  assumes "unmapped_pa va = None" "tlb_search tlb_match va (cur_asid_of s) (tlb s) = None"
    and w: "refill_write idx lo0 lo1 (raise_tlb va code True x s) = Inr t" "idx < NUM_TLB_ENTRIES"
    and lo: "lo = (if bit va 12 then lo1 else lo0)" "bit lo 1" "op = op_store \<Longrightarrow> bit lo 2"
  shows "fst (va_translate va op t) =
      ucast (push_bit 12 (drop_bit 6 lo AND 0xfffffff) OR (va AND 0xfff)) \<and>
    tlb_fault (snd (va_translate va op t)) = tlb_fault t \<and> pc (snd (va_translate va op t)) = pc t \<and>
    cpr0 (snd (va_translate va op t)) = cpr0 t"
proof -
  let ?e = "\<lparr>entry_hi = cpr0_64 (tlb_set_fault_state va s) CPR0_ENTRYHI, entry_lo0 = lo0,
    entry_lo1 = lo1, page_mask = 0\<rparr>"
  have t: "tlb t = (tlb s)(idx := ?e)" "utlb_probe (g_utlb t) k = None"
      "cpr0_64 t CPR0_ENTRYHI = cpr0_64 (tlb_set_fault_state va s) CPR0_ENTRYHI" for k
    using w by (auto simp: refill_write_def tlb_write_def staged_entry_def raise_tlb_entryhi
        ut.probe_flush split: if_splits)
  have asid: "cur_asid_of t = cur_asid_of s"
    unfolding cur_asid_of_def t(3) using fault_entryhi_asid [of va s] by (simp add: cur_asid_of_def)
  have "tlb_match va (cur_asid_of s) ?e" by (rule fault_entryhi_match) simp_all
  then have search: "tlb_search tlb_match va (cur_asid_of s) (tlb t) = Some idx"
    unfolding t(1) by (rule search_after_write [OF assms(2) _ w(2)])
  have elo: "entry_lo_of va ?e = lo" using lo(1) by (simp add: small_page(1))
  have d: "(op = op_store \<and> \<not> bit lo 2) = False" using lo(3) by blast
  show ?thesis
    using assms(1) search lo(2) elo small_page(2) [of ?e va]
    by (simp add: d va_translate_def Let_def t(2) va_translate_cam_def asid t(1) flag_vd)
qed

theorem refill_then_retry_witness:
  "fst (va_translate 0x3abc op_store (projr (refill_write 7 0 0x1046
      (raise_tlb 0x3abc 3 True False (state_zero (io_init ())))))) = 0x41abc"
proof -
  let ?s = "state_zero (io_init ())"
  obtain t where t: "refill_write 7 0 0x1046 (raise_tlb 0x3abc 3 True False ?s) = Inr t"
    by (simp add: refill_write_def tlb_write_def NUM_TLB_ENTRIES_def valid_page_mask_def)
  have "unmapped_pa 0x3abc = None" by (simp add: unmapped_pa_def compat_va_def)
  moreover have "tlb_search tlb_match 0x3abc (cur_asid_of ?s) (tlb ?s) = None"
    by (simp add: tlb_search_def find_None_iff tlb_match_def state_zero_def entry_pm_def)
  ultimately show ?thesis
    using refill_then_retry [OF _ _ t, of "0x1046" op_store] t by (simp add: NUM_TLB_ENTRIES_def)
qed

end
