(* ===== verification/Load_Store.thy ===== *)
theory Load_Store
  imports TLB_Instructions
begin

text \<open>
  The integer loads and stores of src/interpret.cc, in the big-endian instance
  the program uses: aligned accesses with their address errors, LL/SC, and the
  unaligned pairs LWL/LWR, SWL/SWR, LDL/LDR and SDL/SDR.  Each handler
  translates first, stops on a TLB exception, checks alignment of the physical
  address and only then touches memory and registers.

  What they read and write is stated in the theories Memory_View, Unaligned and
  Access_Properties.
\<close>

section \<open>Access helpers\<close>

definition mem_get :: "'d env \<Rightarrow> nat \<Rightarrow> u32 \<Rightarrow> 'd state_t \<Rightarrow> u64 \<times> 'd state_t" where
  "mem_get E n ea s =
     (let (v, io1) = get_T (devops E) (view_of s) n ea (sys s) in (v, s\<lparr>sys := io1\<rparr>))"

definition mem_set :: "'d env \<Rightarrow> nat \<Rightarrow> u32 \<Rightarrow> u64 \<Rightarrow> 'd state_t \<Rightarrow> 'd state_t" where
  "mem_set E n ea v s = s\<lparr>sys := set_T (devops E) (view_of s) n ea v (sys s)\<rparr>"

text \<open>\<^verbatim>\<open>uint32_t ea = va_translate(...); if(s->tlb_fault) return;\<close>\<close>

definition with_ea :: "tlb_op \<Rightarrow> u64 \<Rightarrow> (u32 \<Rightarrow> 'd state_t \<Rightarrow> 'd state_t) \<Rightarrow> 'd state_t \<Rightarrow> 'd state_t" where
  "with_ea op va k s = (let (ea, s1) = va_translate va op s in if tlb_fault s1 then s1 else k ea s1)"

definition eff_va :: "u32 \<Rightarrow> 'd state_t \<Rightarrow> u64" where
  "eff_va inst s = gpr s (f_rs inst) + f_simm inst"

section \<open>Aligned accesses\<close>

definition lw :: "'d env \<Rightarrow> u32 \<Rightarrow> 'd state_t \<Rightarrow> 'd state_t" where
  "lw E inst s = with_ea op_load (eff_va inst s) (\<lambda>ea s.
     if ea AND 3 \<noteq> 0 then raise_adel s
     else let (v, s) = mem_get E 4 ea s
          in pc4 (set_gpr (f_rt inst) (sext32 (ucast (bswap 4 v))) s)) s"

definition lwu :: "'d env \<Rightarrow> u32 \<Rightarrow> 'd state_t \<Rightarrow> 'd state_t" where
  "lwu E inst s = with_ea op_load (eff_va inst s) (\<lambda>ea s.
     if ea AND 3 \<noteq> 0 then raise_adel s
     else let (v, s) = mem_get E 4 ea s
          in pc4 (set_gpr (f_rt inst) (ucast (ucast (bswap 4 v) :: u32)) s)) s"

definition lh :: "'d env \<Rightarrow> u32 \<Rightarrow> 'd state_t \<Rightarrow> 'd state_t" where
  "lh E inst s = with_ea op_load (eff_va inst s) (\<lambda>ea s.
     if ea AND 1 \<noteq> 0 then raise_adel s
     else let (v, s) = mem_get E 2 ea s
          in pc4 (set_gpr (f_rt inst) (sext16 (ucast (bswap 2 v))) s)) s"

definition lb :: "'d env \<Rightarrow> u32 \<Rightarrow> 'd state_t \<Rightarrow> 'd state_t" where
  "lb E inst s = with_ea op_load (eff_va inst s) (\<lambda>ea s.
     let (v, s) = mem_get E 1 ea s in pc4 (set_gpr (f_rt inst) (sext8 (ucast v)) s)) s"

definition lbu :: "'d env \<Rightarrow> u32 \<Rightarrow> 'd state_t \<Rightarrow> 'd state_t" where
  "lbu E inst s = with_ea op_load (eff_va inst s) (\<lambda>ea s.
     let (v, s) = mem_get E 1 ea s in pc4 (set_gpr (f_rt inst) (ucast (ucast v :: u8)) s)) s"

definition lhu :: "'d env \<Rightarrow> u32 \<Rightarrow> 'd state_t \<Rightarrow> 'd state_t" where
  "lhu E inst s = with_ea op_load (eff_va inst s) (\<lambda>ea s.
     if ea AND 1 \<noteq> 0 then raise_adel s
     else let (v, s) = mem_get E 2 ea s
          in pc4 (set_gpr (f_rt inst) (ucast (ucast (bswap 2 v) :: u16)) s)) s"

definition sw :: "'d env \<Rightarrow> u32 \<Rightarrow> 'd state_t \<Rightarrow> 'd state_t" where
  "sw E inst s = with_ea op_store (eff_va inst s) (\<lambda>ea s.
     if ea AND 3 \<noteq> 0 then raise_ades s
     else pc4 (mem_set E 4 ea (bswap 4 (gpr s (f_rt inst))) s)) s"

definition sd :: "'d env \<Rightarrow> u32 \<Rightarrow> 'd state_t \<Rightarrow> 'd state_t" where
  "sd E inst s = with_ea op_store (eff_va inst s) (\<lambda>ea s.
     if ea AND 7 \<noteq> 0 then raise_ades s
     else pc4 (mem_set E 8 ea (bswap 8 (gpr s (f_rt inst))) s)) s"

definition ld :: "'d env \<Rightarrow> u32 \<Rightarrow> 'd state_t \<Rightarrow> 'd state_t" where
  "ld E inst s = with_ea op_load (eff_va inst s) (\<lambda>ea s.
     if ea AND 7 \<noteq> 0 then raise_adel s
     else let (v, s) = mem_get E 8 ea s in pc4 (set_gpr (f_rt inst) (bswap 8 v) s)) s"

definition sh :: "'d env \<Rightarrow> u32 \<Rightarrow> 'd state_t \<Rightarrow> 'd state_t" where
  "sh E inst s = with_ea op_store (eff_va inst s) (\<lambda>ea s.
     if ea AND 1 \<noteq> 0 then raise_ades s
     else pc4 (mem_set E 2 ea (sext16 (ucast (bswap 2 (gpr s (f_rt inst))))) s)) s"

definition sb :: "'d env \<Rightarrow> u32 \<Rightarrow> 'd state_t \<Rightarrow> 'd state_t" where
  "sb E inst s = with_ea op_store (eff_va inst s) (\<lambda>ea s.
     pc4 (mem_set E 1 ea (ucast (ucast (gpr s (f_rt inst)) :: u8)) s)) s"

text \<open>Store conditional stores only while the reservation is armed.\<close>

definition sc :: "'d env \<Rightarrow> u32 \<Rightarrow> 'd state_t \<Rightarrow> 'd state_t" where
  "sc E inst s = with_ea op_store (eff_va inst s) (\<lambda>ea s.
     let s1 = (if ll_armed s then mem_set E 4 ea (bswap 4 (gpr s (f_rt inst))) s else s)
     in pc4 (set_gpr (f_rt inst) (if ll_armed s1 then 1 else 0) s1)) s"

definition scd :: "'d env \<Rightarrow> u32 \<Rightarrow> 'd state_t \<Rightarrow> 'd state_t" where
  "scd E inst s = with_ea op_store (eff_va inst s) (\<lambda>ea s.
     let s1 = (if ll_armed s then mem_set E 8 ea (bswap 8 (gpr s (f_rt inst))) s else s)
     in pc4 (set_gpr (f_rt inst) (if ll_armed s1 then 1 else 0) s1)) s"

section \<open>Unaligned accesses\<close>

text \<open>The merges, on the big-endian value r of the aligned word and the register x.\<close>

definition swl_val :: "u32 \<Rightarrow> u32 \<Rightarrow> nat \<Rightarrow> u32" where
  "swl_val r x ma =
     (let xs = drop_bit (8 * ma) x;
          m = ucast (NOT ((push_bit (8 * (4 - ma)) 1 :: u64) - 1)) :: u32
      in (r AND m) OR xs)"

definition swr_val :: "u32 \<Rightarrow> u32 \<Rightarrow> nat \<Rightarrow> u32" where
  "swr_val r x ma =
     (let xs = 8 * (3 - ma); rm = push_bit xs 1 - 1 in push_bit xs x OR (rm AND r))"

definition lwl_val :: "u32 \<Rightarrow> u64 \<Rightarrow> nat \<Rightarrow> u64" where
  "lwl_val r x ma = (let x32 = (ucast x :: u32) in
     if ma = 0 then sext64 r
     else if ma = 1 then sext64 (push_bit 8 (r AND 0x00ffffff) OR (x32 AND 0x000000ff))
     else if ma = 2 then sext64 (push_bit 16 (r AND 0x0000ffff) OR (x32 AND 0x0000ffff))
     else sext64 (push_bit 24 (r AND 0x00ffffff) OR (x32 AND 0x00ffffff)))"

definition lwr_val :: "u32 \<Rightarrow> u64 \<Rightarrow> nat \<Rightarrow> u64" where
  "lwr_val r x ma = (let x32 = (ucast x :: u32) in
     if ma = 0 then sext64 ((x32 AND 0xffffff00) OR drop_bit 24 r)
     else if ma = 1 then sext64 ((x32 AND 0xffff0000) OR drop_bit 16 r)
     else if ma = 2 then sext64 ((x32 AND 0xff000000) OR drop_bit 8 r)
     else sext64 r)"

definition ldl_val :: "u64 \<Rightarrow> u64 \<Rightarrow> nat \<Rightarrow> u64" where
  "ldl_val r x ma =
     (if ma = 0 then r
      else if ma = 1 then push_bit 8 (r AND 0x00ffffffffffffff) OR (x AND 0xff)
      else if ma = 2 then push_bit 16 (r AND 0x0000ffffffffffff) OR (x AND 0xffff)
      else if ma = 3 then push_bit 24 (r AND 0x000000ffffffffff) OR (x AND 0xffffff)
      else if ma = 4 then push_bit 32 (r AND 0x00000000ffffffff) OR (x AND 0xffffffff)
      else if ma = 5 then push_bit 40 (r AND 0x0000000000ffffff) OR (x AND 0xffffffffff)
      else if ma = 6 then push_bit 48 (r AND 0x000000000000ffff) OR (x AND 0xffffffffffff)
      else push_bit 56 (r AND 0x00000000000000ff) OR (x AND 0x00ffffffffffffff))"

definition ldr_val :: "u64 \<Rightarrow> u64 \<Rightarrow> nat \<Rightarrow> u64" where
  "ldr_val r x ma =
     (if ma = 0 then (x AND 0xffffffffffffff00) OR drop_bit 56 r
      else if ma = 1 then (x AND 0xffffffffffff0000) OR drop_bit 48 r
      else if ma = 2 then (x AND 0xffffffffff000000) OR drop_bit 40 r
      else if ma = 3 then (x AND 0xffffffff00000000) OR drop_bit 32 r
      else if ma = 4 then (x AND 0xffffff0000000000) OR drop_bit 24 r
      else if ma = 5 then (x AND 0xffff000000000000) OR drop_bit 16 r
      else if ma = 6 then (x AND 0xff00000000000000) OR drop_bit 8 r
      else r)"

definition sdl_val :: "u64 \<Rightarrow> u64 \<Rightarrow> nat \<Rightarrow> u64" where
  "sdl_val r x ma =
     (let xs = drop_bit (8 * ma) x;
          m = (if ma = 0 then 0 else - push_bit (8 * (8 - ma)) 1)
      in (r AND m) OR xs)"

definition sdr_val :: "u64 \<Rightarrow> u64 \<Rightarrow> nat \<Rightarrow> u64" where
  "sdr_val r x ma =
     (let xs_bits = 8 * (7 - ma);
          rm = (if xs_bits = 0 then 0 else push_bit xs_bits 1 - 1)
      in push_bit xs_bits x OR (rm AND r))"

definition swl :: "'d env \<Rightarrow> u32 \<Rightarrow> 'd state_t \<Rightarrow> 'd state_t" where
  "swl E inst s = with_ea op_store (eff_va inst s) (\<lambda>ea s.
     let ma = unat (ea AND 3); ea = ea AND 0xfffffffc;
         (v, s) = mem_get E 4 ea s;
         xx = swl_val (ucast (bswap 4 v)) (ucast (gpr s (f_rt inst))) ma
     in pc4 (mem_set E 4 ea (bswap 4 (ucast xx)) s)) s"

definition swr :: "'d env \<Rightarrow> u32 \<Rightarrow> 'd state_t \<Rightarrow> 'd state_t" where
  "swr E inst s = with_ea op_store (eff_va inst s) (\<lambda>ea s.
     let ma = unat (ea AND 3); ea = ea AND NOT 3;
         (v, s) = mem_get E 4 ea s;
         xx = swr_val (ucast (bswap 4 v)) (ucast (gpr s (f_rt inst))) ma
     in pc4 (mem_set E 4 ea (bswap 4 (ucast xx)) s)) s"

definition lwl :: "'d env \<Rightarrow> u32 \<Rightarrow> 'd state_t \<Rightarrow> 'd state_t" where
  "lwl E inst s = with_ea op_load (eff_va inst s) (\<lambda>ea s.
     let ma = unat (ea AND 3); ea = ea AND 0xfffffffc; (v, s) = mem_get E 4 ea s
     in pc4 (set_gpr (f_rt inst) (lwl_val (ucast (bswap 4 v)) (gpr s (f_rt inst)) ma) s)) s"

definition lwr :: "'d env \<Rightarrow> u32 \<Rightarrow> 'd state_t \<Rightarrow> 'd state_t" where
  "lwr E inst s = with_ea op_load (eff_va inst s) (\<lambda>ea s.
     let ma = unat (ea AND 3); ea = ea AND 0xfffffffc; (v, s) = mem_get E 4 ea s
     in pc4 (set_gpr (f_rt inst) (lwr_val (ucast (bswap 4 v)) (gpr s (f_rt inst)) ma) s)) s"

definition ldl :: "'d env \<Rightarrow> u32 \<Rightarrow> 'd state_t \<Rightarrow> 'd state_t" where
  "ldl E inst s = with_ea op_load (eff_va inst s) (\<lambda>ea s.
     let ma = unat (ea AND 7); ea = ea AND NOT 7; (v, s) = mem_get E 8 ea s
     in pc4 (set_gpr (f_rt inst) (ldl_val (bswap 8 v) (gpr s (f_rt inst)) ma) s)) s"

definition ldr :: "'d env \<Rightarrow> u32 \<Rightarrow> 'd state_t \<Rightarrow> 'd state_t" where
  "ldr E inst s = with_ea op_load (eff_va inst s) (\<lambda>ea s.
     let ma = unat (ea AND 7); ea = ea AND NOT 7; (v, s) = mem_get E 8 ea s
     in pc4 (set_gpr (f_rt inst) (ldr_val (bswap 8 v) (gpr s (f_rt inst)) ma) s)) s"

definition sdl :: "'d env \<Rightarrow> u32 \<Rightarrow> 'd state_t \<Rightarrow> 'd state_t" where
  "sdl E inst s = with_ea op_store (eff_va inst s) (\<lambda>ea s.
     let ma = unat (ea AND 7); ea = ea AND NOT 7;
         (v, s) = mem_get E 8 ea s;
         merged = sdl_val (bswap 8 v) (gpr s (f_rt inst)) ma
     in pc4 (mem_set E 8 ea (bswap 8 merged) s)) s"

definition sdr :: "'d env \<Rightarrow> u32 \<Rightarrow> 'd state_t \<Rightarrow> 'd state_t" where
  "sdr E inst s = with_ea op_store (eff_va inst s) (\<lambda>ea s.
     let ma = unat (ea AND 7); ea = ea AND NOT 7;
         (v, s) = mem_get E 8 ea s;
         merged = sdr_val (bswap 8 v) (gpr s (f_rt inst)) ma
     in pc4 (mem_set E 8 ea (bswap 8 merged) s)) s"

text \<open>LL, LLD, SC and SCD as \<^verbatim>\<open>execMips\<close> dispatches them: a load that arms the reservation,
  and a conditional store that disarms it.\<close>

definition ll_exec :: "'d env \<Rightarrow> u32 \<Rightarrow> 'd state_t \<Rightarrow> 'd state_t" where
  "ll_exec E inst s = (let s1 = lw E inst s in if \<not> tlb_fault s1 then s1\<lparr>ll_armed := True\<rparr> else s1)"

definition lld_exec :: "'d env \<Rightarrow> u32 \<Rightarrow> 'd state_t \<Rightarrow> 'd state_t" where
  "lld_exec E inst s = (let s1 = ld E inst s in if \<not> tlb_fault s1 then s1\<lparr>ll_armed := True\<rparr> else s1)"

definition sc_exec :: "'d env \<Rightarrow> u32 \<Rightarrow> 'd state_t \<Rightarrow> 'd state_t" where
  "sc_exec E inst s = (sc E inst s)\<lparr>ll_armed := False\<rparr>"

definition scd_exec :: "'d env \<Rightarrow> u32 \<Rightarrow> 'd state_t \<Rightarrow> 'd state_t" where
  "scd_exec E inst s = (scd E inst s)\<lparr>ll_armed := False\<rparr>"

section \<open>Big-endian words of a byte memory\<close>

definition be_load :: "nat \<Rightarrow> bytes \<Rightarrow> u32 \<Rightarrow> u64" where
  "be_load n m a = bswap n (mem_load n m a)"

lemma be_load_bytes:
  "n \<le> 8 \<Longrightarrow> be_load n m a = le_val (rev (map (\<lambda>i. m (a + of_nat i)) [0..<n]))"
  using le_bytes_le_val [of "map (\<lambda>i. m (a + of_nat i)) [0..<n]"]
  by (simp add: be_load_def bswap_def mem_load_def)

lemma aligned_add:
  fixes b j :: "'a::len word"
  assumes "b AND mask k = 0" "j AND mask k = j"
  shows "(b + j) AND mask k = j" and "(b + j) AND NOT (mask k) = b"
proof -
  have b: "bit b n \<Longrightarrow> k \<le> n" for n
    using assms(1) by (metis bit_0_eq bit_and_iff bit_mask_iff bit_imp_le_length bot_apply bot_bool_def not_le
        possible_bit_word)
  have j: "bit j n \<Longrightarrow> n < k" for n
    using assms(2) by (metis bit_and_iff bit_mask_iff)
  have e: "b + j = b OR j"
    by (rule disjunctive_add_eq_or, rule bit_word_eqI) (use b j in \<open>force simp: bit_simps\<close>)
  show "(b + j) AND mask k = j" unfolding e
    by (rule bit_word_eqI) (use b j in \<open>force simp: bit_simps\<close>)
  show "(b + j) AND NOT (mask k) = b" unfolding e
    by (rule bit_word_eqI) (use b j in \<open>force simp: bit_simps\<close>)
qed

end
