(* ===== verification/Memory_View.thy ===== *)
theory Memory_View
  imports Load_Store
begin

text \<open>
  What a data access of the CPU reads and writes.  \<open>cpu_view\<close> is the byte the CPU sees at a physical
  address: through the write-back cache when the cache model is on and the access is cacheable,
  straight from DRAM otherwise, with the low-memory alias in both cases.  An aligned access that
  addresses no device reads and writes exactly the bytes of this view; a translation changes only
  which of the two views the access uses.
\<close>

section \<open>Bytes\<close>

definition byte_of :: "u64 \<Rightarrow> nat \<Rightarrow> u8" where
  "byte_of w i = ucast (drop_bit (8 * i) w)"

lemma bit_byte_of: "bit (byte_of w i) n \<longleftrightarrow> n < 8 \<and> bit w (8 * i + n)"
  by (auto simp: byte_of_def bit_simps)

lemma nth_le_bytes: "i < n \<Longrightarrow> le_bytes n v ! i = byte_of v i"
proof (induction n arbitrary: v i)
  case 0
  then show ?case by simp
next
  case (Suc n)
  then show ?case by (cases i) (simp_all add: byte_of_def add.commute)
qed

lemma step_simps [simp]:
  "gpr (set_gpr r v s) = (gpr s)(r := v)" "gpr (pc4 s) = gpr s"
  "tlb_fault (set_gpr r v s) = tlb_fault s" "tlb_fault (pc4 s) = tlb_fault s"
  "eff_va i (pc4 s) = eff_va i s" "eff_va i (set_cache_active b s) = eff_va i s"
  "r \<noteq> f_rs i \<Longrightarrow> eff_va i (set_gpr r v s) = eff_va i s"
  by (simp_all add: reg_defs eff_va_def)

section \<open>The view of the CPU\<close>

definition cached_access :: "'d io \<Rightarrow> bool" where
  "cached_access io0 \<longleftrightarrow> g_cmodel io0 \<noteq> None \<and> cache_active io0"

definition cpu_view :: "'d io \<Rightarrow> bytes" where
  "cpu_view io0 =
     (if cached_access io0 then cm_view (route_devices io0) (the (g_cmodel io0), mem io0)
      else dram_rd (route_devices io0) (mem io0))"

text \<open>No clean cache line is stale, if the access goes through the cache.\<close>

definition coherent :: "'d io \<Rightarrow> bool" where
  "coherent io0 \<longleftrightarrow> (cached_access io0 \<longrightarrow> io_inv io0)"

definition same_setup :: "'d io \<Rightarrow> 'd io \<Rightarrow> bool" where
  "same_setup io1 io0 \<longleftrightarrow> cache_active io1 = cache_active io0 \<and> route_devices io1 = route_devices io0 \<and>
     (g_cmodel io1 = None \<longleftrightarrow> g_cmodel io0 = None)"

lemma same_setup_trans: "same_setup io2 io1 \<Longrightarrow> same_setup io1 io0 \<Longrightarrow> same_setup io2 io0"
  by (simp add: same_setup_def)

lemma same_setup_plain: "same_setup io1 io0 \<Longrightarrow> plain_access a io1 = plain_access a io0"
  by (simp add: same_setup_def plain_access_def)

lemma cpu_view_raw:
  "get_raw_ptr (route_devices io0) x = get_raw_ptr (route_devices io0) y \<Longrightarrow> cpu_view io0 x = cpu_view io0 y"
  by (auto simp: cpu_view_def dram_rd_def intro: cm_view_raw)

text \<open>The n bytes of v are written at b, and at every other name of those cells; nothing else is.\<close>

definition stored :: "bool \<Rightarrow> nat \<Rightarrow> bytes \<Rightarrow> u32 \<Rightarrow> u64 \<Rightarrow> bytes \<Rightarrow> bool" where
  "stored rd n m b v m' \<longleftrightarrow>
     (\<forall>j < n. \<forall>x. get_raw_ptr rd x = get_raw_ptr rd (b + of_nat j) \<longrightarrow> m' x = byte_of v j) \<and>
     (\<forall>x. (\<forall>j < n. get_raw_ptr rd x \<noteq> get_raw_ptr rd (b + of_nat j)) \<longrightarrow> m' x = m x)"

lemma storedD:
  assumes "stored rd n m b v m'"
  shows "j < n \<Longrightarrow> get_raw_ptr rd x = get_raw_ptr rd (b + of_nat j) \<Longrightarrow> m' x = byte_of v j"
    and "(\<And>j. j < n \<Longrightarrow> get_raw_ptr rd x \<noteq> get_raw_ptr rd (b + of_nat j)) \<Longrightarrow> m' x = m x"
  using assms by (auto simp: stored_def)

section \<open>Aligned accesses\<close>

lemma raw_aligned:
  assumes "n \<in> {1, 2, 4, 8}" "unat b mod n = 0" "j < n"
  shows "get_raw_ptr rd (b + of_nat j) = get_raw_ptr rd b + of_nat j"
proof -
  have uj: "unat (of_nat j :: u32) = j" using assms by (auto simp: unat_of_nat)
  have "unat b + j < 2 ^ 32"
    using assms unsigned_less [of b, where 'a = nat] by (elim insertE; simp; presburger)
  then have "unat (b + of_nat j) = unat b + j"
    by (subst unat_add_lem [THEN iffD1]) (simp_all add: uj)
  moreover have "unat b < 0x80000 \<longleftrightarrow> unat b + j < 0x80000"
    using assms by (elim insertE; simp; presburger)
  ultimately have "b < 0x80000 \<longleftrightarrow> b + of_nat j < 0x80000"
    by (simp add: word_less_nat_alt)
  then show ?thesis by (simp add: get_raw_ptr_def mc_alias_def)
qed

definition aligned_plain :: "nat \<Rightarrow> u32 \<Rightarrow> 'd io \<Rightarrow> bool" where
  "aligned_plain n b io0 \<longleftrightarrow> n \<in> {1, 2, 4, 8} \<and> unat b mod n = 0 \<and> plain_access b io0"

lemma get_view:
  assumes "aligned_plain n b io0" "coherent io0" "get_T D vw n b io0 = (v, io1)"
  shows "v = mem_load n (cpu_view io0) b" "cpu_view io1 = cpu_view io0" "coherent io1" "same_setup io1 io0"
proof -
  let ?rd = "route_devices io0"
  have "v = mem_load n (cpu_view io0) b \<and> cpu_view io1 = cpu_view io0 \<and> coherent io1 \<and> same_setup io1 io0"
  proof (cases "cached_access io0")
    case False
    then have g: "v = mem_load n (mem io0) (get_raw_ptr ?rd b)" "io1 = io0"
      using assms get_T_uncached [of io0 b D vw n] by (auto simp: aligned_plain_def cached_access_def)
    have "mem_load n (mem io0) (get_raw_ptr ?rd b) = mem_load n (cpu_view io0) b"
      using raw_aligned [of n b _ ?rd] assms(1) False
      unfolding mem_load_def by (intro arg_cong [where f = le_val] map_cong)
        (auto simp: cpu_view_def dram_rd_def aligned_plain_def)
    with False g assms(2) show ?thesis by (simp add: coherent_def same_setup_def)
  next
    case True
    then obtain c where c: "g_cmodel io0 = Some c" "cache_active io0" by (auto simp: cached_access_def)
    obtain bs c' m' where cl: "cload ?rd (g_stale_detect io0) n b (c, mem io0) = (bs, c', m')"
      by (metis prod_cases3)
    have inv: "cm_inv ?rd (c, mem io0)" using assms(2) True c by (simp add: coherent_def io_inv_def)
    note l = cload_correct [OF inv, of "g_stale_detect io0" n b, unfolded cl fst_conv snd_conv]
    have "v = le_val bs" "io1 = io0\<lparr>g_cmodel := Some c', mem := m'\<rparr>"
      using assms(3) by (simp_all add: get_T_cached [OF c cl])
    with l c show ?thesis
      by (simp add: mem_load_def cpu_view_def cached_access_def coherent_def same_setup_def io_inv_def)
  qed
  then show "v = mem_load n (cpu_view io0) b" "cpu_view io1 = cpu_view io0" "coherent io1" "same_setup io1 io0"
    by simp_all
qed

lemma dram_stored:
  assumes "n \<in> {1, 2, 4, 8}" "unat b mod n = 0"
  shows "stored rd n (dram_rd rd m) b v (dram_rd rd (mem_store n m (get_raw_ptr rd b) v))"
proof -
  have n: "n \<le> 8" using assms(1) by auto
  have raw: "get_raw_ptr rd (b + of_nat j) = get_raw_ptr rd b + of_nat j" if "j < n" for j
    using raw_aligned [OF assms that] .
  have uj: "unat (of_nat j :: u32) = j" if "j < n" for j using that n by (simp add: unat_of_nat)
  have far: "\<not> unat (x - get_raw_ptr rd b) < n" if "\<And>j. j < n \<Longrightarrow> x \<noteq> get_raw_ptr rd b + of_nat j" for x
    using that [of "unat (x - get_raw_ptr rd b)"] by auto
  show ?thesis
    unfolding stored_def dram_rd_def mem_store_at [OF n]
    using raw uj far by (auto simp: nth_le_bytes)
qed

lemma set_view:
  assumes "aligned_plain n b io0" "coherent io0" and io1: "set_T D vw n b v io0 = io1"
  shows "stored (route_devices io0) n (cpu_view io0) b v (cpu_view io1)" "coherent io1" "same_setup io1 io0"
proof -
  let ?rd = "route_devices io0"
  have n: "n \<le> 8" using assms(1) by (auto simp: aligned_plain_def)
  have "stored ?rd n (cpu_view io0) b v (cpu_view io1) \<and> coherent io1 \<and> same_setup io1 io0"
  proof (cases "cached_access io0")
    case False
    then have "io1 = io0\<lparr>mem := mem_store n (mem io0) (get_raw_ptr ?rd b) v\<rparr>"
      using assms(1) set_T_uncached [of io0 b D vw n v] by (auto simp: aligned_plain_def cached_access_def simp flip: io1)
    moreover have "\<not> cached_access (io0\<lparr>mem := m\<rparr>)" for m using False by (simp add: cached_access_def)
    ultimately show ?thesis
      using False assms(1) dram_stored [of n b ?rd "mem io0" v]
      by (simp add: cpu_view_def coherent_def same_setup_def aligned_plain_def)
  next
    case True
    then obtain c where c: "g_cmodel io0 = Some c" "cache_active io0" by (auto simp: cached_access_def)
    obtain c' m' where cs: "cstore ?rd (le_bytes n v) b (c, mem io0) = (c', m')" by fastforce
    have inv: "cm_inv ?rd (c, mem io0)" using assms(2) True c by (simp add: coherent_def io_inv_def)
    have i: "cm_inv ?rd (c', m')" using cstore_inv [OF inv, of "le_bytes n v" b] by (simp add: cs)
    have vw: "cm_view ?rd (c', m') = cm_view ?rd (store_loop (cstore_byte ?rd) (le_bytes n v) b (c, mem io0))"
      using cstore_view [of ?rd "le_bytes n v" b "(c, mem io0)"] by (simp add: cs)
    have hit: "cm_view ?rd (c', m') (b + of_nat j) = byte_of v j" if "j < n" for j
      using cm.stores_hit [OF inv, of j "le_bytes n v" b] raw_inj_small [OF n, of ?rd b] that
      by (simp add: vw nth_le_bytes)
    have frame: "cm_view ?rd (c', m') x = cm_view ?rd (c, mem io0) x"
      if "\<And>j. j < n \<Longrightarrow> get_raw_ptr ?rd x \<noteq> get_raw_ptr ?rd (b + of_nat j)" for x
      using cm.stores_frame [OF inv, of "le_bytes n v" x b] that by (simp add: vw)
    have "stored ?rd n (cm_view ?rd (c, mem io0)) b v (cm_view ?rd (c', m'))"
      unfolding stored_def
    proof (intro conjI allI impI)
      fix j x
      assume "j < n" "get_raw_ptr ?rd x = get_raw_ptr ?rd (b + of_nat j)"
      then show "cm_view ?rd (c', m') x = byte_of v j" using hit cm_view_raw by metis
    qed (rule frame, blast)
    moreover have "io1 = io0\<lparr>g_cmodel := Some c', mem := m'\<rparr>"
      unfolding io1 [symmetric] by (rule set_T_cached [OF c cs])
    ultimately show ?thesis
      using c i by (simp add: cpu_view_def cached_access_def coherent_def same_setup_def io_inv_def)
  qed
  then show "stored ?rd n (cpu_view io0) b v (cpu_view io1)" "coherent io1" "same_setup io1 io0"
    by simp_all
qed

section \<open>Translations keep memory\<close>

text \<open>A translation changes no register, no TLB entry, no memory and no device, only the
  cacheability of the access and, when it faults, the exception state.\<close>

definition same_data :: "'d state_t \<Rightarrow> 'd state_t \<Rightarrow> bool" where
  "same_data t s \<longleftrightarrow> gpr t = gpr s \<and> tlb t = tlb s \<and> hi_reg t = hi_reg s \<and> lo_reg t = lo_reg s \<and>
     cpr1 t = cpr1 s \<and> (\<exists>b. sys t = (sys s)\<lparr>cache_active := b\<rparr>)"

lemma same_data_refl [simp]: "same_data s s"
  by (auto simp: same_data_def intro: exI [of _ "cache_active (sys s)"])

lemma same_data_trans: "same_data u t \<Longrightarrow> same_data t s \<Longrightarrow> same_data u s"
  by (auto simp: same_data_def)

lemma same_data_cache [simp]: "same_data (set_cache_active b t) s = same_data t s"
  by (auto simp: same_data_def set_cache_active_def) (metis io.surjective io.update_convs(3))+

lemma same_data_utlb [simp]: "same_data (t\<lparr>g_utlb := u\<rparr>) s = same_data t s"
  by (simp add: same_data_def)

lemma same_data_raise_tlb [simp]: "same_data (raise_tlb va c r x t) s = same_data t s"
  by (simp add: same_data_def) (simp add: raise_tlb_def tlb_set_fault_state_def Let_def reg_defs)

lemma translate_frame: "same_data (snd (va_translate va op s)) s"
proof -
  have cam: "same_data (snd (va_translate_cam va op' t)) s" if "same_data t s" for t op'
    using that by (simp add: va_translate_cam_def Let_def split: option.split)
  show ?thesis
    by (auto simp: va_translate_def Let_def cam split: option.split)
qed

lemma translate_io_inv:
  "same_data t s \<Longrightarrow> io_inv (sys t) = io_inv (sys s)"
  by (auto simp: same_data_def io_inv_def split: option.splits)

lemma translate_setup:
  assumes "va_translate va op s = (a, s1)" "io_inv (sys s)"
  shows "gpr s1 = gpr s" "coherent (sys s1)"
proof -
  have sd: "same_data s1 s" using translate_frame [of va op s] assms(1) by simp
  then show "gpr s1 = gpr s" by (simp add: same_data_def)
  show "coherent (sys s1)" using translate_io_inv [OF sd] assms(2) by (simp add: coherent_def)
qed

text \<open>A translation that selects the cacheability of the access before it keeps the memory system.\<close>

lemma translate_same_sys:
  assumes "va_translate va op s = (a, s1)" "cache_active (sys s1) = cache_active (sys s)"
  shows "sys s1 = sys s" "gpr s1 = gpr s"
proof -
  obtain b where b: "sys s1 = (sys s)\<lparr>cache_active := b\<rparr>" and "gpr s1 = gpr s"
    using translate_frame [of va op s] assms(1) by (auto simp: same_data_def)
  then show "sys s1 = sys s" "gpr s1 = gpr s" using assms(2) by simp_all
qed

section \<open>The accesses of a handler\<close>

definition reads :: "'d io \<Rightarrow> 'd io \<Rightarrow> bool" where
  "reads io1 io0 \<longleftrightarrow> cpu_view io1 = cpu_view io0 \<and> coherent io1 \<and> same_setup io1 io0"

definition writes :: "nat \<Rightarrow> u32 \<Rightarrow> u64 \<Rightarrow> 'd io \<Rightarrow> 'd io \<Rightarrow> bool" where
  "writes n b v io1 io0 \<longleftrightarrow>
     stored (route_devices io0) n (cpu_view io0) b v (cpu_view io1) \<and> coherent io1 \<and> same_setup io1 io0"

lemma mem_get_view:
  assumes "aligned_plain n b (sys s)" "coherent (sys s)"
  obtains v io1 where "mem_get E n b s = (v, s\<lparr>sys := io1\<rparr>)" "bswap n v = be_load n (cpu_view (sys s)) b"
    "reads io1 (sys s)"
proof -
  obtain v io1 where g: "get_T (devops E) (view_of s) n b (sys s) = (v, io1)" by fastforce
  then have "mem_get E n b s = (v, s\<lparr>sys := io1\<rparr>)" by (simp add: mem_get_def)
  then show thesis
    by (rule that) (use get_view [OF assms g] in \<open>simp_all add: be_load_def reads_def\<close>)
qed

lemma mem_set_view:
  assumes "aligned_plain n b (sys s)" "coherent (sys s)"
  shows "writes n b v (sys (mem_set E n b v s)) (sys s)"
  using set_view [OF assms refl] by (simp add: writes_def mem_set_def)

text \<open>The access of instruction i translates, without an exception, to the physical address a.\<close>

definition translates :: "u32 \<Rightarrow> tlb_op \<Rightarrow> 'd state_t \<Rightarrow> u32 \<Rightarrow> 'd state_t \<Rightarrow> bool" where
  "translates i op s a s1 \<longleftrightarrow> va_translate (eff_va i s) op s = (a, s1) \<and> \<not> tlb_fault s1"

lemma translates_with_ea: "translates i op s a s1 \<Longrightarrow> with_ea op (eff_va i s) k s = k a s1"
  by (simp add: translates_def with_ea_def)

lemma translates_setup:
  assumes "translates i op s a s1" "io_inv (sys s)"
  shows "gpr s1 = gpr s" "coherent (sys s1)" "\<not> tlb_fault s1"
  using assms translate_setup [of "eff_va i s" op s a s1] by (auto simp: translates_def)

lemma translates_same_sys:
  assumes "translates i op s a s1" "cache_active (sys s1) = cache_active (sys s)"
  shows "sys s1 = sys s" "gpr s1 = gpr s" "\<not> tlb_fault s1"
  using assms translate_same_sys [of "eff_va i s" op s a s1] by (auto simp: translates_def)

lemma translates_unmapped:
  "unmapped_pa (eff_va i s) = Some a \<Longrightarrow> \<not> tlb_fault s \<Longrightarrow> op \<noteq> op_fetch \<Longrightarrow>
     translates i op s a (set_cache_active (in_kseg0 (eff_va i s)) s)"
  by (simp add: translates_def va_translate_def Let_def) (auto simp: set_cache_active_def)

lemma translates_armed:
  "translates i op s a s1 \<Longrightarrow> ll_armed s1 = ll_armed s"
proof -
  have cam: "ll_armed (snd (va_translate_cam va o' t)) = ll_armed t" for va o' and t :: "'a state_t"
    by (simp add: va_translate_cam_def Let_def split: option.split)
  have "ll_armed (snd (va_translate va op s)) = ll_armed s" for va
    by (simp add: va_translate_def Let_def cam split: option.split)
  then show "translates i op s a s1 \<Longrightarrow> ll_armed s1 = ll_armed s" by (metis snd_conv translates_def)
qed

end
