(* ===== verification/Unaligned.thy ===== *)
theory Unaligned
  imports Memory_View
begin

text \<open>
  Correctness of the unaligned access pairs.  The merges of the handlers are
  characterised bit by bit, then byte by byte against the memory the CPU sees; the pair
  theorems say that LWL/LWR (LDL/LDR) together load, and SWL/SWR (SDL/SDR)
  together store, exactly the big-endian word (doubleword) at any physical address, through the
  TLB, the cache and the low-memory alias, as long as both halves translate and address memory.
\<close>

section \<open>Bytes of values and of memory\<close>

lemma bit_le_val:
  "length bs \<le> 8 \<Longrightarrow> bit (le_val bs) n \<longleftrightarrow> n div 8 < length bs \<and> bit (bs ! (n div 8)) (n mod 8)"
proof (induction bs arbitrary: n)
  case Nil
  then show ?case by simp
next
  case (Cons b bs)
  show ?case
  proof (cases "n < 8")
    case True
    then show ?thesis by (simp add: bit_simps)
  next
    case False
    then have "n div 8 = Suc ((n - 8) div 8)" "n mod 8 = (n - 8) mod 8"
      by (simp_all add: le_div_geq le_mod_geq)
    moreover have "\<not> bit b n" using False by (auto dest: bit_imp_le_length)
    moreover have "n < 64" if "bit (le_val bs) (n - 8)"
      using bit_le_val_bound [OF that] Cons.prems False by simp
    ultimately show ?thesis
      using Cons False by (auto simp: bit_simps)
  qed
qed

lemma byte_of_be_load:
  assumes "n \<le> 8" "i < n"
  shows "byte_of (be_load n m a) i = m (a + of_nat (n - 1 - i))"
proof (rule bit_word_eqI)
  fix j assume "j < LENGTH(8)"
  then have j: "j < 8" by simp
  have d: "(8 * i + j) div 8 = i" "(8 * i + j) mod 8 = j" using j by simp_all
  have "rev (map (\<lambda>i. m (a + of_nat i)) [0..<n]) ! i = m (a + of_nat (n - 1 - i))"
    using assms(2) by (simp add: rev_nth)
  then show "bit (byte_of (be_load n m a) i) j \<longleftrightarrow> bit (m (a + of_nat (n - 1 - i))) j"
    using assms j by (simp add: bit_byte_of be_load_bytes bit_le_val d)
qed

lemma mem_store_be:
  assumes "n \<le> 8"
  shows "mem_store n m b (bswap n w) y =
    (if unat (y - b) < n then byte_of w (n - 1 - unat (y - b)) else m y)"
proof -
  have "le_bytes n (bswap n w) = rev (le_bytes n w)"
    using assms le_bytes_le_val [of "rev (le_bytes n w)"] by (simp add: bswap_def)
  then show ?thesis
    using assms by (simp add: mem_store_at rev_nth nth_le_bytes)
qed

section \<open>Distances between the address and its aligned words\<close>

lemma left_distance:
  fixes a b y :: u32
  assumes "a = b + of_nat k" "k < n" "n \<le> 8"
  shows "k \<le> unat (y - b) \<and> unat (y - b) < n \<longleftrightarrow> unat (y - a) < n - k"
    and "unat (y - a) < n - k \<Longrightarrow> unat (y - b) = unat (y - a) + k"
proof -
  let ?e = "unat (y - a)"
  have yb: "y - b = (y - a) + of_nat k" using assms(1) by simp
  have uk: "unat (of_nat k :: u32) = k" using assms(2,3) by (simp add: unat_of_nat)
  have m: "unat (y - b) = (?e + k) mod 2 ^ 32"
    unfolding yb by (subst unat_word_ariths(1)) (simp only: uk len_num0 len_num1 len_bit0 len_bit1, simp)
  have e: "?e < 2 ^ 32" using unsigned_less [of "y - a", where 'a = nat] by simp
  have u: "unat (y - b) = (if ?e + k < 2 ^ 32 then ?e + k else ?e + k - 2 ^ 32)"
    unfolding m using e assms(2,3) by (simp add: mod_if)
  show "k \<le> unat (y - b) \<and> unat (y - b) < n \<longleftrightarrow> ?e < n - k"
    using u assms(2,3) e by auto
  show "?e < n - k \<Longrightarrow> unat (y - b) = ?e + k"
    using u assms(2,3) by simp
qed

lemma unat_of_nat_diff:
  fixes z :: u32
  assumes "k < 2 ^ 32"
  shows "unat (of_nat k - z) = (if unat z \<le> k then k - unat z else 2 ^ 32 + k - unat z)"
proof -
  have uk: "unat (of_nat k :: u32) = k" unfolding unat_of_nat using assms by simp
  show ?thesis unfolding unat_sub_if' uk by (simp add: add.commute [of k])
qed

lemma reverse_distance:
  fixes a y :: u32
  assumes "0 < n" "n \<le> 8"
  shows "unat (a + of_nat (n - 1) - y) =
    (if unat (y - a) < n then n - 1 - unat (y - a) else 2 ^ 32 + (n - 1) - unat (y - a))"
proof -
  let ?e = "unat (y - a)"
  have cy: "a + of_nat (n - 1) - y = of_nat (n - 1) - (y - a)" by simp
  have e: "?e < 2 ^ 32" using unsigned_less [of "y - a", where 'a = nat] by simp
  show ?thesis
    unfolding cy using assms e by (subst unat_of_nat_diff) auto
qed

section \<open>The left and right merges, byte by byte\<close>

text \<open>k is the offset of the address in its aligned word of n bytes.\<close>

definition left_store :: "nat \<Rightarrow> u64 \<Rightarrow> u64 \<Rightarrow> u64 \<Rightarrow> nat \<Rightarrow> bool" where
  "left_store n w r x k \<longleftrightarrow>
     (\<forall>i < n. byte_of w i = (if i < n - k then byte_of x (i + k) else byte_of r i))"

definition right_store :: "nat \<Rightarrow> u64 \<Rightarrow> u64 \<Rightarrow> u64 \<Rightarrow> nat \<Rightarrow> bool" where
  "right_store n w r x k \<longleftrightarrow>
     (\<forall>i < n. byte_of w i = (if i < n - 1 - k then byte_of r i else byte_of x (i - (n - 1 - k))))"

definition left_load :: "nat \<Rightarrow> u64 \<Rightarrow> u64 \<Rightarrow> u64 \<Rightarrow> nat \<Rightarrow> bool" where
  "left_load n w r x k \<longleftrightarrow> (\<forall>i < n. byte_of w i = (if k \<le> i then byte_of r (i - k) else byte_of x i))"

definition right_load :: "nat \<Rightarrow> u64 \<Rightarrow> u64 \<Rightarrow> u64 \<Rightarrow> nat \<Rightarrow> bool" where
  "right_load n w r x k \<longleftrightarrow>
     (\<forall>i < n. byte_of w i = (if i \<le> k then byte_of r (i + (n - 1 - k)) else byte_of x i))"

lemma left_store_mem:
  assumes a: "a = b + of_nat k" "k < n" "n \<le> 8"
    and w: "left_store n w (be_load n m b) x k"
  shows "mem_store n m b (bswap n w) y =
    (if unat (y - a) < n - k then byte_of x (n - 1 - unat (y - a)) else m y)"
proof (cases "unat (y - b) < n")
  case True
  let ?d = "unat (y - b)"
  have y: "b + of_nat ?d = y" by simp
  have "byte_of w (n - 1 - ?d) =
      (if k \<le> ?d then byte_of x (n - 1 - ?d + k) else byte_of (be_load n m b) (n - 1 - ?d))"
    using w True a(2) by (auto simp: left_store_def)
  moreover have "byte_of (be_load n m b) (n - 1 - ?d) = m y"
    using True a by (subst byte_of_be_load) (auto simp: y)
  ultimately show ?thesis
    using True a left_distance [OF a, of y] by (auto simp: mem_store_be)
next
  case False
  then show ?thesis using a left_distance [OF a, of y] by (auto simp: mem_store_be)
qed

lemma right_store_mem:
  assumes c: "c = b + of_nat k" "k < n" "n \<le> 8"
    and w: "right_store n w (be_load n m b) x k"
  shows "mem_store n m b (bswap n w) y =
    (if unat (c - y) \<le> k then byte_of x (unat (c - y)) else m y)"
proof -
  let ?d = "unat (y - b)"
  have cy: "c - y = of_nat k - (y - b)" using c by simp
  have d: "?d < 2 ^ 32" using unsigned_less [of "y - b", where 'a = nat] by simp
  have u: "unat (c - y) = (if ?d \<le> k then k - ?d else 2 ^ 32 + k - ?d)"
    unfolding cy using c by (intro unat_of_nat_diff) simp
  show ?thesis
  proof (cases "?d < n")
    case True
    have y: "b + of_nat ?d = y" by simp
    have "byte_of w (n - 1 - ?d) =
        (if ?d \<le> k then byte_of x (k - ?d) else byte_of (be_load n m b) (n - 1 - ?d))"
      using w True c(2) by (auto simp: right_store_def)
    moreover have "byte_of (be_load n m b) (n - 1 - ?d) = m y"
      using True c by (subst byte_of_be_load) (auto simp: y)
    ultimately show ?thesis using True c d u by (auto simp: mem_store_be)
  next
    case False
    then show ?thesis using c u d by (auto simp: mem_store_be)
  qed
qed

text \<open>The pair at a and a + (n - 1): whatever the alignment, the two stores together write the
  register at a, most significant byte first, and nothing else.\<close>

lemma store_pair:
  assumes n: "0 < n" "n \<le> 8" and k: "k < n" and k': "k' = (k + (n - 1)) mod n"
    and a: "a = b + of_nat k" and c: "a + of_nat (n - 1) = b' + of_nat k'"
    and m': "m' = mem_store n m b (bswap n w)" "left_store n w (be_load n m b) x k"
    and w': "right_store n w' (be_load n m' b') x k'"
  shows "mem_store n m' b' (bswap n w') = mem_store n m a (bswap n x)"
proof
  fix y
  let ?e = "unat (y - a)"
  have k'': "k' = (if k = 0 then n - 1 else k - 1)"
    using k k' by (cases k) (simp_all add: mod_if)
  have e: "?e < 2 ^ 32" using unsigned_less [of "y - a", where 'a = nat] by simp
  have "k' < n" using k k'' n by auto
  from right_store_mem [OF c this n(2) w', of y]
  have "mem_store n m' b' (bswap n w') y =
    (if ?e < n \<and> n - 1 - ?e \<le> k' then byte_of x (n - 1 - ?e) else m' y)"
    unfolding reverse_distance [OF n] using e k'' k n by auto
  also have "\<dots> = mem_store n m a (bswap n x) y"
    unfolding m'(1) left_store_mem [OF a k n(2) m'(2)]
    unfolding mem_store_be [OF n(2)] using k k'' by (auto split: if_splits)
  finally show "mem_store n m' b' (bswap n w') y = mem_store n m a (bswap n x) y" .
qed

text \<open>The same for the memory the CPU sees, where two addresses may name one cell: inside the two
  aligned words no two bytes do.\<close>

lemma stored_window:
  assumes st: "stored rd n m c v m'" "n \<le> 8" and c: "c = b + of_nat d" "d + n \<le> 16"
    and y: "y = b + of_nat e" "e < 16"
  shows "m' y = mem_store n m c v y"
proof (cases "d \<le> e \<and> e < d + n")
  case True
  then have y': "y = c + of_nat (e - d)" using c(1) y(1) by (simp add: of_nat_diff)
  have u: "unat (c + of_nat j - c) = j" if "j < 8" for j :: nat using that by (simp add: unat_of_nat)
  have j: "e - d < n" using True by linarith
  have "unat (y - c) = e - d" unfolding y' by (rule u) (use j st(2) in simp)
  then show ?thesis
    using storedD(1) [OF st(1) j(1), of y] st(2) j(1) by (simp add: mem_store_at nth_le_bytes flip: y')
next
  case False
  have ne: "get_raw_ptr rd y \<noteq> get_raw_ptr rd (c + of_nat j)" if "j < n" for j
  proof
    assume "get_raw_ptr rd y = get_raw_ptr rd (c + of_nat j)"
    then have "get_raw_ptr rd (b + of_nat e) = get_raw_ptr rd (b + of_nat (d + j))"
      using c(1) y(1) by (simp add: add.assoc)
    then have "e = d + j"
      using inj_onD [OF raw_inj_window [of 16 rd b], of e "d + j"] that c(2) y(2) by (simp del: of_nat_add)
    with False that show False by simp
  qed
  have "y = c + of_nat (unat (y - c))" by simp
  then have "\<not> unat (y - c) < n" using ne by metis
  then show ?thesis using storedD(2) [OF st(1) ne] st(2) by (simp add: mem_store_at)
qed

lemma stored_raw:
  assumes "stored rd n m b v m'" "\<And>x y. get_raw_ptr rd x = get_raw_ptr rd y \<Longrightarrow> m x = m y"
    and "get_raw_ptr rd x = get_raw_ptr rd y"
  shows "m' x = m' y"
proof (cases "\<exists>j < n. get_raw_ptr rd x = get_raw_ptr rd (b + of_nat j)")
  case True
  then show ?thesis using storedD(1) [OF assms(1)] assms(3) by metis
next
  case False
  then have "m' x = m x" "m' y = m y" using storedD(2) [OF assms(1)] assms(3) by metis+
  then show ?thesis using assms(2,3) by metis
qed

text \<open>So a change that agrees with a flat store on the window is that store.\<close>

lemma window_stored:
  assumes n: "n \<le> 8" "k < n" and a: "a = b + of_nat k"
    and inv: "\<And>x y. get_raw_ptr rd x = get_raw_ptr rd y \<Longrightarrow> m x = m y"
      "\<And>x y. get_raw_ptr rd x = get_raw_ptr rd y \<Longrightarrow> m' x = m' y"
    and win: "\<And>e. e < 2 * n \<Longrightarrow> m' (b + of_nat e) = mem_store n m a v (b + of_nat e)"
    and out: "\<And>x. (\<And>e. e < 2 * n \<Longrightarrow> get_raw_ptr rd x \<noteq> get_raw_ptr rd (b + of_nat e)) \<Longrightarrow> m' x = m x"
  shows "stored rd n m a v m'"
  unfolding stored_def
proof (intro conjI allI impI)
  fix j x assume j: "j < n" and x: "get_raw_ptr rd x = get_raw_ptr rd (a + of_nat j)"
  have "a + of_nat j = b + of_nat (k + j)" using a by (simp add: add.assoc)
  then have "m' (a + of_nat j) = mem_store n m a v (a + of_nat j)"
    using win [of "k + j"] j n by (simp del: of_nat_add)
  also have "\<dots> = byte_of v j" using n j by (simp add: mem_store_at unat_of_nat nth_le_bytes)
  finally show "m' x = byte_of v j" using inv(2) [OF x] by simp
next
  fix x assume x: "\<forall>j < n. get_raw_ptr rd x \<noteq> get_raw_ptr rd (a + of_nat j)"
  show "m' x = m x"
  proof (cases "\<exists>e < 2 * n. get_raw_ptr rd x = get_raw_ptr rd (b + of_nat e)")
    case True
    then obtain e where e: "e < 2 * n" "get_raw_ptr rd x = get_raw_ptr rd (b + of_nat e)" by blast
    let ?y = "b + of_nat e"
    have "?y = a + of_nat (unat (?y - a))" by simp
    then have "\<not> unat (?y - a) < n" using x e(2) by metis
    then have "m' ?y = m ?y" using win [OF e(1)] n by (simp add: mem_store_at)
    then show ?thesis using inv(1) [OF e(2)] inv(2) [OF e(2)] by simp
  next
    case False
    then show ?thesis using out by blast
  qed
qed

lemma store_pair_view:
  assumes n: "0 < n" "n \<le> 8" and k: "k < n" and k': "k' = (k + (n - 1)) mod n"
    and a: "a = b + of_nat k" and c: "a + of_nat (n - 1) = b' + of_nat k'"
    and inv: "\<And>x y. get_raw_ptr rd x = get_raw_ptr rd y \<Longrightarrow> m x = m y"
    and st: "stored rd n m b (bswap n w) m'" "left_store n w (be_load n m b) x k"
    and st': "stored rd n m' b' (bswap n w') m''" "right_store n w' (be_load n m' b') x k'"
  shows "stored rd n m a (bswap n x) m''"
proof -
  let ?m = "mem_store n m b (bswap n w)"
  have k'': "k' = (if k = 0 then n - 1 else k - 1)"
    using k k' by (cases k) (simp_all add: mod_if)
  define d where "d = (if k = 0 then 0 else n)"
  have "b' = b + of_nat k + of_nat (n - 1) - of_nat k'" using a c by (simp add: algebra_simps)
  also have "\<dots> = b + of_nat d"
    using n k by (cases k) (simp_all add: k'' d_def of_nat_diff algebra_simps)
  finally have b': "b' = b + of_nat d" .
  have d: "d + n \<le> 2 * n" by (simp add: d_def)
  have win1: "m' (b + of_nat e) = ?m (b + of_nat e)" if "e < 2 * n" for e
    by (rule stored_window [OF st(1) n(2), of b 0 _ e]) (use that n(2) in simp_all)
  have "be_load n m' b' = be_load n ?m b'"
    unfolding be_load_def using win1 d
    by (intro arg_cong [where f = "bswap n"] mem_load_cong) (simp add: b' add.assoc flip: of_nat_add)
  then have pair: "mem_store n ?m b' (bswap n w') = mem_store n m a (bswap n x)"
    using store_pair [OF n k k' a c refl st(2)] st'(2) by simp
  have inv1: "get_raw_ptr rd x = get_raw_ptr rd y \<Longrightarrow> m' x = m' y" for x y
    using stored_raw [OF st(1) inv] .
  show ?thesis
  proof (rule window_stored [OF n(2) k a inv])
    show "get_raw_ptr rd x = get_raw_ptr rd y \<Longrightarrow> m'' x = m'' y" for x y
      using stored_raw [OF st'(1) inv1] .
    show "m'' (b + of_nat e) = mem_store n m a (bswap n x) (b + of_nat e)" if "e < 2 * n" for e
    proof -
      have "m'' (b + of_nat e) = mem_store n m' b' (bswap n w') (b + of_nat e)"
        by (rule stored_window [OF st'(1) n(2) b' _ refl]) (use that n(2) d in linarith)+
      also have "\<dots> = mem_store n ?m b' (bswap n w') (b + of_nat e)"
        using win1 [OF that] n(2) by (simp add: mem_store_at)
      finally show ?thesis by (simp only: pair)
    qed
    fix y assume out: "\<And>e. e < 2 * n \<Longrightarrow> get_raw_ptr rd y \<noteq> get_raw_ptr rd (b + of_nat e)"
    have "m'' y = m' y"
      by (rule storedD(2) [OF st'(1)]) (use out [of "d + _"] d in \<open>simp add: b' add.assoc flip: of_nat_add\<close>)
    also have "\<dots> = m y" by (rule storedD(2) [OF st(1)]) (use out in simp)
    finally show "m'' y = m y" .
  qed
qed

lemma byte_of_eqI:
  assumes "\<And>i. i < n \<Longrightarrow> byte_of v i = byte_of w i" "j < 8 * n"
  shows "bit v j \<longleftrightarrow> bit w j"
proof -
  have "bit (byte_of v (j div 8)) (j mod 8) \<longleftrightarrow> bit (byte_of w (j div 8)) (j mod 8)"
    using assms by (simp add: less_mult_imp_div_less)
  then show ?thesis by (simp add: bit_byte_of)
qed

text \<open>The two loads together fill every byte of the register from the word at a.\<close>

lemma load_pair:
  assumes n: "0 < n" "n \<le> 8" and k: "k < n" and k': "k' = (k + (n - 1)) mod n"
    and a: "a = b + of_nat k" and c: "a + of_nat (n - 1) = b' + of_nat k'"
    and w: "left_load n w (be_load n m b) x k"
    and w': "right_load n w' (be_load n m b') w k'"
    and i: "i < n"
  shows "byte_of w' i = byte_of (be_load n m a) i"
proof -
  have k'': "k' = (if k = 0 then n - 1 else k - 1)"
    using k k' by (cases k) (simp_all add: mod_if)
  show ?thesis
  proof (cases "i \<le> k'")
    case True
    have "b' + of_nat (k' - i) = a + of_nat (n - 1) - of_nat i"
      unfolding c using True by (simp add: of_nat_diff)
    also have "\<dots> = a + of_nat (n - 1 - i)" using i by (simp add: of_nat_diff)
    finally have "byte_of (be_load n m b') (i + (n - 1 - k')) = m (a + of_nat (n - 1 - i))"
      using True i k k'' n by (subst byte_of_be_load) (auto simp: algebra_simps)
    then show ?thesis using w' True i n by (simp add: right_load_def byte_of_be_load)
  next
    case False
    then have "k \<le> i" using k'' i by (auto split: if_splits)
    then have "n - 1 - (i - k) = k + (n - 1 - i)" using i by simp
    then have "b + of_nat (n - 1 - (i - k)) = a + of_nat (n - 1 - i)"
      unfolding a by (simp only: of_nat_add add.assoc)
    moreover have "byte_of (be_load n m b) (i - k) = m (b + of_nat (n - 1 - (i - k)))"
      using i n by (intro byte_of_be_load) auto
    ultimately have "byte_of (be_load n m b) (i - k) = m (a + of_nat (n - 1 - i))"
      by (simp only:)
    then show ?thesis
      using w w' False \<open>k \<le> i\<close> i n by (simp add: left_load_def right_load_def byte_of_be_load)
  qed
qed

section \<open>The merges of the handlers\<close>

lemma masks64:
  "(0x00ffffffffffffff :: u64) = mask 56" "(0x0000ffffffffffff :: u64) = mask 48"
  "(0x000000ffffffffff :: u64) = mask 40" "(0x00000000ffffffff :: u64) = mask 32"
  "(0x0000000000ffffff :: u64) = mask 24" "(0x000000000000ffff :: u64) = mask 16"
  "(0x00000000000000ff :: u64) = mask 8"
  "(0xffffffffffffff00 :: u64) = NOT (mask 8)" "(0xffffffffffff0000 :: u64) = NOT (mask 16)"
  "(0xffffffffff000000 :: u64) = NOT (mask 24)" "(0xffffffff00000000 :: u64) = NOT (mask 32)"
  "(0xffffff0000000000 :: u64) = NOT (mask 40)" "(0xffff000000000000 :: u64) = NOT (mask 48)"
  "(0xff00000000000000 :: u64) = NOT (mask 56)"
  by (simp_all add: mask_eq_exp_minus_1)

lemma masks32:
  "(0x00ffffff :: u32) = mask 24" "(0x0000ffff :: u32) = mask 16" "(0x000000ff :: u32) = mask 8"
  "(0xffffff00 :: u32) = NOT (mask 8)" "(0xffff0000 :: u32) = NOT (mask 16)"
  "(0xff000000 :: u32) = NOT (mask 24)"
  by (simp_all add: mask_eq_exp_minus_1)

lemma less4E: "(k::nat) < 4 \<Longrightarrow> k = 0 \<or> k = 1 \<or> k = 2 \<or> k = 3"
  by auto

lemma less8E: "(k::nat) < 8 \<Longrightarrow> k = 0 \<or> k = 1 \<or> k = 2 \<or> k = 3 \<or> k = 4 \<or> k = 5 \<or> k = 6 \<or> k = 7"
  by auto

lemma bit_sext32_low: "n < 32 \<Longrightarrow> bit (sext32 w) n \<longleftrightarrow> bit w n"
  by (simp add: sext32_def bit_simps)

lemma bit_lwl_val:
  "k < 4 \<Longrightarrow> n < 32 \<Longrightarrow>
     bit (lwl_val r x k) n \<longleftrightarrow> (if 8 * k \<le> n then bit r (n - 8 * k) else bit x n)"
  unfolding lwl_val_def masks32 sext64_eq_sext32
  by (drule less4E) (auto simp: Let_def bit_sext32_low bit_simps)

lemma bit_lwr_val:
  "k < 4 \<Longrightarrow> n < 32 \<Longrightarrow>
     bit (lwr_val r x k) n \<longleftrightarrow> (if n < 8 * (k + 1) then bit r (n + 8 * (3 - k)) else bit x n)"
  unfolding lwr_val_def masks32 sext64_eq_sext32
  by (drule less4E) (auto simp: Let_def bit_sext32_low bit_simps add.commute dest: bit_imp_le_length)

lemma bit_ldl_val:
  "k < 8 \<Longrightarrow> n < 64 \<Longrightarrow>
     bit (ldl_val r x k) n \<longleftrightarrow> (if 8 * k \<le> n then bit r (n - 8 * k) else bit x n)"
  unfolding ldl_val_def masks64
  by (drule less8E) (auto simp: Let_def bit_sext32_low bit_simps)

lemma bit_ldr_val:
  "k < 8 \<Longrightarrow> n < 64 \<Longrightarrow>
     bit (ldr_val r x k) n \<longleftrightarrow> (if n < 8 * (k + 1) then bit r (n + 8 * (7 - k)) else bit x n)"
  unfolding ldr_val_def masks64
  by (drule less8E) (auto simp: Let_def bit_sext32_low bit_simps add.commute dest: bit_imp_le_length)

lemma bit_swl_val:
  "k < 4 \<Longrightarrow> n < 32 \<Longrightarrow>
     bit (swl_val r x k) n \<longleftrightarrow> (if n < 8 * (4 - k) then bit x (n + 8 * k) else bit r n)"
  unfolding swl_val_def push_bit_eq_mult mult_1_left mask_eq_exp_minus_1 [symmetric]
  by (auto simp: Let_def bit_sext32_low bit_simps add.commute dest: bit_imp_le_length)

lemma bit_swr_val:
  "k < 4 \<Longrightarrow> n < 32 \<Longrightarrow>
     bit (swr_val r x k) n \<longleftrightarrow> (if n < 8 * (3 - k) then bit r n else bit x (n - 8 * (3 - k)))"
  unfolding swr_val_def
  by (auto simp: Let_def bit_simps push_bit_eq_mult [of _ 1] simp flip: mask_eq_exp_minus_1)

lemma bit_sdl_val:
  "k < 8 \<Longrightarrow> n < 64 \<Longrightarrow>
     bit (sdl_val r x k) n \<longleftrightarrow> (if n < 8 * (8 - k) then bit x (n + 8 * k) else bit r n)"
  unfolding sdl_val_def
  by (auto simp: Let_def bit_simps push_bit_eq_mult [of _ 1] minus_exp_eq_not_mask add.commute dest: bit_imp_le_length)

lemma bit_sdr_val:
  "k < 8 \<Longrightarrow> n < 64 \<Longrightarrow>
     bit (sdr_val r x k) n \<longleftrightarrow> (if n < 8 * (7 - k) then bit r n else bit x (n - 8 * (7 - k)))"
  unfolding sdr_val_def
  by (auto simp: Let_def bit_simps push_bit_eq_mult [of _ 1] simp flip: mask_eq_exp_minus_1)

lemma byte_of_iff: "byte_of v i = byte_of w j \<longleftrightarrow> (\<forall>n < 8. bit v (8 * i + n) = bit w (8 * j + n))"
  by (auto simp: bit_eq_iff bit_byte_of)

lemma left_loadI:
  assumes "\<And>n. n < 8 * N \<Longrightarrow> bit w n \<longleftrightarrow> (if 8 * k \<le> n then bit r (n - 8 * k) else bit x n)"
  shows "left_load N w r x k"
  using assms by (auto simp: left_load_def byte_of_iff diff_mult_distrib2)

lemma right_loadI:
  assumes "k < N" "\<And>n. n < 8 * N \<Longrightarrow>
    bit w n \<longleftrightarrow> (if n < 8 * (k + 1) then bit r (n + 8 * (N - 1 - k)) else bit x n)"
  shows "right_load N w r x k"
proof -
  from assms(1) obtain d where d: "N = Suc (k + d)" by (auto simp: less_iff_Suc_add)
  show ?thesis using assms(2) unfolding d by (auto simp: right_load_def byte_of_iff distrib_left ac_simps)
qed

lemma left_storeI:
  assumes "\<And>n. n < 8 * N \<Longrightarrow> bit w n \<longleftrightarrow> (if n < 8 * (N - k) then bit x (n + 8 * k) else bit r n)"
  shows "left_store N w r x k"
  using assms by (auto simp: left_store_def byte_of_iff distrib_left ac_simps)

lemma right_storeI:
  assumes "\<And>n. n < 8 * N \<Longrightarrow>
    bit w n \<longleftrightarrow> (if n < 8 * (N - 1 - k) then bit r n else bit x (n - 8 * (N - 1 - k)))"
  shows "right_store N w r x k"
  using assms by (auto simp: right_store_def byte_of_iff diff_mult_distrib2)

lemma merge_bytes4:
  assumes "k < 4"
  shows "left_load 4 (lwl_val (ucast r) x k) r x k" "right_load 4 (lwr_val (ucast r) x k) r x k"
    "left_store 4 (ucast (swl_val (ucast r) (ucast x) k)) r x k"
    "right_store 4 (ucast (swr_val (ucast r) (ucast x) k)) r x k"
  using assms
  by (auto intro!: left_loadI right_loadI left_storeI right_storeI
      simp: bit_lwl_val bit_lwr_val bit_swl_val bit_swr_val bit_simps)

lemma merge_bytes8:
  assumes "k < 8"
  shows "left_load 8 (ldl_val r x k) r x k" "right_load 8 (ldr_val r x k) r x k"
    "left_store 8 (sdl_val r x k) r x k" "right_store 8 (sdr_val r x k) r x k"
  using assms
  by (auto intro!: left_loadI right_loadI left_storeI right_storeI
      simp: bit_ldl_val bit_ldr_val bit_sdl_val bit_sdr_val)

section \<open>Addresses of the two halves\<close>

lemma word_split: "a = (a AND NOT (mask p)) + of_nat (unat (a AND mask p))"
  for a :: u32
  by (simp, subst disjunctive_add_eq_or; rule bit_word_eqI) (auto simp: bit_simps)

lemma next_offset:
  fixes a :: u32
  assumes "p \<le> 32" "j < 2 ^ 32"
  shows "unat ((a + of_nat j) AND mask p) = (unat (a AND mask p) + j) mod 2 ^ p"
proof -
  have p: "2 ^ p dvd (2 ^ 32 :: nat)" using assms(1) by (intro le_imp_power_dvd) simp
  have u: "unat (of_nat j :: u32) = j" unfolding unat_of_nat using assms(2) by simp
  show ?thesis
    unfolding unat_and_mask unat_word_ariths u using p by (simp add: mod_mod_cancel mod_simps)
qed

lemma addr_masks: "(3 :: u32) = mask 2" "(7 :: u32) = mask 3" "(0xfffffffc :: u32) = NOT (mask 2)"
  by (simp_all add: mask_eq_exp_minus_1)

lemma pair_addresses4:
  fixes a :: u32
  shows "unat (a AND mask 2) < 4" "unat ((a + 3) AND mask 2) < 4"
    "unat ((a + 3) AND mask 2) = (unat (a AND mask 2) + (4 - 1)) mod 4"
    "a + of_nat (4 - 1) = ((a + 3) AND NOT (mask 2)) + of_nat (unat ((a + 3) AND mask 2))"
  using word_split [of "a + 3" 2] next_offset [of 2 3 a] by (simp_all add: unat_and_mask del: mask_numeral)

lemma pair_addresses8:
  fixes a :: u32
  shows "unat (a AND mask 3) < 8" "unat ((a + 7) AND mask 3) < 8"
    "unat ((a + 7) AND mask 3) = (unat (a AND mask 3) + (8 - 1)) mod 8"
    "a + of_nat (8 - 1) = ((a + 7) AND NOT (mask 3)) + of_nat (unat ((a + 7) AND mask 3))"
  using word_split [of "a + 7" 3] next_offset [of 3 7 a] by (simp_all add: unat_and_mask del: mask_numeral)

lemma aligned_down:
  fixes a :: u32
  shows "plain_access (a AND NOT (mask 2)) io0 \<Longrightarrow> aligned_plain 4 (a AND NOT (mask 2)) io0"
    "plain_access (a AND NOT (mask 3)) io0 \<Longrightarrow> aligned_plain 8 (a AND NOT (mask 3)) io0"
proof -
  have "unat (a AND NOT (mask p)) mod 2 ^ p = 0" for p
    by (simp add: flip: unat_and_mask) (simp add: and.assoc)
  from this [of 2] this [of 3]
  show "plain_access (a AND NOT (mask 2)) io0 \<Longrightarrow> aligned_plain 4 (a AND NOT (mask 2)) io0"
    "plain_access (a AND NOT (mask 3)) io0 \<Longrightarrow> aligned_plain 8 (a AND NOT (mask 3)) io0"
    by (simp_all add: aligned_plain_def del: mask_numeral)
qed

lemma lwr_val_sext: "lwr_val r x k = sext32 (ucast (lwr_val r x k))"
  by (simp add: lwr_val_def Let_def sext64_eq_sext32)

lemma low_word_eqI:
  "(\<And>i. i < 4 \<Longrightarrow> byte_of v i = byte_of w i) \<Longrightarrow> (ucast v :: u32) = ucast w"
  using byte_of_eqI [of 4 v w] by (intro bit_word_eqI) (simp add: bit_simps)

lemma doubleword_eqI: "(\<And>i. i < 8 \<Longrightarrow> byte_of v i = byte_of w i) \<Longrightarrow> v = w"
  using byte_of_eqI [of 8 v w] by (intro bit_word_eqI) simp

section \<open>One half\<close>

text \<open>A handler that loads a register, or that writes memory, and does nothing else.\<close>

definition loads_reg :: "5 word \<Rightarrow> u64 \<Rightarrow> 'd state_t \<Rightarrow> 'd state_t \<Rightarrow> bool" where
  "loads_reg r v s1 t \<longleftrightarrow> (\<exists>io1. reads io1 (sys s1) \<and> t = pc4 (set_gpr r v (s1\<lparr>sys := io1\<rparr>)))"

definition stores_mem :: "nat \<Rightarrow> u32 \<Rightarrow> u64 \<Rightarrow> 'd state_t \<Rightarrow> 'd state_t \<Rightarrow> bool" where
  "stores_mem n b v s1 t \<longleftrightarrow> (\<exists>io1. writes n b v io1 (sys s1) \<and> t = pc4 (s1\<lparr>sys := io1\<rparr>))"

lemma loads_regD:
  "loads_reg r v s1 t \<Longrightarrow> reads (sys t) (sys s1) \<and> gpr t = (gpr s1)(r := v) \<and> tlb_fault t = tlb_fault s1"
  by (auto simp: loads_reg_def reg_defs)

lemma stores_memD:
  "stores_mem n b v s1 t \<Longrightarrow> writes n b v (sys t) (sys s1) \<and> gpr t = gpr s1 \<and> tlb_fault t = tlb_fault s1"
  by (auto simp: stores_mem_def reg_defs)

lemma loads_regI:
  assumes "aligned_plain n b (sys s1)" "coherent (sys s1)"
  shows "loads_reg r (f (be_load n (cpu_view (sys s1)) b) (gpr s1 r)) s1
    (let (v, s) = mem_get E n b s1 in pc4 (set_gpr r (f (bswap n v) (gpr s r)) s))"
proof -
  obtain v io1 where g: "mem_get E n b s1 = (v, s1\<lparr>sys := io1\<rparr>)"
    "bswap n v = be_load n (cpu_view (sys s1)) b" "reads io1 (sys s1)"
    using mem_get_view [OF assms] .
  then show ?thesis by (auto simp: loads_reg_def)
qed

lemma reads_writes: "reads io1 io0 \<Longrightarrow> writes n b v io2 io1 \<Longrightarrow> writes n b v io2 io0"
  by (auto simp: reads_def writes_def same_setup_def)

lemma stores_memI:
  assumes "aligned_plain n b (sys s1)" "coherent (sys s1)"
  shows "stores_mem n b (bswap n (f (be_load n (cpu_view (sys s1)) b) (gpr s1 r))) s1
    (let (v, s) = mem_get E n b s1 in pc4 (mem_set E n b (bswap n (f (bswap n v) (gpr s r))) s))"
proof -
  obtain v io1 where g: "mem_get E n b s1 = (v, s1\<lparr>sys := io1\<rparr>)"
    "bswap n v = be_load n (cpu_view (sys s1)) b" "reads io1 (sys s1)"
    using mem_get_view [OF assms] .
  let ?s = "s1\<lparr>sys := io1\<rparr>" and ?x = "bswap n (f (be_load n (cpu_view (sys s1)) b) (gpr s1 r))"
  have "aligned_plain n b (sys ?s)" "coherent (sys ?s)"
    using g(3) assms(1) same_setup_plain [of io1 "sys s1" b] by (auto simp: reads_def aligned_plain_def)
  then have "writes n b ?x (sys (mem_set E n b ?x ?s)) io1" using mem_set_view [of n b ?s ?x E] by simp
  then have "writes n b ?x (sys (mem_set E n b ?x ?s)) (sys s1)" by (rule reads_writes [OF g(3)])
  moreover have "mem_set E n b ?x ?s = s1\<lparr>sys := sys (mem_set E n b ?x ?s)\<rparr>" by (simp add: mem_set_def)
  ultimately show ?thesis
    unfolding stores_mem_def g(1) prod.case Let_def g(2) by auto
qed

lemma half_loads:
  assumes tr: "translates i op_load s a s1" and co: "coherent (sys s1)"
  shows "plain_access (a AND NOT (mask 2)) (sys s1) \<Longrightarrow> loads_reg (f_rt i)
      (lwl_val (ucast (be_load 4 (cpu_view (sys s1)) (a AND NOT (mask 2)))) (gpr s1 (f_rt i)) (unat (a AND mask 2)))
      s1 (lwl E i s)"
    and "plain_access (a AND NOT (mask 2)) (sys s1) \<Longrightarrow> loads_reg (f_rt i)
      (lwr_val (ucast (be_load 4 (cpu_view (sys s1)) (a AND NOT (mask 2)))) (gpr s1 (f_rt i)) (unat (a AND mask 2)))
      s1 (lwr E i s)"
    and "plain_access (a AND NOT (mask 3)) (sys s1) \<Longrightarrow> loads_reg (f_rt i)
      (ldl_val (be_load 8 (cpu_view (sys s1)) (a AND NOT (mask 3))) (gpr s1 (f_rt i)) (unat (a AND mask 3)))
      s1 (ldl E i s)"
    and "plain_access (a AND NOT (mask 3)) (sys s1) \<Longrightarrow> loads_reg (f_rt i)
      (ldr_val (be_load 8 (cpu_view (sys s1)) (a AND NOT (mask 3))) (gpr s1 (f_rt i)) (unat (a AND mask 3)))
      s1 (ldr E i s)"
  unfolding lwl_def lwr_def ldl_def ldr_def translates_with_ea [OF tr] addr_masks Let_def
  by (rule loads_regI [where f = "\<lambda>r x. lwl_val (ucast r) x (unat (a AND mask 2))", OF aligned_down(1) co, unfolded Let_def]
      loads_regI [where f = "\<lambda>r x. lwr_val (ucast r) x (unat (a AND mask 2))", OF aligned_down(1) co, unfolded Let_def]
      loads_regI [where f = "\<lambda>r x. ldl_val r x (unat (a AND mask 3))", OF aligned_down(2) co, unfolded Let_def]
      loads_regI [where f = "\<lambda>r x. ldr_val r x (unat (a AND mask 3))", OF aligned_down(2) co, unfolded Let_def];
      assumption)+

lemma half_stores:
  assumes tr: "translates i op_store s a s1" and co: "coherent (sys s1)"
  shows "plain_access (a AND NOT (mask 2)) (sys s1) \<Longrightarrow> stores_mem 4 (a AND NOT (mask 2))
      (bswap 4 (ucast (swl_val (ucast (be_load 4 (cpu_view (sys s1)) (a AND NOT (mask 2))))
        (ucast (gpr s1 (f_rt i))) (unat (a AND mask 2))))) s1 (swl E i s)"
    and "plain_access (a AND NOT (mask 2)) (sys s1) \<Longrightarrow> stores_mem 4 (a AND NOT (mask 2))
      (bswap 4 (ucast (swr_val (ucast (be_load 4 (cpu_view (sys s1)) (a AND NOT (mask 2))))
        (ucast (gpr s1 (f_rt i))) (unat (a AND mask 2))))) s1 (swr E i s)"
    and "plain_access (a AND NOT (mask 3)) (sys s1) \<Longrightarrow> stores_mem 8 (a AND NOT (mask 3))
      (bswap 8 (sdl_val (be_load 8 (cpu_view (sys s1)) (a AND NOT (mask 3)))
        (gpr s1 (f_rt i)) (unat (a AND mask 3)))) s1 (sdl E i s)"
    and "plain_access (a AND NOT (mask 3)) (sys s1) \<Longrightarrow> stores_mem 8 (a AND NOT (mask 3))
      (bswap 8 (sdr_val (be_load 8 (cpu_view (sys s1)) (a AND NOT (mask 3)))
        (gpr s1 (f_rt i)) (unat (a AND mask 3)))) s1 (sdr E i s)"
  unfolding swl_def swr_def sdl_def sdr_def translates_with_ea [OF tr] addr_masks Let_def
  by (rule stores_memI [where f = "\<lambda>r x. ucast (swl_val (ucast r) (ucast x) (unat (a AND mask 2)))", OF aligned_down(1) co, unfolded Let_def]
      stores_memI [where f = "\<lambda>r x. ucast (swr_val (ucast r) (ucast x) (unat (a AND mask 2)))", OF aligned_down(1) co, unfolded Let_def]
      stores_memI [where f = "\<lambda>r x. sdl_val r x (unat (a AND mask 3))", OF aligned_down(2) co, unfolded Let_def]
      stores_memI [where f = "\<lambda>r x. sdr_val r x (unat (a AND mask 3))", OF aligned_down(2) co, unfolded Let_def];
      assumption)+

text \<open>The second half finds the memory system as the first half left it.\<close>

lemma second_half:
  assumes "same_setup (sys t) (sys s1)" "translates i op t c s2" "cache_active (sys s2) = cache_active (sys s1)"
  shows "sys s2 = sys t" "gpr s2 = gpr t" "plain_access b (sys s1) \<Longrightarrow> plain_access b (sys s2)"
proof -
  have "cache_active (sys s2) = cache_active (sys t)" using assms(1,3) by (simp add: same_setup_def)
  then show "sys s2 = sys t" "gpr s2 = gpr t" using translates_same_sys [OF assms(2)] by simp_all
  then show "plain_access b (sys s1) \<Longrightarrow> plain_access b (sys s2)" using same_setup_plain [OF assms(1)] by simp
qed

section \<open>Concrete runs\<close>

text \<open>r4 points to the odd kseg0 address 0x80001003, with the cache model on and cold.\<close>

abbreviation run_state :: "bytes \<Rightarrow> u64 \<Rightarrow> unit state_t" where
  "run_state m x \<equiv> (state_zero ((io_init ())\<lparr>mem := m, g_cmodel := Some cache_model_init\<rparr>))
     \<lparr>gpr := (\<lambda>_. 0)(4 := 0xffffffff80001003, 2 := x)\<rparr>"

lemma run_pa:
  assumes "gpr s 4 = 0xffffffff80001003"
  shows "unmapped_pa (eff_va 0x88820000 s) = Some 0x1003" "unmapped_pa (eff_va 0x98820003 s) = Some (0x1003 + 3)"
    "in_kseg0 (eff_va 0x88820000 s)" "in_kseg0 (eff_va 0x98820003 s)"
  using assms by (simp_all add: f_rs_def unmapped_pa_def in_kseg0_def eff_va_def f_simm_def compat_va_def Let_def
      drop_bit_eq_div)

lemma run_first:
  assumes "op \<noteq> op_fetch"
  shows "translates 0x88820000 op (run_state m x) 0x1003 (set_cache_active True (run_state m x))"
  using translates_unmapped [OF run_pa(1) _ assms, of "run_state m x"] run_pa(3) [of "run_state m x"]
  by (simp add: state_zero_def)

lemma run_second:
  assumes "op \<noteq> op_fetch" "gpr t 4 = 0xffffffff80001003" "\<not> tlb_fault t"
  shows "translates 0x98820003 op t (0x1003 + 3) (set_cache_active True t)"
  using translates_unmapped [OF run_pa(2) [OF assms(2)] assms(3,1)] run_pa(4) [OF assms(2)] by simp

lemma run_io:
  "io_inv (sys (run_state m x))" "plain_access a (sys (set_cache_active True (run_state m x)))"
  "cpu_view (sys (set_cache_active True (run_state m x))) = m" "route_devices (sys (set_cache_active True (run_state m x))) = False"
  "f_rt 0x88820000 = 2" "f_rt 0x98820003 = 2" "\<not> tlb_fault (run_state m x)"
  using cm_init_rel [of False m]
  by (simp_all add: io_inv_def plain_access_def cpu_view_def cached_access_def set_cache_active_def state_zero_def
      io_init_def cm_rel_def dram_rd_def get_raw_ptr_def f_rt_def drop_bit_eq_div fun_eq_iff)

lemma be_load_store: "n \<le> 8 \<Longrightarrow> be_load n (mem_store n m a (bswap n v)) a = take_bit (8 * n) v"
  by (simp add: be_load_def mem_load_store_same bswap_bswap)

section \<open>Properties\<close>

text \<open>C34.  LWL at an address and LWR three bytes on, into the same register, load the sign
  extended big-endian word at that address, whatever its alignment, change no other register and
  no byte of memory as the CPU sees it.  The two addresses may be mapped or unmapped and the cache model
  on or off; the conditions are that both accesses translate without an exception to physically
  contiguous addresses (a and a + 3) of the same cacheability, that the aligned words they
  touch are memory and not a device register, and that no clean cache line is stale.\<close>

theorem unaligned_word_load:
  assumes "io_inv (sys s)" "f_rt i2 = f_rt i1"
    and "translates i1 op_load s a s1" "translates i2 op_load (lwl E i1 s) (a + 3) s2"
    and "cache_active (sys s2) = cache_active (sys s1)"
    and "plain_access (a AND NOT (mask 2)) (sys s1)" "plain_access ((a + 3) AND NOT (mask 2)) (sys s1)"
  shows "gpr (lwr E i2 (lwl E i1 s)) = (gpr s)(f_rt i1 := sext32 (ucast (be_load 4 (cpu_view (sys s1)) a))) \<and>
    cpu_view (sys (lwr E i2 (lwl E i1 s))) = cpu_view (sys s1)"
proof -
  let ?k = "unat (a AND mask 2)" and ?k' = "unat ((a + 3) AND mask 2)" and ?m = "cpu_view (sys s1)"
  let ?w = "lwl_val (ucast (be_load 4 ?m (a AND NOT (mask 2)))) (gpr s (f_rt i1)) ?k"
  let ?w' = "lwr_val (ucast (be_load 4 ?m ((a + 3) AND NOT (mask 2)))) ?w ?k'"
  note adr = pair_addresses4 [of a] and s1 = translates_setup [OF assms(3,1)]
  note first = loads_regD [OF half_loads(1) [OF assms(3) s1(2) assms(6), of E]]
  have su: "same_setup (sys (lwl E i1 s)) (sys s1)" using first by (simp add: reads_def)
  note s2 = second_half [OF su assms(4,5)]
  have "coherent (sys s2)" using first s2(1) by (simp add: reads_def)
  note second = loads_regD [OF half_loads(2) [OF assms(4) this s2(3) [OF assms(7)], of E]]
  have "byte_of ?w' i = byte_of (be_load 4 ?m a) i" if "i < 4" for i
    by (rule load_pair [OF _ _ adr(1,3) word_split adr(4) merge_bytes4(1) merge_bytes4(2) that])
      (use adr in simp_all)
  then have "(ucast ?w' :: u32) = ucast (be_load 4 ?m a)" by (rule low_word_eqI)
  then have "?w' = sext32 (ucast (be_load 4 ?m a))" using lwr_val_sext by metis
  then show ?thesis
    using first second s2 s1(1) assms(2) by (simp add: reads_def)
qed

theorem unaligned_word_load_witness:
  "gpr (lwr base_env 0x98820003 (lwl base_env 0x88820000
     (run_state (mem_store 4 sparse_mem_clear 0x1003 (bswap 4 0x80112233)) 0))) 2 = 0xffffffff80112233"
proof -
  let ?s = "run_state (mem_store 4 sparse_mem_clear 0x1003 (bswap 4 0x80112233)) 0"
  let ?s1 = "set_cache_active True ?s" and ?t = "lwl base_env 0x88820000 ?s"
  have tr: "translates 0x88820000 op_load ?s 0x1003 ?s1" by (rule run_first) simp
  have "coherent (sys ?s1)" using translates_setup(2) [OF tr run_io(1)] .
  note t = loads_regD [OF half_loads(1) [OF tr this run_io(2), of base_env]]
  have r: "gpr ?t 4 = 0xffffffff80001003" "\<not> tlb_fault ?t" using t by (simp_all add: run_io)
  have tr2: "translates 0x98820003 op_load ?t (0x1003 + 3) (set_cache_active True ?t)"
    by (rule run_second [OF _ r]) simp
  have c: "cache_active (sys (set_cache_active True ?t)) = cache_active (sys ?s1)"
    by (simp add: set_cache_active_def)
  have "f_rt 0x98820003 = f_rt 0x88820000" by (simp add: run_io)
  from unaligned_word_load [OF run_io(1) this tr tr2 c run_io(2) run_io(2)]
  show ?thesis by (simp add: run_io be_load_store take_bit_eq_mod sext32_def)
qed

text \<open>C35.  SWL at an address and SWR three bytes on, from the same register, together store
  the low word of the register big-endian at that address, whatever its alignment: the four bytes
  there, under either name of a cell of low memory, become those of the register, every other byte of memory
  as the CPU sees it keeps its value, and no register changes.  The two addresses may be mapped or
  unmapped and the cache model on or off; the conditions are those of the load: both accesses translate
  without an exception to physically contiguous addresses of the same cacheability, the aligned words they touch are
  memory and not a device register, and no clean cache line is stale.\<close>

theorem unaligned_word_store:
  assumes "io_inv (sys s)" "f_rt i2 = f_rt i1"
    and "translates i1 op_store s a s1" "translates i2 op_store (swl E i1 s) (a + 3) s2"
    and "cache_active (sys s2) = cache_active (sys s1)"
    and "plain_access (a AND NOT (mask 2)) (sys s1)" "plain_access ((a + 3) AND NOT (mask 2)) (sys s1)"
  shows "stored (route_devices (sys s1)) 4 (cpu_view (sys s1)) a (bswap 4 (gpr s (f_rt i1)))
      (cpu_view (sys (swr E i2 (swl E i1 s)))) \<and>
    gpr (swr E i2 (swl E i1 s)) = gpr s"
proof -
  note adr = pair_addresses4 [of a] and s1 = translates_setup [OF assms(3,1)]
  note first = stores_memD [OF half_stores(1) [OF assms(3) s1(2) assms(6), of E]]
  have su: "same_setup (sys (swl E i1 s)) (sys s1)" using first by (simp add: writes_def)
  note s2 = second_half [OF su assms(4,5)]
  have "coherent (sys s2)" using first s2(1) by (simp add: writes_def)
  note second = stores_memD [OF half_stores(2) [OF assms(4) this s2(3) [OF assms(7)], of E]]
  have rd: "route_devices (sys s2) = route_devices (sys s1)" using su s2(1) by (simp add: same_setup_def)
  have "stored (route_devices (sys s1)) 4 (cpu_view (sys s1)) a (bswap 4 (gpr s (f_rt i1)))
      (cpu_view (sys (swr E i2 (swl E i1 s))))"
  proof (rule store_pair_view [OF _ _ adr(1,3) word_split adr(4) cpu_view_raw])
    show "stored (route_devices (sys s1)) 4 (cpu_view (sys s1)) (a AND NOT (mask 2))
        (bswap 4 (ucast (swl_val (ucast (be_load 4 (cpu_view (sys s1)) (a AND NOT (mask 2))))
          (ucast (gpr s (f_rt i1))) (unat (a AND mask 2))))) (cpu_view (sys s2))"
      using first s1(1) s2(1) by (simp add: writes_def)
    show "stored (route_devices (sys s1)) 4 (cpu_view (sys s2)) ((a + 3) AND NOT (mask 2))
        (bswap 4 (ucast (swr_val (ucast (be_load 4 (cpu_view (sys s2)) ((a + 3) AND NOT (mask 2))))
          (ucast (gpr s (f_rt i1))) (unat ((a + 3) AND mask 2))))) (cpu_view (sys (swr E i2 (swl E i1 s))))"
      using second first s1(1) s2(2) rd assms(2) by (simp add: writes_def)
  qed (use adr in \<open>simp_all add: merge_bytes4 del: mask_numeral\<close>)
  then show ?thesis using first second s1(1) s2(2) by simp
qed

theorem unaligned_word_store_witness:
  "cpu_view (sys (swr base_env 0x98820003 (swl base_env 0x88820000 (run_state sparse_mem_clear 0x11223344)))) 0x1005
     = 0x33"
proof -
  let ?s = "run_state sparse_mem_clear 0x11223344"
  let ?s1 = "set_cache_active True ?s" and ?t = "swl base_env 0x88820000 ?s"
  have tr: "translates 0x88820000 op_store ?s 0x1003 ?s1" by (rule run_first) simp
  have "coherent (sys ?s1)" using translates_setup(2) [OF tr run_io(1)] .
  note t = stores_memD [OF half_stores(1) [OF tr this run_io(2), of base_env]]
  have r: "gpr ?t 4 = 0xffffffff80001003" "\<not> tlb_fault ?t" using t by (simp_all add: run_io)
  have tr2: "translates 0x98820003 op_store ?t (0x1003 + 3) (set_cache_active True ?t)"
    by (rule run_second [OF _ r]) simp
  have c: "cache_active (sys (set_cache_active True ?t)) = cache_active (sys ?s1)"
    by (simp add: set_cache_active_def)
  have e: "f_rt 0x98820003 = f_rt 0x88820000" by (simp add: run_io)
  have "byte_of (bswap 4 0x11223344) 2 = 0x33" by code_simp
  with storedD(1) [OF unaligned_word_store [OF run_io(1) e tr tr2 c run_io(2) run_io(2), THEN conjunct1], of 2 "0x1005"]
  show ?thesis by (simp add: run_io)
qed

text \<open>LDL at an address and LDR seven bytes on load the big-endian doubleword there, under the same conditions.\<close>

theorem unaligned_doubleword_load:
  assumes "io_inv (sys s)" "f_rt i2 = f_rt i1"
    and "translates i1 op_load s a s1" "translates i2 op_load (ldl E i1 s) (a + 7) s2"
    and "cache_active (sys s2) = cache_active (sys s1)"
    and "plain_access (a AND NOT (mask 3)) (sys s1)" "plain_access ((a + 7) AND NOT (mask 3)) (sys s1)"
  shows "gpr (ldr E i2 (ldl E i1 s)) = (gpr s)(f_rt i1 := be_load 8 (cpu_view (sys s1)) a) \<and>
    cpu_view (sys (ldr E i2 (ldl E i1 s))) = cpu_view (sys s1)"
proof -
  let ?k = "unat (a AND mask 3)" and ?k' = "unat ((a + 7) AND mask 3)" and ?m = "cpu_view (sys s1)"
  let ?w = "ldl_val (be_load 8 ?m (a AND NOT (mask 3))) (gpr s (f_rt i1)) ?k"
  let ?w' = "ldr_val (be_load 8 ?m ((a + 7) AND NOT (mask 3))) ?w ?k'"
  note adr = pair_addresses8 [of a] and s1 = translates_setup [OF assms(3,1)]
  note first = loads_regD [OF half_loads(3) [OF assms(3) s1(2) assms(6), of E]]
  have su: "same_setup (sys (ldl E i1 s)) (sys s1)" using first by (simp add: reads_def)
  note s2 = second_half [OF su assms(4,5)]
  have "coherent (sys s2)" using first s2(1) by (simp add: reads_def)
  note second = loads_regD [OF half_loads(4) [OF assms(4) this s2(3) [OF assms(7)], of E]]
  have "byte_of ?w' i = byte_of (be_load 8 ?m a) i" if "i < 8" for i
    by (rule load_pair [OF _ _ adr(1,3) word_split adr(4) merge_bytes8(1) merge_bytes8(2) that])
      (use adr in simp_all)
  then have "?w' = be_load 8 ?m a" by (rule doubleword_eqI)
  then show ?thesis
    using first second s2 s1(1) assms(2) by (simp add: reads_def)
qed

text \<open>SDL at an address and SDR seven bytes on store the register big-endian there, and
  nothing else.\<close>

theorem unaligned_doubleword_store:
  assumes "io_inv (sys s)" "f_rt i2 = f_rt i1"
    and "translates i1 op_store s a s1" "translates i2 op_store (sdl E i1 s) (a + 7) s2"
    and "cache_active (sys s2) = cache_active (sys s1)"
    and "plain_access (a AND NOT (mask 3)) (sys s1)" "plain_access ((a + 7) AND NOT (mask 3)) (sys s1)"
  shows "stored (route_devices (sys s1)) 8 (cpu_view (sys s1)) a (bswap 8 (gpr s (f_rt i1)))
      (cpu_view (sys (sdr E i2 (sdl E i1 s)))) \<and>
    gpr (sdr E i2 (sdl E i1 s)) = gpr s"
proof -
  note adr = pair_addresses8 [of a] and s1 = translates_setup [OF assms(3,1)]
  note first = stores_memD [OF half_stores(3) [OF assms(3) s1(2) assms(6), of E]]
  have su: "same_setup (sys (sdl E i1 s)) (sys s1)" using first by (simp add: writes_def)
  note s2 = second_half [OF su assms(4,5)]
  have "coherent (sys s2)" using first s2(1) by (simp add: writes_def)
  note second = stores_memD [OF half_stores(4) [OF assms(4) this s2(3) [OF assms(7)], of E]]
  have rd: "route_devices (sys s2) = route_devices (sys s1)" using su s2(1) by (simp add: same_setup_def)
  have "stored (route_devices (sys s1)) 8 (cpu_view (sys s1)) a (bswap 8 (gpr s (f_rt i1)))
      (cpu_view (sys (sdr E i2 (sdl E i1 s))))"
  proof (rule store_pair_view [OF _ _ adr(1,3) word_split adr(4) cpu_view_raw])
    show "stored (route_devices (sys s1)) 8 (cpu_view (sys s1)) (a AND NOT (mask 3))
        (bswap 8 (sdl_val (be_load 8 (cpu_view (sys s1)) (a AND NOT (mask 3)))
          (gpr s (f_rt i1)) (unat (a AND mask 3)))) (cpu_view (sys s2))"
      using first s1(1) s2(1) by (simp add: writes_def)
    show "stored (route_devices (sys s1)) 8 (cpu_view (sys s2)) ((a + 7) AND NOT (mask 3))
        (bswap 8 (sdr_val (be_load 8 (cpu_view (sys s2)) ((a + 7) AND NOT (mask 3)))
          (gpr s (f_rt i1)) (unat ((a + 7) AND mask 3)))) (cpu_view (sys (sdr E i2 (sdl E i1 s))))"
      using second first s1(1) s2(2) rd assms(2) by (simp add: writes_def)
  qed (use adr in \<open>simp_all add: merge_bytes8 del: mask_numeral\<close>)
  then show ?thesis using first second s1(1) s2(2) by simp
qed

end
