(* ===== verification/Access_Properties.thy ===== *)
theory Access_Properties
  imports Unaligned
begin

text \<open>
  Properties of the load and store handlers: a store that completes is seen by
  the next load at the same virtual address, through the TLB and the cache; a faulting access
  is precise; and a misaligned load-linked still arms the reservation.
\<close>

section \<open>What a successful translation leaves behind\<close>

text \<open>After a translation the micro-TLB holds the page, unless the segment is unmapped.\<close>

definition translated :: "u64 \<Rightarrow> u32 \<Rightarrow> 'd state_t \<Rightarrow> bool" where
  "translated va pa s1 \<longleftrightarrow>
     (case unmapped_pa va of
        Some a \<Rightarrow> a = pa \<and> cache_active (sys s1) = in_kseg0 va
      | None \<Rightarrow> \<exists>d. \<exists>ppn. utlb_probe (g_utlb s1) (drop_bit 12 va, cur_asid_of s1) = Some (ppn, d, cache_active (sys s1))
                 \<and> pa = push_bit 12 ppn OR ucast (va AND 0xfff))"

lemma cam_success:
  assumes "va_translate_cam va op s = (pa, s1)" "\<not> tlb_fault s1" "op \<noteq> op_fetch" "\<not> cache_active (sys s)"
  shows "\<exists>d. \<exists>ppn. utlb_probe (g_utlb s1) (drop_bit 12 va, cur_asid_of s1) = Some (ppn, d, cache_active (sys s1))
    \<and> pa = push_bit 12 ppn OR ucast (va AND 0xfff)"
proof (cases "tlb_search tlb_match va (cur_asid_of s) (tlb s)")
  case None
  then show ?thesis using assms(1,2) by (auto simp: va_translate_cam_def Let_def)
next
  case (Some i)
  let ?lo = "entry_lo_of va (tlb s i)"
  have v: "flag ?lo 0x2" "\<not> (op = op_store \<and> \<not> flag ?lo 0x4)"
    using assms(1,2) Some by (auto simp: va_translate_cam_def Let_def split: if_splits)
  show ?thesis
    using assms Some v pa_from_page [of va "tlb s i"]
    by (auto simp: va_translate_cam_def Let_def ut.probe_fill set_cache_active_def cur_asid_of_def
        ex_bool_eq split: if_splits)
qed

lemma translate_success:
  assumes "va_translate va op s = (pa, s1)" "\<not> tlb_fault s1" "op \<noteq> op_fetch"
  shows "translated va pa s1"
proof -
  have cam: ?thesis if "va_translate_cam va op (set_cache_active False s) = (pa, s1)" "unmapped_pa va = None"
    using cam_success [OF that(1) assms(2,3)] that(2) by (simp add: translated_def set_cache_active_def)
  show ?thesis
  proof (cases "unmapped_pa va")
    case (Some a)
    then show ?thesis using assms by (auto simp: translated_def va_translate_def Let_def set_cache_active_def split: if_splits)
  next
    case None
    then show ?thesis
      using assms(1) cam assms(3)
      by (auto simp: va_translate_def Let_def translated_def set_cache_active_def cur_asid_of_def
          ex_bool_eq split: option.splits if_splits)
  qed
qed

lemma translate_load_again:
  assumes "translated va pa s1" "g_utlb t = g_utlb s1" "cur_asid_of t = cur_asid_of s1"
  shows "va_translate va op_load t = (pa, set_cache_active (cache_active (sys s1)) t)"
proof -
  have "set_cache_active b (set_cache_active c t) = set_cache_active b t" for b c
    by (simp add: set_cache_active_def)
  then show ?thesis
    using assms by (auto simp: translated_def va_translate_def Let_def split: option.splits)
qed

section \<open>A store is seen by the next load\<close>

lemma set_T_settings:
  "plain_access a io0 \<Longrightarrow> cache_active (set_T D vw n a v io0) = cache_active io0"
  by (cases "g_cmodel io0 = None \<or> \<not> cache_active io0")
    (simp add: set_T_uncached, auto simp: set_T_def split: prod.split)

text \<open>The physical access of a load that follows a completed store to the same address.\<close>

lemma store_load_core:
  assumes inv: "io_inv (sys s)" "n \<le> 8"
    and st: "va_translate va op_store s = (pa, s1)" "\<not> tlb_fault s1" "plain_access pa (sys s1)"
    and t: "sys t = sys (mem_set E n pa v s1)" "g_utlb t = g_utlb s1" "cur_asid_of t = cur_asid_of s1"
      "\<not> tlb_fault t"
  shows "with_ea op_load va k t = k pa t \<and> fst (mem_get E n pa t) = take_bit (8 * n) v"
proof -
  have tr: "translated va pa s1" using translate_success [OF st(1,2)] by simp
  have act: "cache_active (sys t) = cache_active (sys s1)"
    using t(1) st(3) by (simp add: mem_set_def set_T_settings)
  have "set_cache_active (cache_active (sys t)) t = t" by (simp add: set_cache_active_def)
  then have "va_translate va op_load t = (pa, t)"
    using translate_load_again [OF tr t(2,3)] act by simp
  moreover have "io_inv (sys s1)"
    using translate_frame [of va op_store s] inv(1) by (simp add: st(1) translate_io_inv)
  then have "fst (mem_get E n pa t) = take_bit (8 * n) v"
    using get_after_set [OF inv(2) _ st(3)] t(1) by (simp add: mem_get_def mem_set_def split_def)
  ultimately show ?thesis using t(4) by (simp add: with_ea_def)
qed

lemma bswap_mem_simps:
  "n \<le> 8 \<Longrightarrow> bswap n (take_bit (8 * n) (bswap n v)) = take_bit (8 * n) v"
  by (metis bswap_def bswap_bswap le_bytes_take_bit)

lemma bswap4_low: "(ucast (bswap 4 (take_bit 32 (bswap 4 v))) :: u32) = ucast v"
  using bswap_mem_simps [of 4 v] by (simp add: take_bit_eq_mask) (auto intro!: bit_word_eqI simp: bit_simps)

lemma bswap8_id: "bswap 8 (take_bit 64 (bswap 8 v)) = v"
  using bswap_mem_simps [of 8 v] by (simp add: take_bit_word_eq_self)

lemma mem_set_frame:
  "gpr (mem_set E n a v s) = gpr s" "g_utlb (mem_set E n a v s) = g_utlb s"
  "cur_asid_of (mem_set E n a v s) = cur_asid_of s" "tlb_fault (mem_set E n a v s) = tlb_fault s"
  by (simp_all add: mem_set_def cur_asid_of_def)

lemma pc4_frame:
  "sys (pc4 s) = sys s" "g_utlb (pc4 s) = g_utlb s" "cur_asid_of (pc4 s) = cur_asid_of s"
  by (simp_all add: pc4_def cur_asid_of_def)

text \<open>C36.  A word or doubleword store that completes (translation succeeds, for mapped and
  unmapped addresses alike, and the address is aligned and not a device register) is seen by the
  next load from the same virtual address: LW returns the sign-extended low word of the stored
  register and LD all of it, through the micro-TLB and, when enabled, the write-back cache.\<close>

theorem store_then_load:
  assumes "io_inv (sys s)" "va_translate (eff_va i1 s) op_store s = (pa, s1)"
    and "\<not> tlb_fault s1" "plain_access pa (sys s1)" "eff_va i2 s = eff_va i1 s"
  shows "(pa AND 3 = 0 \<longrightarrow> gpr (lw E i2 (sw E i1 s)) (f_rt i2) = sext32 (ucast (gpr s (f_rt i1)))) \<and>
    (pa AND 7 = 0 \<longrightarrow> gpr (ld E i2 (sd E i1 s)) (f_rt i2) = gpr s (f_rt i1))"
proof (intro conjI impI)
  have g: "gpr s1 = gpr s" using translate_frame [of "eff_va i1 s" op_store s] assms(2) by (simp add: same_data_def)
  let ?t = "\<lambda>n. pc4 (mem_set E n pa (bswap n (gpr s (f_rt i1))) s1)"
  have core: "with_ea op_load (eff_va i1 s) k (?t n) = k pa (?t n) \<and>
      fst (mem_get E n pa (?t n)) = take_bit (8 * n) (bswap n (gpr s (f_rt i1)))" if "n \<le> 8" for n k
    using assms that by (intro store_load_core) (simp_all add: pc4_frame mem_set_frame)
  have va: "eff_va i2 (mem_set E n pa v s1) = eff_va i1 s" for n v
    using assms(5) by (simp add: eff_va_def mem_set_frame g)
  show "gpr (lw E i2 (sw E i1 s)) (f_rt i2) = sext32 (ucast (gpr s (f_rt i1)))" if "pa AND 3 = 0"
  proof -
    have "sw E i1 s = ?t 4" using assms that by (simp add: sw_def with_ea_def g)
    then show ?thesis
      using core [of 4] that by (simp add: lw_def va split_def bswap4_low)
  qed
  show "gpr (ld E i2 (sd E i1 s)) (f_rt i2) = gpr s (f_rt i1)" if "pa AND 7 = 0"
  proof -
    have "sd E i1 s = ?t 8" using assms that by (simp add: sd_def with_ea_def g)
    then show ?thesis
      using core [of 8] that by (simp add: ld_def va split_def bswap8_id)
  qed
qed

theorem store_then_load_witness:
  "gpr (lw base_env 0x8c850000 (sw base_env 0xac820000
     ((state_zero (io_init ()))\<lparr>gpr := (\<lambda>_. 0)(4 := 0xffffffff80001000, 2 := 0x80000001)\<rparr>))) 5
   = 0xffffffff80000001"
proof -
  let ?s = "(state_zero (io_init ()))\<lparr>gpr := (\<lambda>_. 0)(4 := 0xffffffff80001000, 2 := 0x80000001)\<rparr>"
  have va: "eff_va 0xac820000 ?s = 0xffffffff80001000" "eff_va 0x8c850000 ?s = 0xffffffff80001000"
    by (simp_all add: eff_va_def f_rs_def f_simm_def drop_bit_eq_div)
  have tr: "va_translate (eff_va 0xac820000 ?s) op_store ?s = (0x1000, set_cache_active True ?s)"
    by (simp add: va va_translate_def unmapped_pa_def compat_va_def in_kseg0_def drop_bit_eq_div set_cache_active_def)
  have io: "io_inv (sys ?s)" "\<not> tlb_fault (set_cache_active True ?s)" "plain_access 0x1000 (sys (set_cache_active True ?s))"
    by (simp_all add: io_inv_def io_init_def state_zero_def plain_access_def set_cache_active_def)
  show ?thesis
    using store_then_load [OF io(1) tr io(2,3), of "0x8c850000" base_env] va
    by (simp add: f_rt_def drop_bit_eq_div sext32_def state_zero_def)
qed

section \<open>Faulting accesses are precise\<close>

definition access_faults :: "tlb_op \<Rightarrow> nat \<Rightarrow> u32 \<Rightarrow> 'd state_t \<Rightarrow> bool" where
  "access_faults op k i s =
     (let (pa, s1) = va_translate (eff_va i s) op s in tlb_fault s1 \<or> pa AND mask k \<noteq> 0)"

definition precise :: "'d state_t \<Rightarrow> 'd state_t \<Rightarrow> bool" where
  "precise t s \<longleftrightarrow> same_data t s \<and> exl t \<and> \<not> erl t \<and>
     (if exl s
      then cpr0_64 t CPR0_EPC = cpr0_64 s CPR0_EPC \<and> bit (cpr0 t CPR0_CAUSE) 31 = bit (cpr0 s CPR0_CAUSE) 31
      else cpr0_64 t CPR0_EPC = (if in_delay_slot s then pc s - 4 else pc s) \<and>
           bit (cpr0 t CPR0_CAUSE) 31 = in_delay_slot s)"

lemma precise_entered: "entered t c s \<Longrightarrow> same_data t s \<Longrightarrow> precise t s"
  by (auto simp: precise_def entered_def)

lemma precise_raise_tlb: "c \<in> {1, 2, 3} \<Longrightarrow> precise (raise_tlb va c r x s) s"
  by (rule precise_entered [OF raise_tlb_entered]) simp_all

lemma precise_raisers:
  assumes "(raise, code) \<in> set (raisers ce)"
  shows "precise (raise s) s"
proof (rule precise_entered)
  show "entered (raise s) code s" using raisers_entered [OF assms] by blast
  show "same_data (raise s) s"
    using exc_entry.frame [OF raisers_entry [OF assms], of s]
    by (auto simp: same_data_def intro: exI [of _ "cache_active (sys s)"])
qed

lemma precise_adel: "precise (raise_adel s) s" and precise_ades: "precise (raise_ades s) s"
  using precise_raisers [of raise_adel 4 0 s] precise_raisers [of raise_ades 5 0 s] by (simp_all add: raisers_def)

lemma precise_armed [simp]: "precise (t\<lparr>ll_armed := b\<rparr>) s = precise t s"
  by (simp add: precise_def same_data_def exl_def erl_def)

lemma precise_cong:
  assumes "precise t s1" "same_data s1 s" "exl s1 = exl s" "in_delay_slot s1 = in_delay_slot s" "pc s1 = pc s"
    "cpr0_64 s1 CPR0_EPC = cpr0_64 s CPR0_EPC" "cpr0 s1 CPR0_CAUSE = cpr0 s CPR0_CAUSE"
  shows "precise t s"
  using assms(1,3-7) same_data_trans [OF _ assms(2), of t] unfolding precise_def by simp

text \<open>A translation either succeeds and keeps the exception state, or raises one TLB exception.\<close>

lemma translate_cases:
  assumes "va_translate va op s = (pa, s1)" "\<not> tlb_fault s"
  shows "if tlb_fault s1 then \<exists>c r x. c \<in> {1, 2, 3} \<and> s1 = raise_tlb va c r x (set_cache_active False s)
    else in_delay_slot s1 = in_delay_slot s \<and> pc s1 = pc s \<and> cpr0 s1 = cpr0 s \<and>
         cpr0_64 s1 = cpr0_64 s \<and> same_data s1 s"
proof -
  have cam: "if tlb_fault t1 then \<exists>c r x. c \<in> {1, 2, 3} \<and> t1 = raise_tlb va c r x t
    else in_delay_slot t1 = in_delay_slot t \<and> pc t1 = pc t \<and> cpr0 t1 = cpr0 t \<and> cpr0_64 t1 = cpr0_64 t"
    if "va_translate_cam va op t = (pa, t1)" "\<not> tlb_fault t" for t t1
    using that by (auto simp: va_translate_cam_def Let_def split: option.splits if_splits)
  have sd: "same_data s1 s" using translate_frame [of va op s] assms(1) by simp
  show ?thesis
  proof (cases "va_translate_cam va op (set_cache_active False s) = (pa, s1)")
    case True
    have "\<not> tlb_fault (set_cache_active False s)" using assms(2) by simp
    note c = cam [OF True this]
    show ?thesis
    proof (cases "tlb_fault s1")
      case True
      show ?thesis using c unfolding if_P [OF True] .
    next
      case False
      show ?thesis using c sd unfolding if_not_P [OF False] by simp
    qed
  next
    case False
    then show ?thesis
      using assms sd by (auto simp: va_translate_def Let_def split: option.splits if_splits)
  qed
qed

lemma with_ea_precise:
  assumes "access_faults op k i s" "\<not> tlb_fault s"
    and "\<And>pa t. pa AND mask k \<noteq> 0 \<Longrightarrow> precise (h pa t) t"
  shows "precise (with_ea op (eff_va i s) h s) s"
proof -
  obtain pa s1 where t: "va_translate (eff_va i s) op s = (pa, s1)" by (cases "va_translate (eff_va i s) op s")
  note tc = translate_cases [OF t assms(2)]
  show ?thesis
  proof (cases "tlb_fault s1")
    case True
    then obtain c r x where c: "c \<in> {1, 2, 3}" "s1 = raise_tlb (eff_va i s) c r x (set_cache_active False s)"
      using tc by auto
    have "precise s1 s" unfolding c(2) by (rule precise_cong [OF precise_raise_tlb [OF c(1)]]) simp_all
    then show ?thesis using True by (simp add: with_ea_def t)
  next
    case False
    then have "pa AND mask k \<noteq> 0" using assms(1) by (simp add: access_faults_def t del: mask_numeral)
    then show ?thesis
      using False tc precise_cong [OF assms(3), of pa s1 s] by (simp add: with_ea_def t exl_def del: mask_numeral)
  qed
qed

lemma align_masks: "(1 :: u32) = mask 1" "(3 :: u32) = mask 2" "(7 :: u32) = mask 3"
  by (simp_all add: mask_eq_exp_minus_1)

text \<open>The integer load and store instructions, with the kind of their translation and the alignment they
  demand, as a number of address bits.  SC, SCD and the unaligned forms demand none.\<close>

definition memory_handlers :: "'d env \<Rightarrow> ((u32 \<Rightarrow> 'd state_t \<Rightarrow> 'd state_t) \<times> tlb_op \<times> nat) list" where
  "memory_handlers E =
     [(lb E, op_load, 0), (lbu E, op_load, 0), (lh E, op_load, 1), (lhu E, op_load, 1), (lw E, op_load, 2),
      (lwu E, op_load, 2), (ld E, op_load, 3), (ll_exec E, op_load, 2), (lld_exec E, op_load, 3),
      (lwl E, op_load, 0), (lwr E, op_load, 0), (ldl E, op_load, 0), (ldr E, op_load, 0),
      (sb E, op_store, 0), (sh E, op_store, 1), (sw E, op_store, 2), (sd E, op_store, 3),
      (sc_exec E, op_store, 0), (scd_exec E, op_store, 0),
      (swl E, op_store, 0), (swr E, op_store, 0), (sdl E, op_store, 0), (sdr E, op_store, 0)]"

lemma ll_exec_precise: "precise (lw E i s) s \<Longrightarrow> precise (ll_exec E i s) s"
    "precise (ld E i s) s \<Longrightarrow> precise (lld_exec E i s) s"
  by (simp_all add: ll_exec_def lld_exec_def Let_def)

lemma sc_exec_precise: "precise (sc E i s) s \<Longrightarrow> precise (sc_exec E i s) s"
    "precise (scd E i s) s \<Longrightarrow> precise (scd_exec E i s) s"
  by (simp_all add: sc_exec_def scd_exec_def)

lemma handler_precise:
  assumes "access_faults op k i s" "\<not> tlb_fault s"
  shows "(op, k) = (op_load, 0) \<Longrightarrow> precise (lb E i s) s \<and> precise (lbu E i s) s \<and> precise (lwl E i s) s \<and>
      precise (lwr E i s) s \<and> precise (ldl E i s) s \<and> precise (ldr E i s) s"
    and "(op, k) = (op_load, 1) \<Longrightarrow> precise (lh E i s) s \<and> precise (lhu E i s) s"
    and "(op, k) = (op_load, 2) \<Longrightarrow> precise (lw E i s) s \<and> precise (lwu E i s) s"
    and "(op, k) = (op_load, 3) \<Longrightarrow> precise (ld E i s) s"
    and "(op, k) = (op_store, 0) \<Longrightarrow> precise (sb E i s) s \<and> precise (sc E i s) s \<and> precise (scd E i s) s \<and>
      precise (swl E i s) s \<and> precise (swr E i s) s \<and> precise (sdl E i s) s \<and> precise (sdr E i s) s"
    and "(op, k) = (op_store, 1) \<Longrightarrow> precise (sh E i s) s"
    and "(op, k) = (op_store, 2) \<Longrightarrow> precise (sw E i s) s"
    and "(op, k) = (op_store, 3) \<Longrightarrow> precise (sd E i s) s"
  unfolding lb_def lbu_def lh_def lhu_def lw_def lwu_def ld_def sb_def sh_def sw_def sd_def sc_def scd_def
    lwl_def lwr_def ldl_def ldr_def swl_def swr_def sdl_def sdr_def align_masks
  using assms
  by (auto intro!: with_ea_precise simp: precise_adel precise_ades)

text \<open>C37.  Precise memory exceptions: when the translation of an integer load or store faults, or when its
  physical address is misaligned and the instruction checks alignment (all the loads and stores of a halfword,
  word or doubleword, LL and LLD do; SC, SCD and the unaligned forms check none), the
  handler changes no general register, no HI/LO, no floating-point register, no TLB entry and no memory or
  device, and enters the exception level; EPC is the address of the instruction, or of the branch
  before it with Cause.BD set when it sits in a delay slot, unless EXL was already set, in which case EPC and
  BD are kept.  (The translation-fault flag of the simulator is clear before the handler, as the fetch leaves it.)\<close>

theorem faulting_access_precise:
  assumes "(handler, op, k) \<in> set (memory_handlers E)" "\<not> tlb_fault s" "access_faults op k i s"
  shows "precise (handler i s) s"
  using assms(1) handler_precise [OF assms(3,2), of E] ll_exec_precise [of E i s] sc_exec_precise [of E i s]
  unfolding memory_handlers_def
  by (simp only: list.set insert_iff empty_iff prod.inject; elim disjE conjE; simp)

lemma misaligned_run:
  "access_faults op_load 2 0x8c850002
     ((state_zero (io_init ()))\<lparr>gpr := (\<lambda>_. 0)(4 := 0xffffffff80001000)\<rparr>)"
  by (simp add: access_faults_def eff_va_def f_rs_def f_simm_def drop_bit_eq_div va_translate_def unmapped_pa_def
      compat_va_def in_kseg0_def mask_eq_exp_minus_1)

theorem faulting_access_precise_witness:
  "precise (ll_exec base_env 0x8c850002 ((state_zero (io_init ()))\<lparr>gpr := (\<lambda>_. 0)(4 := 0xffffffff80001000)\<rparr>))
     ((state_zero (io_init ()))\<lparr>gpr := (\<lambda>_. 0)(4 := 0xffffffff80001000)\<rparr>)"
  by (rule faulting_access_precise [where E = base_env, OF _ _ misaligned_run])
    (simp_all add: memory_handlers_def state_zero_def)

section \<open>Load-linked and store-conditional\<close>

lemma with_ea_unmapped:
  "unmapped_pa va = Some a \<Longrightarrow> \<not> tlb_fault s \<Longrightarrow>
     with_ea op va k s = k a (set_cache_active (in_kseg0 va \<and> op \<noteq> op_fetch) s)"
  by (simp add: with_ea_def va_translate_def Let_def) (auto simp: set_cache_active_def)

text \<open>A misaligned LL raises the address error and still leaves the reservation armed:
  \<^verbatim>\<open>execMips\<close> tests only \<^verbatim>\<open>tlb_fault\<close>, which an address error does not set, although the
  declaration of \<^verbatim>\<open>ll_armed\<close> says that any exception clears it.\<close>

theorem misaligned_ll_arms:
  assumes "\<not> tlb_fault s" "unmapped_pa (eff_va i s) = Some a" "a AND 3 \<noteq> 0"
  shows "ll_armed (ll_exec E i s) \<and> exl (ll_exec E i s) \<and>
    drop_bit 2 (cpr0 (ll_exec E i s) CPR0_CAUSE) AND 0x1f = 4"
proof -
  let ?t' = "set_cache_active (in_kseg0 (eff_va i s)) s"
  let ?t = "raise_adel ?t'"
  have "lw E i s = ?t" using assms by (simp add: lw_def with_ea_unmapped)
  moreover have "\<not> tlb_fault ?t" using assms(1) by (simp add: raise_adel_def)
  ultimately have "ll_exec E i s = ?t\<lparr>ll_armed := True\<rparr>" by (simp add: ll_exec_def)
  moreover have "exl (u\<lparr>ll_armed := True\<rparr>) = exl u" for u :: "'a state_t" by (simp add: exl_def)
  ultimately show ?thesis using adel.enters_kernel(1) [of ?t'] adel.exccode [of ?t'] by simp
qed

theorem misaligned_ll_arms_witness:
  "ll_armed (ll_exec base_env 0xc0820002
     ((state_zero (io_init ()))\<lparr>gpr := (\<lambda>_. 0)(4 := 0xffffffff80001000)\<rparr>))"
  by (subst misaligned_ll_arms [of _ _ "0x1002"])
    (simp_all add: state_zero_def unmapped_pa_def eff_va_def f_rs_def f_simm_def compat_va_def drop_bit_eq_div)

end
