(* ===== verification/FPU.thy ===== *)
theory FPU
  imports Access_Properties
begin

text \<open>
  The floating-point unit of src/interpret.cc: condition codes with their two views
  (FCSR and FCCR), the register file in both FR modes, moves, loads and stores,
  conversions, compares and arithmetic.  Comparison, classification, negation and
  absolute value are modelled on the IEEE-754 bit patterns; rounding arithmetic and
  conversions are SoftFloat's and the host's, parameters of the model.  \<^verbatim>\<open>currFpMode\<close> is the
  constant \<^verbatim>\<open>fpMode::mips3\<close>, so the register-pairing branches of the sources are dead code.
\<close>

section \<open>Condition codes\<close>

definition fcc_bit :: "u32 \<Rightarrow> nat" where
  "fcc_bit cc = (if cc = 0 then 23 else 24 + unat cc)"

definition getConditionCode :: "'d state_t \<Rightarrow> u32 \<Rightarrow> u32" where
  "getConditionCode s cc = drop_bit (fcc_bit cc) (fcr1 s CP1_CR31) AND 0x1"

definition fccr_of :: "u32 \<Rightarrow> u32" where
  "fccr_of f = fold (\<lambda>c v. v OR push_bit c (drop_bit (24 + c) f AND 0x1)) [1..<8] (drop_bit 23 f AND 0x1)"

definition fcc_mirror_to_fccr :: "'d state_t \<Rightarrow> 'd state_t" where
  "fcc_mirror_to_fccr s = set_fcr1 CP1_CR25 (fccr_of (fcr1 s CP1_CR31)) s"

definition fcsr_with :: "u32 \<Rightarrow> u32 \<Rightarrow> u32" where
  "fcsr_with v fcsr =
     (let f = fcsr AND NOT (push_bit 23 1 OR 0xfe000000);
          f = f OR push_bit 23 (v AND 1)
      in fold (\<lambda>c f. f OR push_bit (24 + c) (drop_bit c v AND 1)) [1..<8] f)"

definition fcc_mirror_from_fccr :: "'d state_t \<Rightarrow> 'd state_t" where
  "fcc_mirror_from_fccr s = set_fcr1 CP1_CR31 (fcsr_with (fcr1 s CP1_CR25) (fcr1 s CP1_CR31)) s"

definition setConditionCode :: "u32 \<Rightarrow> u32 \<Rightarrow> 'd state_t \<Rightarrow> 'd state_t" where
  "setConditionCode v cc s =
     (let b = push_bit (fcc_bit cc) 1; f = fcr1 s CP1_CR31
      in fcc_mirror_to_fccr (set_fcr1 CP1_CR31 (if v \<noteq> 0 then f OR b else f AND NOT b) s))"

section \<open>Register file\<close>

definition fpr_fr1 :: "'d state_t \<Rightarrow> bool" where
  "fpr_fr1 s \<longleftrightarrow> drop_bit 26 (cpr0 s CPR0_SR) AND 1 \<noteq> 0"

definition fpr_dreg :: "'d state_t \<Rightarrow> 5 word \<Rightarrow> 5 word" where
  "fpr_dreg s r = (if fpr_fr1 s then r else r AND NOT 1)"

text \<open>\<^verbatim>\<open>fpr_hw\<close> points to one 32-bit half of a register; reading and writing through it:\<close>

definition hw_high :: "'d state_t \<Rightarrow> 5 word \<Rightarrow> bool" where
  "hw_high s r \<longleftrightarrow> \<not> fpr_fr1 s \<and> r AND 1 \<noteq> 0"

definition fpr_hw :: "'d state_t \<Rightarrow> 5 word \<Rightarrow> u32" where
  "fpr_hw s r = (let w = cpr1 s (fpr_dreg s r) in if hw_high s r then ucast (drop_bit 32 w) else ucast w)"

definition set_cpr1 :: "5 word \<Rightarrow> u64 \<Rightarrow> 'd state_t \<Rightarrow> 'd state_t" where
  "set_cpr1 r v s = s\<lparr>cpr1 := (cpr1 s)(r := v)\<rparr>"

definition low_half :: "u32 \<Rightarrow> u64 \<Rightarrow> u64" where
  "low_half v w = (w AND 0xffffffff00000000) OR ucast v"

definition high_half :: "u32 \<Rightarrow> u64 \<Rightarrow> u64" where
  "high_half v w = push_bit 32 (ucast v) OR (w AND 0xffffffff)"

definition set_fpr_hw :: "5 word \<Rightarrow> u32 \<Rightarrow> 'd state_t \<Rightarrow> 'd state_t" where
  "set_fpr_hw r v s =
     (let d = fpr_dreg s r; w = cpr1 s d
      in set_cpr1 d (if hw_high s r then high_half v w else low_half v w) s)"

definition f_fmt :: "u32 \<Rightarrow> u32" where "f_fmt inst = drop_bit 21 inst AND 31"

abbreviation f_fd :: "u32 \<Rightarrow> 5 word" where "f_fd \<equiv> f_sa"
abbreviation f_fs :: "u32 \<Rightarrow> 5 word" where "f_fs \<equiv> f_rd"
abbreviation f_ft :: "u32 \<Rightarrow> 5 word" where "f_ft \<equiv> f_rt"

definition FMT_S :: u32 where "FMT_S = 16"
definition FMT_D :: u32 where "FMT_D = 17"
definition FMT_W :: u32 where "FMT_W = 20"
definition FMT_L :: u32 where "FMT_L = 21"

section \<open>Moves between the register files\<close>

definition mtc1 :: "u32 \<Rightarrow> 'd state_t \<Rightarrow> 'd state_t" where
  "mtc1 inst s = (let x = (ucast (gpr s (f_rt inst)) :: u32) in
     pc4 (if fpr_fr1 s then set_cpr1 (f_fs inst) (sext32 x) s else set_fpr_hw (f_fs inst) x s))"

definition mfc1 :: "u32 \<Rightarrow> 'd state_t \<Rightarrow> 'd state_t" where
  "mfc1 inst s = pc4 (set_gpr (f_rt inst) (sext32 (fpr_hw s (f_fs inst))) s)"

definition dmtc1 :: "u32 \<Rightarrow> 'd state_t \<Rightarrow> 'd state_t" where
  "dmtc1 inst s = pc4 (set_cpr1 (f_fs inst) (gpr s (f_rt inst)) s)"

definition dmfc1 :: "u32 \<Rightarrow> 'd state_t \<Rightarrow> 'd state_t" where
  "dmfc1 inst s = pc4 (set_gpr (f_rt inst) (cpr1 s (f_fs inst)) s)"

definition fcr_index :: "5 word \<Rightarrow> fcr" where
  "fcr_index cr =
     (if cr = 0 then CP1_CR0 else if cr = 31 then CP1_CR31 else if cr = 25 then CP1_CR25
      else if cr = 26 then CP1_CR26 else if cr = 28 then CP1_CR28 else CP1_CR31)"

definition cfc1 :: "'d env \<Rightarrow> u32 \<Rightarrow> 'd state_t \<Rightarrow> 'd state_t" where
  "cfc1 E inst s =
     (let cr = f_rd inst;
          v = (if cr = 0 then (if cpu_r5000 E then 0x00002320 else 0x00000500) else fcr1 s (fcr_index cr))
      in pc4 (set_gpr (f_rt inst) (sext32 v) s))"

definition ctc1 :: "u32 \<Rightarrow> 'd state_t \<Rightarrow> 'd state_t" where
  "ctc1 inst s =
     (let cr = f_rd inst in
      pc4 (if cr \<noteq> 0
           then (let s1 = set_fcr1 (fcr_index cr) (ucast (gpr s (f_rt inst))) s
                 in if cr = 31 then fcc_mirror_to_fccr s1
                    else if cr = 25 then fcc_mirror_from_fccr s1 else s1)
           else s))"

section \<open>Loads and stores\<close>

definition ldc1 :: "'d env \<Rightarrow> u32 \<Rightarrow> 'd state_t \<Rightarrow> 'd state_t" where
  "ldc1 E inst s = with_ea op_load (eff_va inst s) (\<lambda>ea s.
     let (v, s) = mem_get E 8 ea s in pc4 (set_cpr1 (fpr_dreg s (f_ft inst)) (bswap 8 v) s)) s"

definition sdc1 :: "'d env \<Rightarrow> u32 \<Rightarrow> 'd state_t \<Rightarrow> 'd state_t" where
  "sdc1 E inst s = with_ea op_store (eff_va inst s) (\<lambda>ea s.
     pc4 (mem_set E 8 ea (bswap 8 (cpr1 s (fpr_dreg s (f_ft inst)))) s)) s"

definition lwc1 :: "'d env \<Rightarrow> u32 \<Rightarrow> 'd state_t \<Rightarrow> 'd state_t" where
  "lwc1 E inst s = with_ea op_load (eff_va inst s) (\<lambda>ea s.
     let (v, s) = mem_get E 4 ea s in pc4 (set_fpr_hw (f_ft inst) (ucast (bswap 4 v)) s)) s"

definition swc1 :: "'d env \<Rightarrow> u32 \<Rightarrow> 'd state_t \<Rightarrow> 'd state_t" where
  "swc1 E inst s = with_ea op_store (eff_va inst s) (\<lambda>ea s.
     pc4 (mem_set E 4 ea (bswap 4 (ucast (fpr_hw s (f_ft inst)))) s)) s"

section \<open>Formats\<close>

text \<open>A value of \<^verbatim>\<open>float\<close> or \<^verbatim>\<open>double\<close> by its bit pattern; dbl selects the type.  A single
  occupies the low half of a register and writing it keeps the high half.\<close>

definition rd_fp :: "bool \<Rightarrow> 5 word \<Rightarrow> 'd state_t \<Rightarrow> u64" where
  "rd_fp dbl r s = (if dbl then cpr1 s r else ucast (ucast (cpr1 s r) :: u32))"

definition wr_fp :: "bool \<Rightarrow> 5 word \<Rightarrow> u64 \<Rightarrow> 'd state_t \<Rightarrow> 'd state_t" where
  "wr_fp dbl r v s = set_cpr1 r (if dbl then v else low_half (ucast v) (cpr1 s r)) s"

definition fp_exp :: "bool \<Rightarrow> u64 \<Rightarrow> u64" where
  "fp_exp dbl v = (if dbl then drop_bit 52 v AND 0x7ff else drop_bit 23 v AND 0xff)"

definition fp_frac :: "bool \<Rightarrow> u64 \<Rightarrow> u64" where
  "fp_frac dbl v = (if dbl then v AND 0x000fffffffffffff else v AND 0x007fffff)"

definition fp_sign :: "bool \<Rightarrow> u64 \<Rightarrow> bool" where
  "fp_sign dbl v = bit v (if dbl then 63 else 31)"

definition fp_mag :: "bool \<Rightarrow> u64 \<Rightarrow> nat" where
  "fp_mag dbl v = unat (take_bit (if dbl then 63 else 31) v)"

definition fp_is_nan :: "u64 \<Rightarrow> bool \<Rightarrow> bool" where
  "fp_is_nan v dbl =
     (if dbl then v AND 0x7ff0000000000000 = 0x7ff0000000000000 \<and> v AND 0x000fffffffffffff \<noteq> 0
      else v AND 0x7f800000 = 0x7f800000 \<and> v AND 0x007fffff \<noteq> 0)"

definition fp_is_denorm :: "bool \<Rightarrow> u64 \<Rightarrow> bool" where
  "fp_is_denorm dbl v \<longleftrightarrow> fp_exp dbl v = 0 \<and> fp_frac dbl v \<noteq> 0"

definition fp_is_qnan :: "bool \<Rightarrow> u64 \<Rightarrow> bool" where
  "fp_is_qnan dbl u =
     (if dbl then u AND 0x7ff0000000000000 = 0x7ff0000000000000 \<and> u AND 0x000fffffffffffff \<noteq> 0
                \<and> u AND 0x0008000000000000 = 0
      else u AND 0x7f800000 = 0x7f800000 \<and> u AND 0x007fffff \<noteq> 0 \<and> u AND 0x00400000 = 0)"

text \<open>C's comparisons on \<^verbatim>\<open>float\<close> and \<^verbatim>\<open>double\<close>: sign and magnitude order the non-NaN values,
  the two zeroes are equal, and every comparison with a NaN is false.\<close>

definition fp_key :: "bool \<Rightarrow> u64 \<Rightarrow> int" where
  "fp_key dbl v = (if fp_sign dbl v then - int (fp_mag dbl v) else int (fp_mag dbl v))"

definition fp_eq :: "bool \<Rightarrow> u64 \<Rightarrow> u64 \<Rightarrow> bool" where
  "fp_eq dbl a b \<longleftrightarrow> \<not> fp_is_nan a dbl \<and> \<not> fp_is_nan b dbl \<and> fp_key dbl a = fp_key dbl b"

definition fp_lt :: "bool \<Rightarrow> u64 \<Rightarrow> u64 \<Rightarrow> bool" where
  "fp_lt dbl a b \<longleftrightarrow> \<not> fp_is_nan a dbl \<and> \<not> fp_is_nan b dbl \<and> fp_key dbl a < fp_key dbl b"

definition fp_le :: "bool \<Rightarrow> u64 \<Rightarrow> u64 \<Rightarrow> bool" where
  "fp_le dbl a b \<longleftrightarrow> \<not> fp_is_nan a dbl \<and> \<not> fp_is_nan b dbl \<and> fp_key dbl a \<le> fp_key dbl b"

definition fp_negate :: "bool \<Rightarrow> u64 \<Rightarrow> u64" where
  "fp_negate dbl v = v XOR push_bit (if dbl then 63 else 31) 1"

definition fp_absolute :: "bool \<Rightarrow> u64 \<Rightarrow> u64" where
  "fp_absolute dbl v = v AND NOT (push_bit (if dbl then 63 else 31) 1)"

definition fp_one :: "bool \<Rightarrow> u64" where
  "fp_one dbl = (if dbl then 0x3ff0000000000000 else 0x3f800000)"

definition host_op :: "'d env \<Rightarrow> bool \<Rightarrow> fpOperation \<Rightarrow> u64 \<Rightarrow> u64 \<Rightarrow> u64" where
  "host_op E dbl op a b =
     (if dbl then host_f64 (fpu E) op a b else ucast (host_f32 (fpu E) op (ucast a) (ucast b)))"

text \<open>\<^verbatim>\<open>sf_add\<close>, \<^verbatim>\<open>sf_sub\<close>, \<^verbatim>\<open>sf_mul\<close>, \<^verbatim>\<open>sf_div\<close> and \<^verbatim>\<open>sf_sqrtf\<close>, with the rounding mode \<^verbatim>\<open>sf_set_rm\<close>
  has installed.\<close>

definition sf_op :: "'d env \<Rightarrow> bool \<Rightarrow> fpOperation \<Rightarrow> u8 \<Rightarrow> u64 \<Rightarrow> u64 \<Rightarrow> u64" where
  "sf_op E dbl op rm a b =
     (if FP_NATIVE E then host_op E dbl op a b
      else if dbl then sf_f64 (fpu E) op rm a b else ucast (sf_f32 (fpu E) op rm (ucast a) (ucast b)))"

definition softfloat_round_near_even :: u8 where "softfloat_round_near_even = 0"
definition softfloat_round_minMag :: u8 where "softfloat_round_minMag = 1"
definition softfloat_round_min :: u8 where "softfloat_round_min = 2"
definition softfloat_round_max :: u8 where "softfloat_round_max = 3"

definition sf_set_rm :: "'d state_t \<Rightarrow> u8" where
  "sf_set_rm s = [softfloat_round_near_even, softfloat_round_minMag, softfloat_round_max,
     softfloat_round_min] ! unat (fcr1 s CP1_CR31 AND 3)"

definition fcsr_fe_round :: "'d state_t \<Rightarrow> fe_round" where
  "fcsr_fe_round s =
     (let m = fcr1 s CP1_CR31 AND 3 in
      if m = 0 then FE_TONEAREST else if m = 1 then FE_TOWARDZERO else if m = 2 then FE_UPWARD else FE_DOWNWARD)"

section \<open>Conversions\<close>

text \<open>The operand as a double, for the formats that the conversions accept.\<close>

definition fp_operand :: "'d env \<Rightarrow> u32 \<Rightarrow> 'd state_t \<Rightarrow> u64 option" where
  "fp_operand E inst s =
     (if f_fmt inst = FMT_S then Some (f64_of_f32 (fpu E) (ucast (cpr1 s (f_fs inst))))
      else if f_fmt inst = FMT_D then Some (cpr1 s (f_fs inst)) else None)"

definition set_fp_state :: "5 word \<Rightarrow> fp_reg_state \<Rightarrow> 'd state_t \<Rightarrow> 'd state_t" where
  "set_fp_state r k s = s\<lparr>cpr1_state := (cpr1_state s)(r := k)\<rparr>"

definition fp2int :: "'d env \<Rightarrow> u32 \<Rightarrow> bool \<Rightarrow> fe_round \<Rightarrow> 'd state_t \<Rightarrow> 'd result" where
  "fp2int E inst is_long rnd s =
     (case fp_operand E inst s of None \<Rightarrow> Inl Exit_unhandled
      | Some v \<Rightarrow>
          let r = nearbyint (fpu E) rnd v; fd = f_fd inst in
          Inr (pc4 (if is_long then set_fp_state fd fp_dp (set_cpr1 fd (i64_of_f64 (fpu E) r) s)
                    else set_cpr1 fd (low_half (i32_of_f64 (fpu E) r) (cpr1 s fd)) s)))"

definition truncl :: "'d env \<Rightarrow> u32 \<Rightarrow> 'd state_t \<Rightarrow> 'd result" where
  "truncl E inst s =
     (case fp_operand E inst s of None \<Rightarrow> Inl Exit_unhandled
      | Some v \<Rightarrow> Inr (pc4 (set_fp_state (f_fd inst) fp_dp (set_cpr1 (f_fd inst) (i64_of_f64 (fpu E) v) s))))"

definition truncw :: "'d env \<Rightarrow> u32 \<Rightarrow> 'd state_t \<Rightarrow> 'd result" where
  "truncw E inst s =
     (case fp_operand E inst s of None \<Rightarrow> Inl Exit_unhandled
      | Some v \<Rightarrow> Inr (pc4 (set_cpr1 (f_fd inst) (low_half (i32_of_f64 (fpu E) v) (cpr1 s (f_fd inst))) s)))"

definition cvts :: "'d env \<Rightarrow> u32 \<Rightarrow> 'd state_t \<Rightarrow> 'd result" where
  "cvts E inst s =
     (let x = cpr1 s (f_fs inst); fd = f_fd inst in
      if f_fmt inst = FMT_D
      then Inr (pc4 (set_fp_state fd fp_sp (wr_fp False fd (ucast (f32_of_f64 (fpu E) x)) s)))
      else if f_fmt inst = FMT_W
      then Inr (pc4 (wr_fp False fd (ucast (f32_of_i64 (fpu E) (sint (ucast x :: u32)))) s))
      else if f_fmt inst = FMT_L
      then Inr (pc4 (wr_fp False fd (ucast (f32_of_i64 (fpu E) (sint x))) s))
      else Inl Exit_unhandled)"

definition cvtd :: "'d env \<Rightarrow> u32 \<Rightarrow> 'd state_t \<Rightarrow> 'd result" where
  "cvtd E inst s =
     (let x = cpr1 s (f_fs inst); fd = f_fd inst in
      if f_fmt inst = FMT_S
      then Inr (pc4 (set_fp_state fd fp_dp (wr_fp True fd (f64_of_f32 (fpu E) (ucast x)) s)))
      else if f_fmt inst = FMT_W
      then Inr (pc4 (wr_fp True fd (f64_of_i64 (fpu E) (sint (ucast x :: u32))) s))
      else if f_fmt inst = FMT_L
      then Inr (pc4 (set_fp_state fd fp_dp (wr_fp True fd (f64_of_i64 (fpu E) (sint x)) s)))
      else Inl Exit_unhandled)"

section \<open>Conditional moves\<close>

definition f_cc :: "u32 \<Rightarrow> u32" where "f_cc inst = drop_bit 18 inst AND 7"
definition f_tf :: "u32 \<Rightarrow> u32" where "f_tf inst = drop_bit 16 inst AND 1"

definition move_fp :: "bool \<Rightarrow> u32 \<Rightarrow> 'd state_t \<Rightarrow> 'd state_t" where
  "move_fp c inst s = pc4 (set_cpr1 (f_fd inst) (if c then cpr1 s (f_fs inst) else cpr1 s (f_fd inst)) s)"

definition movnd :: "u32 \<Rightarrow> 'd state_t \<Rightarrow> 'd state_t" where
  "movnd inst s = move_fp (gpr s (f_rt inst) \<noteq> 0) inst s"
definition movns :: "u32 \<Rightarrow> 'd state_t \<Rightarrow> 'd state_t" where
  "movns inst s = move_fp (gpr s (f_rt inst) \<noteq> 0) inst s"
definition movzd :: "u32 \<Rightarrow> 'd state_t \<Rightarrow> 'd state_t" where
  "movzd inst s = move_fp (gpr s (f_rt inst) = 0) inst s"
definition movzs :: "u32 \<Rightarrow> 'd state_t \<Rightarrow> 'd state_t" where
  "movzs inst s = move_fp (gpr s (f_rt inst) = 0) inst s"

definition movcd :: "u32 \<Rightarrow> 'd state_t \<Rightarrow> 'd state_t" where
  "movcd inst s =
     (let cc = getConditionCode s (f_cc inst); mv = set_cpr1 (f_fd inst) (cpr1 s (f_fs inst)) s
      in pc4 (if f_tf inst = 0 then (if cc = 0 then mv else s) else (if cc = 1 then mv else s)))"

definition movcs :: "u32 \<Rightarrow> 'd state_t \<Rightarrow> 'd state_t" where
  "movcs inst s =
     (let cc = getConditionCode s (f_cc inst)
      in if f_tf inst = 0 then move_fp (cc = 0) inst s else move_fp (cc \<noteq> 0) inst s)"

definition movci :: "u32 \<Rightarrow> 'd state_t \<Rightarrow> 'd state_t" where
  "movci inst s =
     (let cc = getConditionCode s (f_cc inst); rd = gpr s (f_rd inst); rs = gpr s (f_rs inst)
      in pc4 (set_gpr (f_rd inst)
           (if f_tf inst = 0 then (if cc \<noteq> 0 then rd else rs) else (if cc \<noteq> 0 then rs else rd)) s))"

definition fmovn :: "u32 \<Rightarrow> 'd state_t \<Rightarrow> 'd result" where
  "fmovn inst s = (if f_fmt inst = FMT_S then Inr (movns inst s)
     else if f_fmt inst = FMT_D then Inr (movnd inst s) else Inl Exit_unhandled)"
definition fmovz :: "u32 \<Rightarrow> 'd state_t \<Rightarrow> 'd result" where
  "fmovz inst s = (if f_fmt inst = FMT_S then Inr (movzs inst s)
     else if f_fmt inst = FMT_D then Inr (movzd inst s) else Inl Exit_unhandled)"
definition fmovc :: "u32 \<Rightarrow> 'd state_t \<Rightarrow> 'd result" where
  "fmovc inst s = (if f_fmt inst = FMT_S then Inr (movcs inst s)
     else if f_fmt inst = FMT_D then Inr (movcd inst s) else Inl Exit_unhandled)"

section \<open>Compares\<close>

definition COND_EQ :: u32 where "COND_EQ = 2"
definition COND_LT :: u32 where "COND_LT = 12"
definition COND_LE :: u32 where "COND_LE = 14"

definition cmp_value :: "bool \<Rightarrow> u32 \<Rightarrow> u64 \<Rightarrow> u64 \<Rightarrow> bool" where
  "cmp_value dbl cond a b =
     (if cond = COND_EQ then fp_eq dbl a b
      else if cond = COND_LT then fp_lt dbl a b
      else if cond = COND_LE then fp_le dbl a b
      else (let un = \<not> fp_eq dbl a a \<or> \<not> fp_eq dbl b b in
        cond AND 1 \<noteq> 0 \<and> un \<or> cond AND 2 \<noteq> 0 \<and> \<not> un \<and> fp_eq dbl a b
        \<or> cond AND 4 \<noteq> 0 \<and> \<not> un \<and> fp_lt dbl a b))"

definition fpCmp :: "bool \<Rightarrow> u32 \<Rightarrow> 'd state_t \<Rightarrow> 'd state_t" where
  "fpCmp dbl inst s =
     (let v = cmp_value dbl (inst AND 15) (rd_fp dbl (f_fs inst) s) (rd_fp dbl (f_ft inst) s)
      in pc4 (setConditionCode (if v then 1 else 0) (drop_bit 8 inst AND 7) s))"

definition c_cond :: "u32 \<Rightarrow> 'd state_t \<Rightarrow> 'd result" where
  "c_cond inst s = (if f_fmt inst = FMT_S then Inr (fpCmp False inst s)
     else if f_fmt inst = FMT_D then Inr (fpCmp True inst s) else Inl Exit_unhandled)"

section \<open>Arithmetic\<close>

definition two_source :: "fpOperation \<Rightarrow> bool" where
  "two_source op \<longleftrightarrow> op \<in> {fp_add, fp_sub, fp_mul, fp_div}"

text \<open>\<^verbatim>\<open>(T)std::sqrt((double)fs)\<close>\<close>

definition host_sqrt :: "'d env \<Rightarrow> bool \<Rightarrow> u64 \<Rightarrow> u64" where
  "host_sqrt E dbl v =
     (if dbl then host_f64 (fpu E) fp_sqrt v 0
      else ucast (f32_of_f64 (fpu E) (host_f64 (fpu E) fp_sqrt (f64_of_f32 (fpu E) (ucast v)) 0)))"

definition fp_e_trap :: "'d env \<Rightarrow> bool \<Rightarrow> fpOperation \<Rightarrow> u64 \<Rightarrow> u64 \<Rightarrow> bool" where
  "fp_e_trap E dbl op a b =
     (if FP_QNAN_TRAP E \<and> (fp_is_qnan dbl a \<or> two_source op \<and> fp_is_qnan dbl b) then True
      else case op of
        fp_rsqrt \<Rightarrow> \<not> cpu_r5000 E
      | fp_recip \<Rightarrow> \<not> cpu_r5000 E
      | fp_div \<Rightarrow> FP_DIVTRAP E \<or> (\<not> FP_HW_DENORM E \<and>
          (fp_is_denorm dbl a \<or> fp_is_denorm dbl b \<or> fp_is_denorm dbl (host_op E dbl fp_div a b)))
      | fp_sqrt \<Rightarrow> FP_DIVTRAP E \<or> (\<not> FP_HW_DENORM E \<and>
          (fp_is_denorm dbl a \<or> fp_is_denorm dbl (host_sqrt E dbl a)))
      | fp_add \<Rightarrow> \<not> FP_HW_DENORM E \<and>
          (fp_is_denorm dbl a \<or> fp_is_denorm dbl b \<or> fp_is_denorm dbl (host_op E dbl fp_add a b))
      | fp_sub \<Rightarrow> \<not> FP_HW_DENORM E \<and>
          (fp_is_denorm dbl a \<or> fp_is_denorm dbl b \<or> fp_is_denorm dbl (host_op E dbl fp_sub a b))
      | fp_mul \<Rightarrow> \<not> FP_HW_DENORM E \<and>
          (fp_is_denorm dbl a \<or> fp_is_denorm dbl b \<or> fp_is_denorm dbl (host_op E dbl fp_mul a b))
      | _ \<Rightarrow> False)"

definition fp_result :: "'d env \<Rightarrow> bool \<Rightarrow> fpOperation \<Rightarrow> u8 \<Rightarrow> u64 \<Rightarrow> u64 \<Rightarrow> u64" where
  "fp_result E dbl op rm a b =
     (case op of
        fp_abs \<Rightarrow> fp_absolute dbl a
      | fp_neg \<Rightarrow> fp_negate dbl a
      | fp_mov \<Rightarrow> a
      | fp_sqrt \<Rightarrow> sf_op E dbl fp_sqrt rm a 0
      | fp_rsqrt \<Rightarrow> sf_op E dbl fp_div rm (fp_one dbl) (sf_op E dbl fp_sqrt rm a 0)
      | fp_recip \<Rightarrow> sf_op E dbl fp_div rm (fp_one dbl) a
      | _ \<Rightarrow> sf_op E dbl op rm a b)"

definition execFP :: "'d env \<Rightarrow> bool \<Rightarrow> fpOperation \<Rightarrow> u32 \<Rightarrow> 'd state_t \<Rightarrow> 'd state_t" where
  "execFP E dbl op inst s =
     (let a = rd_fp dbl (f_fs inst) s; b = rd_fp dbl (f_ft inst) s;
          want_trap = fp_e_trap E dbl op a b;
          want_trap = (if want_trap \<and> FP_NODIVTRAP E \<and> op \<in> {fp_div, fp_sqrt, fp_rsqrt, fp_recip}
                       then False else want_trap)
      in if want_trap then take_exception_fpe s
         else pc4 (wr_fp dbl (f_fd inst) (fp_result E dbl op (sf_set_rm s) a b) s))"

definition do_fp_op :: "'d env \<Rightarrow> fpOperation \<Rightarrow> u32 \<Rightarrow> 'd state_t \<Rightarrow> 'd result" where
  "do_fp_op E op inst s =
     (if f_fmt inst = FMT_S then Inr (set_fp_state (f_fd inst) fp_sp (execFP E False op inst s))
      else if f_fmt inst = FMT_D then Inr (set_fp_state (f_fd inst) fp_dp (execFP E True op inst s))
      else Inl Unreachable)"

section \<open>COP1X: multiply-add and indexed accesses\<close>

definition f_fr :: "u32 \<Rightarrow> 5 word" where "f_fr inst = f_rs inst"
definition c1x_fmt :: "u32 \<Rightarrow> u32" where "c1x_fmt inst = inst AND 7"
definition c1x_id :: "u32 \<Rightarrow> u32" where "c1x_id inst = drop_bit 3 inst AND 7"
definition lc1x_id :: "u32 \<Rightarrow> u32" where "lc1x_id inst = inst AND 63"

definition c1xExec :: "'d env \<Rightarrow> bool \<Rightarrow> u32 \<Rightarrow> 'd state_t \<Rightarrow> 'd result" where
  "c1xExec E dbl inst s =
     (let r = rd_fp dbl (f_fr inst) s;
          p = host_op E dbl fp_mul (rd_fp dbl (f_fs inst) s) (rd_fp dbl (f_ft inst) s);
          wr = (\<lambda>v. Inr (pc4 (wr_fp dbl (f_fd inst) v s))) in
      if c1x_id inst = 4 then wr (host_op E dbl fp_add p r)
      else if c1x_id inst = 5 then wr (host_op E dbl fp_sub p r)
      else if c1x_id inst = 6 then wr (fp_negate dbl (host_op E dbl fp_add p r))
      else if c1x_id inst = 7 then wr (fp_negate dbl (host_op E dbl fp_sub p r))
      else Inl Exit_unhandled)"

definition indexed_va :: "u32 \<Rightarrow> 'd state_t \<Rightarrow> u64" where
  "indexed_va inst s = gpr s (f_rs inst) + gpr s (f_rt inst)"

definition lxc1 :: "'d env \<Rightarrow> bool \<Rightarrow> u32 \<Rightarrow> 'd state_t \<Rightarrow> 'd state_t" where
  "lxc1 E dbl inst s = with_ea op_load (indexed_va inst s) (\<lambda>ea s.
     let n = (if dbl then 8 else 4); (v, s) = mem_get E n ea s
     in pc4 (wr_fp dbl (f_sa inst) (bswap n v) s)) s"

definition sxc1 :: "'d env \<Rightarrow> bool \<Rightarrow> u32 \<Rightarrow> 'd state_t \<Rightarrow> 'd state_t" where
  "sxc1 E dbl inst s = with_ea op_store (indexed_va inst s) (\<lambda>ea s.
     let n = (if dbl then 8 else 4) in pc4 (mem_set E n ea (bswap n (rd_fp dbl (f_rd inst) s)) s)) s"

definition execCoproc1x :: "'d env \<Rightarrow> u32 \<Rightarrow> 'd state_t \<Rightarrow> 'd result" where
  "execCoproc1x E inst s =
     (let id = lc1x_id inst in
      if id = 0 then Inr (lxc1 E False inst s)
      else if id = 1 then Inr (lxc1 E True inst s)
      else if id = 8 then Inr (sxc1 E False inst s)
      else if id = 9 then Inr (sxc1 E True inst s)
      else if id = 15 then Inr (pc4 s)
      else if c1x_fmt inst = 0 then c1xExec E False inst s
      else if c1x_fmt inst = 1 then c1xExec E True inst s
      else Inl Exit_unhandled)"

section \<open>The two views of the condition codes\<close>

definition cc_bit :: "nat \<Rightarrow> nat" where
  "cc_bit c = (if c = 0 then 23 else 24 + c)"

lemma bit_and_one: "bit (w AND 1) n \<longleftrightarrow> n = 0 \<and> bit w 0" for w :: "'a::len word"
  by (auto simp: bit_and_iff bit_1_iff)

lemma bit_or_one:
  "bit (v OR push_bit k (drop_bit h f AND 1)) n \<longleftrightarrow> bit v n \<or> n < 32 \<and> n = k \<and> bit f h" for v f :: u32
  by (cases "n = k") (auto simp only: bit_or_iff bit_push_bit_iff bit_and_one bit_drop_bit_eq o_def
      possible_bit_word, simp_all)

lemma bit_fold_or:
  "bit (fold (\<lambda>c v. v OR push_bit (g c) (drop_bit (h c) f AND 1)) cs v) n \<longleftrightarrow>
     bit v n \<or> n < 32 \<and> (\<exists>c \<in> set cs. n = g c \<and> bit f (h c))" for v f :: u32
proof (induction cs arbitrary: v)
  case Nil
  then show ?case by simp
next
  case (Cons c cs)
  show ?case unfolding fold_simps Cons.IH bit_or_one by auto
qed

lemma bit_fccr_of: "bit (fccr_of f) n \<longleftrightarrow> n < 8 \<and> bit f (cc_bit n)"
proof -
  have "bit (fccr_of f) n \<longleftrightarrow> n = 0 \<and> bit f 23 \<or> 1 \<le> n \<and> n < 8 \<and> bit f (24 + n)"
    unfolding fccr_of_def bit_fold_or set_upt
    by (simp only: bit_and_one bit_drop_bit_eq) (auto simp del: One_nat_def)
  then show ?thesis by (cases n) (auto simp: cc_bit_def)
qed

lemma fcsr_cc_mask: "push_bit 23 1 OR (0xfe000000 :: u32) = push_bit 23 1 OR push_bit 25 (mask 7)"
  by (simp add: mask_eq_exp_minus_1)

lemma bit_cc_mask: "bit (push_bit 23 1 OR push_bit 25 (mask 7) :: u32) n \<longleftrightarrow> (\<exists>c < 8. n = cc_bit c)"
proof -
  have "bit (push_bit 23 1 OR push_bit 25 (mask 7) :: u32) n \<longleftrightarrow> n = 23 \<or> 25 \<le> n \<and> n < 32"
    unfolding bit_or_iff bit_push_bit_iff bit_mask_iff bit_1_iff by auto
  also have "\<dots> \<longleftrightarrow> (\<exists>c < 8. n = cc_bit c)"
  proof
    assume "n = 23 \<or> 25 \<le> n \<and> n < 32"
    then show "\<exists>c < 8. n = cc_bit c"
      by (intro exI [of _ "if n = 23 then 0 else n - 24"]) (auto simp: cc_bit_def)
  qed (auto simp: cc_bit_def split: if_splits)
  finally show ?thesis .
qed

lemma ex_cc: "(\<exists>c < 8. n = cc_bit c \<and> P c) \<longleftrightarrow> n = 23 \<and> P 0 \<or> (\<exists>c \<in> {1..<8}. n = 24 + c \<and> P c)"
proof
  assume "\<exists>c < 8. n = cc_bit c \<and> P c"
  then obtain c where "c < 8" "n = cc_bit c" "P c" by blast
  then show "n = 23 \<and> P 0 \<or> (\<exists>c \<in> {1..<8}. n = 24 + c \<and> P c)" by (cases c) (auto simp: cc_bit_def)
next
  assume "n = 23 \<and> P 0 \<or> (\<exists>c \<in> {1..<8}. n = 24 + c \<and> P c)"
  then show "\<exists>c < 8. n = cc_bit c \<and> P c"
  proof
    assume "\<exists>c \<in> {1..<8}. n = 24 + c \<and> P c"
    then obtain c where "c \<in> {1..<8}" "n = 24 + c" "P c" by blast
    then show ?thesis by (intro exI [of _ c]) (simp add: cc_bit_def)
  qed (auto simp: cc_bit_def intro: exI [of _ 0])
qed

lemma bit_fcsr_with:
  "bit (fcsr_with v f) n \<longleftrightarrow> (if \<exists>c < 8. n = cc_bit c then \<exists>c < 8. n = cc_bit c \<and> bit v c else bit f n)"
proof -
  have "bit (fcsr_with v f) n \<longleftrightarrow>
      (bit f n \<and> n < 32 \<and> \<not> (\<exists>c < 8. n = cc_bit c) \<or> n = 23 \<and> bit v 0)
      \<or> n < 32 \<and> (\<exists>c \<in> {1..<8}. n = 24 + c \<and> bit v c)"
    unfolding fcsr_with_def Let_def bit_fold_or fcsr_cc_mask bit_or_iff [of _ "push_bit 23 (v AND 1)"]
      bit_and_iff [of f] bit_not_iff bit_cc_mask set_upt
    by (simp only: bit_push_bit_iff bit_and_one possible_bit_word) auto
  also have "\<dots> \<longleftrightarrow> (bit f n \<and> \<not> (\<exists>c < 8. n = cc_bit c)) \<or> (\<exists>c < 8. n = cc_bit c \<and> bit v c)"
    unfolding ex_cc using bit_imp_le_length [of f n] by auto
  finally show ?thesis by auto
qed

lemma cc_bit_inject [simp]: "cc_bit c = cc_bit d \<longleftrightarrow> c = d"
  by (auto simp: cc_bit_def)

lemma fccr_of_fcsr_with: "fccr_of (fcsr_with v f) = v AND 0xff"
proof -
  have m: "(0xff :: u32) = mask 8" by (simp add: mask_eq_exp_minus_1)
  show ?thesis unfolding m
    by (rule bit_word_eqI) (auto simp: bit_fccr_of bit_fcsr_with bit_and_iff bit_mask_iff)
qed

lemma fcsr_with_fccr_of: "fcsr_with (fccr_of f) f = f"
  by (rule bit_word_eqI) (auto simp: bit_fccr_of bit_fcsr_with)

section \<open>Properties\<close>

lemma fcc_bit_cc: "fcc_bit cc = cc_bit (unat cc)"
  by (auto simp: fcc_bit_def cc_bit_def unat_eq_zero)

lemma getConditionCode_bit:
  "getConditionCode s cc = (if bit (fcr1 s CP1_CR31) (fcc_bit cc) then 1 else 0)"
proof -
  have "bit (getConditionCode s cc) n \<longleftrightarrow> n = 0 \<and> bit (fcr1 s CP1_CR31) (fcc_bit cc)" for n
    unfolding getConditionCode_def bit_and_one by (simp add: bit_drop_bit_eq)
  then show ?thesis by (intro bit_word_eqI) (auto simp: bit_1_iff)
qed

lemma bit_setConditionCode:
  assumes "cc < 8"
  shows "bit (fcr1 (setConditionCode v cc s) CP1_CR31) n \<longleftrightarrow>
    (if n = fcc_bit cc then v \<noteq> 0 else bit (fcr1 s CP1_CR31) n)"
proof -
  have "unat cc < 8" using assms by (simp add: word_less_nat_alt)
  then have k: "fcc_bit cc < 32" by (auto simp: fcc_bit_cc cc_bit_def)
  have b: "bit (2 ^ fcc_bit cc :: u32) m \<longleftrightarrow> m = fcc_bit cc" for m
    using k by (auto simp: bit_exp_iff)
  show ?thesis
    using k bit_imp_le_length [of "fcr1 s CP1_CR31" n]
    by (auto simp: setConditionCode_def Let_def fcc_mirror_to_fccr_def set_fcr1_def bit_or_iff bit_and_iff
        bit_not_iff b)
qed

text \<open>A compare writes exactly one condition code: reading it back gives the result, the
  other seven keep their value, and the FCCR view agrees with the FCSR bits on all eight.\<close>

theorem condition_code_write:
  assumes "cc < 8" "d < 8"
  shows "getConditionCode (setConditionCode v cc s) d =
      (if d = cc then (if v \<noteq> 0 then 1 else 0) else getConditionCode s d) \<and>
    fcr1 (setConditionCode v cc s) CP1_CR25 = fccr_of (fcr1 (setConditionCode v cc s) CP1_CR31) \<and>
    (bit (fcr1 (setConditionCode v cc s) CP1_CR25) (unat cc) \<longleftrightarrow> v \<noteq> 0)"
proof -
  have m: "fcr1 (setConditionCode v cc s) CP1_CR25 = fccr_of (fcr1 (setConditionCode v cc s) CP1_CR31)"
    by (simp add: setConditionCode_def Let_def fcc_mirror_to_fccr_def set_fcr1_def)
  have "unat cc < 8" using assms(1) by (simp add: word_less_nat_alt)
  then show ?thesis
    using m by (simp add: getConditionCode_bit bit_setConditionCode [OF assms(1)] bit_fccr_of fcc_bit_cc
        word_unat_eq_iff [of d cc])
qed

theorem condition_code_write_witness:
  "getConditionCode (setConditionCode 1 3 (state_zero (io_init ()))) 3 = 1"
  using condition_code_write [of 3 3 1 "state_zero (io_init ())"] by simp

text \<open>CTC1 keeps the two views together: a write of FCSR sets FCCR to its condition
  codes, and a write of FCCR replaces the eight condition codes of FCSR and keeps every
  other bit of it.\<close>

theorem ctc1_views:
  "(f_rd i = 31 \<longrightarrow> fcr1 (ctc1 i s) CP1_CR31 = ucast (gpr s (f_rt i)) \<and>
      fcr1 (ctc1 i s) CP1_CR25 = fccr_of (ucast (gpr s (f_rt i)))) \<and>
   (f_rd i = 25 \<longrightarrow> fccr_of (fcr1 (ctc1 i s) CP1_CR31) = ucast (gpr s (f_rt i)) AND 0xff \<and>
      (\<forall>n. (\<forall>c < 8. n \<noteq> cc_bit c) \<longrightarrow> bit (fcr1 (ctc1 i s) CP1_CR31) n = bit (fcr1 s CP1_CR31) n))"
  by (auto simp: ctc1_def fcr_index_def Let_def fcc_mirror_to_fccr_def fcc_mirror_from_fccr_def pc4_def
      set_fcr1_def fccr_of_fcsr_with bit_fcsr_with)

theorem ctc1_views_witness:
  "fccr_of (fcr1 (ctc1 0x44c2c800 ((state_zero (io_init ()))\<lparr>gpr := (\<lambda>_. 0)(2 := 0x155)\<rparr>)) CP1_CR31) = 0x55"
  using ctc1_views [of "0x44c2c800" "(state_zero (io_init ()))\<lparr>gpr := (\<lambda>_. 0)(2 := 0x155)\<rparr>"]
  by (simp add: f_rd_def f_rt_def drop_bit_eq_div)

lemma cond_bit: "n < 4 \<Longrightarrow> bit (cond AND 15 :: u32) n \<longleftrightarrow> bit cond n"
proof -
  have m: "(15 :: u32) = mask 4" by (simp add: mask_eq_exp_minus_1)
  show "n < 4 \<Longrightarrow> ?thesis" unfolding m by (simp add: bit_and_iff bit_mask_iff del: mask_numeral)
qed

lemma cond_flags:
  fixes w :: u32
  shows "w AND 1 \<noteq> 0 \<longleftrightarrow> bit w 0" "w AND 2 \<noteq> 0 \<longleftrightarrow> bit w 1" "w AND 4 \<noteq> 0 \<longleftrightarrow> bit w 2"
  using flag_single_bit [of w 0] flag_single_bit [of w 1] flag_single_bit [of w 2]
  by (simp_all add: flag_def)

text \<open>Every compare computes the MIPS predicate of its four condition bits: bit 0 holds on
  unordered operands, bit 1 on equal ones, bit 2 on a smaller first operand, bit 3 changes
  nothing; the three conditions with a path of their own agree with it.\<close>

theorem compare_predicate:
  "cmp_value dbl (cond AND 15) a b \<longleftrightarrow>
     (let un = fp_is_nan a dbl \<or> fp_is_nan b dbl in
      bit cond 0 \<and> un \<or> bit cond 1 \<and> \<not> un \<and> fp_key dbl a = fp_key dbl b
      \<or> bit cond 2 \<and> \<not> un \<and> fp_key dbl a < fp_key dbl b)"
proof -
  let ?c = "cond AND 15"
  have c: "bit cond 0 = bit ?c 0" "bit cond 1 = bit ?c 1" "bit cond 2 = bit ?c 2"
    by (simp_all add: cond_bit)
  consider "?c = 2" | "?c = 12" | "?c = 14" | "?c \<noteq> 2" "?c \<noteq> 12" "?c \<noteq> 14" by blast
  then show ?thesis
  proof cases
    case 4
    then show ?thesis
      unfolding c cmp_value_def COND_EQ_def COND_LT_def COND_LE_def cond_flags
      by (auto simp: Let_def fp_eq_def fp_lt_def)
  qed (unfold c, simp_all add: cmp_value_def COND_EQ_def COND_LT_def COND_LE_def Let_def fp_eq_def fp_lt_def
      fp_le_def bit_numeral_word_iff, auto)
qed

lemma half_reads:
  "(ucast (low_half v w) :: u32) = v" "(ucast (drop_bit 32 (low_half v w)) :: u32) = ucast (drop_bit 32 w)"
  "(ucast (high_half v w) :: u32) = ucast w" "(ucast (drop_bit 32 (high_half v w)) :: u32) = v"
proof -
  have m: "(0xffffffff00000000 :: u64) = push_bit 32 (mask 32)" "(0xffffffff :: u64) = mask 32"
    by (simp_all add: mask_eq_exp_minus_1)
  show "(ucast (low_half v w) :: u32) = v" "(ucast (drop_bit 32 (low_half v w)) :: u32) = ucast (drop_bit 32 w)"
    "(ucast (high_half v w) :: u32) = ucast w" "(ucast (drop_bit 32 (high_half v w)) :: u32) = v"
    unfolding low_half_def high_half_def m
    by (rule bit_word_eqI; auto simp: bit_simps simp del: mask_numeral dest: bit_imp_le_length)+
qed

lemma hw_parts: "fpr_fr1 (set_fpr_hw r v s) = fpr_fr1 s" "fpr_dreg (set_fpr_hw r v s) = fpr_dreg s"
  "hw_high (set_fpr_hw r v s) = hw_high s"
  by (auto simp: set_fpr_hw_def set_cpr1_def Let_def fpr_fr1_def fpr_dreg_def hw_high_def)

lemma even_odd_reg:
  fixes r q :: "5 word"
  shows "r AND NOT 1 = q AND NOT 1 \<and> (r AND 1 \<noteq> 0 \<longleftrightarrow> q AND 1 \<noteq> 0) \<longleftrightarrow> r = q"
proof -
  have low: "w AND 1 \<noteq> 0 \<longleftrightarrow> bit w 0" for w :: "5 word"
    using flag_single_bit [of w 0] by (simp add: flag_def)
  have high: "bit (w AND NOT 1) n \<longleftrightarrow> n \<noteq> 0 \<and> bit w n" for w :: "5 word" and n
    using bit_imp_le_length [of w n] by (auto simp: bit_simps)
  have "r = q" if "r AND NOT 1 = q AND NOT 1" "bit r 0 = bit q 0"
  proof (rule bit_word_eqI)
    fix n
    from that(1) have "bit (r AND NOT 1) n = bit (q AND NOT 1) n" by (simp only:)
    then show "bit r n = bit q n" using that(2) unfolding high by (cases n) auto
  qed
  then show ?thesis unfolding low by blast
qed

text \<open>The 32 single-precision registers are independent in both modes: a write to register r
  is read back from r and from no other, whether r is a whole register (FR = 1) or one half of an
  even one (FR = 0); MTC1 followed by MFC1 returns the sign-extended low word.\<close>

theorem single_registers_independent:
  "fpr_hw (set_fpr_hw r v s) q = (if q = r then v else fpr_hw s q) \<and>
   (f_rd i2 = f_rd i1 \<longrightarrow> gpr (mfc1 i2 (mtc1 i1 s)) (f_rt i2) = sext32 (ucast (gpr s (f_rt i1))))"
proof
  show w: "fpr_hw (set_fpr_hw r v s) q = (if q = r then v else fpr_hw s q)" for r v q
  proof (cases "fpr_fr1 s")
    case True
    then show ?thesis
      by (simp add: fpr_hw_def hw_parts Let_def) (simp add: set_fpr_hw_def set_cpr1_def fpr_dreg_def hw_high_def
          half_reads Let_def)
  next
    case False
    then show ?thesis
      using even_odd_reg [of q r]
      by (simp add: fpr_hw_def hw_parts Let_def)
        (auto simp: set_fpr_hw_def set_cpr1_def fpr_dreg_def hw_high_def half_reads Let_def)
  qed
  have fr: "fpr_fr1 (set_cpr1 r v s) = fpr_fr1 s" "fpr_fr1 (pc4 t) = fpr_fr1 t"
    "cpr1 (pc4 t) = cpr1 t" for r v and t :: "'a state_t"
    by (simp_all add: fpr_fr1_def set_cpr1_def pc4_def)
  have p: "fpr_hw (pc4 t) = fpr_hw t" for t :: "'a state_t"
    by (simp add: fun_eq_iff fpr_hw_def fpr_dreg_def hw_high_def fr)
  show "f_rd i2 = f_rd i1 \<longrightarrow> gpr (mfc1 i2 (mtc1 i1 s)) (f_rt i2) = sext32 (ucast (gpr s (f_rt i1)))"
    by (cases "fpr_fr1 s")
      (simp_all add: mfc1_def mtc1_def Let_def w p, simp add: fpr_hw_def fpr_dreg_def hw_high_def fr,
       simp add: set_cpr1_def)
qed

theorem single_registers_independent_witness:
  "gpr (mfc1 0x44030800 (mtc1 0x44820800 ((state_zero (io_init ()))\<lparr>gpr := (\<lambda>_. 0)(2 := 0x80000000)\<rparr>))) 3
     = 0xffffffff80000000"
  using single_registers_independent [of 0 0
      "(state_zero (io_init ()))\<lparr>gpr := (\<lambda>_. 0)(2 := 0x80000000)\<rparr>" 0 "0x44030800" "0x44820800"]
  by (simp add: f_rd_def f_rt_def drop_bit_eq_div sext32_def)

end
