(* ===== verification/ALU.thy ===== *)
theory ALU
  imports Branch "HOL-Library.Signed_Division"
begin

text \<open>
  The SPECIAL (R-type) instructions and the arithmetic immediates of \<^verbatim>\<open>execMips\<close> in
  src/interpret.cc: shifts, jumps through registers, HI/LO, multiplication and division, the
  trapping and wrapping additions, logic, comparisons and conditional traps.  32-bit operations
  read the low words of the registers and sign-extend their result.  The quotient of the C
  division truncates towards zero (\<^term>\<open>(sdiv)\<close>); a division the C++ standard leaves undefined
  stops the host.
\<close>

section \<open>Operands\<close>

abbreviation lo32 :: "u64 \<Rightarrow> u32" where "lo32 w \<equiv> ucast w"

text \<open>\<^verbatim>\<open>s->gpr[rd] = v; s->pc += 4\<close>\<close>

definition ret_gpr :: "5 word \<Rightarrow> u64 \<Rightarrow> 'd state_t \<Rightarrow> 'd result" where
  "ret_gpr r v s = Inr (pc4 (set_gpr r v s))"

definition set_hilo :: "u64 \<Rightarrow> u64 \<Rightarrow> 'd state_t \<Rightarrow> 'd state_t" where
  "set_hilo h l s = s\<lparr>hi_reg := h, lo_reg := l\<rparr>"

section \<open>Overflow detection\<close>

definition add32_overflows :: "u32 \<Rightarrow> u32 \<Rightarrow> bool" where
  "add32_overflows a b =
     (let result = a + b in drop_bit 31 result \<noteq> drop_bit 31 b \<and> drop_bit 31 a = drop_bit 31 b)"

definition sub32_overflows :: "u32 \<Rightarrow> u32 \<Rightarrow> bool" where
  "sub32_overflows a b =
     (let result = a - b in drop_bit 31 result \<noteq> drop_bit 31 a \<and> drop_bit 31 a \<noteq> drop_bit 31 b)"

definition add64_overflows :: "u64 \<Rightarrow> u64 \<Rightarrow> bool" where
  "add64_overflows a b =
     (let result = a + b in drop_bit 63 result \<noteq> drop_bit 63 b \<and> drop_bit 63 a = drop_bit 63 b)"

definition sub64_overflows :: "u64 \<Rightarrow> u64 \<Rightarrow> bool" where
  "sub64_overflows a b =
     (let result = a - b in drop_bit 63 result \<noteq> drop_bit 63 a \<and> drop_bit 63 a \<noteq> drop_bit 63 b)"

section \<open>Multiplication and division\<close>

definition mult :: "u64 \<Rightarrow> u64 \<Rightarrow> u64 \<times> u64" where
  "mult a b = (let y = sint (lo32 a) * sint (lo32 b)
     in (sext32 (word_of_int (y div 2 ^ 32)), sext32 (word_of_int y)))"

definition multu :: "u64 \<Rightarrow> u64 \<Rightarrow> u64 \<times> u64" where
  "multu a b = (let y = (ucast (lo32 a) :: u64) * ucast (lo32 b)
     in (sext64 (lo32 (drop_bit 32 y)), sext64 (lo32 y)))"

definition dmult :: "u64 \<Rightarrow> u64 \<Rightarrow> u64 \<times> u64" where
  "dmult a b = (let y = sint a * sint b in (word_of_int (y div 2 ^ 64), word_of_int y))"

definition dmultu :: "u64 \<Rightarrow> u64 \<Rightarrow> u64 \<times> u64" where
  "dmultu a b = (let y = uint a * uint b in (word_of_int (y div 2 ^ 64), word_of_int y))"

text \<open>None: the divisor is zero and HI and LO are left alone.\<close>

definition div_hilo :: "u64 \<Rightarrow> u64 \<Rightarrow> (u64 \<times> u64) option" where
  "div_hilo a b =
     (if lo32 b \<noteq> 0
      then (let x = sint (lo32 a); y = sint (lo32 b)
            in Some (sext64 (word_of_int (x smod y)), sext64 (word_of_int (x sdiv y))))
      else None)"

definition divu_hilo :: "u64 \<Rightarrow> u64 \<Rightarrow> host_stop + (u64 \<times> u64) option" where
  "divu_hilo a b =
     (if b \<noteq> 0
      then (if lo32 b = 0 then Inl Host_division
            else Inr (Some (sext64 (lo32 a mod lo32 b), sext64 (lo32 a div lo32 b))))
      else Inr None)"

definition ddiv_hilo :: "u64 \<Rightarrow> u64 \<Rightarrow> host_stop + (u64 \<times> u64) option" where
  "ddiv_hilo a b =
     (if b \<noteq> 0
      then (if sint a = - (2 ^ 63) \<and> sint b = - 1 then Inl Host_division
            else Inr (Some (word_of_int (sint a smod sint b), word_of_int (sint a sdiv sint b))))
      else Inr None)"

definition ddivu_hilo :: "u64 \<Rightarrow> u64 \<Rightarrow> (u64 \<times> u64) option" where
  "ddivu_hilo a b = (if b \<noteq> 0 then Some (a mod b, a div b) else None)"

definition put_hilo :: "u64 \<times> u64 \<Rightarrow> 'd state_t \<Rightarrow> 'd result" where
  "put_hilo hl s = Inr (pc4 (set_hilo (fst hl) (snd hl) s))"

definition put_div :: "host_stop + (u64 \<times> u64) option \<Rightarrow> 'd state_t \<Rightarrow> 'd result" where
  "put_div r s = (case r of Inl e \<Rightarrow> Inl e | Inr None \<Rightarrow> Inr (pc4 s) | Inr (Some hl) \<Rightarrow> put_hilo hl s)"

section \<open>SPECIAL\<close>

definition trap_if :: "bool \<Rightarrow> 'd state_t \<Rightarrow> 'd result" where
  "trap_if c s = Inr (if c then raise_trap s else pc4 s)"

definition jump_reg :: "('d state_t \<Rightarrow> 'd result) \<Rightarrow> u64 \<Rightarrow> 'd state_t \<Rightarrow> 'd result" where
  "jump_reg ex jaddr s = after_slot (run_delay_slot ex (pc4 s)) (jump_to jaddr)"

definition shift_rtype :: "u32 \<Rightarrow> 'd state_t \<Rightarrow> 'd result option" where
  "shift_rtype inst s =
     (let fn = f_funct inst; rd = f_rd inst; rt = gpr s (f_rt inst); sa = unat (f_sa inst);
          v5 = unat (gpr s (f_rs inst) AND 0x1f); v6 = unat (gpr s (f_rs inst) AND 63) in
      if fn = 0x00 then Some (ret_gpr rd (sext32 (push_bit sa (lo32 rt))) s)
      else if fn = 0x02 then Some (ret_gpr rd (sext64 (drop_bit sa (lo32 rt))) s)
      else if fn = 0x03 then Some (ret_gpr rd (sext32 (signed_drop_bit sa (lo32 rt))) s)
      else if fn = 0x04 then Some (ret_gpr rd (sext64 (push_bit v5 (lo32 rt))) s)
      else if fn = 0x06 then Some (ret_gpr rd (sext64 (drop_bit v5 (lo32 rt))) s)
      else if fn = 0x07 then Some (ret_gpr rd (sext32 (signed_drop_bit v5 (lo32 rt))) s)
      else if fn = 0x14 then Some (ret_gpr rd (push_bit v6 rt) s)
      else if fn = 0x16 then Some (ret_gpr rd (drop_bit v6 rt) s)
      else if fn = 0x17 then Some (ret_gpr rd (signed_drop_bit v6 rt) s)
      else if fn = 0x38 then Some (ret_gpr rd (push_bit sa rt) s)
      else if fn = 0x3A then Some (ret_gpr rd (drop_bit sa rt) s)
      else if fn = 0x3B then Some (ret_gpr rd (signed_drop_bit sa rt) s)
      else if fn = 0x3C then Some (ret_gpr rd (push_bit (sa + 32) rt) s)
      else if fn = 0x3E then Some (ret_gpr rd (drop_bit (sa + 32) rt) s)
      else if fn = 0x3F then Some (ret_gpr rd (signed_drop_bit (sa + 32) rt) s)
      else None)"

definition control_rtype ::
    "('d state_t \<Rightarrow> 'd result) \<Rightarrow> u32 \<Rightarrow> 'd state_t \<Rightarrow> 'd result option" where
  "control_rtype ex inst s =
     (let fn = f_funct inst; rd = f_rd inst; a = gpr s (f_rs inst); b = gpr s (f_rt inst) in
      if fn = 0x08 then Some (jump_reg ex a s)
      else if fn = 0x09
      then Some (jump_reg ex a (if rd \<noteq> 0 then set_gpr rd (pc s + 8) s else s))
      else if fn = 0x0C then Some (Inr (raise_syscall s))
      else if fn = 0x0D then Some (Inr (raise_break s))
      else if fn = 0x0f then Some (Inr (pc4 s))
      else if fn = 0x30 then Some (trap_if (sint a \<ge> sint b) s)
      else if fn = 0x31 then Some (trap_if (a \<ge> b) s)
      else if fn = 0x32 then Some (trap_if (sint a < sint b) s)
      else if fn = 0x33 then Some (trap_if (a < b) s)
      else if fn = 0x34 then Some (trap_if (a = b) s)
      else if fn = 0x36 then Some (trap_if (a \<noteq> b) s)
      else None)"

definition hilo_rtype :: "u32 \<Rightarrow> 'd state_t \<Rightarrow> 'd result option" where
  "hilo_rtype inst s =
     (let fn = f_funct inst; rd = f_rd inst; a = gpr s (f_rs inst); b = gpr s (f_rt inst) in
      if fn = 0x10 then Some (ret_gpr rd (hi_reg s) s)
      else if fn = 0x11 then Some (Inr (pc4 (s\<lparr>hi_reg := a\<rparr>)))
      else if fn = 0x12 then Some (ret_gpr rd (lo_reg s) s)
      else if fn = 0x13 then Some (Inr (pc4 (s\<lparr>lo_reg := a\<rparr>)))
      else if fn = 0x18 then Some (put_hilo (mult a b) s)
      else if fn = 0x19 then Some (put_hilo (multu a b) s)
      else if fn = 0x1A then Some (put_div (Inr (div_hilo a b)) s)
      else if fn = 0x1B then Some (put_div (divu_hilo a b) s)
      else if fn = 0x1C then Some (put_hilo (dmult a b) s)
      else if fn = 0x1D then Some (put_hilo (dmultu a b) s)
      else if fn = 0x1E then Some (put_div (ddiv_hilo a b) s)
      else if fn = 0x1F then Some (put_div (Inr (ddivu_hilo a b)) s)
      else None)"

definition arith_rtype :: "u32 \<Rightarrow> 'd state_t \<Rightarrow> 'd result option" where
  "arith_rtype inst s =
     (let fn = f_funct inst; rd = f_rd inst; a = gpr s (f_rs inst); b = gpr s (f_rt inst) in
      if fn = 0x01 then Some (Inr (movci inst s))
      else if fn = 0x20
      then Some (if add32_overflows (lo32 a) (lo32 b) then Inr (raise_overflow s)
                 else ret_gpr rd (sext64 (lo32 a + lo32 b)) s)
      else if fn = 0x21 then Some (ret_gpr rd (sext64 (lo32 a + lo32 b)) s)
      else if fn = 0x22
      then Some (if sub32_overflows (lo32 a) (lo32 b) then Inr (raise_overflow s)
                 else ret_gpr rd (sext64 (lo32 a - lo32 b)) s)
      else if fn = 0x23 then Some (ret_gpr rd (sext64 (lo32 a - lo32 b)) s)
      else if fn = 0x24 then Some (ret_gpr rd (a AND b) s)
      else if fn = 0x25 then Some (if rd \<noteq> 0 then ret_gpr rd (a OR b) s else Inr (pc4 s))
      else if fn = 0x26 then Some (ret_gpr rd (a XOR b) s)
      else if fn = 0x27 then Some (ret_gpr rd (NOT (a OR b)) s)
      else if fn = 0x2A then Some (ret_gpr rd (b2w (sint a < sint b)) s)
      else if fn = 0x2B then Some (ret_gpr rd (b2w (a < b)) s)
      else if fn = 0x0B then Some (ret_gpr rd (if b \<noteq> 0 then a else gpr s rd) s)
      else if fn = 0x0A then Some (ret_gpr rd (if b = 0 then a else gpr s rd) s)
      else if fn = 0x2C
      then Some (if add64_overflows a b then Inr (raise_overflow s) else ret_gpr rd (a + b) s)
      else if fn = 0x2D then Some (ret_gpr rd (a + b) s)
      else if fn = 0x2E
      then Some (if sub64_overflows a b then Inr (raise_overflow s) else ret_gpr rd (a - b) s)
      else if fn = 0x2F then Some (ret_gpr rd (a - b) s)
      else None)"

definition exec_rtype ::
    "('d state_t \<Rightarrow> 'd result) \<Rightarrow> u32 \<Rightarrow> 'd state_t \<Rightarrow> 'd result" where
  "exec_rtype ex inst s =
     (case shift_rtype inst s of Some r \<Rightarrow> r | None \<Rightarrow>
      case control_rtype ex inst s of Some r \<Rightarrow> r | None \<Rightarrow>
      case hilo_rtype inst s of Some r \<Rightarrow> r | None \<Rightarrow>
      case arith_rtype inst s of Some r \<Rightarrow> r | None \<Rightarrow> Inr (raise_ri s))"

section \<open>Arithmetic immediates\<close>

definition exec_imm :: "u32 \<Rightarrow> 'd state_t \<Rightarrow> 'd result option" where
  "exec_imm inst s =
     (let op = f_op inst; rt = f_rt inst; a = gpr s (f_rs inst); si = f_simm inst; ui = f_uimm inst in
      if op = 0x08
      then Some (if add32_overflows (lo32 a) (lo32 si) then Inr (raise_overflow s)
                 else ret_gpr rt (sext64 (lo32 a + lo32 si)) s)
      else if op = 0x09 then Some (ret_gpr rt (sext32 (lo32 (sext64 (lo32 (a + si))))) s)
      else if op = 0x0A then Some (ret_gpr rt (b2w (sint a < sint si)) s)
      else if op = 0x0B then Some (ret_gpr rt (b2w (a < si)) s)
      else if op = 0x0c then Some (ret_gpr rt (a AND ui) s)
      else if op = 0x0d then Some (ret_gpr rt (a OR ui) s)
      else if op = 0x0e then Some (ret_gpr rt (a XOR ui) s)
      else if op = 0x0F then Some (ret_gpr rt (sext64 (push_bit 16 (lo32 ui))) s)
      else if op = 0x18
      then Some (if add64_overflows a si then Inr (raise_overflow s) else ret_gpr rt (a + si) s)
      else if op = 0x19 then Some (ret_gpr rt (a + si) s)
      else None)"

end
