(* ===== verification/Cop0.thy ===== *)
theory Cop0
  imports ALU
begin

text \<open>
  Coprocessor 0 as \<^verbatim>\<open>execMips\<close> of src/interpret.cc dispatches it: the TLB instructions (their
  bodies are in the theory TLB), ERET, WAIT, DI, EI and the moves to and from the CP0
  registers with the console port (register 7), and the CACHE instruction.
\<close>

section \<open>Console\<close>

definition marker :: "u8 list" where
  "marker = [0x66, 0x70, 0x67, 0x61, 0x5f, 0x64, 0x6f, 0x6e, 0x65]"

definition console_watch :: "u8 \<Rightarrow> 'd state_t \<Rightarrow> 'd state_t" where
  "console_watch c s =
     (let m = cw_matched s;
          m1 = (if c = marker ! m then m + 1 else if c = marker ! 0 then 1 else 0)
      in if m1 = length marker
         then s\<lparr>cw_matched := 0, sys := (sys s)\<lparr>brk := 1\<rparr>\<rparr>
         else s\<lparr>cw_matched := m1\<rparr>)"

definition putchar :: "u8 \<Rightarrow> 'd state_t \<Rightarrow> 'd state_t" where
  "putchar c s = console_watch c (s\<lparr>console_out := console_out s @ [c]\<rparr>)"

section \<open>Moves\<close>

definition mfc0 :: "u32 \<Rightarrow> 'd state_t \<Rightarrow> 'd state_t" where
  "mfc0 inst s = set_gpr (f_rt inst) (if f_rd inst = 7 then 0 else sext32 (cpr0 s (f_rd inst))) s"

definition dmfc0 :: "u32 \<Rightarrow> 'd state_t \<Rightarrow> 'd state_t" where
  "dmfc0 inst s = set_gpr (f_rt inst) (cpr0_64 s (f_rd inst)) s"

definition write_cp0 :: "5 word \<Rightarrow> u64 \<Rightarrow> 'd state_t \<Rightarrow> 'd state_t" where
  "write_cp0 rd v s =
     (if rd \<noteq> CPR0_PRID
      then (let w = cp0_write_mask rd v in set_cpr0 rd (ucast w) (set_cpr0_64 rd w s))
      else s)"

definition console_port :: "5 word \<Rightarrow> u64 \<Rightarrow> 'd state_t \<Rightarrow> 'd state_t" where
  "console_port rd v s = (if rd = 7 \<and> \<not> silent s then putchar (ucast (v AND 0xff)) s else s)"

definition mtc0 :: "u32 \<Rightarrow> 'd state_t \<Rightarrow> 'd state_t" where
  "mtc0 inst s =
     (let rd = f_rd inst; x = gpr s (f_rt inst);
          s1 = write_cp0 rd (if rd = CPR0_ENTRYHI then x else sext32 (ucast x)) s;
          s2 = (if rd = CPR0_COMPARE
                then set_cpr0 CPR0_CAUSE (cpr0 s1 CPR0_CAUSE AND NOT (push_bit 15 1)) s1 else s1)
      in console_port rd x s2)"

definition dmtc0 :: "u32 \<Rightarrow> 'd state_t \<Rightarrow> 'd state_t" where
  "dmtc0 inst s =
     (let rd = f_rd inst; x = gpr s (f_rt inst) in console_port rd x (write_cp0 rd x s))"

section \<open>ERET, DI, EI\<close>

text \<open>The pc is left 4 below the return address: the dispatch adds 4.\<close>

definition eret :: "'d state_t \<Rightarrow> 'd state_t" where
  "eret s =
     (let s1 = (if flag (cpr0 s CPR0_SR) SR_ERL
                then set_cpr0 CPR0_SR (cpr0 s CPR0_SR AND NOT SR_ERL) (s\<lparr>pc := cpr0_64 s CPR0_ERROREPC - 4\<rparr>)
                else set_cpr0 CPR0_SR (cpr0 s CPR0_SR AND NOT SR_EXL) (s\<lparr>pc := cpr0_64 s CPR0_EPC - 4\<rparr>))
      in s1\<lparr>ll_armed := False\<rparr>)"

definition di_ei :: "bool \<Rightarrow> u32 \<Rightarrow> 'd state_t \<Rightarrow> 'd state_t" where
  "di_ei on inst s =
     (let sr = cpr0 s CPR0_SR;
          s1 = (if f_rt inst \<noteq> 0 then set_gpr (f_rt inst) (ucast sr) s else s)
      in set_cpr0 CPR0_SR (if on then sr OR 1 else sr AND NOT 1) s1)"

section \<open>Dispatch\<close>

definition cop0_co :: "u32 \<Rightarrow> 'd state_t \<Rightarrow> 'd result" where
  "cop0_co inst s =
     (let fn = inst AND 63 in
      if fn = 0x1 then Inr (tlbr s)
      else if fn = 0x2 then tlbwi s
      else if fn = 0x6 then tlbwr s
      else if fn = 0x8 then Inr (tlbp s)
      else if fn = 24 then Inr (eret s)
      else if fn = 32 then (if cpr0 s CPR0_SR AND 1 = 0 then Inl Exit_unhandled else Inr s)
      else Inl Exit_unhandled)"

definition exec_cop0 :: "u32 \<Rightarrow> 'd state_t \<Rightarrow> 'd result" where
  "exec_cop0 inst s =
     on_next
       (if drop_bit 25 inst AND 1 \<noteq> 0 then cop0_co inst s
        else if f_rs inst = 11 \<and> inst AND 65535 = 0x6000 then Inr (di_ei False inst s)
        else if f_rs inst = 11 \<and> inst AND 65535 = 0x6020 then Inr (di_ei True inst s)
        else if f_rs inst = 0x0 then Inr (mfc0 inst s)
        else if f_rs inst = 0x1 then Inr (dmfc0 inst s)
        else if f_rs inst = 0x4 then Inr (mtc0 inst s)
        else if f_rs inst = 0x5 then Inr (dmtc0 inst s)
        else Inl Exit_unhandled)
       (\<lambda>t. Inr (pc4 t))"

section \<open>The CACHE instruction\<close>

text \<open>The tag operations of a secondary cache, emulated only when \<^verbatim>\<open>SCSIZE\<close> is set to a nonzero size.\<close>

definition sc_tag_ops :: "'d env \<Rightarrow> u32 \<Rightarrow> u64 \<Rightarrow> 'd state_t \<Rightarrow> 'd state_t" where
  "sc_tag_ops E cop va s =
     (case env_SCSIZE E of None \<Rightarrow> s
      | Some g_scsize \<Rightarrow>
          let which = cop AND 3; op = drop_bit 2 cop AND 7; low = (ucast (va AND 0x1fffffff) :: u32);
              idx = low mod g_scsize in
          if g_scsize \<noteq> 0 \<and> which = 3 \<and> (op = 1 \<or> op = 2)
          then (if op = 2 then s\<lparr>g_sctag := (g_sctag s)(idx \<mapsto> cpr0 s 28)\<rparr>
                else (let t = (case g_sctag s idx of Some t \<Rightarrow> t
                               | None \<Rightarrow> 0x80000000 OR drop_bit 4 low)
                      in set_cpr0_64 28 (ucast t) (set_cpr0 28 t s)))
          else s)"

definition with_cmodel :: "(bool \<Rightarrow> cache_model \<times> bytes \<Rightarrow> cache_model \<times> bytes) \<Rightarrow> 'd state_t \<Rightarrow> 'd state_t" where
  "with_cmodel f s =
     (case g_cmodel (sys s) of None \<Rightarrow> s
      | Some c \<Rightarrow> (let (c', m') = f (route_devices (sys s)) (c, mem (sys s))
                  in s\<lparr>sys := (sys s)\<lparr>g_cmodel := Some c', mem := m'\<rparr>\<rparr>))"

definition cache_op :: "'d env \<Rightarrow> u32 \<Rightarrow> 'd state_t \<Rightarrow> 'd state_t" where
  "cache_op E inst s0 =
     (let cop = drop_bit 16 inst AND 31;
          va = eff_va inst s0;
          s = sc_tag_ops E cop va s0;
          which = cop AND 3; cacheop = drop_bit 2 cop AND 7;
          on_hit = (\<lambda>f. case tlb_probe_ro va s of None \<Rightarrow> s | Some pa \<Rightarrow> with_cmodel (\<lambda>rd. f rd pa) s)
      in pc4 (if which = 1
              then (if cacheop = 0 then with_cmodel (\<lambda>rd. index_wb_inval rd (ucast va)) s
                    else if cacheop = 4 then on_hit (\<lambda>_. hit_inval)
                    else if cacheop = 5 then on_hit hit_wb_inval
                    else if cacheop = 6 then on_hit hit_wb
                    else s)
              else s))"

end
