(* ===== verification/Interpreter.thy ===== *)
theory Interpreter
  imports Cop0
begin

text \<open>
  The instruction executor \<^verbatim>\<open>execMips\<close> of src/interpret.cc in its big-endian instance and the run
  loop of src/main.cc.  One call executes one instruction, together with its delay slot when
  it is a branch: the C++ function recurses through \<^verbatim>\<open>run_delay_slot\<close>, the model bounds the depth
  of that recursion by \<open>n\<close> and stops with \<open>Delay_slot_depth\<close> beyond it.  Only a branch in the
  delay slot of a branch recurses further; the theory Interpreter_Properties shows that depth 2
  is enough for every other program.
\<close>

section \<open>Dispatch\<close>

definition exec_jtype :: "('d state_t \<Rightarrow> 'd result) \<Rightarrow> u32 \<Rightarrow> 'd state_t \<Rightarrow> 'd result" where
  "exec_jtype ex inst s =
     (let off = push_bit 2 (ucast (inst AND 0x3ffffff)) :: u64;
          s1 = pc4 (if f_op inst = 0x3 then set_gpr 31 (pc s + 8) s else s);
          jaddr = off OR (pc s1 AND NOT 0xfffffff)
      in after_slot (run_delay_slot ex s1) (jump_to jaddr))"

definition exec_branch_imm ::
    "'d env \<Rightarrow> ('d state_t \<Rightarrow> 'd result) \<Rightarrow> u32 \<Rightarrow> 'd state_t \<Rightarrow> 'd result option" where
  "exec_branch_imm E ex inst s =
     (let op = f_op inst in
      if op = 0x01 then Some (bgez_bltz E ex inst s)
      else if op = 0x04 then Some (branch E ex beq inst s)
      else if op = 0x05 then Some (branch E ex bne inst s)
      else if op = 0x06 then Some (branch E ex blez inst s)
      else if op = 0x07 then Some (branch E ex bgtz inst s)
      else if op = 0x14 then Some (branch E ex beql inst s)
      else if op = 0x16 then Some (branch E ex blezl inst s)
      else if op = 0x15 then Some (branch E ex bnel inst s)
      else if op = 0x17 then Some (branch E ex bgtzl inst s)
      else None)"

definition exec_mem_imm :: "'d env \<Rightarrow> u32 \<Rightarrow> 'd state_t \<Rightarrow> 'd state_t option" where
  "exec_mem_imm E inst s =
     (let op = f_op inst in
      if op = 0x1a then Some (ldl E inst s)
      else if op = 0x1b then Some (ldr E inst s)
      else if op = 0x20 then Some (lb E inst s)
      else if op = 0x21 then Some (lh E inst s)
      else if op = 0x22 then Some (lwl E inst s)
      else if op = 0x23 then Some (lw E inst s)
      else if op = 0x24 then Some (lbu E inst s)
      else if op = 0x27 then Some (lwu E inst s)
      else if op = 0x25 then Some (lhu E inst s)
      else if op = 0x26 then Some (lwr E inst s)
      else if op = 0x28 then Some (sb E inst s)
      else if op = 0x29 then Some (sh E inst s)
      else if op = 0x2a then Some (swl E inst s)
      else if op = 0x2B then Some (sw E inst s)
      else if op = 0x2c then Some (sdl E inst s)
      else if op = 0x2d then Some (sdr E inst s)
      else if op = 0x2e then Some (swr E inst s)
      else if op = 0x2f then Some (cache_op E inst s)
      else if op = 0x31 then Some (lwc1 E inst s)
      else if op = 0x33 then Some (pc4 s)
      else if op = 0x35 then Some (ldc1 E inst s)
      else if op = 0x39 then Some (swc1 E inst s)
      else if op = 0x37 then Some (ld E inst s)
      else if op = 0x3D then Some (sdc1 E inst s)
      else if op = 0x3F then Some (sd E inst s)
      else None)"

definition exec_itype ::
    "'d env \<Rightarrow> ('d state_t \<Rightarrow> 'd result) \<Rightarrow> u32 \<Rightarrow> 'd state_t \<Rightarrow> 'd result" where
  "exec_itype E ex inst s =
     (case exec_branch_imm E ex inst s of Some r \<Rightarrow> r | None \<Rightarrow>
      case exec_imm inst s of Some r \<Rightarrow> r | None \<Rightarrow>
      case exec_mem_imm E inst s of Some t \<Rightarrow> Inr t | None \<Rightarrow> Inr (raise_ri s))"

text \<open>The gates before the dispatch: 64-bit operations outside 64-bit mode, MIPS IV operations
  on the R4400, and the floating-point unit while Status.CU1 is clear.\<close>

definition r4400_reserved :: "u32 \<Rightarrow> bool" where
  "r4400_reserved inst \<longleftrightarrow> f_op inst = 0x13 \<or> f_op inst = 0 \<and> f_funct inst \<in> {0x01, 0x0a, 0x0b}"

definition uses_cop1 :: "u32 \<Rightarrow> bool" where
  "uses_cop1 inst \<longleftrightarrow> f_op inst \<in> {0x11, 0x13, 0x31, 0x35, 0x39, 0x3d}"

definition gate :: "'d env \<Rightarrow> u32 \<Rightarrow> 'd state_t \<Rightarrow> 'd state_t option" where
  "gate E inst s =
     (if is_64b_gated inst \<and> \<not> in_64b_mode s then Some (take_exception_ri s)
      else if \<not> cpu_r5000 E \<and> r4400_reserved inst then Some (raise_ri s)
      else if uses_cop1 inst \<and> \<not> flag (cpr0 s CPR0_SR) SR_CU1 then Some (take_exception_cpu 1 s)
      else None)"

definition dispatch ::
    "'d env \<Rightarrow> ('d state_t \<Rightarrow> 'd result) \<Rightarrow> u32 \<Rightarrow> 'd state_t \<Rightarrow> 'd result" where
  "dispatch E ex inst s =
     (let op = f_op inst in
      if op = 0 then exec_rtype ex inst s
      else if op = 0x1c \<or> op = 0x1f
      then Inr (if op = 0x1f \<and> f_funct inst = 0x3b then take_exception_ri s else raise_ri s)
      else if drop_bit 1 op = 1 then exec_jtype ex inst s
      else if op = 0x10 then exec_cop0 inst s
      else if op = 0x11 then execCoproc1 E ex inst s
      else if op = 0x13 then execCoproc1x E inst s
      else if op = 0x12 then Inl Exit_unhandled
      else if op = 0x30 then Inr (ll_exec E inst s)
      else if op = 0x38 then Inr (sc_exec E inst s)
      else if op = 0x34 then Inr (lld_exec E inst s)
      else if op = 0x3c then Inr (scd_exec E inst s)
      else exec_itype E ex inst s)"

section \<open>One instruction\<close>

text \<open>\<open>None\<close> when the fetch raises a TLB exception.\<close>

definition fetch :: "'d env \<Rightarrow> 'd state_t \<Rightarrow> u32 option \<times> 'd state_t" where
  "fetch E s0 =
     (let s1 = (set_gpr 0 0 s0)\<lparr>tlb_fault := False\<rparr>;
          (ipa, s2) = va_translate (pc s1) op_fetch s1
      in if tlb_fault s2 then (None, s2)
         else (let (v, s3) = mem_get E 4 ipa s2 in (Some (ucast (bswap 4 v)), s3)))"

definition exec_body ::
    "'d env \<Rightarrow> ('d state_t \<Rightarrow> 'd result) \<Rightarrow> 'd state_t \<Rightarrow> 'd result" where
  "exec_body E ex s0 =
     (case fetch E s0 of
        (None, s) \<Rightarrow> Inr s
      | (Some inst, s1) \<Rightarrow>
          (let s = s1\<lparr>icnt := icnt s1 + 1\<rparr> in
           case gate E inst s of Some t \<Rightarrow> Inr t | None \<Rightarrow> dispatch E ex inst s))"

primrec execMips :: "'d env \<Rightarrow> nat \<Rightarrow> 'd state_t \<Rightarrow> 'd result" where
  "execMips E 0 s = Inl Delay_slot_depth"
| "execMips E (Suc n) s = exec_body E (execMips E n) s"

section \<open>The run loop\<close>

text \<open>\<^verbatim>\<open>while(s->brk == 0 && s->icnt < s->maxicnt) { maybe_take_interrupt(s); execMips(s); }\<close>, for at
  most k iterations; the flag says whether the loop condition ended the run.\<close>

definition machine_step :: "'d env \<Rightarrow> nat \<Rightarrow> 'd state_t \<Rightarrow> 'd result" where
  "machine_step E n s = execMips E n (maybe_take_interrupt E s)"

definition running :: "u64 \<Rightarrow> 'd state_t \<Rightarrow> bool" where
  "running maxicnt s \<longleftrightarrow> brk (sys s) = 0 \<and> icnt s < maxicnt"

primrec run_loop :: "'d env \<Rightarrow> nat \<Rightarrow> u64 \<Rightarrow> nat \<Rightarrow> 'd state_t \<Rightarrow> host_stop + bool \<times> 'd state_t" where
  "run_loop E n maxicnt 0 s = Inr (\<not> running maxicnt s, s)"
| "run_loop E n maxicnt (Suc k) s =
     (if running maxicnt s
      then (case machine_step E n s of Inl e \<Rightarrow> Inl e | Inr t \<Rightarrow> run_loop E n maxicnt k t)
      else Inr (True, s))"

end
