(* ===== verification/Checkpoint.thy ===== *)
theory Checkpoint
  imports Interpreter
begin

text \<open>
  Checkpoints (src/saveState.cc) at the level of the bytes of the file, and the part of the run
  loop of \<^verbatim>\<open>main\<close> that decides when to take one.

  \<^verbatim>\<open>struct cp_header\<close> is a packed structure written and read as it lies in memory, so the model
  writes its fields one after the other in the host's byte order and reads them back at their
  offsets.  The pages follow, every page below 512 MB that is not all zero.  A failed \<^verbatim>\<open>assert\<close>
  (a short read, a wrong magic number) is \<open>Inl\<close>.

  The lemmas show that a restored machine has exactly the saved registers, TLB and memory, that no
  cut-off file is accepted, and that the loop only dumps at the boundaries it promises.
\<close>

section \<open>The file format\<close>

definition CKPT_MAGIC :: u64 where "CKPT_MAGIC = 0x6d697073f5f5d005"
definition SCAN_LO :: u64 where "SCAN_LO = 0x00000000"
definition SCAN_HI :: u64 where "SCAN_HI = 0x20000000"

record cp_header =
  h_magic :: u64
  h_pc :: u64
  h_gpr :: "u64 list"
  h_hi :: u64
  h_lo :: u64
  h_cpr0 :: "u32 list"
  h_cpr0_64 :: "u64 list"
  h_cpr1 :: "u64 list"
  h_fcr1 :: "u32 list"
  h_tlb :: "tlb_entry_t list"
  h_icnt :: u64
  h_num_pages :: u32

definition words8 :: "u64 list \<Rightarrow> u8 list" where
  "words8 vs = concat (map (le_bytes 8) vs)"

definition words4 :: "u32 list \<Rightarrow> u8 list" where
  "words4 vs = concat (map (\<lambda>v. le_bytes 4 (ucast v)) vs)"

text \<open>\<^verbatim>\<open>struct cp_tlb\<close>: three doublewords, the mask and four bytes of padding.\<close>

definition tlb_bytes :: "tlb_entry_t \<Rightarrow> u8 list" where
  "tlb_bytes e = le_bytes 8 (entry_hi e) @ le_bytes 8 (entry_lo0 e) @ le_bytes 8 (entry_lo1 e) @
     le_bytes 4 (ucast (page_mask e)) @ le_bytes 4 0"

definition header_segs :: "cp_header \<Rightarrow> u8 list list" where
  "header_segs h =
     [le_bytes 8 (h_magic h), le_bytes 8 (h_pc h), words8 (h_gpr h), le_bytes 8 (h_hi h), le_bytes 8 (h_lo h),
      words4 (h_cpr0 h), words8 (h_cpr0_64 h), words8 (h_cpr1 h), words4 (h_fcr1 h),
      concat (map tlb_bytes (h_tlb h)), le_bytes 8 (h_icnt h), le_bytes 4 (ucast (h_num_pages h))]"

definition header_bytes :: "cp_header \<Rightarrow> u8 list" where
  "header_bytes h = concat (header_segs h)"

definition header_size :: nat where "header_size = 2496"

text \<open>Reading the structure: n bytes at an offset, and k records of n bytes at an offset.\<close>

definition field :: "nat \<Rightarrow> nat \<Rightarrow> u8 list \<Rightarrow> u64" where
  "field n off bs = le_val (take n (drop off bs))"

definition array :: "nat \<Rightarrow> nat \<Rightarrow> nat \<Rightarrow> u8 list \<Rightarrow> u8 list list" where
  "array k n off bs = map (\<lambda>i. take n (drop (n * i) (take (k * n) (drop off bs)))) [0..<k]"

definition tlb_of_bytes :: "u8 list \<Rightarrow> tlb_entry_t" where
  "tlb_of_bytes bs = \<lparr>entry_hi = field 8 0 bs, entry_lo0 = field 8 8 bs, entry_lo1 = field 8 16 bs,
     page_mask = ucast (field 4 24 bs)\<rparr>"

definition header_of :: "u8 list \<Rightarrow> cp_header" where
  "header_of bs = \<lparr>h_magic = field 8 0 bs, h_pc = field 8 8 bs, h_gpr = map le_val (array 32 8 16 bs),
     h_hi = field 8 272 bs, h_lo = field 8 280 bs, h_cpr0 = map (\<lambda>w. ucast (le_val w)) (array 32 4 288 bs),
     h_cpr0_64 = map le_val (array 32 8 416 bs), h_cpr1 = map le_val (array 32 8 672 bs),
     h_fcr1 = map (\<lambda>w. ucast (le_val w)) (array 5 4 928 bs), h_tlb = map tlb_of_bytes (array 48 32 948 bs),
     h_icnt = field 8 2484 bs, h_num_pages = ucast (field 4 2492 bs)\<rparr>"

section \<open>Saving\<close>

definition regs32 :: "(5 word \<Rightarrow> 'a) \<Rightarrow> 'a list" where
  "regs32 f = map (\<lambda>i. f (of_nat i)) [0..<32]"

definition fcr_array :: "fcr list" where
  "fcr_array = [CP1_CR0, CP1_CR31, CP1_CR25, CP1_CR26, CP1_CR28]"

text \<open>The scan: \<^verbatim>\<open>for(a = SCAN_LO; a < SCAN_HI; a += 4096)\<close>.\<close>

definition scan_pages :: "u32 list" where
  "scan_pages = map (\<lambda>i. of_nat (unat SCAN_LO + 4096 * i)) [0..<unat (SCAN_HI - SCAN_LO) div 4096]"

definition page_nonzero :: "bytes \<Rightarrow> u32 \<Rightarrow> bool" where
  "page_nonzero m a \<longleftrightarrow> list_ex (\<lambda>i. mem_load 8 m (a + of_nat (8 * i)) \<noteq> 0) [0..<512]"

definition page_bytes :: "bytes \<Rightarrow> u32 \<Rightarrow> u8 list" where
  "page_bytes m a = le_bytes 4 (ucast a) @ map (\<lambda>i. m (a + of_nat i)) [0..<4096]"

definition dumped_pages :: "bytes \<Rightarrow> u32 list" where
  "dumped_pages m = filter (page_nonzero m) scan_pages"

definition header_of_state :: "'d state_t \<Rightarrow> cp_header" where
  "header_of_state s = \<lparr>h_magic = CKPT_MAGIC, h_pc = pc s, h_gpr = regs32 (gpr s), h_hi = hi_reg s,
     h_lo = lo_reg s, h_cpr0 = regs32 (cpr0 s), h_cpr0_64 = regs32 (cpr0_64 s), h_cpr1 = regs32 (cpr1 s),
     h_fcr1 = map (fcr1 s) fcr_array, h_tlb = map (tlb s) [0..<48], h_icnt = icnt s,
     h_num_pages = of_nat (length (dumped_pages (mem (sys s))))\<rparr>"

definition dumpState :: "'d state_t \<Rightarrow> u8 list" where
  "dumpState s = header_bytes (header_of_state s) @
     concat (map (page_bytes (mem (sys s))) (dumped_pages (mem (sys s))))"

section \<open>Restoring\<close>

definition fcr_pos :: "fcr \<Rightarrow> nat" where
  "fcr_pos r = (case r of CP1_CR0 \<Rightarrow> 0 | CP1_CR31 \<Rightarrow> 1 | CP1_CR25 \<Rightarrow> 2 | CP1_CR26 \<Rightarrow> 3 | CP1_CR28 \<Rightarrow> 4)"

definition restore_regs :: "cp_header \<Rightarrow> 'd state_t \<Rightarrow> 'd state_t" where
  "restore_regs h s = s\<lparr>pc := h_pc h, gpr := (\<lambda>r. h_gpr h ! unat r), hi_reg := h_hi h, lo_reg := h_lo h,
     cpr0 := (\<lambda>r. h_cpr0 h ! unat r), cpr0_64 := (\<lambda>r. h_cpr0_64 h ! unat r),
     cpr1 := (\<lambda>r. h_cpr1 h ! unat r), fcr1 := (\<lambda>r. h_fcr1 h ! fcr_pos r),
     tlb := (\<lambda>i. if i < 48 then h_tlb h ! i else tlb s i), icnt := h_icnt h\<rparr>"

primrec load_pages :: "nat \<Rightarrow> u8 list \<Rightarrow> bytes \<Rightarrow> host_stop + bytes" where
  "load_pages 0 bs m = Inr m"
| "load_pages (Suc n) bs m =
     (if length bs < 4100 then Inl Assert_failed
      else load_pages n (drop 4100 bs) (put_bytes (take 4096 (drop 4 bs)) m (ucast (field 4 0 bs))))"

definition loadState :: "u8 list \<Rightarrow> 'd state_t \<Rightarrow> 'd result" where
  "loadState bs s =
     (if length bs < header_size then Inl Assert_failed
      else
        (let h = header_of bs in
         if h_magic h \<noteq> CKPT_MAGIC then Inl Assert_failed
         else
           (let s1 = restore_regs h s in
            case load_pages (unat (h_num_pages h)) (drop header_size bs) (mem (sys s1)) of
              Inl e \<Rightarrow> Inl e
            | Inr m \<Rightarrow> Inr (s1\<lparr>sys := (sys s1)\<lparr>mem := m\<rparr>\<rparr>))))"

section \<open>When the loop takes a checkpoint\<close>

record ckpt_opts =
  ckpt_pc :: u32
  ckpt_every :: u64
  ckpt_start :: u64
  ckpt_icnt :: u64

definition ckpt_safe :: "'d state_t \<Rightarrow> bool" where
  "ckpt_safe s \<longleftrightarrow> \<not> in_delay_slot s \<and> \<not> ll_armed s \<and> \<not> flag (cpr0 s CPR0_SR) (SR_EXL OR SR_ERL)"

text \<open>A file is written to \<^verbatim>\<open><checkpoint-out>\<close>, or with the instruction count as its suffix.  The
  flag is the \<^verbatim>\<open>break\<close> out of the loop, the number is \<^verbatim>\<open>ckpt_next\<close>.\<close>

type_synonym ckpt_file = "u64 option \<times> u8 list"

definition ckpt_hook :: "ckpt_opts \<Rightarrow> u64 \<Rightarrow> 'd state_t \<Rightarrow> ckpt_file list \<times> bool \<times> u64" where
  "ckpt_hook K nxt s =
     (if ckpt_pc K \<noteq> 0 \<and> ucast (pc s) = ckpt_pc K \<and> ckpt_safe s then ([(None, dumpState s)], True, nxt)
      else
        (let (fs, nxt') = (if ckpt_every K \<noteq> 0 \<and> nxt \<le> icnt s \<and> ckpt_safe s
                           then ([(Some (icnt s), dumpState s)], nxt + ckpt_every K) else ([], nxt))
         in if ckpt_icnt K \<noteq> 0 \<and> ckpt_icnt K \<le> icnt s \<and> ckpt_safe s
            then (fs @ [(None, dumpState s)], True, nxt') else (fs, False, nxt')))"

primrec main_loop ::
    "'d env \<Rightarrow> nat \<Rightarrow> ckpt_opts \<Rightarrow> u64 \<Rightarrow> nat \<Rightarrow> u64 \<Rightarrow> 'd state_t \<Rightarrow> host_stop + ckpt_file list \<times> bool \<times> 'd state_t" where
  "main_loop E n K maxicnt 0 nxt s = Inr ([], \<not> running maxicnt s, s)"
| "main_loop E n K maxicnt (Suc k) nxt s =
     (if running maxicnt s
      then (case ckpt_hook K nxt s of (fs, stop, nxt') \<Rightarrow>
            if stop then Inr (fs, True, s)
            else (case machine_step E n s of
                    Inl e \<Rightarrow> Inl e
                  | Inr t \<Rightarrow>
                      (case main_loop E n K maxicnt k nxt' t of
                         Inl e \<Rightarrow> Inl e
                       | Inr (fs', r) \<Rightarrow> Inr (fs @ fs', r))))
      else Inr ([], True, s))"

definition main_run :: "'d env \<Rightarrow> nat \<Rightarrow> ckpt_opts \<Rightarrow> u64 \<Rightarrow> nat \<Rightarrow> 'd state_t \<Rightarrow> host_stop + ckpt_file list \<times> bool \<times> 'd state_t" where
  "main_run E n K maxicnt k s =
     main_loop E n K maxicnt k (if ckpt_start K \<noteq> 0 then ckpt_start K else ckpt_every K) s"

section \<open>Segments\<close>

lemma segment:
  "k < length ss \<Longrightarrow> n = length (ss ! k) \<Longrightarrow> off = sum_list (map length (take k ss)) \<Longrightarrow>
   take n (drop off (concat ss @ rest)) = ss ! k"
proof (induction ss arbitrary: k off)
  case (Cons a ss)
  then show ?case by (cases k) simp_all
qed simp

lemma record_at:
  assumes "\<And>v. length (f v) = n" "i < length vs"
  shows "take n (drop (n * i) (concat (map f vs))) = f (vs ! i)"
  using segment [of i "map f vs" n "n * i" "[]"] assms
  by (simp add: take_map o_def sum_list_triv map_replicate_const [symmetric] comp_def mult.commute)

lemma length_concat_const: "(\<And>v. length (f v) = n) \<Longrightarrow> length (concat (map f vs)) = n * length vs"
  by (induction vs) simp_all

lemma array_at:
  assumes "\<And>v. length (f v) = n" "take (k * n) (drop off bs) = concat (map f vs)" "length vs = k"
  shows "array k n off bs = map f vs"
  using assms by (auto simp: array_def record_at intro!: nth_equalityI)

lemma length_words [simp]: "length (words8 vs) = 8 * length vs" "length (words4 us) = 4 * length us"
  by (simp_all add: words8_def words4_def length_concat_const)

lemma length_tlb_bytes [simp]: "length (tlb_bytes e) = 32"
  by (simp add: tlb_bytes_def)

lemma length_tlbs [simp]: "length (concat (map tlb_bytes es)) = 32 * length es"
  by (simp add: length_concat_const)

lemmas object_round_trips [simp] = le_val_8 le_val_4

lemma tlb_round_trip: "tlb_of_bytes (tlb_bytes e) = e"
proof -
  let ?ss = "[le_bytes 8 (entry_hi e), le_bytes 8 (entry_lo0 e), le_bytes 8 (entry_lo1 e),
    le_bytes 4 (ucast (page_mask e)), le_bytes 4 0]"
  have b: "tlb_bytes e = concat ?ss @ []" by (simp add: tlb_bytes_def)
  have "take 8 (drop 0 (tlb_bytes e)) = ?ss ! 0" "take 8 (drop 8 (tlb_bytes e)) = ?ss ! 1"
    "take 8 (drop 16 (tlb_bytes e)) = ?ss ! 2" "take 4 (drop 24 (tlb_bytes e)) = ?ss ! 3"
    unfolding b by (rule segment; simp)+
  then show ?thesis by (simp add: tlb_of_bytes_def field_def)
qed

definition header_ok :: "cp_header \<Rightarrow> bool" where
  "header_ok h \<longleftrightarrow> length (h_gpr h) = 32 \<and> length (h_cpr0 h) = 32 \<and> length (h_cpr0_64 h) = 32 \<and>
     length (h_cpr1 h) = 32 \<and> length (h_fcr1 h) = 5 \<and> length (h_tlb h) = 48"

lemma header_length: "header_ok h \<Longrightarrow> length (header_bytes h) = header_size"
  by (simp add: header_ok_def header_bytes_def header_segs_def header_size_def)

lemma header_seg_lengths:
  "header_ok h \<Longrightarrow> map length (header_segs h) = [8, 8, 256, 8, 8, 128, 256, 256, 20, 1536, 8, 4]"
  by (simp add: header_ok_def header_segs_def)

lemma header_seg_nth:
  "header_segs h ! 0 = le_bytes 8 (h_magic h)" "header_segs h ! 1 = le_bytes 8 (h_pc h)"
  "header_segs h ! 2 = words8 (h_gpr h)" "header_segs h ! 3 = le_bytes 8 (h_hi h)"
  "header_segs h ! 4 = le_bytes 8 (h_lo h)" "header_segs h ! 5 = words4 (h_cpr0 h)"
  "header_segs h ! 6 = words8 (h_cpr0_64 h)" "header_segs h ! 7 = words8 (h_cpr1 h)"
  "header_segs h ! 8 = words4 (h_fcr1 h)" "header_segs h ! 9 = concat (map tlb_bytes (h_tlb h))"
  "header_segs h ! 10 = le_bytes 8 (h_icnt h)" "header_segs h ! 11 = le_bytes 4 (ucast (h_num_pages h))"
  by (simp_all add: header_segs_def)

lemma header_seg:
  assumes "header_ok h" "k < 12" "n = [8, 8, 256, 8, 8, 128, 256, 256, 20, 1536, 8, 4] ! k"
    and "off = sum_list (take k [8, 8, 256, 8, 8, 128, 256, 256, 20, 1536, 8, 4])"
  shows "take n (drop off (header_bytes h @ rest)) = header_segs h ! k"
  unfolding header_bytes_def
proof (rule segment)
  show "k < length (header_segs h)" using assms(2) by (simp add: header_segs_def)
  then show "n = length (header_segs h ! k)"
    using assms(3) header_seg_lengths [OF assms(1)] by (metis nth_map)
  show "off = sum_list (map length (take k (header_segs h)))"
    using assms(4) header_seg_lengths [OF assms(1)] by (simp only: take_map [symmetric])
qed

lemma header_round_trip:
  assumes "header_ok h"
  shows "header_of (header_bytes h @ rest) = h"
proof -
  let ?bs = "header_bytes h @ rest"
  note ok = assms [unfolded header_ok_def]
  note seg = header_seg [OF assms, where rest = rest]
  have f: "field 8 0 ?bs = h_magic h" "field 8 8 ?bs = h_pc h" "field 8 272 ?bs = h_hi h" "field 8 280 ?bs = h_lo h"
    "field 8 2484 ?bs = h_icnt h" "ucast (field 4 2492 ?bs) = h_num_pages h"
    unfolding field_def
    using seg [of 0 8 0] seg [of 1 8 8] seg [of 3 8 272] seg [of 4 8 280] seg [of 10 8 2484] seg [of 11 4 2492]
    by (simp_all add: header_seg_nth header_seg_nth(2) [unfolded One_nat_def])
  have a: "array 32 8 16 ?bs = map (le_bytes 8) (h_gpr h)" "array 32 8 416 ?bs = map (le_bytes 8) (h_cpr0_64 h)"
    "array 32 8 672 ?bs = map (le_bytes 8) (h_cpr1 h)"
    "array 32 4 288 ?bs = map (\<lambda>v. le_bytes 4 (ucast v)) (h_cpr0 h)"
    "array 5 4 928 ?bs = map (\<lambda>v. le_bytes 4 (ucast v)) (h_fcr1 h)"
    "array 48 32 948 ?bs = map tlb_bytes (h_tlb h)"
    using seg [of 2 256 16] seg [of 6 256 416] seg [of 7 256 672] seg [of 5 128 288] seg [of 8 20 928] seg [of 9 1536 948] ok
    by (simp_all add: array_at header_seg_nth words8_def words4_def)
  show ?thesis by (simp add: header_of_def a f o_def tlb_round_trip)
qed

section \<open>Pages\<close>

lemma page_bytes_length [simp]: "length (page_bytes m a) = 4100"
  by (simp add: page_bytes_def)

definition in_page :: "u32 \<Rightarrow> u32 \<Rightarrow> bool" where
  "in_page a x \<longleftrightarrow> unat (x - a) < 4096"

lemma put_page:
  "put_bytes (map (\<lambda>i. m (a + of_nat i)) [0..<4096]) m0 a x = (if in_page a x then m x else m0 x)"
proof -
  have "map (\<lambda>i. m (a + of_nat i)) [0..<4096] ! unat (x - a) = m x" if "unat (x - a) < 4096"
    using that by simp
  then show ?thesis by (subst put_bytes_at) (simp_all add: in_page_def)
qed

lemma load_pages_dumped:
  "load_pages (length as) (concat (map (page_bytes m) as) @ rest) m0 =
     Inr (\<lambda>x. if \<exists>a\<in>set as. in_page a x then m x else m0 x)"
proof (induction as arbitrary: m0)
  case (Cons a as)
  have "field 4 0 (page_bytes m a @ bs) = le_val (le_bytes 4 (ucast a))" for bs
    by (simp add: field_def page_bytes_def)
  then have "ucast (field 4 0 (page_bytes m a @ bs)) = a" for bs by simp
  moreover have "take 4096 (drop 4 (page_bytes m a @ bs)) = map (\<lambda>i. m (a + of_nat i)) [0..<4096]" for bs
    by (simp add: page_bytes_def)
  moreover have "drop 4100 (page_bytes m a @ bs) = bs" for bs by simp
  moreover have "put_bytes (map (\<lambda>i. m (a + of_nat i)) [0..<4096]) m0 a = (\<lambda>x. if in_page a x then m x else m0 x)"
    by (rule ext) (rule put_page)
  ultimately show ?case by (auto simp: Cons.IH)
qed simp

text \<open>A file cut off inside a page is refused.\<close>

lemma load_pages_short: "length bs < 4100 * n \<Longrightarrow> load_pages n bs m = Inl Assert_failed"
  by (induction n arbitrary: bs m) auto

text \<open>The scanned pages are disjoint and cover the window.\<close>

definition page_of :: "u32 \<Rightarrow> u32" where
  "page_of x = of_nat (4096 * (unat x div 4096))"

lemma in_page_iff:
  assumes "i < 131072"
  shows "in_page (of_nat (4096 * i)) x \<longleftrightarrow> unat x div 4096 = i"
proof -
  define a :: u32 where "a = of_nat (4096 * i)"
  have a: "unat a = 4096 * i" unfolding a_def using assms by (simp only: unat_of_nat) simp
  have "unat x div 4096 = i" if "in_page a x"
  proof -
    have "unat (a + (x - a)) = unat a + unat (x - a)"
      using that assms by (subst unat_word_ariths) (simp add: a in_page_def)
    then show ?thesis using that by (simp add: a in_page_def)
  qed
  moreover have "in_page a x" if "unat x div 4096 = i"
  proof -
    have x: "unat x = 4096 * i + unat x mod 4096" using that mult_div_mod_eq [of 4096 "unat x"] by simp
    then have "unat (x - a) = unat x - unat a" by (intro unat_sub) (simp add: word_le_nat_alt a)
    with x show ?thesis by (simp add: a in_page_def)
  qed
  ultimately show ?thesis unfolding a_def by blast
qed

lemma scan_cover:
  "(\<exists>a\<in>set (filter P scan_pages). in_page a x) \<longleftrightarrow> unat x < 0x20000000 \<and> P (page_of x)"
proof -
  have s: "set scan_pages = (\<lambda>i. of_nat (4096 * i)) ` {..<131072}"
    by (auto simp: scan_pages_def SCAN_LO_def SCAN_HI_def)
  have "(\<exists>a\<in>set (filter P scan_pages). in_page a x) \<longleftrightarrow> (\<exists>i<131072. P (of_nat (4096 * i)) \<and> unat x div 4096 = i)"
    using in_page_iff by (auto simp: s)
  also have "\<dots> \<longleftrightarrow> unat x div 4096 < 131072 \<and> P (page_of x)" by (auto simp: page_of_def)
  also have "unat x div 4096 < 131072 \<longleftrightarrow> unat x < 0x20000000"
    using div_less_iff_less_mult [of 4096 "unat x" 131072] by simp
  finally show ?thesis .
qed

section \<open>Properties\<close>

lemma header_of_state_ok [simp]: "header_ok (header_of_state s)"
  by (simp add: header_ok_def header_of_state_def regs32_def fcr_array_def)

lemma dumped_count: "unat (h_num_pages (header_of_state s)) = length (dumped_pages (mem (sys s)))"
proof -
  have "length (dumped_pages (mem (sys s))) \<le> 131072"
    unfolding dumped_pages_def by (rule order.trans [OF length_filter_le]) (simp add: scan_pages_def SCAN_LO_def SCAN_HI_def)
  then show ?thesis by (simp add: header_of_state_def unat_of_nat)
qed

lemma regs32_nth [simp]: "regs32 f ! unat r = f r"
proof -
  have "unat r < 32" using unsigned_less [of r, where 'a = nat] by simp
  then show ?thesis by (simp add: regs32_def)
qed

lemma fcr_round_trip: "map f fcr_array ! fcr_pos r = f r"
  by (cases r) (simp_all add: fcr_array_def fcr_pos_def)

lemma header_of_state_fields:
  "h_magic (header_of_state s) = CKPT_MAGIC" "h_pc (header_of_state s) = pc s" "h_gpr (header_of_state s) = regs32 (gpr s)"
  "h_hi (header_of_state s) = hi_reg s" "h_lo (header_of_state s) = lo_reg s" "h_cpr0 (header_of_state s) = regs32 (cpr0 s)"
  "h_cpr0_64 (header_of_state s) = regs32 (cpr0_64 s)" "h_cpr1 (header_of_state s) = regs32 (cpr1 s)"
  "h_fcr1 (header_of_state s) = map (fcr1 s) fcr_array" "h_tlb (header_of_state s) = map (tlb s) [0..<48]"
  "h_icnt (header_of_state s) = icnt s"
  by (simp_all add: header_of_state_def)

lemma restore_saved:
  "restore_regs (header_of_state s) t =
     t\<lparr>pc := pc s, gpr := gpr s, hi_reg := hi_reg s, lo_reg := lo_reg s, cpr0 := cpr0 s, cpr0_64 := cpr0_64 s,
       cpr1 := cpr1 s, fcr1 := fcr1 s, tlb := (\<lambda>i. if i < 48 then tlb s i else tlb t i), icnt := icnt s\<rparr>"
proof -
  have "(\<lambda>i. if i < 48 then h_tlb (header_of_state s) ! i else tlb t i) = (\<lambda>i. if i < 48 then tlb s i else tlb t i)"
    by (rule ext) (simp add: header_of_state_fields)
  then show ?thesis
    by (simp add: restore_regs_def header_of_state_fields fcr_round_trip del: upt_rec_numeral)
qed

text \<open>C18.  A checkpoint restores the machine: loading a dumped file into any state succeeds and yields the
  saved pc, registers, floating-point and CP0 registers in both widths, TLB and instruction count; below
  512 MB every byte of a page that was not all zero is the saved one and every other byte of memory is
  left as it was, so that a cleared memory becomes the saved one; nothing else of the state changes.\<close>

theorem checkpoint_round_trip:
  "loadState (dumpState s) t = Inr
     (t\<lparr>pc := pc s, gpr := gpr s, hi_reg := hi_reg s, lo_reg := lo_reg s, cpr0 := cpr0 s, cpr0_64 := cpr0_64 s,
        cpr1 := cpr1 s, fcr1 := fcr1 s, tlb := (\<lambda>i. if i < 48 then tlb s i else tlb t i), icnt := icnt s,
        sys := (sys t)\<lparr>mem := (\<lambda>x. if unat x < 0x20000000 \<and> page_nonzero (mem (sys s)) (page_of x)
                                    then mem (sys s) x else mem (sys t) x)\<rparr>\<rparr>)"
proof -
  let ?h = "header_of_state s" and ?m = "mem (sys s)"
  let ?p = "concat (map (page_bytes ?m) (dumped_pages ?m))"
  have len: "length (header_bytes ?h) = header_size" by (simp add: header_length)
  have h: "header_of (dumpState s) = ?h" by (simp add: dumpState_def header_round_trip)
  have d: "drop header_size (dumpState s) = ?p" "\<not> length (dumpState s) < header_size"
    by (simp_all add: dumpState_def len)
  have l: "load_pages (length (dumped_pages ?m)) ?p m0 =
      Inr (\<lambda>x. if unat x < 0x20000000 \<and> page_nonzero ?m (page_of x) then ?m x else m0 x)" for m0
    using load_pages_dumped [of "dumped_pages ?m" ?m "[]" m0]
    by (simp only: append_Nil2 dumped_pages_def scan_cover)
  show ?thesis
    by (simp add: loadState_def h d header_of_state_fields(1) dumped_count restore_saved l Let_def cong: if_cong)
qed

text \<open>No cut-off checkpoint is accepted: whatever proper prefix of a dumped file is left, and whatever state it
  is loaded into, an assertion fails before the simulator goes on with half a machine.\<close>

theorem truncated_checkpoint_refused:
  assumes "n < length (dumpState s)"
  shows "loadState (take n (dumpState s)) t = Inl Assert_failed"
proof (cases "n < header_size")
  case True
  with assms show ?thesis by (simp add: loadState_def)
next
  case False
  let ?h = "header_of_state s" and ?p = "concat (map (page_bytes (mem (sys s))) (dumped_pages (mem (sys s))))"
  have len: "length (header_bytes ?h) = header_size" by (simp add: header_length)
  have pl: "length ?p = 4100 * length (dumped_pages (mem (sys s)))" by (simp add: length_concat_const)
  have tk: "take n (dumpState s) = header_bytes ?h @ take (n - header_size) ?p"
    using False by (simp add: dumpState_def len)
  have "length (take (n - header_size) ?p) < 4100 * length (dumped_pages (mem (sys s)))"
    using assms False by (simp add: dumpState_def len pl)
  then have "load_pages (length (dumped_pages (mem (sys s)))) (take (n - header_size) ?p) m = Inl Assert_failed" for m
    by (rule load_pages_short)
  then show ?thesis
    unfolding tk by (simp add: loadState_def len header_round_trip dumped_count Let_def)
qed

theorem truncated_checkpoint_refused_witness:
  "loadState (take 0 (dumpState (state_zero (io_init ())))) (state_zero (io_init ())) = Inl Assert_failed"
proof -
  have "0 < length (dumpState (state_zero (io_init ())))"
    using header_length [of "header_of_state (state_zero (io_init ()))"]
    by (simp add: dumpState_def header_size_def)
  then show ?thesis by (rule truncated_checkpoint_refused)
qed

text \<open>The states of a run, one per iteration of the loop.\<close>

primrec machine_steps :: "'d env \<Rightarrow> nat \<Rightarrow> nat \<Rightarrow> 'd state_t \<Rightarrow> 'd result" where
  "machine_steps E n 0 s = Inr s"
| "machine_steps E n (Suc k) s = on_next (machine_step E n s) (machine_steps E n k)"

lemma hook_safe:
  "ckpt_hook K nxt s = (fs, stop, nxt') \<Longrightarrow> (sfx, bs) \<in> set fs \<Longrightarrow>
     ckpt_safe s \<and> bs = dumpState s \<and> sfx \<in> {None, Some (icnt s)}"
  by (auto simp: ckpt_hook_def Let_def split: if_splits)

lemma main_loop_safe:
  "main_loop E n K maxicnt k nxt s = Inr (fs, r) \<Longrightarrow> (sfx, bs) \<in> set fs \<Longrightarrow>
     \<exists>j u. j < k \<and> machine_steps E n j s = Inr u \<and> running maxicnt u \<and> ckpt_safe u \<and> bs = dumpState u \<and>
           sfx \<in> {None, Some (icnt u)}"
proof (induction k arbitrary: nxt s fs)
  case (Suc k)
  obtain fs0 stop nxt' where h: "ckpt_hook K nxt s = (fs0, stop, nxt')" by (cases "ckpt_hook K nxt s")
  have run: "running maxicnt s" using Suc.prems by (auto split: if_splits)
  show ?case
  proof (cases "(sfx, bs) \<in> set fs0")
    case True
    with hook_safe [OF h True] run show ?thesis by (intro exI [of _ 0] exI [of _ s]) simp
  next
    case False
    with Suc.prems h run obtain t fs' where t: "machine_step E n s = Inr t"
      "main_loop E n K maxicnt k nxt' t = Inr (fs', r)" "(sfx, bs) \<in> set fs'"
      by (auto split: if_splits sum.splits)
    from Suc.IH [OF t(2,3)] obtain j u where "j < k" "machine_steps E n j t = Inr u" "running maxicnt u"
      "ckpt_safe u" "bs = dumpState u" "sfx \<in> {None, Some (icnt u)}" by blast
    with t(1) show ?thesis by (intro exI [of _ "Suc j"] exI [of _ u]) simp
  qed
qed simp

end
