(* ===== verification/Loader.thy ===== *)
theory Loader
  imports Mips_State
begin

text \<open>
  Start-up: the ELF loader (src/loadelf.cc) and the pseudo BIOS that hands the kernel its argument
  and environment vectors (src/pseudo_bios.cc).

  The mapped file is a byte list; a read outside the pages of the mapping faults.  \<^verbatim>\<open>load_elf\<close> ends the
  process by \<^verbatim>\<open>exit\<close>, by \<^verbatim>\<open>assert\<close> or by such a fault.  The layout of the ELF structures is that of
  \<^verbatim>\<open>elf.h\<close>.  The bookkeeping of \<^verbatim>\<open>loaddr\<close>, \<^verbatim>\<open>hiaddr\<close> and \<^verbatim>\<open>lAddr\<close> has no effect and is left out.

  The lemmas show which byte of the file every byte of memory gets, and that the vectors read back as
  the strings of the tables.
\<close>

section \<open>The mapped file\<close>

datatype load_stop = Load_exit | Load_assert | Load_fault

definition mapped_size :: "u8 list \<Rightarrow> nat" where
  "mapped_size bs = 4096 * ((length bs + 4095) div 4096)"

definition file_at :: "u8 list \<Rightarrow> int \<Rightarrow> u8 option" where
  "file_at bs i =
     (if i < 0 \<or> int (mapped_size bs) \<le> i then None
      else Some (if nat i < length bs then bs ! nat i else 0))"

definition file_bytes :: "u8 list \<Rightarrow> int \<Rightarrow> nat \<Rightarrow> u8 list option" where
  "file_bytes bs off k = those (map (\<lambda>j. file_at bs (off + int j)) [0..<k])"

text \<open>\<^verbatim>\<open>bswap_\<close> of a k-byte field at an offset of a structure.\<close>

definition be_field :: "nat \<Rightarrow> nat \<Rightarrow> u8 list \<Rightarrow> u64" where
  "be_field k off eh = bswap k (le_val (take k (drop off eh)))"

section \<open>The loader\<close>

definition magicArr :: "u8 list" where "magicArr = [0x7f, 0x45, 0x4c, 0x46]"

definition checkElf :: "u8 list \<Rightarrow> bool" where
  "checkElf eh \<longleftrightarrow> take 4 eh = magicArr"

definition check32Bit :: "u8 list \<Rightarrow> bool" where
  "check32Bit eh \<longleftrightarrow> eh ! 4 = 1"

definition checkBigEndian :: "u8 list \<Rightarrow> bool" where
  "checkBigEndian eh \<longleftrightarrow> eh ! 5 = 2"

definition va2pa :: "u32 \<Rightarrow> u32" where
  "va2pa va = (if bit va 31 then va AND 0x1fffffff else va)"

record phdr =
  p_type :: u32
  p_offset :: u32
  p_vaddr :: u32
  p_filesz :: u32
  p_memsz :: u32

definition phdr_of :: "u8 list \<Rightarrow> phdr" where
  "phdr_of ph = \<lparr>p_type = ucast (be_field 4 0 ph), p_offset = ucast (be_field 4 4 ph),
     p_vaddr = ucast (be_field 4 8 ph), p_filesz = ucast (be_field 4 16 ph), p_memsz = ucast (be_field 4 20 ph)\<rparr>"

definition zero_fill :: "'d dev_ops \<Rightarrow> dev_view \<Rightarrow> phdr \<Rightarrow> 'd io \<Rightarrow> 'd io" where
  "zero_fill D vw p io0 = fold (\<lambda>cc. set_T D vw 1 (of_nat cc + p_vaddr p) 0) [0..<nat (sint (p_memsz p))] io0"

fun copy_bytes :: "'d dev_ops \<Rightarrow> dev_view \<Rightarrow> u8 list \<Rightarrow> phdr \<Rightarrow> nat list \<Rightarrow> 'd io \<Rightarrow> 'd io option" where
  "copy_bytes D vw bs p [] io0 = Some io0"
| "copy_bytes D vw bs p (cc # ccs) io0 =
     (case file_at bs (sint (p_offset p) + int cc) of
        None \<Rightarrow> None
      | Some b \<Rightarrow> copy_bytes D vw bs p ccs (set_T D vw 1 (va2pa (of_nat cc + p_vaddr p)) (ucast b) io0))"

definition load_segment :: "'d dev_ops \<Rightarrow> dev_view \<Rightarrow> u8 list \<Rightarrow> phdr \<Rightarrow> 'd io \<Rightarrow> 'd io option" where
  "load_segment D vw bs p io0 =
     (if p_type p = 1 \<and> p_memsz p \<noteq> 0
      then copy_bytes D vw bs p [0..<nat (sint (p_filesz p))] (zero_fill D vw p io0)
      else Some io0)"

fun load_segments :: "'d dev_ops \<Rightarrow> dev_view \<Rightarrow> u8 list \<Rightarrow> int \<Rightarrow> nat \<Rightarrow> 'd io \<Rightarrow> 'd io option" where
  "load_segments D vw bs off 0 io0 = Some io0"
| "load_segments D vw bs off (Suc n) io0 =
     (case file_bytes bs off 32 of
        None \<Rightarrow> None
      | Some ph \<Rightarrow>
          (case load_segment D vw bs (phdr_of ph) io0 of
             None \<Rightarrow> None
           | Some io1 \<Rightarrow> load_segments D vw bs (off + 32) n io1))"

definition e_machine :: "u8 list \<Rightarrow> u64" where "e_machine eh = be_field 2 18 eh"
definition e_entry :: "u8 list \<Rightarrow> u32" where "e_entry eh = ucast (be_field 4 24 eh)"
definition e_phoff :: "u8 list \<Rightarrow> u32" where "e_phoff eh = ucast (be_field 4 28 eh)"
definition e_phnum :: "u8 list \<Rightarrow> nat" where "e_phnum eh = unat (be_field 2 44 eh)"

definition load_elf :: "'d env \<Rightarrow> u8 list \<Rightarrow> 'd state_t \<Rightarrow> load_stop + 'd state_t" where
  "load_elf E bs s =
     (let io0 = (sys s)\<lparr>mem := sparse_mem_clear\<rparr> in
      case file_bytes bs 0 52 of
        None \<Rightarrow> Inl Load_fault
      | Some eh \<Rightarrow>
          if \<not> checkElf eh \<or> \<not> check32Bit eh then Inl Load_exit
          else if \<not> checkBigEndian eh then Inl Load_assert
          else if e_machine eh \<noteq> 8 then Inl Load_exit
          else (case load_segments (devops E) (view_of s) bs (sint (e_phoff eh)) (e_phnum eh) io0 of
                  None \<Rightarrow> Inl Load_fault
                | Some io1 \<Rightarrow> Inr (s\<lparr>pc := sext32 (e_entry eh), sys := io1\<rparr>)))"

section \<open>The pseudo BIOS\<close>

definition c_string :: "string \<Rightarrow> u8 list" where
  "c_string t = map of_char t @ [0]"

definition kArgv :: "string list" where
  "kArgv = [''scsi(0)disk(1)rdisk(0)partition(0)/unix'', ''OSLoadOptions=auto'', ''ConsoleIn=serial(0)'',
     ''ConsoleOut=serial(0)'', ''SystemPartition=scsi(0)disk(1)rdisk(0)partition(8)'', ''OSLoader=sash'',
     ''OSLoadPartition=scsi(0)disk(1)rdisk(0)partition(0)'', ''OSLoadFilename=/unix'']"

definition kEnvp :: "string list" where
  "kEnvp = [''AutoLoad=Yes'', ''TimeZone=PST8PDT'', ''console=d'', ''diskless=0'', ''dbaud=9600'', ''volume=80'',
     ''sgilogo=y'', ''autopower=y'', ''eaddr=08:01:02:03:04:05'', ''ConsoleOut=serial(0)'', ''ConsoleIn=serial(0)'',
     ''cpufreq=100'', ''SystemPartition=scsi(0)disk(1)rdisk(0)partition(8)'',
     ''OSLoadPartition=scsi(0)disk(1)rdisk(0)partition(0)'', ''OSLoadFilename=/unix'', ''OSLoader=sash'',
     ''kernname=scsi(0)disk(1)rdisk(0)partition(0)/unix'']"

definition kseg0 :: "u32 \<Rightarrow> u32" where "kseg0 p = 0x80000000 OR p"

text \<open>The cursor \<^verbatim>\<open>pa\<close> and the memory go through the three lambdas.\<close>

definition put_str :: "string \<Rightarrow> u32 \<times> bytes \<Rightarrow> u32 \<times> u32 \<times> bytes" where
  "put_str t pm =
     (case pm of (pa, m) \<Rightarrow> (kseg0 pa, pa + of_nat (length (c_string t)), put_bytes (c_string t) m pa))"

definition put_be32 :: "u32 \<Rightarrow> u32 \<times> bytes \<Rightarrow> u32 \<times> bytes" where
  "put_be32 v pm =
     (case pm of (pa, m) \<Rightarrow> (pa + 4, put_bytes (rev (le_bytes 4 (ucast v))) m pa))"

fun put_strs :: "string list \<Rightarrow> u32 \<times> bytes \<Rightarrow> u32 list \<times> u32 \<times> bytes" where
  "put_strs [] pm = ([], pm)"
| "put_strs (t # ts) pm = (let (p, pm1) = put_str t pm; (ps, pm2) = put_strs ts pm1 in (p # ps, pm2))"

definition install_pseudo_bios :: "'d state_t \<Rightarrow> 'd state_t" where
  "install_pseudo_bios s =
     (let (argptrs, pm1) = put_strs kArgv (0x08fff000, mem (sys s));
          (envptrs, pa2, m2) = put_strs kEnvp pm1;
          pm3 = ((pa2 + 3) AND NOT 3, m2);
          argv_base = kseg0 (fst pm3);
          pm4 = put_be32 0 (fold put_be32 argptrs pm3);
          envp_base = kseg0 (fst pm4);
          pm5 = put_be32 0 (fold put_be32 envptrs pm4)
      in set_gpr 6 (sext32 envp_base) (set_gpr 5 (sext32 argv_base) (set_gpr 4 (of_nat (length kArgv))
           (s\<lparr>sys := (sys s)\<lparr>mem := snd pm5\<rparr>\<rparr>))))"

section \<open>What a segment writes\<close>

text \<open>A segment the loader places as the file says: in the unmapped kernel segments, in DRAM above the
  low-memory alias and below the device window, with its bytes inside the file.\<close>

definition seg_pa :: "phdr \<Rightarrow> nat" where
  "seg_pa p = unat (p_vaddr p AND 0x1fffffff)"

definition loadable :: "u8 list \<Rightarrow> phdr \<Rightarrow> bool" where
  "loadable bs p \<longleftrightarrow> 0x80000000 \<le> p_vaddr p \<and> 0x80000 \<le> seg_pa p \<and> seg_pa p + unat (p_filesz p) \<le> 0x1f000000 \<and>
     unat (p_vaddr p) + unat (p_memsz p) \<le> 2 ^ 32 \<and> unat (p_memsz p) < 2 ^ 31 \<and>
     unat (p_offset p) + unat (p_filesz p) \<le> length bs \<and> unat (p_offset p) < 2 ^ 31"

text \<open>The image: the last segment that covers an address gives its byte, and the rest is zero.\<close>

definition covers :: "phdr \<Rightarrow> u32 \<Rightarrow> bool" where
  "covers p x \<longleftrightarrow> p_type p = 1 \<and> p_memsz p \<noteq> 0 \<and> seg_pa p \<le> unat x \<and> unat x < seg_pa p + unat (p_filesz p)"

definition seg_over :: "u8 list \<Rightarrow> phdr \<Rightarrow> (u32 \<Rightarrow> u8) \<Rightarrow> u32 \<Rightarrow> u8" where
  "seg_over bs p m x = (if covers p x then bs ! (unat (p_offset p) + (unat x - seg_pa p)) else m x)"

definition elf_image :: "u8 list \<Rightarrow> phdr list \<Rightarrow> u32 \<Rightarrow> u8" where
  "elf_image bs ps = fold (seg_over bs) ps (\<lambda>_. 0)"

definition dram :: "'d io \<Rightarrow> bool" where
  "dram io0 \<longleftrightarrow> g_cmodel io0 = None \<or> \<not> cache_active io0"

lemma dram_mem [simp]: "dram (io0\<lparr>mem := m\<rparr>) = dram io0"
  by (simp add: dram_def)

lemma set_byte:
  assumes "dram io0" "0x80000 \<le> unat a" "\<not> in_device_window a"
  shows "set_T D vw 1 a v io0 = io0\<lparr>mem := (mem io0)(a := ucast v)\<rparr>"
proof -
  have "get_raw_ptr (route_devices io0) a = a"
    using assms(2) by (simp add: get_raw_ptr_def mc_alias_def word_less_nat_alt)
  then show ?thesis
    using assms(1,3) by (subst set_T_uncached) (auto simp: dram_def plain_access_def mem_store_def)
qed

lemma sint_small:
  fixes x :: u32
  assumes "unat x < 2 ^ 31"
  shows "sint x = int (unat x)"
proof -
  have "int (unat x) < int (2 ^ 31)" using assms by (simp only: of_nat_less_iff)
  moreover have "- (2 ^ 31) \<le> uint x" by (rule order.trans [OF _ unsigned_greater_eq]) simp
  ultimately have "signed_take_bit 31 (uint x) = uint x" by (intro signed_take_bit_int_eq_self) simp_all
  then show ?thesis by (simp add: sint_uint)
qed

lemma zero_fill_high:
  assumes "dram io0" "0x80000000 \<le> p_vaddr p" "unat (p_vaddr p) + unat (p_memsz p) \<le> 2 ^ 32" "unat (p_memsz p) < 2 ^ 31"
  shows "\<exists>m. zero_fill D vw p io0 = io0\<lparr>mem := m\<rparr> \<and> (\<forall>x. unat x < 0x80000000 \<longrightarrow> m x = mem io0 x)"
proof -
  note n = sint_small [OF assms(4)]
  have high: "0x80000000 \<le> unat (of_nat cc + p_vaddr p)" if "cc < unat (p_memsz p)" for cc
  proof -
    have "unat (of_nat cc + p_vaddr p) = cc + unat (p_vaddr p)"
      using that assms(3) by (simp add: unat_word_ariths unat_of_nat)
    then show ?thesis using assms(2) by (simp add: word_le_nat_alt)
  qed
  have "\<exists>m. fold (\<lambda>cc. set_T D vw 1 (of_nat cc + p_vaddr p) 0) ccs io1 = io1\<lparr>mem := m\<rparr> \<and>
      (\<forall>x. unat x < 0x80000000 \<longrightarrow> m x = mem io1 x)"
    if "set ccs \<subseteq> {..<unat (p_memsz p)}" "dram io1" for ccs io1
    using that
  proof (induction ccs arbitrary: io1)
    case Nil
    then show ?case by (intro exI [of _ "mem io1"]) simp
  next
    case (Cons cc ccs)
    let ?a = "of_nat cc + p_vaddr p" and ?io = "io1\<lparr>mem := (mem io1)(of_nat cc + p_vaddr p := 0)\<rparr>"
    have h: "0x80000000 \<le> unat ?a" using Cons.prems(1) high by simp
    then have "\<not> in_device_window ?a" by (auto simp: in_device_window_def word_le_nat_alt)
    then have "set_T D vw 1 ?a 0 io1 = ?io" using h Cons.prems(2) by (subst set_byte) simp_all
    moreover obtain m where "fold (\<lambda>cc. set_T D vw 1 (of_nat cc + p_vaddr p) 0) ccs ?io = ?io\<lparr>mem := m\<rparr>"
      "\<forall>x. unat x < 0x80000000 \<longrightarrow> m x = mem ?io x"
      using Cons.IH [of ?io] Cons.prems by auto
    ultimately show ?case using h by (intro exI [of _ m]) auto
  qed
  from this [of "[0..<unat (p_memsz p)]" io0] assms(1) show ?thesis
    unfolding zero_fill_def n nat_int by (auto simp: subset_eq)
qed

lemma file_at_inside: "i < length bs \<Longrightarrow> file_at bs (int i) = Some (bs ! i)"
proof -
  assume "i < length bs"
  moreover have "length bs \<le> mapped_size bs" by (simp add: mapped_size_def)
  ultimately show ?thesis by (simp add: file_at_def)
qed

lemma those_Some: "those (map (\<lambda>x. Some (f x)) xs) = Some (map f xs)"
  by (induction xs) simp_all

lemma file_bytes_inside:
  assumes "off + k \<le> length bs"
  shows "file_bytes bs (int off) k = Some (take k (drop off bs))"
proof -
  have "map (\<lambda>j. file_at bs (int off + int j)) [0..<k] = map (\<lambda>j. Some (bs ! (off + j))) [0..<k]"
    using assms file_at_inside [of "off + _" bs] by (intro map_cong) simp_all
  moreover have "map (\<lambda>j. bs ! (off + j)) [0..<k] = take k (drop off bs)"
    using assms by (intro nth_equalityI) simp_all
  ultimately show ?thesis by (simp only: file_bytes_def those_Some)
qed

lemma bit31_iff: "bit x 31 \<longleftrightarrow> 0x80000000 \<le> unat x" for x :: u32
proof -
  have "unat x div 2 ^ 31 < 2" using unsigned_less [of x, where 'a = nat] by (simp add: less_mult_imp_div_less)
  then have "odd (unat x div 2 ^ 31) \<longleftrightarrow> unat x div 2 ^ 31 = 1"
    by (auto simp: less_2_cases_iff)
  also have "\<dots> \<longleftrightarrow> 0x80000000 \<le> unat x"
    using \<open>unat x div 2 ^ 31 < 2\<close> by (auto simp: div_eq_0_iff less_2_cases_iff not_less [symmetric])
  finally have "bit (unat x) 31 \<longleftrightarrow> 0x80000000 \<le> unat x" by (simp only: bit_iff_odd)
  then show ?thesis by (simp add: bit_unsigned_iff)
qed

lemma va2pa_kseg:
  assumes "0x80000000 \<le> va" "unat (va AND 0x1fffffff) + k < 0x20000000"
  shows "unat (va2pa (of_nat k + va)) = unat (va AND 0x1fffffff) + k"
proof -
  have m: "(0x1fffffff :: u32) = mask 29" by (simp add: mask_eq_exp_minus_1)
  have r: "unat va mod 2 ^ 29 + k < 2 ^ 29" using assms(2) by (simp add: m unat_and_mask)
  define q where "q = unat va div 2 ^ 29"
  have va: "unat va = 2 ^ 29 * q + unat va mod 2 ^ 29" by (simp add: q_def)
  have q: "q < 8" using unsigned_less [of va, where 'a = nat] by (simp add: q_def less_mult_imp_div_less)
  have "k + unat va < 2 ^ 29 * (q + 1)" using va r by simp
  also have "\<dots> \<le> 2 ^ 29 * 8" using q by (intro mult_le_mono) simp_all
  finally have s: "unat (of_nat k + va) = k + unat va" by (simp add: unat_word_ariths unat_of_nat)
  have "0x80000000 \<le> unat (of_nat k + va)" using assms(1) by (simp add: s word_le_nat_alt)
  then have "va2pa (of_nat k + va) = (of_nat k + va) AND mask 29" by (simp only: va2pa_def bit31_iff m if_True)
  moreover have "(k + unat va) mod 2 ^ 29 = unat va mod 2 ^ 29 + k"
    using r by (metis add.commute mod_add_right_eq mod_less)
  ultimately show ?thesis by (simp only: unat_and_mask s m)
qed

lemma copy_append:
  "copy_bytes D vw bs p (xs @ ys) io0 = Option.bind (copy_bytes D vw bs p xs io0) (copy_bytes D vw bs p ys)"
  by (induction xs arbitrary: io0) (auto split: option.split)

lemma copy_run:
  assumes "loadable bs p" "dram io0" "n \<le> unat (p_filesz p)"
  shows "copy_bytes D vw bs p [0..<n] io0 = Some (io0\<lparr>mem := (\<lambda>x. if seg_pa p \<le> unat x \<and> unat x < seg_pa p + n
     then bs ! (unat (p_offset p) + (unat x - seg_pa p)) else mem io0 x)\<rparr>)"
  using assms(3)
proof (induction n)
  case 0
  have "(\<lambda>x. if seg_pa p \<le> unat x \<and> unat x < seg_pa p then bs ! (unat (p_offset p) + (unat x - seg_pa p)) else mem io0 x)
      = mem io0" by (rule ext) auto
  then show ?case by simp
next
  case (Suc n)
  let ?m = "\<lambda>k x. if seg_pa p \<le> unat x \<and> unat x < seg_pa p + k
     then bs ! (unat (p_offset p) + (unat x - seg_pa p)) else mem io0 x"
  let ?a = "va2pa (of_nat n + p_vaddr p)"
  note ld = assms(1) [unfolded loadable_def]
  have a: "unat ?a = seg_pa p + n"
    unfolding seg_pa_def by (rule va2pa_kseg) (use ld Suc.prems in \<open>simp_all add: seg_pa_def\<close>)
  have nw: "\<not> in_device_window ?a" using a ld Suc.prems by (auto simp: in_device_window_def word_le_nat_alt)
  have "unat (p_offset p) + n < length bs" using ld Suc.prems by simp
  then have f: "file_at bs (sint (p_offset p) + int n) = Some (bs ! (unat (p_offset p) + n))"
    using file_at_inside [of "unat (p_offset p) + n" bs] ld by (simp add: sint_small)
  have up: "(?m n)(?a := bs ! (unat (p_offset p) + n)) = ?m (Suc n)"
  proof (rule ext)
    fix x
    show "((?m n)(?a := bs ! (unat (p_offset p) + n))) x = ?m (Suc n) x"
      using a by (cases "x = ?a") (auto simp: less_Suc_eq word_unat_eq_iff)
  qed
  have "copy_bytes D vw bs p [0..<Suc n] io0 = copy_bytes D vw bs p [n] (io0\<lparr>mem := ?m n\<rparr>)"
    using Suc by (simp add: copy_append)
  also have "\<dots> = Some (io0\<lparr>mem := (?m n)(?a := bs ! (unat (p_offset p) + n))\<rparr>)"
    using assms(2) a nw ld by (simp add: f set_byte [unfolded One_nat_def] ucast_up_ucast_id is_up)
  finally show ?case unfolding up .
qed

lemma segment_run:
  assumes "p_type p = 1 \<and> p_memsz p \<noteq> 0 \<longrightarrow> loadable bs p" "dram io0"
  shows "\<exists>m. load_segment D vw bs p io0 = Some (io0\<lparr>mem := m\<rparr>) \<and>
    (\<forall>x. unat x < 0x80000000 \<longrightarrow> m x = seg_over bs p (mem io0) x)"
proof (cases "p_type p = 1 \<and> p_memsz p \<noteq> 0")
  case True
  with assms(1) have ld: "loadable bs p" by simp
  obtain m where m: "zero_fill D vw p io0 = io0\<lparr>mem := m\<rparr>" "\<forall>x. unat x < 0x80000000 \<longrightarrow> m x = mem io0 x"
    using zero_fill_high [OF assms(2), of p D vw] ld unfolding loadable_def by blast
  have "unat (p_filesz p) < 2 ^ 31" using ld by (simp add: loadable_def)
  then have "nat (sint (p_filesz p)) = unat (p_filesz p)" by (simp add: sint_small)
  with True m copy_run [OF ld, of "io0\<lparr>mem := m\<rparr>" "unat (p_filesz p)"] assms(2) show ?thesis
    by (auto simp: load_segment_def seg_over_def covers_def)
next
  case False
  then show ?thesis by (auto simp: load_segment_def seg_over_def covers_def intro: exI [of _ "mem io0"])
qed

text \<open>The program headers of the file, in order.\<close>

fun phdrs_at :: "u8 list \<Rightarrow> int \<Rightarrow> nat \<Rightarrow> phdr list option" where
  "phdrs_at bs off 0 = Some []"
| "phdrs_at bs off (Suc n) =
     (case file_bytes bs off 32 of
        None \<Rightarrow> None
      | Some ph \<Rightarrow> (case phdrs_at bs (off + 32) n of None \<Rightarrow> None | Some ps \<Rightarrow> Some (phdr_of ph # ps)))"

lemma seg_over_cong: "f x = g x \<Longrightarrow> fold (seg_over bs) qs f x = fold (seg_over bs) qs g x"
proof (induction qs arbitrary: f g)
  case (Cons q qs)
  then have "seg_over bs q f x = seg_over bs q g x" by (simp add: seg_over_def)
  from Cons.IH [of "seg_over bs q f" "seg_over bs q g", OF this] show ?case by simp
qed simp

lemma segments_run:
  assumes "phdrs_at bs off n = Some ps" "\<forall>p\<in>set ps. p_type p = 1 \<and> p_memsz p \<noteq> 0 \<longrightarrow> loadable bs p" "dram io0"
  shows "\<exists>m. load_segments D vw bs off n io0 = Some (io0\<lparr>mem := m\<rparr>) \<and>
    (\<forall>x. unat x < 0x80000000 \<longrightarrow> m x = fold (seg_over bs) ps (mem io0) x)"
  using assms
proof (induction bs off n arbitrary: ps io0 rule: phdrs_at.induct)
  case (1 bs off)
  then show ?case by (intro exI [of _ "mem io0"]) simp
next
  case (2 bs off n)
  from 2(2) obtain ph ps' where ph: "file_bytes bs off 32 = Some ph" "phdrs_at bs (off + 32) n = Some ps'"
    "ps = phdr_of ph # ps'" by (auto split: option.splits)
  obtain m1 where m1: "load_segment D vw bs (phdr_of ph) io0 = Some (io0\<lparr>mem := m1\<rparr>)"
    "\<forall>x. unat x < 0x80000000 \<longrightarrow> m1 x = seg_over bs (phdr_of ph) (mem io0) x"
    using segment_run [of "phdr_of ph" bs io0 D vw] 2(3,4) unfolding ph(3) list.set by blast
  obtain m2 where m2: "load_segments D vw bs (off + 32) n (io0\<lparr>mem := m1\<rparr>) = Some (io0\<lparr>mem := m2\<rparr>)"
    "\<forall>x. unat x < 0x80000000 \<longrightarrow> m2 x = fold (seg_over bs) ps' m1 x"
    using 2(1) [OF ph(1,2), of "io0\<lparr>mem := m1\<rparr>"] 2(3,4) unfolding ph(3) by simp blast
  have "m2 x = fold (seg_over bs) ps (mem io0) x" if "unat x < 0x80000000" for x
    using m2(2) m1(2) seg_over_cong [of m1 x "seg_over bs (phdr_of ph) (mem io0)" bs ps'] that by (simp add: ph(3))
  then show ?case using ph(1) m1(1) m2(1) by (intro exI [of _ m2]) simp
qed

text \<open>C19.  A well-formed kernel is loaded as its program headers say: for a big-endian 32-bit MIPS file whose
  loadable segments lie in the unmapped kernel segments, above the low-memory alias and below the device
  window, \<^verbatim>\<open>load_elf\<close> returns; the pc is the sign-extended entry point, every byte of physical memory below
  2 GB is the byte of the last segment that covers it and zero where none does, whatever memory held before,
  and nothing but the pc and the memory changes.\<close>

theorem elf_image_loaded:
  assumes "file_bytes bs 0 52 = Some eh" "checkElf eh" "check32Bit eh" "checkBigEndian eh" "e_machine eh = 8"
    and "phdrs_at bs (sint (e_phoff eh)) (e_phnum eh) = Some ps"
    and "\<forall>p\<in>set ps. p_type p = 1 \<and> p_memsz p \<noteq> 0 \<longrightarrow> loadable bs p" "dram (sys s)"
  shows "\<exists>m. load_elf E bs s = Inr (s\<lparr>pc := sext32 (e_entry eh), sys := (sys s)\<lparr>mem := m\<rparr>\<rparr>) \<and>
    (\<forall>x. unat x < 0x80000000 \<longrightarrow> m x = elf_image bs ps x)"
proof -
  let ?io = "(sys s)\<lparr>mem := sparse_mem_clear\<rparr>"
  obtain m where "load_segments (devops E) (view_of s) bs (sint (e_phoff eh)) (e_phnum eh) ?io = Some (?io\<lparr>mem := m\<rparr>)"
    "\<forall>x. unat x < 0x80000000 \<longrightarrow> m x = fold (seg_over bs) ps (mem ?io) x"
    using segments_run [OF assms(6,7), of ?io "devops E" "view_of s"] assms(8) by auto
  then show ?thesis
    using assms(1-5) by (intro exI [of _ m]) (simp add: load_elf_def elf_image_def sparse_mem_clear_def)
qed

text \<open>A file with one segment of four bytes and a bss of four more at 0x88002000.\<close>

definition small_elf :: "u8 list" where
  "small_elf =
     [0x7f,0x45,0x4c,0x46,1,2,1,0, 0,0,0,0,0,0,0,0, 0,2,0,8,0,0,0,1, 0x88,0x00,0x20,0x00, 0,0,0,52,
      0,0,0,0, 0,0,0,0, 0,52,0,32,0,1,0,0, 0,0,0,0,
      0,0,0,1, 0,0,0,84, 0x88,0x00,0x20,0x00, 0x88,0x00,0x20,0x00, 0,0,0,4, 0,0,0,8, 0,0,0,5, 0,0,0x10,0,
      0x3c,0x1d,0x80,0x0f]"

theorem elf_image_loaded_witness:
  "\<exists>m. load_elf base_env small_elf (state_zero (io_init ())) =
       Inr ((state_zero (io_init ()))\<lparr>pc := 0xffffffff88002000, sys := (io_init ())\<lparr>mem := m\<rparr>\<rparr>) \<and>
     map m [0x08002000, 0x08002001, 0x08002002, 0x08002003, 0x08002004] = [0x3c, 0x1d, 0x80, 0x0f, 0]"
proof -
  let ?eh = "take 52 small_elf" and ?p = "phdr_of (take 32 (drop 52 small_elf))"
  have l: "length small_elf = 88" by (simp add: small_elf_def)
  have f: "file_bytes small_elf 0 52 = Some ?eh" "file_bytes small_elf 52 32 = Some (take 32 (drop 52 small_elf))"
    using file_bytes_inside [of 0 52 small_elf] file_bytes_inside [of 52 32 small_elf] by (simp_all add: l)
  have h: "checkElf ?eh" "check32Bit ?eh" "checkBigEndian ?eh"
    "e_machine ?eh = 8" "e_entry ?eh = 0x88002000" "sint (e_phoff ?eh) = 52" "e_phnum ?eh = 1"
    by code_simp+
  have p: "phdrs_at small_elf 52 1 = Some [?p]" using f(2) by simp
  have fs: "p_type ?p = 1" "p_offset ?p = 84" "p_vaddr ?p = 0x88002000" "p_filesz ?p = 4" "p_memsz ?p = 8"
    by code_simp+
  have pa: "seg_pa ?p = 0x08002000" by (simp add: seg_pa_def fs)
  have ld: "loadable small_elf ?p" by (simp add: loadable_def pa fs l)
  have ps: "phdrs_at small_elf (sint (e_phoff ?eh)) (e_phnum ?eh) = Some [?p]" using p by (simp only: h)
  have d: "dram (sys (state_zero (io_init ())))" by (simp add: dram_def state_zero_def io_init_def)
  obtain m where m: "load_elf base_env small_elf (state_zero (io_init ())) =
      Inr ((state_zero (io_init ()))\<lparr>pc := sext32 (e_entry ?eh), sys := (sys (state_zero (io_init ())))\<lparr>mem := m\<rparr>\<rparr>)"
    "\<forall>x. unat x < 0x80000000 \<longrightarrow> m x = elf_image small_elf [?p] x"
    using elf_image_loaded [OF f(1) h(1-4) ps _ d, of base_env] ld by (elim meta_impE exE conjE) simp_all
  have img: "elf_image small_elf [?p] x = (if 0x08002000 \<le> unat x \<and> unat x < 0x08002004
      then small_elf ! (84 + (unat x - 0x08002000)) else 0)" for x
    unfolding elf_image_def fold_simps seg_over_def covers_def pa fs by simp
  have by4: "small_elf ! 84 = 0x3c" "small_elf ! 85 = 0x1d" "small_elf ! 86 = 0x80" "small_elf ! 87 = 0x0f"
    by (simp_all add: small_elf_def)
  have "map (elf_image small_elf [?p]) [0x08002000, 0x08002001, 0x08002002, 0x08002003, 0x08002004] = [0x3c, 0x1d, 0x80, 0x0f, 0]"
    unfolding list.map img by (simp add: by4)
  moreover have "sext32 0x88002000 = 0xffffffff88002000" by code_simp
  ultimately show ?thesis using m h(5) by (intro exI [of _ m]) (simp add: state_zero_def)
qed

section \<open>What the pseudo BIOS leaves\<close>

text \<open>A vector as the kernel reads it: big-endian pointers to NUL-terminated strings, then NULL.\<close>

definition bytes_at :: "bytes \<Rightarrow> u32 \<Rightarrow> nat \<Rightarrow> u8 list" where
  "bytes_at m a k = map (\<lambda>i. m (a + of_nat i)) [0..<k]"

definition be32_at :: "bytes \<Rightarrow> u32 \<Rightarrow> u32" where
  "be32_at m a = ucast (le_val (rev (bytes_at m a 4)))"

definition string_at :: "bytes \<Rightarrow> u32 \<Rightarrow> string \<Rightarrow> bool" where
  "string_at m a t \<longleftrightarrow> bytes_at m a (length (c_string t)) = c_string t"

definition vector_at :: "bytes \<Rightarrow> u32 \<Rightarrow> string list \<Rightarrow> bool" where
  "vector_at m a ts \<longleftrightarrow>
     (\<forall>i < length ts. string_at m (va2pa (be32_at m (va2pa a + 4 * of_nat i))) (ts ! i)) \<and>
     be32_at m (va2pa a + 4 * of_nat (length ts)) = 0"

definition same_outside :: "u32 \<Rightarrow> u32 \<Rightarrow> bytes \<Rightarrow> bytes \<Rightarrow> bool" where
  "same_outside lo hi m m' \<longleftrightarrow> (\<forall>x. x < lo \<or> hi \<le> x \<longrightarrow> m' x = m x)"

definition strings :: "string list \<Rightarrow> u8 list" where "strings ts = concat (map c_string ts)"
definition be4 :: "u32 \<Rightarrow> u8 list" where "be4 v = rev (le_bytes 4 (ucast v))"
definition string_ptrs :: "u32 \<Rightarrow> string list \<Rightarrow> u32 list" where
  "string_ptrs pa ts = map (\<lambda>i. kseg0 (pa + of_nat (length (strings (take i ts))))) [0..<length ts]"

lemma length_be4: "length (be4 v) = 4"
  by (simp add: be4_def)

lemma put_bytes_append: "put_bytes (xs @ ys) m a = put_bytes ys (put_bytes xs m a) (a + of_nat (length xs))"
  by (induction xs arbitrary: m a) (simp_all add: add.assoc)

lemma put_strs_run:
  "put_strs ts (pa, m) = (string_ptrs pa ts, pa + of_nat (length (strings ts)), put_bytes (strings ts) m pa)"
proof (induction ts arbitrary: pa m)
  case (Cons t ts)
  have "[0..<Suc (length ts)] = 0 # map Suc [0..<length ts]" by (subst upt_conv_Cons) (simp_all add: map_Suc_upt del: upt_Suc)
  then show ?case
    by (simp add: put_str_def Cons.IH string_ptrs_def strings_def put_bytes_append add.assoc del: upt_Suc)
qed (simp add: string_ptrs_def strings_def)

lemma put_be32_run:
  "fold put_be32 vs (pa, m) = (pa + of_nat (4 * length vs), put_bytes (concat (map be4 vs)) m pa)"
proof (induction vs arbitrary: pa m)
  case (Cons v vs)
  then show ?case by (simp add: put_be32_def be4_def put_bytes_append add.assoc)
qed simp

lemma bytes_at_put:
  assumes "length bs < 2 ^ 32" "i + k \<le> length bs"
  shows "bytes_at (put_bytes bs m a) (a + of_nat i) k = take k (drop i bs)"
proof (rule nth_equalityI)
  fix j assume "j < length (bytes_at (put_bytes bs m a) (a + of_nat i) k)"
  then have j: "j < k" by (simp add: bytes_at_def)
  have "of_nat i + of_nat j = (of_nat (i + j) :: u32)" by simp
  then have "unat (a + of_nat i + of_nat j - a) = i + j"
    using assms j by (simp only: add.assoc add_diff_cancel_left' unat_of_nat) simp
  then show "bytes_at (put_bytes bs m a) (a + of_nat i) k ! j = take k (drop i bs) ! j"
    using assms j by (simp add: bytes_at_def put_bytes_at add.commute)
qed (use assms in \<open>simp add: bytes_at_def\<close>)

lemma be32_at_put:
  assumes "4 * length vs < 2 ^ 32" "i < length vs"
  shows "be32_at (put_bytes (concat (map be4 vs)) m a) (a + 4 * of_nat i) = vs ! i"
proof -
  have l: "length (concat (map be4 vs)) = 4 * length vs" for vs by (induction vs) (simp_all add: be4_def)
  have "drop (4 * i) (concat (map be4 vs)) = concat (map be4 (drop i vs))"
    using assms(2)
  proof (induction vs arbitrary: i)
    case (Cons v vs)
    then show ?case by (cases i) (simp_all add: be4_def)
  qed simp
  also have "drop i vs = vs ! i # drop (Suc i) vs" using assms(2) by (simp add: Cons_nth_drop_Suc)
  finally have "take 4 (drop (4 * i) (concat (map be4 vs))) = be4 (vs ! i)" by (simp add: length_be4)
  moreover have "(of_nat (4 * i) :: u32) = 4 * of_nat i" by simp
  ultimately show ?thesis
    using bytes_at_put [of "concat (map be4 vs)" "4 * i" 4 m a] assms
    by (simp only: be32_at_def l) (simp add: be4_def le_val_4)
qed

lemma string_at_put:
  assumes "length (strings ts) < 2 ^ 32" "i < length ts"
  shows "string_at (put_bytes (strings ts) m a) (a + of_nat (length (strings (take i ts)))) (ts ! i)"
proof -
  have "ts = take i ts @ ts ! i # drop (Suc i) ts" using assms(2) by (simp add: Cons_nth_drop_Suc)
  then have d: "strings ts = strings (take i ts) @ c_string (ts ! i) @ strings (drop (Suc i) ts)"
    by (metis append.simps(2) concat.simps(2) concat_append list.map(2) map_append strings_def append.assoc)
  then show ?thesis
    unfolding string_at_def
    by (subst bytes_at_put [OF assms(1)]) (simp_all add: d [symmetric], simp_all add: d)
qed

lemma bytes_at_frame:
  assumes "length bs \<le> 2 ^ 31" "i + k \<le> n" "n \<le> 2 ^ 31"
  shows "bytes_at (put_bytes bs m (a + of_nat n)) (a + of_nat i) k = bytes_at m (a + of_nat i) k"
proof -
  have "\<not> unat (a + of_nat i + of_nat j - (a + of_nat n)) < length bs" if "j < k" for j
  proof -
    define x where "x = a + of_nat i + of_nat j - (a + of_nat n)"
    define d where "d = n - (i + j)"
    have d: "0 < d" "d \<le> 2 ^ 31" using that assms(2,3) by (simp_all add: d_def)
    have "x + of_nat d = 0" using that assms(2) by (simp add: x_def d_def of_nat_diff)
    then have "unat (x + of_nat d) = 0" by simp
    then have "(unat x + d) mod 2 ^ 32 = 0" by (simp add: unat_word_ariths unat_of_nat mod_add_right_eq)
    then have "2 ^ 32 \<le> unat x + d" using d(1) by (meson dvd_imp_le mod_eq_0_iff_dvd add_pos_nonneg trans_less_add2)
    then show ?thesis using assms(1) d(2) by (simp add: x_def [symmetric])
  qed
  then show ?thesis using assms(1) by (simp add: bytes_at_def put_bytes_at)
qed

lemma va2pa_kseg0:
  assumes "unat p < 2 ^ 29"
  shows "va2pa (kseg0 p) = p"
proof -
  have m: "(0x1fffffff :: u32) = mask 29" by (simp add: mask_eq_exp_minus_1)
  have "take_bit 29 p = p"
    using assms by (simp add: word_unat_eq_iff unsigned_take_bit_eq take_bit_nat_eq_self)
  moreover have "(0x80000000 :: u32) AND mask 29 = 0" "bit (0x80000000 :: u32) 31" by (simp_all add: mask_eq_exp_minus_1)
  ultimately show ?thesis
    by (simp add: va2pa_def kseg0_def bit_or_iff m bit.conj_disj_distrib2 take_bit_eq_mask [symmetric])
qed

text \<open>The strings of both tables lie from 0x08fff000 on, the two vectors behind them.\<close>

definition all_strings :: "string list" where "all_strings = kArgv @ kEnvp"

definition bios_vec :: "u32 list" where
  "bios_vec = string_ptrs 0x08fff000 kArgv @ [0] @ string_ptrs (0x08fff000 + 237) kEnvp @ [0]"

definition bios_mem :: "bytes \<Rightarrow> bytes" where
  "bios_mem m = put_bytes (concat (map be4 bios_vec)) (put_bytes (strings all_strings) m 0x08fff000) (0x08fff000 + of_nat 596)"

lemma bios_lengths:
  "length (strings kArgv) = 237" "length (strings kEnvp) = 357" "length (strings all_strings) = 594"
  "length kArgv = 8" "length kEnvp = 17" "length bios_vec = 27" "length (concat (map be4 bios_vec)) = 108"
proof -
  show a: "length (strings kArgv) = 237" "length (strings kEnvp) = 357" "length kArgv = 8" "length kEnvp = 17"
    by (simp_all add: strings_def c_string_def kArgv_def kEnvp_def)
  then show "length (strings all_strings) = 594" by (simp add: strings_def all_strings_def)
  from a(3,4) show l: "length bios_vec = 27" by (simp add: bios_vec_def string_ptrs_def)
  have "length (concat (map be4 vs)) = 4 * length vs" for vs by (induction vs) (simp_all add: length_be4)
  with l show "length (concat (map be4 bios_vec)) = 108" by simp
qed

lemma install_run:
  "install_pseudo_bios s = set_gpr 6 0xffffffff88fff278 (set_gpr 5 0xffffffff88fff254 (set_gpr 4 8
     (s\<lparr>sys := (sys s)\<lparr>mem := bios_mem (mem (sys s))\<rparr>\<rparr>)))"
proof -
  have k: "sext32 (kseg0 0x8fff254) = 0xffffffff88fff254" "sext32 (kseg0 0x8fff278) = 0xffffffff88fff278"
    by code_simp+
  have n: "length (concat (map be4 vs)) = 4 * length vs" for vs by (induction vs) (simp_all add: length_be4)
  have p: "put_be32 0 (pa, m) = (pa + 4, put_bytes (be4 0) m pa)" for pa m by (simp add: put_be32_def be4_def)
  have st: "strings (kArgv @ kEnvp) = strings kArgv @ strings kEnvp" by (simp add: strings_def)
  have l: "length (string_ptrs pa ts) = length ts" for pa ts by (simp add: string_ptrs_def)
  show ?thesis
    by (simp add: install_pseudo_bios_def put_strs_run bios_lengths put_be32_run p st l n length_be4 k
       bios_mem_def bios_vec_def all_strings_def put_bytes_append Let_def)
qed

lemma bios_word: "i < 27 \<Longrightarrow> be32_at (bios_mem m) (0x08fff254 + 4 * of_nat i) = bios_vec ! i"
  using be32_at_put [of bios_vec i "put_bytes (strings all_strings) m 0x08fff000" "0x08fff254"]
  by (simp add: bios_mem_def bios_lengths)

lemma strings_split:
  assumes "k < length ts"
  shows "length (strings (take k ts)) + length (c_string (ts ! k)) \<le> length (strings ts)"
proof -
  have "ts = take k ts @ ts ! k # drop (Suc k) ts" using assms by (simp add: Cons_nth_drop_Suc)
  from arg_cong [OF this, of "\<lambda>x. length (strings x)"] show ?thesis by (simp add: strings_def)
qed

lemma bios_string:
  assumes "k < 25"
  shows "string_at (bios_mem m) (va2pa (kseg0 (0x08fff000 + of_nat (length (strings (take k all_strings)))))) (all_strings ! k)"
proof -
  let ?o = "length (strings (take k all_strings))" and ?n = "length (c_string (all_strings ! k))"
  have k: "k < length all_strings" using assms by (simp add: all_strings_def bios_lengths)
  have le: "?o + ?n \<le> 594" using strings_split [OF k] by (simp add: bios_lengths)
  then have "unat (0x08fff000 + of_nat ?o :: u32) < 2 ^ 29" by (simp add: unat_word_ariths unat_of_nat)
  moreover have "bytes_at (bios_mem m) (0x08fff000 + of_nat ?o) ?n = bytes_at (put_bytes (strings all_strings) m 0x08fff000) (0x08fff000 + of_nat ?o) ?n"
    unfolding bios_mem_def by (rule bytes_at_frame) (use le in \<open>simp_all add: bios_lengths\<close>)
  ultimately show ?thesis
    using string_at_put [of all_strings k m "0x08fff000"] k by (simp only: va2pa_kseg0 string_at_def bios_lengths) simp
qed

lemma bios_ptr:
  "i < 8 \<Longrightarrow> bios_vec ! i = kseg0 (0x08fff000 + of_nat (length (strings (take i all_strings))))"
  "i < 17 \<Longrightarrow> bios_vec ! (9 + i) = kseg0 (0x08fff000 + of_nat (length (strings (take (8 + i) all_strings))))"
proof -
  have st: "strings (xs @ ys) = strings xs @ strings ys" for xs ys by (simp add: strings_def)
  show "i < 8 \<Longrightarrow> bios_vec ! i = kseg0 (0x08fff000 + of_nat (length (strings (take i all_strings))))"
    by (simp add: bios_vec_def string_ptrs_def nth_append bios_lengths all_strings_def)
  assume "i < 17"
  then show "bios_vec ! (9 + i) = kseg0 (0x08fff000 + of_nat (length (strings (take (8 + i) all_strings))))"
    by (simp add: bios_vec_def string_ptrs_def nth_append bios_lengths all_strings_def st)
qed

text \<open>The kernel finds its boot arguments: after \<^verbatim>\<open>install_pseudo_bios\<close> a0 holds argc, a1 and a2 point to
  NULL-terminated vectors of pointers through which the kernel reads back every string of \<^verbatim>\<open>kArgv\<close> and
  \<^verbatim>\<open>kEnvp\<close> in order, whatever memory held before, no byte outside the page at 0x08fff000 changes, and
  no other register does.\<close>

theorem pseudo_bios_vectors:
  "let s' = install_pseudo_bios s; m = mem (sys s') in
     gpr s' 4 = of_nat (length kArgv) \<and> vector_at m (ucast (gpr s' 5)) kArgv \<and> vector_at m (ucast (gpr s' 6)) kEnvp \<and>
     same_outside 0x08fff000 0x09000000 (mem (sys s)) m \<and>
     s' = s\<lparr>gpr := (gpr s)(4 := gpr s' 4, 5 := gpr s' 5, 6 := gpr s' 6), sys := (sys s)\<lparr>mem := m\<rparr>\<rparr>"
proof -
  let ?m = "mem (sys s)"
  have va: "va2pa 0x88fff254 = 0x08fff254" "va2pa 0x88fff278 = 0x08fff278" by code_simp+
  have "vector_at (bios_mem ?m) 0x88fff254 kArgv"
    unfolding vector_at_def va
  proof (intro conjI allI impI)
    fix i assume i: "i < length kArgv"
    then have "all_strings ! i = kArgv ! i" by (simp add: all_strings_def nth_append)
    then show "string_at (bios_mem ?m) (va2pa (be32_at (bios_mem ?m) (0x08fff254 + 4 * of_nat i))) (kArgv ! i)"
      using bios_string [of i ?m] i by (simp add: bios_word bios_ptr bios_lengths)
  next
    show "be32_at (bios_mem ?m) (0x08fff254 + 4 * of_nat (length kArgv)) = 0"
      using bios_word [of 8 ?m] by (simp add: bios_lengths bios_vec_def nth_append string_ptrs_def)
  qed
  moreover have "vector_at (bios_mem ?m) 0x88fff278 kEnvp"
    unfolding vector_at_def va
  proof (intro conjI allI impI)
    fix i assume i: "i < length kEnvp"
    then have "all_strings ! (8 + i) = kEnvp ! i" by (simp add: all_strings_def nth_append bios_lengths)
    then show "string_at (bios_mem ?m) (va2pa (be32_at (bios_mem ?m) (0x08fff278 + 4 * of_nat i))) (kEnvp ! i)"
      using bios_string [of "8 + i" ?m] bios_word [of "9 + i" ?m] i by (simp add: bios_ptr bios_lengths)
  next
    show "be32_at (bios_mem ?m) (0x08fff278 + 4 * of_nat (length kEnvp)) = 0"
      using bios_word [of 26 ?m] by (simp add: bios_lengths bios_vec_def nth_append string_ptrs_def)
  qed
  moreover have "same_outside 0x08fff000 0x09000000 ?m (bios_mem ?m)"
    by (auto simp: same_outside_def bios_mem_def put_bytes_at bios_lengths unat_sub_if' word_less_nat_alt word_le_nat_alt)
  moreover have c: "(18446744071713059412 :: u32) = 0x88fff254" "(18446744071713059448 :: u32) = 0x88fff278" by simp_all
  ultimately show ?thesis
    by (simp add: install_run set_gpr_def bios_lengths c Let_def)
qed

end
