(* ===== verification/PS2.thy ===== *)
theory PS2
  imports Prelude
begin

text \<open>
  The 8042 keyboard and mouse controller (\<^verbatim>\<open>class sgi_ps2\<close>, src/sgi_ps2.hh and
  src/sgi_ps2.cc): the controller, keyboard and mouse command sets, the output buffer shared
  by both ports, the host events waiting behind it, and the input script of
  \<^verbatim>\<open>NEWPORT_INPUT\<close>.

  A \<^verbatim>\<open>std::deque\<close> is a list with its front first.  \<open>ps2_poke\<close> collects the writes of
  \<^verbatim>\<open>s->irq_poke\<close>; whoever calls an operation hands it on to the CPU state.  The screen dump a
  script may ask for (\<^verbatim>\<open>ppm\<close>) writes a host file and changes nothing of the machine.  Mouse
  deltas are integers: a C \<^verbatim>\<open>int\<close> holds every value the operations compute from one.
\<close>

section \<open>State\<close>

record sgi_ps2 =
  ccb :: u8
  pending_cmd :: u8
  obf :: bool
  aux_obf :: bool
  out_buf :: u8
  last_was_cmd :: bool
  kbd_q :: "u8 list"
  aux_q :: "u8 list"
  kbd_pending :: u8
  kbd_enabled :: bool
  scan_set :: u8
  aux_pending :: u8
  aux_enabled :: bool
  mouse_buttons :: u8
  host_kbd :: "u8 list list"
  host_aux :: "u8 list list"
  script :: "(string \<times> string) list"
  script_pc :: nat
  script_wait_until :: u64
  ps2_poke :: bool

text \<open>The command byte has the keyboard interrupt and the translation on.\<close>

definition sgi_ps2_new :: "(string \<times> string) list \<Rightarrow> sgi_ps2" where
  "sgi_ps2_new sc = \<lparr>ccb = 0x45, pending_cmd = 0, obf = False, aux_obf = False, out_buf = 0,
     last_was_cmd = False, kbd_q = [], aux_q = [], kbd_pending = 0, kbd_enabled = True,
     scan_set = 2, aux_pending = 0, aux_enabled = False, mouse_buttons = 0,
     host_kbd = [], host_aux = [], script = sc, script_pc = 0, script_wait_until = 0,
     ps2_poke = False\<rparr>"

section \<open>The output buffer\<close>

definition ps2_irq :: "sgi_ps2 \<Rightarrow> bool" where
  "ps2_irq s \<longleftrightarrow> obf s \<and> (if aux_obf s then flag (ccb s) 0x02 else flag (ccb s) 0x01)"

definition kbd_push :: "u8 list \<Rightarrow> sgi_ps2 \<Rightarrow> sgi_ps2" where
  "kbd_push bs s = s\<lparr>kbd_q := kbd_q s @ bs\<rparr>"

definition aux_push :: "u8 list \<Rightarrow> sgi_ps2 \<Rightarrow> sgi_ps2" where
  "aux_push bs s = s\<lparr>aux_q := aux_q s @ bs\<rparr>"

definition poke_if_irq :: "sgi_ps2 \<Rightarrow> sgi_ps2" where
  "poke_if_irq s = (if obf s \<and> ps2_irq s then s\<lparr>ps2_poke := True\<rparr> else s)"

definition refill :: "sgi_ps2 \<Rightarrow> sgi_ps2" where
  "refill s =
     (if obf s then s
      else poke_if_irq
        (if kbd_q s \<noteq> [] \<and> \<not> flag (ccb s) 0x10
         then s\<lparr>out_buf := hd (kbd_q s), kbd_q := tl (kbd_q s), obf := True, aux_obf := False\<rparr>
         else if aux_q s \<noteq> [] \<and> \<not> flag (ccb s) 0x20
         then s\<lparr>out_buf := hd (aux_q s), aux_q := tl (aux_q s), obf := True, aux_obf := True\<rparr>
         else s))"

definition ps2_read :: "bool \<Rightarrow> sgi_ps2 \<Rightarrow> u8 \<times> sgi_ps2" where
  "ps2_read cmd_port s =
     (if cmd_port
      then ((if obf s then 0x01 else 0) OR 0x04 OR (if last_was_cmd s then 0x08 else 0) OR 0x10
              OR (if aux_obf s then 0x20 else 0), s)
      else (out_buf s, refill (s\<lparr>obf := False, aux_obf := False\<rparr>)))"

section \<open>Commands\<close>

definition ctl_cmd :: "u8 \<Rightarrow> sgi_ps2 \<Rightarrow> sgi_ps2" where
  "ctl_cmd v s =
     (if v = 0x20 then s\<lparr>kbd_q := ccb s # kbd_q s\<rparr>
      else if v \<in> {0x60, 0xd1, 0xd2, 0xd3, 0xd4} then s\<lparr>pending_cmd := v\<rparr>
      else if v = 0xa7 then s\<lparr>ccb := ccb s OR 0x20\<rparr>
      else if v = 0xa8 then s\<lparr>ccb := ccb s AND NOT 0x20\<rparr>
      else if v = 0xa9 then kbd_push [0x00] s
      else if v = 0xaa then kbd_push [0x55] s
      else if v = 0xab then kbd_push [0x00] s
      else if v = 0xad then s\<lparr>ccb := ccb s OR 0x10\<rparr>
      else if v = 0xae then s\<lparr>ccb := ccb s AND NOT 0x10\<rparr>
      else if v = 0xc0 then kbd_push [0x00] s
      else if v = 0xd0 then kbd_push [0x01] s
      else s)"

definition kbd_arg :: "u8 \<Rightarrow> u8 \<Rightarrow> sgi_ps2 \<Rightarrow> sgi_ps2" where
  "kbd_arg arg_of v s =
     (if arg_of = 0xf0 \<and> v = 0 then kbd_push [0xfa, scan_set s] s
      else
        (let s1 = (if arg_of = 0xf0 then s\<lparr>scan_set := v\<rparr> else s);
             s2 = (if arg_of \<in> {0xfb, 0xfc, 0xfd} then s1\<lparr>kbd_pending := arg_of\<rparr> else s1)
         in kbd_push [0xfa] s2))"

definition kbd_cmd :: "u8 \<Rightarrow> sgi_ps2 \<Rightarrow> sgi_ps2" where
  "kbd_cmd v s0 =
     (let arg_of = kbd_pending s0; s = s0\<lparr>kbd_pending := 0\<rparr> in
      if arg_of \<noteq> 0 \<and> v < 0xed then kbd_arg arg_of v s
      else if v = 0xff then kbd_push [0xfa, 0xaa] (s\<lparr>scan_set := 2, kbd_enabled := True\<rparr>)
      else if v = 0xf2 then kbd_push [0xfa, 0xab, 0x83] s
      else if v = 0xee then kbd_push [0xee] s
      else if v = 0xf4 then kbd_push [0xfa] (s\<lparr>kbd_enabled := True\<rparr>)
      else if v = 0xf5 then kbd_push [0xfa] (s\<lparr>kbd_enabled := False\<rparr>)
      else if v = 0xf6 then kbd_push [0xfa] (s\<lparr>kbd_enabled := True\<rparr>)
      else if v \<in> {0xed, 0xf0, 0xf3, 0xfb, 0xfc, 0xfd} then kbd_push [0xfa] (s\<lparr>kbd_pending := v\<rparr>)
      else kbd_push [0xfa] s)"

definition aux_cmd :: "u8 \<Rightarrow> sgi_ps2 \<Rightarrow> sgi_ps2" where
  "aux_cmd v s =
     (if aux_pending s \<noteq> 0 then aux_push [0xfa] (s\<lparr>aux_pending := 0\<rparr>)
      else if v = 0xff then aux_push [0xfa, 0xaa, 0x00] (s\<lparr>aux_enabled := False\<rparr>)
      else if v = 0xf2 then aux_push [0xfa, 0x00] s
      else if v \<in> {0xf3, 0xe8} then aux_push [0xfa] (s\<lparr>aux_pending := v\<rparr>)
      else if v = 0xf4 then aux_push [0xfa] (s\<lparr>aux_enabled := True\<rparr>)
      else if v \<in> {0xf5, 0xf6} then aux_push [0xfa] (s\<lparr>aux_enabled := False\<rparr>)
      else if v = 0xe9
        then aux_push [0xfa, (if aux_enabled s then 0x20 else 0) OR (mouse_buttons s AND 7), 0x02, 0x64] s
      else if v = 0xeb then aux_push [0xfa, 0x08 OR (mouse_buttons s AND 7), 0x00, 0x00] s
      else aux_push [0xfa] s)"

definition ps2_write :: "bool \<Rightarrow> u8 \<Rightarrow> sgi_ps2 \<Rightarrow> sgi_ps2" where
  "ps2_write cmd_port v s0 =
     (let s = s0\<lparr>last_was_cmd := cmd_port\<rparr> in
      if cmd_port then refill (ctl_cmd v s)
      else
        (let pc = pending_cmd s; s = s\<lparr>pending_cmd := 0\<rparr> in
         refill
           (if pc = 0x60 then s\<lparr>ccb := v\<rparr>
            else if pc = 0xd1 then s
            else if pc = 0xd2 then kbd_push [v] s
            else if pc = 0xd3 then aux_push [v] s
            else if pc = 0xd4 then aux_cmd v s
            else kbd_cmd v s)))"

section \<open>Host input\<close>

text \<open>Key name, make codes of the scan code sets 1, 2 and 3, and whether sets 1 and 2 prefix
  the code with 0xe0.\<close>

type_synonym key_code = "string \<times> u8 \<times> u8 \<times> u8 \<times> bool"

definition g_keys :: "key_code list" where
  "g_keys =
    [
     (''a'', 0x1e, 0x1c, 0x1c, False), (''b'', 0x30, 0x32, 0x32, False), (''c'', 0x2e, 0x21, 0x21, False),
     (''d'', 0x20, 0x23, 0x23, False), (''e'', 0x12, 0x24, 0x24, False), (''f'', 0x21, 0x2b, 0x2b, False),
     (''g'', 0x22, 0x34, 0x34, False), (''h'', 0x23, 0x33, 0x33, False), (''i'', 0x17, 0x43, 0x43, False),
     (''j'', 0x24, 0x3b, 0x3b, False), (''k'', 0x25, 0x42, 0x42, False), (''l'', 0x26, 0x4b, 0x4b, False),
     (''m'', 0x32, 0x3a, 0x3a, False), (''n'', 0x31, 0x31, 0x31, False), (''o'', 0x18, 0x44, 0x44, False),
     (''p'', 0x19, 0x4d, 0x4d, False), (''q'', 0x10, 0x15, 0x15, False), (''r'', 0x13, 0x2d, 0x2d, False),
     (''s'', 0x1f, 0x1b, 0x1b, False), (''t'', 0x14, 0x2c, 0x2c, False), (''u'', 0x16, 0x3c, 0x3c, False),
     (''v'', 0x2f, 0x2a, 0x2a, False), (''w'', 0x11, 0x1d, 0x1d, False), (''x'', 0x2d, 0x22, 0x22, False),
     (''y'', 0x15, 0x35, 0x35, False), (''z'', 0x2c, 0x1a, 0x1a, False), (''1'', 0x02, 0x16, 0x16, False),
     (''2'', 0x03, 0x1e, 0x1e, False), (''3'', 0x04, 0x26, 0x26, False), (''4'', 0x05, 0x25, 0x25, False),
     (''5'', 0x06, 0x2e, 0x2e, False), (''6'', 0x07, 0x36, 0x36, False), (''7'', 0x08, 0x3d, 0x3d, False),
     (''8'', 0x09, 0x3e, 0x3e, False), (''9'', 0x0a, 0x46, 0x46, False), (''0'', 0x0b, 0x45, 0x45, False),
     ([CHR 0x2d], 0x0c, 0x4e, 0x4e, False), ([CHR 0x3d], 0x0d, 0x55, 0x55, False), ([CHR 0x5b], 0x1a, 0x54, 0x54, False),
     ([CHR 0x5d], 0x1b, 0x5b, 0x5b, False), ([CHR 0x5c], 0x2b, 0x5d, 0x5c, False), ([CHR 0x3b], 0x27, 0x4c, 0x4c, False),
     ([CHR 0x27], 0x28, 0x52, 0x52, False), ([CHR 0x60], 0x29, 0x0e, 0x0e, False), ([CHR 0x2c], 0x33, 0x41, 0x41, False),
     ([CHR 0x2e], 0x34, 0x49, 0x49, False), ([CHR 0x2f], 0x35, 0x4a, 0x4a, False), (''esc'', 0x01, 0x76, 0x08, False),
     (''backspace'', 0x0e, 0x66, 0x66, False), (''tab'', 0x0f, 0x0d, 0x0d, False), (''enter'', 0x1c, 0x5a, 0x5a, False),
     (''space'', 0x39, 0x29, 0x29, False), (''capslock'', 0x3a, 0x58, 0x14, False), (''shift'', 0x2a, 0x12, 0x12, False),
     (''rshift'', 0x36, 0x59, 0x59, False), (''ctrl'', 0x1d, 0x14, 0x11, False), (''alt'', 0x38, 0x11, 0x19, False),
     (''f1'', 0x3b, 0x05, 0x07, False), (''f2'', 0x3c, 0x06, 0x0f, False), (''f3'', 0x3d, 0x04, 0x17, False),
     (''f4'', 0x3e, 0x0c, 0x1f, False), (''f5'', 0x3f, 0x03, 0x27, False), (''f6'', 0x40, 0x0b, 0x2f, False),
     (''f7'', 0x41, 0x83, 0x37, False), (''f8'', 0x42, 0x0a, 0x3f, False), (''f9'', 0x43, 0x01, 0x47, False),
     (''f10'', 0x44, 0x09, 0x4f, False), (''f11'', 0x57, 0x78, 0x56, False), (''f12'', 0x58, 0x07, 0x5e, False),
     (''up'', 0x48, 0x75, 0x63, True), (''down'', 0x50, 0x72, 0x60, True), (''left'', 0x4b, 0x6b, 0x61, True),
     (''right'', 0x4d, 0x74, 0x6a, True), (''home'', 0x47, 0x6c, 0x6e, True), (''end'', 0x4f, 0x69, 0x65, True),
     (''pgup'', 0x49, 0x7d, 0x6f, True), (''pgdn'', 0x51, 0x7a, 0x6d, True), (''insert'', 0x52, 0x70, 0x67, True),
     (''delete'', 0x53, 0x71, 0x64, True)
    ]"

definition find_key :: "string \<Rightarrow> (u8 \<times> u8 \<times> u8 \<times> bool) option" where
  "find_key n = map_of g_keys n"

text \<open>The bytes of a key event in the mode the command byte and the keyboard are in.\<close>

definition key_bytes :: "bool \<Rightarrow> u8 \<Rightarrow> (u8 \<times> u8 \<times> u8 \<times> bool) \<Rightarrow> bool \<Rightarrow> u8 list" where
  "key_bytes xlate ss k down =
     (case k of (s1, s2, s3, ext) \<Rightarrow>
        if ss = 3 \<and> \<not> xlate then (if down then [] else [0xf0]) @ [s3]
        else if xlate \<or> ss = 1
        then (if ext then [0xe0] else []) @ [if down then s1 else s1 OR 0x80]
        else (if ext then [0xe0] else []) @ (if down then [] else [0xf0]) @ [s2])"

definition xlate_mode :: "sgi_ps2 \<Rightarrow> bool" where
  "xlate_mode s \<longleftrightarrow> flag (ccb s) 0x40 \<and> scan_set s = 2"

definition key :: "string \<Rightarrow> bool \<Rightarrow> sgi_ps2 \<Rightarrow> bool \<times> sgi_ps2" where
  "key name down s =
     (case find_key name of
        None \<Rightarrow> (False, s)
      | Some k \<Rightarrow> (True, s\<lparr>host_kbd := host_kbd s @ [key_bytes (xlate_mode s) (scan_set s) k down]\<rparr>))"

definition clamp :: "int \<Rightarrow> int \<Rightarrow> int" where
  "clamp k d = (if k < d then k else if d < - k then - k else d)"

definition mouse_packet :: "u8 \<Rightarrow> int \<Rightarrow> int \<Rightarrow> u8 list" where
  "mouse_packet buttons px py =
     (let my = - py in
      [0x08 OR buttons OR (if px < 0 then 0x10 else 0) OR (if my < 0 then 0x20 else 0),
       word_of_int px, word_of_int my])"

function mouse_packets :: "u8 \<Rightarrow> int \<Rightarrow> int \<Rightarrow> u8 list list" where
  "mouse_packets buttons dx dy =
     (let px = clamp 255 dx; py = clamp 255 dy; dx' = dx - px; dy' = dy - py in
      mouse_packet buttons px py #
      (if dx' \<noteq> 0 \<or> dy' \<noteq> 0 then mouse_packets buttons dx' dy' else []))"
  by auto
termination
  by (relation "measure (\<lambda>(_, dx, dy). nat \<bar>dx\<bar> + nat \<bar>dy\<bar>)") (auto simp: clamp_def split: if_splits)

declare mouse_packets.simps [simp del]

definition mouse :: "int \<Rightarrow> int \<Rightarrow> u8 \<Rightarrow> sgi_ps2 \<Rightarrow> sgi_ps2" where
  "mouse dx dy buttons s =
     (let b = buttons AND 7 in
      s\<lparr>mouse_buttons := b, host_aux := host_aux s @ mouse_packets b dx dy\<rparr>)"

section \<open>Input scripts\<close>

text \<open>What the script reader uses of the C library: \<^verbatim>\<open>isspace\<close>, \<^verbatim>\<open>strtoull\<close> with base 0,
  \<^verbatim>\<open>sscanf\<close> of \<^verbatim>\<open>%d\<close> and \<^verbatim>\<open>atoi\<close>.\<close>

definition is_space :: "char \<Rightarrow> bool" where
  "is_space c \<longleftrightarrow> c \<in> {CHR 0x20, CHR 0x09, CHR 0x0a, CHR 0x0b, CHR 0x0c, CHR 0x0d}"

definition digit_val :: "char \<Rightarrow> nat option" where
  "digit_val c =
     (let n = of_char c in
      if 48 \<le> n \<and> n \<le> 57 then Some (n - 48)
      else if 97 \<le> n \<and> n \<le> 102 then Some (n - 87)
      else if 65 \<le> n \<and> n \<le> 70 then Some (n - 55)
      else None)"

definition is_digit :: "nat \<Rightarrow> char \<Rightarrow> bool" where
  "is_digit base c = (case digit_val c of None \<Rightarrow> False | Some d \<Rightarrow> d < base)"

fun digits :: "nat \<Rightarrow> nat \<Rightarrow> string \<Rightarrow> nat \<times> string" where
  "digits base acc [] = (acc, [])"
| "digits base acc (c # cs) =
     (if is_digit base c then digits base (acc * base + the (digit_val c)) cs else (acc, c # cs))"

fun sign :: "string \<Rightarrow> bool \<times> string" where
  "sign [] = (False, [])"
| "sign (c # cs) = (if c = CHR 0x2d then (True, cs) else if c = CHR 0x2b then (False, cs) else (False, c # cs))"

fun base_prefix :: "string \<Rightarrow> nat \<times> string" where
  "base_prefix (a # b # c # cs) =
     (if a = CHR 0x30 \<and> (b = CHR 0x78 \<or> b = CHR 0x58) \<and> is_digit 16 c then (16, c # cs)
      else if a = CHR 0x30 then (8, a # b # c # cs) else (10, a # b # c # cs))"
| "base_prefix (a # cs) = (if a = CHR 0x30 then 8 else 10, a # cs)"
| "base_prefix [] = (10, [])"

definition strtoull :: "string \<Rightarrow> u64" where
  "strtoull t =
     (let (neg, t1) = sign (dropWhile is_space t); (base, t2) = base_prefix t1;
          n = fst (digits base 0 t2)
      in if 2 ^ 64 \<le> n then - 1 else if neg then - of_nat n else of_nat n)"

definition scan_int :: "string \<Rightarrow> (int \<times> string) option" where
  "scan_int t =
     (let (neg, t1) = sign (dropWhile is_space t)
      in case t1 of
           [] \<Rightarrow> None
         | c # _ \<Rightarrow> if is_digit 10 c
             then (let (n, t2) = digits 10 0 t1 in Some (if neg then - int n else int n, t2)) else None)"

definition atoi :: "string \<Rightarrow> int" where
  "atoi t = (case scan_int t of None \<Rightarrow> 0 | Some (v, _) \<Rightarrow> v)"

text \<open>\<^verbatim>\<open>sscanf(arg, "%d %d %d", &dx, &dy, &step)\<close> from the defaults 0, 0 and 4.\<close>

definition scan_move :: "string \<Rightarrow> int \<times> int \<times> int" where
  "scan_move t =
     (case scan_int t of None \<Rightarrow> (0, 0, 4)
      | Some (dx, t1) \<Rightarrow> (case scan_int t1 of None \<Rightarrow> (dx, 0, 4)
        | Some (dy, t2) \<Rightarrow> (case scan_int t2 of None \<Rightarrow> (dx, dy, 4)
          | Some (step, _) \<Rightarrow> (dx, dy, step))))"

definition script_line :: "string \<Rightarrow> string \<times> string" where
  "script_line ln =
     (takeWhile (\<lambda>c. c \<noteq> CHR 0x20) ln, tl (dropWhile (\<lambda>c. c \<noteq> CHR 0x20) ln))"

definition load_script :: "string list \<Rightarrow> (string \<times> string) list" where
  "load_script lns = map script_line (filter (\<lambda>ln. ln \<noteq> [] \<and> hd ln \<noteq> CHR 0x23) lns)"

definition press :: "string \<Rightarrow> bool \<Rightarrow> sgi_ps2 \<Rightarrow> sgi_ps2" where
  "press name down s = snd (key name down s)"

text \<open>The two strings of \<^verbatim>\<open>type_text\<close> with their terminators, which \<^verbatim>\<open>strchr\<close> finds too.\<close>

definition shifted_from :: string where
  "shifted_from = map char_of [0x7e::nat, 0x21, 0x40, 0x23, 0x24, 0x25, 0x5e, 0x26, 0x2a, 0x28, 0x29,
     0x5f, 0x2b, 0x7b, 0x7d, 0x7c, 0x3a, 0x22, 0x3c, 0x3e, 0x3f, 0]"

definition shifted_to :: string where
  "shifted_to = map char_of [0x60::nat, 0x31, 0x32, 0x33, 0x34, 0x35, 0x36, 0x37, 0x38, 0x39, 0x30,
     0x2d, 0x3d, 0x5b, 0x5d, 0x5c, 0x3b, 0x27, 0x2c, 0x2e, 0x2f, 0]"

definition key_of_char :: "char \<Rightarrow> string \<times> bool" where
  "key_of_char c =
     (let n = of_char c :: nat in
      if 65 \<le> n \<and> n \<le> 90 then ([char_of (n - 65 + 97)], True)
      else if c = CHR 0x20 then (''space'', False)
      else case map_of (zip shifted_from shifted_to) c of
             Some d \<Rightarrow> ([d], True)
           | None \<Rightarrow> ([c], False))"

definition type_char :: "char \<Rightarrow> sgi_ps2 \<Rightarrow> sgi_ps2" where
  "type_char c s =
     (let (name, shift) = key_of_char c;
          s1 = (if shift then press ''shift'' True s else s);
          s2 = press name False (press name True s1)
      in if shift then press ''shift'' False s2 else s2)"

definition type_text :: "string \<Rightarrow> sgi_ps2 \<Rightarrow> sgi_ps2" where
  "type_text t s = fold type_char t s"

text \<open>The loop of the command \<^verbatim>\<open>move\<close>; the caller has raised the step to at least 1, so the
  guard on it holds throughout.\<close>

function move_loop :: "int \<Rightarrow> int \<Rightarrow> int \<Rightarrow> sgi_ps2 \<Rightarrow> sgi_ps2" where
  "move_loop step dx dy s =
     (if (dx \<noteq> 0 \<or> dy \<noteq> 0) \<and> 1 \<le> step
      then (let sx = clamp step dx; sy = clamp step dy
            in move_loop step (dx - sx) (dy - sy) (mouse sx sy (mouse_buttons s) s))
      else s)"
  by auto
termination
  by (relation "measure (\<lambda>(_, dx, dy, _). nat \<bar>dx\<bar> + nat \<bar>dy\<bar>)") (auto simp: clamp_def split: if_splits)

declare move_loop.simps [simp del]

definition s_ps2_bit :: "nat \<Rightarrow> u8" where
  "s_ps2_bit i = [0x01, 0x01, 0x04, 0x02] ! i"

definition run_line :: "u64 \<Rightarrow> string \<times> string \<Rightarrow> sgi_ps2 \<Rightarrow> sgi_ps2" where
  "run_line icnt l s =
     (case l of (op, arg) \<Rightarrow>
      if op = ''wait'' then s\<lparr>script_wait_until := icnt + strtoull arg\<rparr>
      else if op = ''until'' then s\<lparr>script_wait_until := strtoull arg\<rparr>
      else if op = ''type'' then type_text arg s
      else if op = ''key'' then press arg False (press arg True s)
      else if op = ''down'' \<or> op = ''up'' then press arg (op = ''down'') s
      else if op = ''move''
        then (let (dx, dy, step) = scan_move arg in move_loop (if step < 1 then 1 else step) dx dy s)
      else if op = ''click'' \<or> op = ''press'' \<or> op = ''release''
        then (let b = s_ps2_bit (nat (atoi arg mod 4));
                  s1 = (if op \<noteq> ''release'' then mouse 0 0 (mouse_buttons s OR b) s else s)
              in if op \<noteq> ''press'' then mouse 0 0 (mouse_buttons s1 AND NOT b) s1 else s1)
      else s)"

fun run_script_loop :: "u64 \<Rightarrow> (string \<times> string) list \<Rightarrow> sgi_ps2 \<Rightarrow> sgi_ps2" where
  "run_script_loop icnt [] s = s"
| "run_script_loop icnt (l # ls) s =
     (if script_wait_until s \<le> icnt \<and> host_kbd s = [] \<and> host_aux s = []
      then run_script_loop icnt ls (run_line icnt l (s\<lparr>script_pc := script_pc s + 1\<rparr>))
      else s)"

definition run_script :: "u64 \<Rightarrow> sgi_ps2 \<Rightarrow> sgi_ps2" where
  "run_script icnt s = run_script_loop icnt (drop (script_pc s) (script s)) s"

definition ps2_service :: "u64 \<Rightarrow> sgi_ps2 \<Rightarrow> sgi_ps2" where
  "ps2_service icnt s0 =
     (let s = run_script icnt s0;
          s1 = (if host_kbd s \<noteq> [] \<and> kbd_q s = [] \<and> kbd_enabled s
                then (kbd_push (hd (host_kbd s)) s)\<lparr>host_kbd := tl (host_kbd s)\<rparr> else s);
          s2 = (if host_aux s1 \<noteq> [] \<and> aux_q s1 = []
                then (if aux_enabled s1 then aux_push (hd (host_aux s1)) s1 else s1)
                       \<lparr>host_aux := tl (host_aux s1)\<rparr> else s1)
      in refill s2)"

section \<open>Key codes\<close>

text \<open>In each scan code set no two keys share a code (with its prefix), and set 1 leaves the top
  bit free for releases.\<close>

definition key_id :: "nat \<Rightarrow> key_code \<Rightarrow> int" where
  "key_id ss k = (case k of (_, s1, s2, s3, ext) \<Rightarrow>
     (if ss = 1 then uint s1 else if ss = 2 then uint s2 else uint s3) + (if ext \<and> ss \<noteq> 3 then 256 else 0))"

lemma key_ids_distinct:
  "distinct (map (key_id 1) g_keys)" "distinct (map (key_id 2) g_keys)" "distinct (map (key_id 3) g_keys)"
  by code_simp+

lemma key_id_eq:
  assumes "k \<in> set g_keys" "k' \<in> set g_keys" "ss \<in> {1, 2, 3}" "key_id ss k = key_id ss k'"
  shows "k = k'"
proof -
  have "inj_on (key_id ss) (set g_keys)"
    using assms(3) key_ids_distinct unfolding distinct_map by auto
  then show ?thesis using assms by (auto dest: inj_onD)
qed

lemma set1_top_bit: "list_all (\<lambda>(_, s1, _). \<not> bit s1 7) g_keys"
  by code_simp

lemma key_ids_inj:
  assumes "(n, s1, s2, s3, ext) \<in> set g_keys" "(n', s1', s2', s3', ext') \<in> set g_keys"
    and "s1 = s1' \<and> ext = ext' \<or> s2 = s2' \<and> ext = ext' \<or> s3 = s3'"
  shows "n = n'"
proof -
  have "\<exists>ss\<in>{1, 2, 3}. key_id ss (n, s1, s2, s3, ext) = key_id ss (n', s1', s2', s3', ext')"
    using assms(3) by (auto simp: key_id_def)
  then show ?thesis using key_id_eq [OF assms(1,2)] by blast
qed

lemma or_top_bit_inj:
  fixes a b :: u8
  assumes "\<not> bit a 7" "\<not> bit b 7"
  shows "a OR 0x80 = b OR 0x80 \<longleftrightarrow> a = b" and "a OR 0x80 \<noteq> b"
proof -
  have top: "bit (0x80::u8) n \<longleftrightarrow> n = 7" for n by (rule bit_of_exp) simp_all
  show "a OR 0x80 = b OR 0x80 \<longleftrightarrow> a = b"
    using assms by (metis (no_types, lifting) bit_or_iff bit_word_eqI top)
  show "a OR 0x80 \<noteq> b"
    using assms top by (metis bit_or_iff)
qed

lemma key_bytes_inj:
  assumes "\<not> bit s1 7" "\<not> bit s1' 7"
    and "key_bytes xlate ss (s1, s2, s3, ext) d = key_bytes xlate ss (s1', s2', s3', ext') d'"
  shows "d = d' \<and> (s1 = s1' \<and> ext = ext' \<or> s2 = s2' \<and> ext = ext' \<or> s3 = s3')"
  using assms(3) or_top_bit_inj [OF assms(1,2)] or_top_bit_inj [OF assms(2,1)]
  by (auto simp: key_bytes_def split: if_splits)

lemma key_codes_inj:
  assumes "key n1 d1 s = (True, t1)" "key n2 d2 s = (True, t2)" "host_kbd t1 = host_kbd t2"
  shows "n1 = n2 \<and> d1 = d2"
proof -
  obtain k1 k2 where k: "find_key n1 = Some k1" "find_key n2 = Some k2"
    using assms(1,2) by (auto simp: key_def split: option.splits)
  then have m: "(n1, k1) \<in> set g_keys" "(n2, k2) \<in> set g_keys"
    by (simp_all add: find_key_def map_of_SomeD)
  obtain a b c e a' b' c' e' where e: "k1 = (a, b, c, e)" "k2 = (a', b', c', e')" by (metis prod_cases4)
  have "\<not> bit a 7" "\<not> bit a' 7"
    using set1_top_bit m unfolding e list_all_iff by (auto dest: bspec)
  moreover have "key_bytes (xlate_mode s) (scan_set s) k1 d1 = key_bytes (xlate_mode s) (scan_set s) k2 d2"
    using assms k by (auto simp: key_def)
  ultimately have "d1 = d2 \<and> (a = a' \<and> e = e' \<or> b = b' \<and> e = e' \<or> c = c')"
    unfolding e by (rule key_bytes_inj)
  with key_ids_inj m show ?thesis unfolding e by blast
qed

section \<open>Mouse packets\<close>

text \<open>How a PS/2 driver reads a packet: nine-bit two's complement deltas with the sign bits in
  the first byte, the vertical axis pointing up.\<close>

fun packet_delta :: "u8 list \<Rightarrow> int \<times> int" where
  "packet_delta [f, x, y] =
     (uint x - (if flag f 0x10 then 256 else 0), - (uint y - (if flag f 0x20 then 256 else 0)))"
| "packet_delta _ = (0, 0)"

definition sum_deltas :: "u8 list list \<Rightarrow> int \<times> int" where
  "sum_deltas ps = (sum_list (map (fst \<circ> packet_delta) ps), sum_list (map (snd \<circ> packet_delta) ps))"

lemma uint_byte_of:
  assumes "\<bar>d\<bar> \<le> 255"
  shows "uint (word_of_int d :: u8) - (if d < 0 then 256 else 0) = d"
proof -
  have "d mod 256 = (if d < 0 then d + 256 else d)"
    using assms mod_pos_pos_trivial [of "d + 256" 256] by auto
  then show ?thesis by (simp add: uint_word_of_int)
qed

lemma clamp_range: "\<bar>clamp 255 d\<bar> \<le> 255"
  by (auto simp: clamp_def)

lemma packet_flags:
  fixes b :: u8
  assumes "b AND 7 = b"
  shows "flag (0x08 OR b OR (if p then 0x10 else 0) OR (if q then 0x20 else 0)) 0x10 = p"
    and "flag (0x08 OR b OR (if p then 0x10 else 0) OR (if q then 0x20 else 0)) 0x20 = q"
proof -
  have nb: "\<not> bit b 4" "\<not> bit b 5"
    using assms bit_and_iff [of b 7 4] bit_and_iff [of b 7 5] by (simp_all add: bit_numeral_rec)
  have c: "(0x10::u8) = 2 ^ 4" "(0x20::u8) = 2 ^ 5" by simp_all
  show "flag (0x08 OR b OR (if p then 0x10 else 0) OR (if q then 0x20 else 0)) 0x10 = p"
    using nb by (subst (2) c(1), subst flag_single_bit) (auto simp: bit_simps bit_numeral_rec)
  show "flag (0x08 OR b OR (if p then 0x10 else 0) OR (if q then 0x20 else 0)) 0x20 = q"
    using nb by (subst (2) c(2), subst flag_single_bit) (auto simp: bit_simps bit_numeral_rec)
qed

lemma packet_delta_of:
  assumes "b AND 7 = b" "\<bar>px\<bar> \<le> 255" "\<bar>py\<bar> \<le> 255"
  shows "packet_delta (mouse_packet b px py) = (px, py)"
  using uint_byte_of [OF assms(2)] uint_byte_of [of "- py"] assms(3)
  by (simp add: mouse_packet_def Let_def packet_flags [OF assms(1)])

lemma mouse_packets_sum:
  "b AND 7 = b \<Longrightarrow> sum_deltas (mouse_packets b dx dy) = (dx, dy)"
proof (induction b dx dy rule: mouse_packets.induct)
  case (1 b dx dy)
  then show ?case
    by (subst mouse_packets.simps)
       (auto simp: Let_def sum_deltas_def packet_delta_of clamp_range)
qed

section \<open>The output buffer never starves\<close>

text \<open>What happens to the controller: register accesses of the CPU, host events, the service of
  a retrace, and the hand-over of the interrupt poke.\<close>

inductive ps2_reach :: "(string \<times> string) list \<Rightarrow> sgi_ps2 \<Rightarrow> bool" for sc where
  power_up: "ps2_reach sc (sgi_ps2_new sc)"
| reads: "ps2_reach sc s \<Longrightarrow> ps2_reach sc (snd (ps2_read cmd_port s))"
| writes: "ps2_reach sc s \<Longrightarrow> ps2_reach sc (ps2_write cmd_port v s)"
| keys: "ps2_reach sc s \<Longrightarrow> ps2_reach sc (snd (key name down s))"
| moves: "ps2_reach sc s \<Longrightarrow> ps2_reach sc (mouse dx dy buttons s)"
| retrace: "ps2_reach sc s \<Longrightarrow> ps2_reach sc (ps2_service icnt s)"
| poked: "ps2_reach sc s \<Longrightarrow> ps2_reach sc (s\<lparr>ps2_poke := False\<rparr>)"

definition ps2_ok :: "sgi_ps2 \<Rightarrow> bool" where
  "ps2_ok s \<longleftrightarrow> (aux_obf s \<longrightarrow> obf s) \<and> mouse_buttons s AND 7 = mouse_buttons s"

definition ps2_inv :: "sgi_ps2 \<Rightarrow> bool" where
  "ps2_inv s \<longleftrightarrow> ps2_ok s \<and>
     (\<not> obf s \<longrightarrow> (kbd_q s = [] \<or> flag (ccb s) 0x10) \<and> (aux_q s = [] \<or> flag (ccb s) 0x20))"

lemma poke_if_irq_frame [simp]:
  "obf (poke_if_irq s) = obf s" "aux_obf (poke_if_irq s) = aux_obf s" "out_buf (poke_if_irq s) = out_buf s"
  "kbd_q (poke_if_irq s) = kbd_q s" "aux_q (poke_if_irq s) = aux_q s" "ccb (poke_if_irq s) = ccb s"
  "mouse_buttons (poke_if_irq s) = mouse_buttons s"
  by (simp_all add: poke_if_irq_def)

lemma refill_inv: "ps2_ok s \<Longrightarrow> ps2_inv (refill s)"
  by (auto simp: ps2_inv_def ps2_ok_def refill_def)

lemma push_ok [simp]: "ps2_ok (kbd_push bs s) = ps2_ok s" "ps2_ok (aux_push bs s) = ps2_ok s"
  by (simp_all add: ps2_ok_def kbd_push_def aux_push_def)

lemma ctl_cmd_ok: "ps2_ok s \<Longrightarrow> ps2_ok (ctl_cmd v s)"
  by (simp add: ctl_cmd_def) (simp add: ps2_ok_def)

lemma kbd_cmd_ok: "ps2_ok s \<Longrightarrow> ps2_ok (kbd_cmd v s)"
  by (simp add: kbd_cmd_def kbd_arg_def Let_def) (simp add: ps2_ok_def)

lemma aux_cmd_ok: "ps2_ok s \<Longrightarrow> ps2_ok (aux_cmd v s)"
  by (simp add: aux_cmd_def) (simp add: ps2_ok_def)

lemma write_inv:
  assumes "ps2_ok s"
  shows "ps2_inv (ps2_write cmd_port v s)"
proof -
  have a: "ps2_ok (s\<lparr>last_was_cmd := cmd_port\<rparr>)"
    and b: "ps2_ok (s\<lparr>last_was_cmd := cmd_port, pending_cmd := 0\<rparr>)"
    and c: "ps2_ok (s\<lparr>last_was_cmd := cmd_port, pending_cmd := 0, ccb := v\<rparr>)"
    using assms by (simp_all add: ps2_ok_def)
  show ?thesis
    using ctl_cmd_ok [OF a] kbd_cmd_ok [OF b] aux_cmd_ok [OF b] b c
    by (auto simp: ps2_write_def Let_def intro!: refill_inv)
qed

lemma mouse_inv: "ps2_inv s \<Longrightarrow> ps2_inv (mouse dx dy b s)"
  by (simp add: mouse_def ps2_inv_def ps2_ok_def Let_def and.assoc)

lemma key_inv: "ps2_inv s \<Longrightarrow> ps2_inv (snd (key n d s))"
  by (simp add: key_def ps2_inv_def ps2_ok_def split: option.split)

lemma type_text_inv: "ps2_inv s \<Longrightarrow> ps2_inv (type_text t s)"
proof (induction t arbitrary: s)
  case (Cons c t)
  have "ps2_inv (type_char c s)"
    using Cons.prems by (simp add: type_char_def press_def Let_def key_inv split: prod.split)
  with Cons.IH show ?case by (simp add: type_text_def)
qed (simp add: type_text_def)

lemma move_loop_inv: "ps2_inv s \<Longrightarrow> ps2_inv (move_loop step dx dy s)"
proof (induction step dx dy s rule: move_loop.induct)
  case (1 step dx dy s)
  then show ?case by (subst move_loop.simps) (simp add: Let_def mouse_inv)
qed

lemma run_line_inv:
  assumes "ps2_inv s"
  shows "ps2_inv (run_line icnt l s)"
proof -
  have "ps2_inv (s\<lparr>script_wait_until := w\<rparr>)" for w using assms by (simp add: ps2_inv_def ps2_ok_def)
  then show ?thesis
    using assms
    by (simp add: run_line_def type_text_inv key_inv press_def move_loop_inv mouse_inv Let_def split: prod.split)
qed

lemma run_script_loop_inv: "ps2_inv s \<Longrightarrow> ps2_inv (run_script_loop icnt ls s)"
proof (induction icnt ls s rule: run_script_loop.induct)
  case (2 icnt l ls s)
  have "ps2_inv (s\<lparr>script_pc := script_pc s + 1\<rparr>)" using 2(2) by (simp add: ps2_inv_def ps2_ok_def)
  then show ?case using 2 run_line_inv by simp
qed simp

lemma service_inv:
  assumes "ps2_inv s"
  shows "ps2_inv (ps2_service icnt s)"
proof -
  have "ps2_ok (run_script icnt s)"
    using run_script_loop_inv [OF assms] by (simp add: run_script_def ps2_inv_def)
  then show ?thesis
    unfolding ps2_service_def Let_def
    by (intro refill_inv) (simp add: ps2_ok_def kbd_push_def aux_push_def)
qed

lemma read_inv: "ps2_inv s \<Longrightarrow> ps2_inv (snd (ps2_read c s))"
  by (auto simp: ps2_read_def ps2_inv_def ps2_ok_def refill_def)

lemma reach_inv: "ps2_reach sc s \<Longrightarrow> ps2_inv s"
proof (induction rule: ps2_reach.induct)
  case power_up
  then show ?case by (simp add: sgi_ps2_new_def ps2_inv_def ps2_ok_def)
next
  case (poked s)
  then show ?case by (simp add: ps2_inv_def ps2_ok_def)
next
  case (writes s)
  then show ?case using write_inv by (simp add: ps2_inv_def)
qed (simp_all add: read_inv key_inv mouse_inv service_inv)

section \<open>Delivery\<close>

fun data_reads :: "nat \<Rightarrow> sgi_ps2 \<Rightarrow> u8 list \<times> sgi_ps2" where
  "data_reads 0 s = ([], s)"
| "data_reads (Suc n) s =
     (let (b, s1) = ps2_read False s; (bs, s2) = data_reads n s1 in (b # bs, s2))"

definition ports_on :: "sgi_ps2 \<Rightarrow> bool" where
  "ports_on s \<longleftrightarrow> \<not> flag (ccb s) 0x10 \<and> \<not> flag (ccb s) 0x20"

lemma read_next:
  assumes "ports_on s" "kbd_q s @ aux_q s = b # bs" "snd (ps2_read False s) = s'"
  shows "obf s' \<and> out_buf s' = b \<and> kbd_q s' @ aux_q s' = bs \<and> ports_on s' \<and> ccb s' = ccb s"
  using assms
  by (cases "kbd_q s") (auto simp: ps2_read_def refill_def ports_on_def)

lemma read_last:
  "ports_on s \<Longrightarrow> kbd_q s = [] \<Longrightarrow> aux_q s = [] \<Longrightarrow> \<not> obf (snd (ps2_read False s))"
  by (simp add: ps2_read_def refill_def)

lemma data_reads_all:
  "ports_on s \<Longrightarrow> kbd_q s @ aux_q s = bs \<Longrightarrow> data_reads (Suc (length bs)) s = (out, s') \<Longrightarrow>
   out = out_buf s # bs \<and> \<not> obf s'"
proof (induction bs arbitrary: s out)
  case Nil
  then show ?case using read_last [of s] by (auto simp: ps2_read_def)
next
  case (Cons b bs)
  obtain s1 where s1: "ps2_read False s = (out_buf s, s1)" by (simp add: ps2_read_def)
  obtain o1 where o1: "data_reads (Suc (length bs)) s1 = (o1, s')" "out = out_buf s # o1"
    using Cons.prems(3) s1 data_reads.simps(2) [of "length (b # bs) - 1" s] by (fastforce split: prod.splits)
  have "out_buf s1 = b" "kbd_q s1 @ aux_q s1 = bs" "ports_on s1"
    using read_next [OF Cons.prems(1,2), of s1] s1 by simp_all
  with Cons.IH [OF _ _ o1(1)] o1(2) show ?case by simp
qed

section \<open>Properties\<close>

text \<open>C23.  In every state the controller can reach, by register accesses, host input and retraces in any
  order, the output buffer is not empty while a byte waits in the queue of an enabled port, the status
  never shows mouse data without data, and no button outside the three of the mouse is recorded.  A guest
  that waits for the output-buffer-full flag therefore never hangs on a byte the controller holds.\<close>

theorem ps2_no_byte_stuck:
  assumes "ps2_reach sc s"
  shows "(aux_obf s \<longrightarrow> obf s) \<and> mouse_buttons s AND 7 = mouse_buttons s \<and>
     (\<not> obf s \<longrightarrow> (kbd_q s = [] \<or> flag (ccb s) 0x10) \<and> (aux_q s = [] \<or> flag (ccb s) 0x20))"
  using reach_inv [OF assms] by (simp add: ps2_inv_def ps2_ok_def)

theorem ps2_no_byte_stuck_witness:
  "let s = ps2_write False 0xf2 (ps2_write True 0xd4 (sgi_ps2_new []))
   in obf s \<and> aux_obf s \<and> aux_q s = [0x00] \<and>
      (aux_obf s \<longrightarrow> obf s) \<and> mouse_buttons s AND 7 = mouse_buttons s"
proof -
  let ?s = "ps2_write False 0xf2 (ps2_write True 0xd4 (sgi_ps2_new []))"
  have "ps2_reach [] ?s" by (intro ps2_reach.intros)
  from ps2_no_byte_stuck [OF this]
  have "(aux_obf ?s \<longrightarrow> obf ?s) \<and> mouse_buttons ?s AND 7 = mouse_buttons ?s" by blast
  moreover have "obf ?s \<and> aux_obf ?s \<and> aux_q ?s = [0x00]" by code_simp
  ultimately show ?thesis unfolding Let_def by blast
qed

text \<open>With both ports enabled, reading the data port once for every byte the controller holds
  returns the byte in the output buffer, then the keyboard queue, then the mouse queue, each in order,
  and leaves the output buffer empty.\<close>

theorem ps2_data_delivered:
  assumes "ports_on s" "n = length (kbd_q s) + length (aux_q s)" "data_reads (Suc n) s = (out, s')"
  shows "out = out_buf s # kbd_q s @ aux_q s \<and> \<not> obf s'"
  using data_reads_all [OF assms(1) refl, of out s'] assms(2,3) by simp

theorem ps2_data_delivered_witness:
  "fst (data_reads 3 (ps2_write False 0xf2 (ps2_write True 0xae (sgi_ps2_new [])))) = [0xfa, 0xab, 0x83]"
proof -
  let ?s = "ps2_write False 0xf2 (ps2_write True 0xae (sgi_ps2_new []))"
  have h: "ports_on ?s" "kbd_q ?s = [0xab, 0x83]" "aux_q ?s = []" "out_buf ?s = 0xfa" by code_simp+
  obtain out s' where r: "data_reads (Suc 2) ?s = (out, s')" by fastforce
  have "out = [0xfa, 0xab, 0x83]"
    using ps2_data_delivered [OF h(1) _ r] by (simp add: h)
  then show ?thesis using r by (simp add: numeral_3_eq_3 numeral_2_eq_2 del: data_reads.simps)
qed

text \<open>A mouse motion of any size is split into packets that a driver decodes back to it: the
  nine-bit deltas of the packets queued sum to the motion on both axes, with the vertical axis flipped
  twice, and no packet is queued anywhere else.\<close>

theorem mouse_motion_preserved:
  "\<exists>ps. host_aux (mouse dx dy b s) = host_aux s @ ps \<and> ps \<noteq> [] \<and> sum_deltas ps = (dx, dy) \<and>
     host_kbd (mouse dx dy b s) = host_kbd s"
proof -
  have "(b AND 7) AND 7 = b AND 7" by (simp add: and.assoc)
  from mouse_packets_sum [OF this, of dx dy]
  have "sum_deltas (mouse_packets (b AND 7) dx dy) = (dx, dy)" .
  moreover have "mouse_packets (b AND 7) dx dy \<noteq> []" by (subst mouse_packets.simps) (simp add: Let_def)
  ultimately show ?thesis by (simp add: mouse_def Let_def)
qed

text \<open>The scan codes identify the event: in whatever scan code set and translation mode the
  keyboard is, two key events that queue the same bytes are the same key and the same direction.\<close>

theorem scan_codes_identify_key:
  assumes "key n1 d1 s = (True, t1)" "key n2 d2 s = (True, t2)" "host_kbd t1 = host_kbd t2"
  shows "n1 = n2 \<and> d1 = d2"
  using assms by (rule key_codes_inj)

theorem scan_codes_identify_key_witness:
  "host_kbd (snd (key ''up'' True (sgi_ps2_new []))) = [[0xe0, 0x48]] \<and>
   \<not> host_kbd (snd (key ''up'' True (sgi_ps2_new []))) = host_kbd (snd (key ''up'' False (sgi_ps2_new [])))"
proof -
  have k: "fst (key ''up'' d (sgi_ps2_new []))" for d by (cases d) code_simp+
  have "key ''up'' d (sgi_ps2_new []) = (True, snd (key ''up'' d (sgi_ps2_new [])))" for d
    using k [of d] by (simp add: prod_eq_iff)
  from scan_codes_identify_key [OF this this, of True False]
  have "\<not> host_kbd (snd (key ''up'' True (sgi_ps2_new []))) = host_kbd (snd (key ''up'' False (sgi_ps2_new [])))"
    by blast
  moreover have "host_kbd (snd (key ''up'' True (sgi_ps2_new []))) = [[0xe0, 0x48]]" by code_simp
  ultimately show ?thesis by blast
qed

end
