(* ===== verification/Gdb.thy ===== *)
theory Gdb
  imports Interpreter PS2
begin

text \<open>
  The gdb stub (src/gdbstub.cc): the remote serial protocol with its packets, the register and memory
  commands, the target description and the hook the run loop calls before every instruction.

  The sockets are fields of the stub: \<open>clients\<close> is what each poll of \<^verbatim>\<open>accept\<close> finds, \<open>rx\<close> what the attached
  client sends until it closes the connection (an \<open>Idle\<close> is a moment with nothing to read), \<open>tx\<close> what has
  been written to it and \<open>tx_room\<close> how many bytes the next writes take, all of them when it is empty.
  Reading outside a string, or a local that was never set, is undefined in C++; such a packet ends in
  \<open>Undefined\<close>.
\<close>

section \<open>State\<close>

datatype rx_event = Rx char | Idle

record gdb_stub =
  conn :: bool
  stepping :: bool
  poll_ctr :: u64
  breakpoints :: "u32 set"
  clients :: "rx_event list option list"
  rx :: "rx_event list"
  tx :: string
  tx_room :: "nat list"

definition gdb_new :: "rx_event list option list \<Rightarrow> gdb_stub" where
  "gdb_new cs = \<lparr>conn = False, stepping = False, poll_ctr = 0, breakpoints = {}, clients = cs, rx = [], tx = [], tx_room = []\<rparr>"

definition close_conn :: "gdb_stub \<Rightarrow> gdb_stub" where
  "close_conn g = g\<lparr>conn := False\<rparr>"

text \<open>\<^verbatim>\<open>recv(conn_fd, &c, 1, 0)\<close>, which waits; \<open>None\<close> is the end of the stream.\<close>

fun recv1 :: "rx_event list \<Rightarrow> (char \<times> rx_event list) option" where
  "recv1 [] = None"
| "recv1 (Rx c # es) = Some (c, es)"
| "recv1 (Idle # es) = recv1 es"

definition write_conn :: "string \<Rightarrow> gdb_stub \<Rightarrow> bool \<times> gdb_stub" where
  "write_conn s g =
     (let k = (case tx_room g of [] \<Rightarrow> length s | r # _ \<Rightarrow> min r (length s))
      in (k = length s, g\<lparr>tx := tx g @ take k s, tx_room := tl (tx_room g)\<rparr>))"

section \<open>Hexadecimal\<close>

definition hexval :: "char \<Rightarrow> u64" where
  "hexval c =
     (let n = of_char c in
      if 48 \<le> n \<and> n \<le> 57 then n - 48
      else if 97 \<le> n \<and> n \<le> 102 then n - 97 + 10
      else if 65 \<le> n \<and> n \<le> 70 then n - 65 + 10
      else 0)"

text \<open>\<^verbatim>\<open>%02x\<close> of a byte.\<close>

definition hex_digits :: string where "hex_digits = ''0123456789abcdef''"

definition hex2 :: "u8 \<Rightarrow> string" where
  "hex2 b = [hex_digits ! unat (drop_bit 4 b), hex_digits ! unat (b AND 0xf)]"

definition put_hex_be :: "u64 \<Rightarrow> nat \<Rightarrow> string" where
  "put_hex_be v nbytes = concat (map (\<lambda>i. hex2 (ucast (drop_bit (8 * i) v))) (rev [0..<nbytes]))"

section \<open>Packets\<close>

fun skip_start :: "rx_event list \<Rightarrow> rx_event list option" where
  "skip_start [] = None"
| "skip_start (Rx c # es) = (if c = CHR ''$'' then Some es else skip_start es)"
| "skip_start (Idle # es) = skip_start es"

fun take_body :: "rx_event list \<Rightarrow> (string \<times> rx_event list) option" where
  "take_body [] = None"
| "take_body (Rx c # es) =
     (if c = CHR ''#'' then Some ([], es)
      else (case take_body es of None \<Rightarrow> None | Some (b, fs) \<Rightarrow> Some (c # b, fs)))"
| "take_body (Idle # es) = take_body es"

definition packet_of :: "rx_event list \<Rightarrow> (string \<times> rx_event list) option" where
  "packet_of es =
     (case skip_start es of
        None \<Rightarrow> None
      | Some es1 \<Rightarrow> (case take_body es1 of
          None \<Rightarrow> None
        | Some (body, es2) \<Rightarrow> (case recv1 es2 of
            None \<Rightarrow> None
          | Some (_, es3) \<Rightarrow> (case recv1 es3 of
              None \<Rightarrow> None
            | Some (_, es4) \<Rightarrow> Some (body, es4)))))"

definition recv_packet :: "gdb_stub \<Rightarrow> string \<times> gdb_stub" where
  "recv_packet g =
     (case packet_of (rx g) of
        None \<Rightarrow> ([], close_conn (g\<lparr>rx := []\<rparr>))
      | Some (body, es) \<Rightarrow> (body, snd (write_conn ''+'' (g\<lparr>rx := es\<rparr>))))"

definition checksum :: "string \<Rightarrow> u8" where
  "checksum body = fold (\<lambda>c a. a + of_char c) body 0"

definition frame :: "string \<Rightarrow> string" where
  "frame body = ''$'' @ body @ ''#'' @ hex2 (checksum body)"

definition send_packet :: "string \<Rightarrow> gdb_stub \<Rightarrow> gdb_stub" where
  "send_packet body g =
     (let (ok, g1) = write_conn (frame body) g in
      if \<not> ok then close_conn g1
      else (case recv1 (rx g1) of None \<Rightarrow> close_conn (g1\<lparr>rx := []\<rparr>) | Some (_, es) \<Rightarrow> g1\<lparr>rx := es\<rparr>))"

definition stop_reply :: "u8 \<Rightarrow> string" where
  "stop_reply sig = ''S'' @ hex2 sig"

section \<open>The target description\<close>

fun dec :: "nat \<Rightarrow> string" where
  "dec n = (if n < 10 then [char_of (48 + n)] else dec (n div 10) @ [char_of (48 + n mod 10)])"

definition quoted :: "string \<Rightarrow> string" where
  "quoted s = [CHR 0x22] @ s @ [CHR 0x22]"

definition reg_elem :: "string \<Rightarrow> string \<Rightarrow> string \<Rightarrow> nat \<Rightarrow> string" where
  "reg_elem name bits attrs num =
     ''    <reg name='' @ quoted name @ '' bitsize='' @ quoted bits @ attrs @ '' regnum='' @ quoted (dec num) @ ''/>''"

definition feature_open :: "string \<Rightarrow> string" where
  "feature_open name = ''  <feature name='' @ quoted name @ ''>''"

definition xml_lines :: "string list" where
  "xml_lines =
     [''<?xml version='' @ quoted ''1.0'' @ ''?>'',
      ''<!DOCTYPE target SYSTEM '' @ quoted ''gdb-target.dtd'' @ ''>'',
      ''<target version='' @ quoted ''1.0'' @ ''>'',
      ''  <architecture>mips:isa64</architecture>'',
      feature_open ''org.gnu.gdb.mips.cpu''] @
     map (\<lambda>i. reg_elem (''r'' @ dec i) ''64'' [] i) [0..<32] @
     [reg_elem ''lo'' ''64'' [] 33, reg_elem ''hi'' ''64'' [] 34, reg_elem ''pc'' ''64'' [] 37,
      ''  </feature>'',
      feature_open ''org.gnu.gdb.mips.cp0'',
      reg_elem ''status'' ''64'' [] 32, reg_elem ''badvaddr'' ''64'' [] 35, reg_elem ''cause'' ''64'' [] 36,
      ''  </feature>'',
      feature_open ''org.gnu.gdb.mips.fpu''] @
     map (\<lambda>i. reg_elem (''f'' @ dec i) ''64'' ('' type='' @ quoted ''ieee_double'') (38 + i)) [0..<32] @
     [reg_elem ''fcsr'' ''32'' ('' group='' @ quoted ''float'') 70, reg_elem ''fir'' ''32'' ('' group='' @ quoted ''float'') 71,
      ''  </feature>'',
      ''</target>'']"

definition g_target_xml :: string where
  "g_target_xml = concat (map (\<lambda>l. l @ [CHR 0x0a]) xml_lines)"

section \<open>Registers and memory\<close>

definition status_reg :: "u32 \<Rightarrow> u64" where
  "status_reg v = scast v"

text \<open>The values of the registers 0 to 69, eight bytes each.\<close>

definition reg_values :: "'d state_t \<Rightarrow> u64 list" where
  "reg_values s =
     map (\<lambda>i. gpr s (of_nat i)) [0..<32] @
     [status_reg (cpr0 s CPR0_SR), lo_reg s, hi_reg s, status_reg (cpr0 s CPR0_BADVADDR), status_reg (cpr0 s CPR0_CAUSE), pc s] @
     map (\<lambda>i. cpr1 s (of_nat i)) [0..<32]"

definition read_registers :: "'d state_t \<Rightarrow> string" where
  "read_registers s = concat (map (\<lambda>v. put_hex_be v 8) (reg_values s)) @ put_hex_be 0 4 @ put_hex_be 0 4"

text \<open>\<^verbatim>\<open>h[i]\<close>: the terminating zero may be read, nothing beyond.\<close>

definition str_at :: "string \<Rightarrow> nat \<Rightarrow> char option" where
  "str_at h i = (if i < length h then Some (h ! i) else if i = length h then Some (CHR 0x00) else None)"

primrec rd_be :: "string \<Rightarrow> nat \<Rightarrow> nat \<Rightarrow> u64 \<Rightarrow> u64 option" where
  "rd_be h off 0 v = Some v"
| "rd_be h off (Suc n) v =
     (case (str_at h off, str_at h (off + 1)) of
        (Some a, Some b) \<Rightarrow> rd_be h (off + 2) n (push_bit 8 v OR (push_bit 4 (hexval a) OR hexval b))
      | _ \<Rightarrow> None)"

definition reg_at :: "string \<Rightarrow> nat \<Rightarrow> u64 option" where
  "reg_at h k = rd_be h (16 * k) 8 0"

definition write_registers :: "string \<Rightarrow> 'd state_t \<Rightarrow> 'd state_t option" where
  "write_registers h s =
     (case those (map (reg_at h) [0..<70]) of
        None \<Rightarrow> None
      | Some vs \<Rightarrow>
          Some (s\<lparr>gpr := (\<lambda>r. vs ! unat r), cpr0 := (cpr0 s)(CPR0_SR := ucast (vs ! 32)), lo_reg := vs ! 33,
                  hi_reg := vs ! 34, pc := vs ! 37, cpr1 := (\<lambda>r. vs ! (38 + unat r))\<rparr>))"

primrec gdb_mem_read :: "nat \<Rightarrow> u64 \<Rightarrow> 'd state_t \<Rightarrow> u8 list option" where
  "gdb_mem_read 0 va s = Some []"
| "gdb_mem_read (Suc n) va s =
     (case tlb_probe_ro va s of
        None \<Rightarrow> None
      | Some pa \<Rightarrow>
          map_option ((#) (mem (sys s) (get_raw_ptr (route_devices (sys s)) pa))) (gdb_mem_read n (va + 1) s))"

primrec gdb_mem_write :: "u8 list \<Rightarrow> u64 \<Rightarrow> 'd state_t \<Rightarrow> bool \<times> 'd state_t" where
  "gdb_mem_write [] va s = (True, s)"
| "gdb_mem_write (b # bs) va s =
     (case tlb_probe_ro va s of
        None \<Rightarrow> (False, s)
      | Some pa \<Rightarrow>
          gdb_mem_write bs (va + 1)
            (s\<lparr>sys := (sys s)\<lparr>mem := (mem (sys s))(get_raw_ptr (route_devices (sys s)) pa := b)\<rparr>\<rparr>))"

primrec read_memory_from :: "nat \<Rightarrow> u64 \<Rightarrow> string \<Rightarrow> 'd state_t \<Rightarrow> string" where
  "read_memory_from 0 va r s = r"
| "read_memory_from (Suc n) va r s =
     (case gdb_mem_read 1 va s of
        None \<Rightarrow> ''E03''
      | Some bs \<Rightarrow> read_memory_from n (va + 1) (r @ hex2 (hd bs)) s)"

definition read_memory :: "u64 \<Rightarrow> u32 \<Rightarrow> 'd state_t \<Rightarrow> string" where
  "read_memory va len s = read_memory_from (unat len) va [] s"

text \<open>The bytes before one that cannot be translated are written; an odd last digit is not looked at.\<close>

fun write_memory :: "u64 \<Rightarrow> string \<Rightarrow> 'd state_t \<Rightarrow> bool \<times> 'd state_t" where
  "write_memory va (a # b # h) s =
     (case gdb_mem_write [ucast (push_bit 4 (hexval a) OR hexval b)] va s of
        (False, s1) \<Rightarrow> (False, s1)
      | (True, s1) \<Rightarrow> write_memory (va + 1) h s1)"
| "write_memory va _ s = (True, s)"

section \<open>Numbers in packets\<close>

text \<open>A string as a C function sees it: up to the first zero byte.\<close>

definition c_str :: "string \<Rightarrow> string" where
  "c_str t = takeWhile (\<lambda>c. c \<noteq> CHR 0x00) t"

fun hex_prefix :: "string \<Rightarrow> string" where
  "hex_prefix (a # b # cs) = (if a = CHR 0x30 \<and> (b = CHR 0x78 \<or> b = CHR 0x58) then cs else a # b # cs)"
| "hex_prefix cs = cs"

text \<open>\<^verbatim>\<open>%lx\<close> and \<^verbatim>\<open>%x\<close> of \<^verbatim>\<open>sscanf\<close>: the value and the rest of the input, \<open>None\<close> when nothing matches.\<close>

definition scan_hex :: "string \<Rightarrow> (u64 \<times> string) option" where
  "scan_hex t =
     (let (neg, t1) = sign (dropWhile is_space t); t2 = hex_prefix t1
      in case t2 of
           [] \<Rightarrow> None
         | c # _ \<Rightarrow> if is_digit 16 c
             then (let (n, t3) = digits 16 0 t2
                   in Some (if 2 ^ 64 \<le> n then - 1 else if neg then - of_nat n else of_nat n, t3))
             else None)"

definition strtoul16 :: "string \<Rightarrow> u64" where
  "strtoul16 t = (case scan_hex t of None \<Rightarrow> 0 | Some (v, _) \<Rightarrow> v)"

text \<open>\<^verbatim>\<open>sscanf(p.c_str() + 1, "%lx,%x", &addr, &len)\<close> where both are set.\<close>

definition scan_range :: "string \<Rightarrow> (u64 \<times> u32) option" where
  "scan_range t =
     (case scan_hex t of
        None \<Rightarrow> None
      | Some (va, t1) \<Rightarrow>
          (case t1 of
             [] \<Rightarrow> None
           | c # t2 \<Rightarrow> if c = CHR '','' then map_option (\<lambda>(n, _). (va, ucast n)) (scan_hex t2) else None))"

fun last_index :: "char \<Rightarrow> string \<Rightarrow> nat option" where
  "last_index x [] = None"
| "last_index x (c # cs) =
     (case last_index x cs of Some i \<Rightarrow> Some (Suc i) | None \<Rightarrow> if c = x then Some 0 else None)"

definition starts_with :: "string \<Rightarrow> string \<Rightarrow> bool" where
  "starts_with q p \<longleftrightarrow> take (length q) p = q"

section \<open>Commands\<close>

text \<open>\<^verbatim>\<open>qXfer:features:read:target.xml:OFFSET,LENGTH\<close>.  Without a comma \<^verbatim>\<open>rfind\<close> returns \<^verbatim>\<open>npos\<close>: the
  colon is then sought in the whole packet and the length read from its first character.\<close>

definition xfer_chunk :: "u64 \<Rightarrow> u64 \<Rightarrow> string" where
  "xfer_chunk off ln =
     (let size = length g_target_xml; o1 = unat off; n = min (unat ln) (size - o1) in
      if size \<le> o1 then ''l''
      else (if o1 + n < size then ''m'' else ''l'') @ take n (drop o1 g_target_xml))"

definition xfer_reply :: "string \<Rightarrow> string" where
  "xfer_reply p =
     (let comma = last_index (CHR '','') p;
          upto = (case comma of None \<Rightarrow> p | Some k \<Rightarrow> take (Suc k) p);
          colon = the (last_index (CHR '':'') upto)
      in xfer_chunk (strtoul16 (c_str (drop (colon + 1) p)))
           (strtoul16 (c_str (case comma of None \<Rightarrow> p | Some k \<Rightarrow> drop (k + 1) p))))"

definition query_reply :: "string \<Rightarrow> string" where
  "query_reply p =
     (if starts_with ''qSupported'' p then ''PacketSize=4000;qXfer:features:read+''
      else if starts_with ''qXfer:features:read:target.xml:'' p then xfer_reply p
      else if starts_with ''qAttached'' p then ''1''
      else if p = ''qC'' then ''QC1''
      else if starts_with ''qfThreadInfo'' p then ''m1''
      else if starts_with ''qsThreadInfo'' p then ''l''
      else [])"

datatype after = Again | Return | Exit | Undefined

type_synonym 'd debugged = "'d state_t \<times> gdb_stub"

definition reply :: "string \<Rightarrow> 'd debugged \<Rightarrow> after \<times> 'd debugged" where
  "reply body sg = (case sg of (s, g) \<Rightarrow> (Again, s, send_packet body g))"

text \<open>The address of a \<^verbatim>\<open>Z0\<close> or \<^verbatim>\<open>z0\<close> packet starts at its fourth character.\<close>

definition bp_address :: "string \<Rightarrow> u64 option" where
  "bp_address p = (if length p < 3 then None else map_option fst (scan_hex (c_str (drop 3 p))))"

definition bp_command :: "(u32 \<Rightarrow> u32 set \<Rightarrow> u32 set) \<Rightarrow> string \<Rightarrow> 'd debugged \<Rightarrow> after \<times> 'd debugged" where
  "bp_command f p sg =
     (case sg of (s, g) \<Rightarrow>
        (case bp_address p of
           None \<Rightarrow> (Undefined, s, g)
         | Some va \<Rightarrow> reply ''OK'' (s, g\<lparr>breakpoints := f (ucast va) (breakpoints g)\<rparr>)))"

text \<open>The text after the first colon is stored whatever length the packet announces; without a colon the
  address is not looked at.\<close>

definition store_command :: "string \<Rightarrow> 'd debugged \<Rightarrow> after \<times> 'd debugged" where
  "store_command p sg =
     (case sg of (s, g) \<Rightarrow>
        (case dropWhile (\<lambda>c. c \<noteq> CHR '':'') (c_str p) of
           [] \<Rightarrow> reply ''E03'' (s, g)
         | _ # h \<Rightarrow>
             (case scan_hex (tl (c_str p)) of
                None \<Rightarrow> (Undefined, s, g)
              | Some (va, _) \<Rightarrow>
                  (let (ok, s1) = write_memory va h s in reply (if ok then ''OK'' else ''E03'') (s1, g)))))"

definition gdb_command :: "string \<Rightarrow> 'd debugged \<Rightarrow> after \<times> 'd debugged" where
  "gdb_command p sg =
     (case sg of (s, g) \<Rightarrow>
      if p = [] then reply [] (s, g)
      else
        (let c = hd p in
         if c = CHR ''q'' then reply (query_reply p) (s, g)
         else if c = CHR ''?'' then reply (stop_reply 5) (s, g)
         else if c = CHR ''g'' then reply (read_registers s) (s, g)
         else if c = CHR ''G'' then
           (case write_registers (tl p) s of
              None \<Rightarrow> (Undefined, s, g)
            | Some s1 \<Rightarrow> reply ''OK'' (s1, g))
         else if c = CHR ''m'' then
           (case scan_range (c_str (tl p)) of
              None \<Rightarrow> (Undefined, s, g)
            | Some (va, len) \<Rightarrow> reply (read_memory va len s) (s, g))
         else if c = CHR ''M'' then store_command p (s, g)
         else if c = CHR ''Z'' \<and> str_at p 1 = Some (CHR ''0'') then bp_command insert p (s, g)
         else if c = CHR ''z'' \<and> str_at p 1 = Some (CHR ''0'') then bp_command (\<lambda>a A. A - {a}) p (s, g)
         else if c = CHR ''c'' then (Return, s, g)
         else if c = CHR ''s'' then (Return, s, g\<lparr>stepping := True\<rparr>)
         else if c = CHR ''H'' \<or> c = CHR ''T'' then reply ''OK'' (s, g)
         else if c = CHR ''D'' then (Return, s, close_conn (send_packet ''OK'' g))
         else if c = CHR ''k'' then (Exit, s, send_packet ''OK'' g)
         else reply [] (s, g)))"

text \<open>\<open>packets\<close> is the loop of \<^verbatim>\<open>command_loop\<close>; every packet takes events off the stream.\<close>

lemma recv1_shorter: "recv1 es = Some (c, fs) \<Longrightarrow> length fs < length es"
  by (induction es rule: recv1.induct) auto

lemma skip_start_shorter: "skip_start es = Some fs \<Longrightarrow> length fs < length es"
  by (induction es rule: skip_start.induct) (auto split: if_splits)

lemma take_body_shorter: "take_body es = Some (b, fs) \<Longrightarrow> length fs < length es"
  by (induction es arbitrary: b rule: take_body.induct) (force split: if_splits option.splits)+

lemma packet_shorter: "packet_of es = Some (b, fs) \<Longrightarrow> length fs < length es"
  by (auto simp: packet_of_def split: option.splits
      dest!: skip_start_shorter take_body_shorter recv1_shorter)

lemma recv_packet_shorter: "recv_packet g = (b, g1) \<Longrightarrow> conn g1 \<Longrightarrow> length (rx g1) < length (rx g)"
  by (auto simp: recv_packet_def close_conn_def write_conn_def Let_def packet_shorter split: option.splits)

lemma send_packet_rx: "length (rx (send_packet b g)) \<le> length (rx g)"
  by (auto simp: send_packet_def close_conn_def write_conn_def Let_def dest: recv1_shorter split: option.splits)

lemma reply_rx: "reply b (s, g) = (r, t, g1) \<Longrightarrow> length (rx g1) \<le> length (rx g)"
  using send_packet_rx [of b g] by (auto simp: reply_def)

lemma gdb_command_rx: "gdb_command p (s, g) = (Again, t, g1) \<Longrightarrow> length (rx g1) \<le> length (rx g)"
  by (auto simp: gdb_command_def bp_command_def store_command_def Let_def dest!: reply_rx
      split: if_splits option.splits list.splits prod.splits)

lemma command_shorter:
  "(Again, t, g2) = gdb_command p (s, g1) \<Longrightarrow> (p, g1) = recv_packet g \<Longrightarrow> conn g1 \<Longrightarrow> length (rx g2) < length (rx g)"
  by (metis gdb_command_rx recv_packet_shorter le_less_trans)

function packets :: "'d debugged \<Rightarrow> after \<times> 'd debugged" where
  "packets (s, g) =
     (if \<not> conn g then (Return, s, g)
      else
        (let (p, g1) = recv_packet g in
         if \<not> conn g1 then (Return, s, g1)
         else (case gdb_command p (s, g1) of
                 (Again, t, g2) \<Rightarrow> packets (t, g2)
               | r \<Rightarrow> r)))"
  by pat_completeness auto
termination
  by (relation "measure (\<lambda>(s, g). length (rx g))")
    (auto intro: command_shorter)

declare packets.simps [simp del]

definition command_loop :: "u8 option \<Rightarrow> 'd debugged \<Rightarrow> after \<times> 'd debugged" where
  "command_loop sig sg =
     (case sg of (s, g) \<Rightarrow>
        packets (s, case sig of None \<Rightarrow> g | Some n \<Rightarrow> send_packet (stop_reply n) g))"

section \<open>The hook of the run loop\<close>

definition try_accept :: "gdb_stub \<Rightarrow> gdb_stub" where
  "try_accept g =
     (case clients g of
        [] \<Rightarrow> g
      | None # cs \<Rightarrow> g\<lparr>clients := cs\<rparr>
      | Some es # cs \<Rightarrow> g\<lparr>clients := cs, conn := True, rx := es\<rparr>)"

definition ctrlc_pending :: "gdb_stub \<Rightarrow> bool \<times> gdb_stub" where
  "ctrlc_pending g =
     (case rx g of
        [] \<Rightarrow> (False, close_conn g)
      | Idle # es \<Rightarrow> (False, g\<lparr>rx := es\<rparr>)
      | Rx c # es \<Rightarrow> (c = CHR 0x03, g\<lparr>rx := es\<rparr>))"

definition poll_now :: "gdb_stub \<Rightarrow> bool" where
  "poll_now g \<longleftrightarrow> poll_ctr g AND 0xffff = 0"

definition step_hook :: "'d debugged \<Rightarrow> after \<times> 'd debugged" where
  "step_hook sg =
     (case sg of (s, g) \<Rightarrow>
      (let gp = g\<lparr>poll_ctr := poll_ctr g + 1\<rparr> in
       if \<not> conn g then
         (let g1 = (if poll_now gp then try_accept gp else gp) in
          if \<not> conn g1 then (Return, s, g1) else command_loop None (s, g1))
       else if stepping g then command_loop (Some 5) (s, g\<lparr>stepping := False\<rparr>)
       else if ucast (pc s) \<in> breakpoints g then command_loop (Some 5) (s, g)
       else if \<not> poll_now gp then (Return, s, gp)
       else (let (c, g1) = ctrlc_pending gp in
             if c then command_loop (Some 2) (s, g1) else (Return, s, g1))))"

section \<open>The run loop with a debugger\<close>

text \<open>One turn is interrupts, the hook, one instruction; the stub may end the process instead.\<close>

datatype 'd turn = Ran "'d result" gdb_stub | Killed | Broken

definition debug_step ::
    "('d debugged \<Rightarrow> after \<times> 'd debugged) \<Rightarrow> 'd env \<Rightarrow> nat \<Rightarrow> 'd debugged \<Rightarrow> 'd turn" where
  "debug_step hook E n sg =
     (case hook (maybe_take_interrupt E (fst sg), snd sg) of
        (Undefined, _) \<Rightarrow> Broken
      | (Exit, _) \<Rightarrow> Killed
      | (_, s1, g1) \<Rightarrow> Ran (execMips E n s1) g1)"

primrec debug_run ::
    "('d debugged \<Rightarrow> after \<times> 'd debugged) \<Rightarrow> 'd env \<Rightarrow> nat \<Rightarrow> u64 \<Rightarrow> nat \<Rightarrow> 'd debugged \<Rightarrow> (bool \<times> 'd turn)" where
  "debug_run hook E n maxicnt 0 sg = (\<not> running maxicnt (fst sg), Ran (Inr (fst sg)) (snd sg))"
| "debug_run hook E n maxicnt (Suc k) sg =
     (if running maxicnt (fst sg)
      then (case debug_step hook E n sg of
              Ran (Inr t) g \<Rightarrow> debug_run hook E n maxicnt k (t, g)
            | r \<Rightarrow> (False, r))
      else (True, Ran (Inr (fst sg)) (snd sg)))"

end
