(* ===== verification/Gdb_Properties.thy ===== *)
theory Gdb_Properties
  imports Gdb
begin

text \<open>
  What a debugger can rely on: register and memory packets transfer exactly, a breakpoint stops the machine
  before the instruction it names, and a client that only looks does not disturb the program.
\<close>

section \<open>Hexadecimal round trips\<close>

lemma hex_table:
  "list_all (\<lambda>n. hexval (hex_digits ! n) = of_nat n \<and> digit_val (hex_digits ! n) = Some n \<and>
     hex_digits ! n \<in> set hex_digits) [0..<16]"
  by code_simp

lemma nibble_char:
  assumes "n < 16"
  shows "hexval (hex_digits ! n) = of_nat n" "digit_val (hex_digits ! n) = Some n"
    "hex_digits ! n \<in> set hex_digits"
  using hex_table assms by (auto simp: list_all_iff)

lemma low_nibble: "(b :: u8) AND 0xf = take_bit 4 b"
  by (simp add: take_bit_eq_mask mask_eq_exp_minus_1)

lemma unat_nibbles:
  fixes b :: u8
  shows "unat (drop_bit 4 b) = unat b div 16" "unat (take_bit 4 b) = unat b mod 16"
  by (simp_all only: unat_drop_bit_eq unsigned_take_bit_eq) (simp_all add: drop_bit_eq_div take_bit_eq_mod)

lemma nibbles:
  fixes b :: u8
  shows "unat (drop_bit 4 b) < 16" "unat (take_bit 4 b) < 16"
  using unsigned_less [of b, where 'a = nat] by (simp_all add: unat_nibbles)

lemma hex2_value:
  fixes b :: u8
  shows "push_bit 4 (hexval (hex_digits ! unat (drop_bit 4 b))) OR hexval (hex_digits ! unat (b AND 0xf)) = ucast b"
  unfolding low_nibble nibble_char(1) [OF nibbles(1)] nibble_char(1) [OF nibbles(2)]
  by (rule bit_word_eqI) (auto simp: bit_simps)

lemma hex2_number:
  fixes b :: u8
  shows "unat (drop_bit 4 b) * 16 + unat (take_bit 4 b) = unat b"
  by (simp add: unat_nibbles)

lemma hex2_hex: "set (hex2 b) \<subseteq> set hex_digits"
  using nibble_char(3) [OF nibbles(1) [of b]] nibble_char(3) [OF nibbles(2) [of b]] by (simp add: hex2_def low_nibble)

lemma put_hex_be_hex: "set (put_hex_be v n) \<subseteq> set hex_digits"
  using hex2_hex by (fastforce simp: put_hex_be_def)

lemma length_hex2 [simp]: "length (hex2 b) = 2"
  by (simp add: hex2_def)

lemma put_hex_be_0 [simp]: "put_hex_be v 0 = []"
  by (simp add: put_hex_be_def)

lemma put_hex_be_Suc: "put_hex_be v (Suc n) = hex2 (ucast (drop_bit (8 * n) v)) @ put_hex_be v n"
  by (simp add: put_hex_be_def)

lemma length_put_hex_be [simp]: "length (put_hex_be v n) = 2 * n"
  by (induction n) (simp_all add: put_hex_be_Suc)

lemma str_at_append: "i < length b \<Longrightarrow> str_at (a @ b @ c) (length a + i) = Some (b ! i)"
  by (simp add: str_at_def nth_append)

text \<open>The digits of a number are read back from wherever they stand in a string.\<close>

lemma rd_be_put:
  "n \<le> 8 \<Longrightarrow> rd_be (a @ put_hex_be v n @ c) (length a) n acc = Some (push_bit (8 * n) acc OR take_bit (8 * n) v)"
proof (induction n arbitrary: a acc)
  case (Suc n)
  let ?b = "ucast (drop_bit (8 * n) v) :: u8"
  let ?h = "a @ put_hex_be v (Suc n) @ c"
  have h: "?h = (a @ hex2 ?b) @ put_hex_be v n @ c" and h2: "?h = a @ hex2 ?b @ put_hex_be v n @ c"
    by (simp_all add: put_hex_be_Suc)
  have "str_at ?h (length a) = Some (hex2 ?b ! 0)" "str_at ?h (length a + 1) = Some (hex2 ?b ! 1)"
    using str_at_append [of 0 "hex2 ?b" a] str_at_append [of 1 "hex2 ?b" a] unfolding h2 by simp_all
  then have "rd_be ?h (length a) (Suc n) acc = rd_be ?h (length (a @ hex2 ?b)) n (push_bit 8 acc OR ucast ?b)"
    using hex2_value [of ?b] by (simp add: hex2_def)
  also have "\<dots> = Some (push_bit (8 * n) (push_bit 8 acc OR ucast ?b) OR take_bit (8 * n) v)"
    unfolding h using Suc.prems by (intro Suc.IH) simp
  also have "push_bit (8 * n) (push_bit 8 acc OR ucast ?b) OR take_bit (8 * n) v
      = push_bit (8 * Suc n) acc OR take_bit (8 * Suc n) v"
    using Suc.prems by (intro bit_word_eqI) (auto simp: bit_simps add.commute)
  finally show ?case .
qed simp

lemma digits_hex2: "digits 16 acc (hex2 b @ r) = digits 16 (acc * 256 + unat b) r"
proof -
  have "digits 16 acc (hex2 b @ r) = digits 16 ((acc * 16 + unat (drop_bit 4 b)) * 16 + unat (take_bit 4 b)) r"
    by (simp add: hex2_def is_digit_def low_nibble nibble_char(2) [OF nibbles(1)] nibble_char(2) [OF nibbles(2)] nibbles)
  also have "(acc * 16 + unat (drop_bit 4 b)) * 16 + unat (take_bit 4 b) = acc * 256 + unat b"
    unfolding hex2_number [of b, symmetric] by (simp add: algebra_simps)
  finally show ?thesis .
qed

lemma digits_put_hex_be:
  "digits 16 acc (put_hex_be v n @ r) = digits 16 (acc * 256 ^ n + unat v mod 256 ^ n) r"
proof (induction n arbitrary: acc)
  case (Suc n)
  have "unat (ucast (drop_bit (8 * n) v) :: u8) = unat v div 256 ^ n mod 256"
    by (simp only: unsigned_ucast_eq unat_drop_bit_eq) (simp add: drop_bit_eq_div take_bit_eq_mod power_mult)
  moreover have "(acc * 256 + unat v div 256 ^ n mod 256) * 256 ^ n + unat v mod 256 ^ n
      = acc * 256 ^ Suc n + unat v mod 256 ^ Suc n"
    using mod_mult2_eq [of "unat v" "256 ^ n" 256] by (simp only: power_Suc) (simp add: algebra_simps)
  ultimately show ?case
    by (simp only: put_hex_be_Suc append_assoc digits_hex2 Suc.IH)
qed simp

text \<open>What a packet's text after a hexadecimal number may start with.\<close>

definition ends_number :: "string \<Rightarrow> bool" where
  "ends_number r \<longleftrightarrow> r = [] \<or> \<not> is_digit 16 (hd r)"

lemma digits_end: "ends_number r \<Longrightarrow> digits 16 acc r = (acc, r)"
  by (cases r) (simp_all add: ends_number_def)

lemma hex_chars:
  "list_all (\<lambda>c. is_digit 16 c \<and> \<not> is_space c \<and> c \<notin> {CHR 0x00, CHR 0x2b, CHR 0x2d, CHR 0x78, CHR 0x58, CHR '':'', CHR '','', CHR ''#''})
     hex_digits"
  by code_simp

lemma hex_charD:
  assumes "c \<in> set hex_digits"
  shows "is_digit 16 c" "\<not> is_space c" "c \<noteq> CHR 0x00" "c \<noteq> CHR 0x2b" "c \<noteq> CHR 0x2d" "c \<noteq> CHR 0x78" "c \<noteq> CHR 0x58"
    "c \<noteq> CHR '':''" "c \<noteq> CHR '',''" "c \<noteq> CHR ''#''"
  using hex_chars assms by (auto simp: list_all_iff)

lemma hex_prefix_hex: "b \<in> set hex_digits \<Longrightarrow> hex_prefix (a # b # r) = a # b # r"
  by (simp add: hex_charD)

lemma scan_hex_put:
  assumes "ends_number r" "0 < n"
  shows "scan_hex (put_hex_be v n @ r) = Some (of_nat (unat v mod 256 ^ n), r)"
proof -
  obtain a b t where p: "put_hex_be v n = a # b # t"
    using assms(2) by (cases n) (auto simp: put_hex_be_Suc hex2_def)
  have ab: "a \<in> set hex_digits" "b \<in> set hex_digits"
    using put_hex_be_hex [of v n] by (simp_all add: p)
  have "digits 16 0 (put_hex_be v n @ r) = (unat v mod 256 ^ n, r)"
    by (simp add: digits_put_hex_be digits_end assms(1))
  moreover have "unat v mod 256 ^ n < 2 ^ 64"
    using unsigned_less [of v, where 'a = nat] le_less_trans [OF mod_less_eq_dividend] by auto
  ultimately show ?thesis
    using ab by (simp add: scan_hex_def p hex_charD del: digits.simps)
qed

lemma scan_hex_address: "ends_number r \<Longrightarrow> scan_hex (put_hex_be v 8 @ r) = Some (v, r)"
  using unsigned_less [of v, where 'a = nat] by (simp add: scan_hex_put)

lemma scan_hex_length: "ends_number r \<Longrightarrow> scan_hex (put_hex_be (ucast n) 4 @ r) = Some (ucast (n :: u32), r)"
proof -
  assume r: "ends_number r"
  have "unat (ucast n :: u64) = unat n"
    using unsigned_less [of n, where 'a = nat] by (simp add: unsigned_ucast_eq take_bit_eq_mod)
  then show ?thesis
    using unsigned_less [of n, where 'a = nat] by (simp add: scan_hex_put r word_of_nat_eq_iff)
qed

section \<open>Registers\<close>

lemma concat_split:
  assumes "k < length vs"
  obtains a c where "concat (map f vs) @ z = a @ f (vs ! k) @ c" "a = concat (map f (take k vs))"
proof -
  have "vs = take k vs @ vs ! k # drop (Suc k) vs"
    using assms by (rule id_take_nth_drop)
  then have "concat (map f vs) @ z = concat (map f (take k vs)) @ f (vs ! k) @ concat (map f (drop (Suc k) vs)) @ z"
    by (metis append_assoc concat.simps(2) concat_append list.simps(9) map_append)
  then show thesis by (rule that [OF _ refl])
qed

lemma length_registers [simp]: "length (reg_values s) = 70"
  by (simp add: reg_values_def)

lemma length_concat_put: "length (concat (map (\<lambda>v. put_hex_be v 8) vs)) = 16 * length vs"
  by (induction vs) simp_all

lemma reg_at_read:
  assumes "k < 70"
  shows "reg_at (read_registers s) k = Some (reg_values s ! k)"
proof -
  obtain a c where "read_registers s = a @ put_hex_be (reg_values s ! k) 8 @ c"
      "a = concat (map (\<lambda>v. put_hex_be v 8) (take k (reg_values s)))"
    unfolding read_registers_def using concat_split [of k "reg_values s" "\<lambda>v. put_hex_be v 8"] assms by (metis length_registers)
  moreover have "length a = 16 * k" if "a = concat (map (\<lambda>v. put_hex_be v 8) (take k (reg_values s)))"
    using assms by (simp add: that length_concat_put)
  ultimately show ?thesis
    using rd_be_put [of 8 a "reg_values s ! k" c 0] by (simp add: reg_at_def take_bit_word_eq_self)
qed

lemma those_of_Some: "those (map Some xs) = Some xs"
  by (induction xs) simp_all

lemma registers_read_back: "those (map (reg_at (read_registers s)) [0..<70]) = Some (reg_values s)"
proof -
  have "map (reg_at (read_registers s)) [0..<70] = map Some (map ((!) (reg_values s)) [0..<70])"
    by (auto simp: reg_at_read)
  also have "map ((!) (reg_values s)) [0..<70] = reg_values s"
    using map_nth [of "reg_values s"] by (simp only: length_registers)
  finally show ?thesis by (simp only: those_of_Some)
qed

lemma reg_values_nth:
  "reg_values s ! unat (r :: 5 word) = gpr s r" "reg_values s ! (38 + unat r) = cpr1 s r"
  using unsigned_less [of r, where 'a = nat] by (simp_all add: reg_values_def nth_append)

lemma reg_values_special:
  "reg_values s ! 32 = scast (cpr0 s CPR0_SR)" "reg_values s ! 33 = lo_reg s" "reg_values s ! 34 = hi_reg s"
  "reg_values s ! 37 = pc s"
  by (simp_all add: reg_values_def status_reg_def nth_append)

lemma ucast_scast_u32: "ucast (scast (x :: u32) :: u64) = x"
  by (rule bit_word_eqI) (simp add: bit_simps)

text \<open>C30.  The registers survive a transfer through the debugger: the text of a \<^verbatim>\<open>g\<close> reply, sent back in a
  \<^verbatim>\<open>G\<close> packet, sets the general registers, Status, LO, HI, the program counter and the FPU registers of
  the receiving machine to those of the sending one and changes nothing else.\<close>

theorem register_transfer:
  "write_registers (read_registers s) t =
     Some (t\<lparr>gpr := gpr s, cpr0 := (cpr0 t)(CPR0_SR := cpr0 s CPR0_SR), lo_reg := lo_reg s, hi_reg := hi_reg s,
             pc := pc s, cpr1 := cpr1 s\<rparr>)"
  by (simp add: write_registers_def registers_read_back reg_values_nth reg_values_special ucast_scast_u32)

section \<open>Memory\<close>

text \<open>Where the byte at a virtual address is kept.\<close>

definition raw_of :: "'d state_t \<Rightarrow> u64 \<Rightarrow> u32 option" where
  "raw_of s va = map_option (get_raw_ptr (route_devices (sys s))) (tlb_probe_ro va s)"

definition put_mem :: "(u32 \<Rightarrow> u8) \<Rightarrow> 'd state_t \<Rightarrow> 'd state_t" where
  "put_mem m s = s\<lparr>sys := (sys s)\<lparr>mem := m\<rparr>\<rparr>"

lemma put_mem_simps [simp]:
  "raw_of (put_mem m s) = raw_of s" "mem (sys (put_mem m s)) = m" "put_mem k (put_mem m s) = put_mem k s"
  "put_mem (mem (sys s)) s = s"
  by (simp_all add: raw_of_def put_mem_def tlb_probe_ro_def cur_asid_of_def fun_eq_iff split: option.split)

lemma read_one: "gdb_mem_read 1 va s = map_option (\<lambda>r. [mem (sys s) r]) (raw_of s va)"
  by (simp add: raw_of_def split: option.split)

lemma write_one:
  "gdb_mem_write [b] va s =
     (case raw_of s va of None \<Rightarrow> (False, s) | Some r \<Rightarrow> (True, put_mem ((mem (sys s))(r := b)) s))"
  by (simp add: raw_of_def put_mem_def split: option.split)

text \<open>The addresses \<open>rs\<close> keep the bytes from \<open>va\<close> on.\<close>

primrec spans :: "'d state_t \<Rightarrow> u64 \<Rightarrow> u32 list \<Rightarrow> bool" where
  "spans s va [] = True"
| "spans s va (r # rs) \<longleftrightarrow> raw_of s va = Some r \<and> spans s (va + 1) rs"

lemma spans_put_mem [simp]: "spans (put_mem m s) va rs = spans s va rs"
  by (induction rs arbitrary: va) simp_all

lemma read_spans:
  "spans s va rs \<Longrightarrow> read_memory_from (length rs) va r s = r @ concat (map (\<lambda>x. hex2 (mem (sys s) x)) rs)"
  by (induction rs arbitrary: va r) (simp_all add: read_one [unfolded One_nat_def] del: gdb_mem_read.simps)

lemma write_hex2:
  "write_memory va (hex2 b @ h) s =
     (case gdb_mem_write [b] va s of (False, s1) \<Rightarrow> (False, s1) | (True, s1) \<Rightarrow> write_memory (va + 1) h s1)"
proof -
  have "ucast (push_bit 4 (hexval (hex_digits ! unat (drop_bit 4 b))) OR hexval (hex_digits ! unat (b AND 0xf))) = b"
    by (simp only: hex2_value) (rule bit_word_eqI, simp add: bit_simps)
  then show ?thesis by (simp add: hex2_def)
qed

fun store_all :: "'a list \<Rightarrow> 'b list \<Rightarrow> ('a \<Rightarrow> 'b) \<Rightarrow> 'a \<Rightarrow> 'b" where
  "store_all (r # rs) (b # bs) m = store_all rs bs (m(r := b))"
| "store_all _ _ m = m"

lemma write_spans:
  "spans s va rs \<Longrightarrow> length bs = length rs \<Longrightarrow>
   write_memory va (concat (map hex2 bs)) s = (True, put_mem (store_all rs bs (mem (sys s))) s)"
proof (induction rs arbitrary: va bs s)
  case (Cons r rs)
  then obtain b cs where bs: "bs = b # cs" "length cs = length rs" by (cases bs) auto
  show ?case
    using Cons.prems(1) bs by (simp add: write_hex2 write_one Cons.IH fun_upd_def del: gdb_mem_write.simps)
qed simp

lemma store_all_other: "x \<notin> set rs \<Longrightarrow> store_all rs bs m x = m x"
  by (induction rs bs m rule: store_all.induct) auto

lemma store_all_at: "distinct rs \<Longrightarrow> length bs = length rs \<Longrightarrow> map (store_all rs bs m) rs = bs"
  by (induction rs bs m rule: store_all.induct) (auto simp: store_all_other)

text \<open>The packets of a client that stores bytes and loads them.\<close>

definition range_text :: "u64 \<Rightarrow> nat \<Rightarrow> string" where
  "range_text va n = put_hex_be va 8 @ '','' @ put_hex_be (of_nat n) 4"

definition store_packet :: "u64 \<Rightarrow> u8 list \<Rightarrow> string" where
  "store_packet va bs = ''M'' @ range_text va (length bs) @ '':'' @ concat (map hex2 bs)"

definition load_packet :: "u64 \<Rightarrow> nat \<Rightarrow> string" where
  "load_packet va n = ''m'' @ range_text va n"

lemma hex_no_char:
  assumes "set h \<subseteq> set hex_digits"
  shows "CHR 0x00 \<notin> set h" "CHR '':'' \<notin> set h" "CHR ''#'' \<notin> set h"
  using assms hex_charD(3,8,10) by blast+

lemma ends_number_simps [simp]:
  "ends_number []" "ends_number (CHR '','' # r)" "ends_number (CHR '':'' # r)"
  by (simp_all add: ends_number_def is_digit_def digit_val_def Let_def of_char_def)

lemma c_str_id: "CHR 0x00 \<notin> set t \<Longrightarrow> c_str t = t"
  by (auto simp: c_str_def takeWhile_eq_all_conv)

lemma concat_hex2_hex: "set (concat (map hex2 bs)) \<subseteq> set hex_digits"
  using hex2_hex by fastforce

lemma dropWhile_range:
  "dropWhile (\<lambda>c. c \<noteq> CHR '':'') (CHR ''M'' # range_text va n @ '':'' @ h) = '':'' @ h"
  using hex_no_char(2) [OF put_hex_be_hex] by (simp add: range_text_def dropWhile_append)

lemma zero_free:
  "CHR 0x00 \<notin> set (store_packet va bs)" "CHR 0x00 \<notin> set (range_text va n)"
  using hex_no_char(1) [OF put_hex_be_hex] hex_no_char(1) [OF concat_hex2_hex [of bs]]
  by (simp_all add: store_packet_def range_text_def)

lemma scan_range_text:
  assumes "n < 2 ^ 32"
  shows "scan_range (range_text va n) = Some (va, of_nat n)"
proof -
  have "unat (of_nat n :: u64) = n"
    using assms by (simp add: unat_of_nat)
  moreover from this have "ucast (of_nat n :: u64) = (of_nat n :: u32)"
    by (metis of_nat_unat)
  ultimately show ?thesis
    using assms scan_hex_address [of "'','' @ put_hex_be (of_nat n) 4" va] scan_hex_put [of "[]" 4 "of_nat n"]
    by (simp add: scan_range_def range_text_def)
qed

lemma store_packet_run:
  "gdb_command (store_packet va bs) (s, g) =
     (let (ok, t) = write_memory va (concat (map hex2 bs)) s in reply (if ok then ''OK'' else ''E03'') (t, g))"
proof -
  let ?h = "concat (map hex2 bs)"
  have "scan_hex (range_text va (length bs) @ '':'' @ ?h) = Some (va, '','' @ put_hex_be (of_nat (length bs)) 4 @ '':'' @ ?h)"
    using scan_hex_address [of "'','' @ put_hex_be (of_nat (length bs)) 4 @ '':'' @ ?h" va] by (simp add: range_text_def)
  then have "store_command (store_packet va bs) (s, g) =
      (let (ok, t) = write_memory va ?h s in reply (if ok then ''OK'' else ''E03'') (t, g))"
    using dropWhile_range [of va "length bs" ?h]
    unfolding store_command_def c_str_id [OF zero_free(1)] by (simp add: store_packet_def)
  then show ?thesis
    by (simp add: gdb_command_def store_packet_def)
qed

lemma load_packet_run:
  "n < 2 ^ 32 \<Longrightarrow> gdb_command (load_packet va n) (s, g) = reply (read_memory va (of_nat n) s) (s, g)"
  by (simp add: gdb_command_def load_packet_def c_str_id zero_free scan_range_text)

text \<open>C31.  Memory survives a transfer through the debugger: when the bytes from \<open>va\<close> on are mapped to different
  places, an \<^verbatim>\<open>M\<close> packet with any bytes is answered with \<^verbatim>\<open>OK\<close>, an \<^verbatim>\<open>m\<close> packet for the same range is
  then answered with the same bytes, and nothing but these bytes of memory has changed.\<close>

theorem memory_transfer:
  assumes "spans s va rs" "distinct rs" "length bs = length rs" "length rs < 2 ^ 32"
  shows "\<exists>m. gdb_command (store_packet va bs) (s, g) = (Again, put_mem m s, send_packet ''OK'' g) \<and>
    (\<forall>h. gdb_command (load_packet va (length bs)) (put_mem m s, h) =
       (Again, put_mem m s, send_packet (concat (map hex2 bs)) h)) \<and>
    (\<forall>x. x \<notin> set rs \<longrightarrow> m x = mem (sys s) x)"
proof (intro exI conjI allI impI)
  let ?m = "store_all rs bs (mem (sys s))"
  show "gdb_command (store_packet va bs) (s, g) = (Again, put_mem ?m s, send_packet ''OK'' g)"
    by (simp add: store_packet_run write_spans [OF assms(1,3)] reply_def)
  show "gdb_command (load_packet va (length bs)) (put_mem ?m s, h) =
      (Again, put_mem ?m s, send_packet (concat (map hex2 bs)) h)" for h
  proof -
    have "read_memory va (of_nat (length bs)) (put_mem ?m s) = concat (map (\<lambda>x. hex2 (?m x)) rs)"
      using read_spans [of "put_mem ?m s" va rs "[]"] assms by (simp add: read_memory_def unat_of_nat)
    also have "\<dots> = concat (map hex2 (map ?m rs))"
      by (simp add: comp_def)
    also have "map ?m rs = bs"
      by (rule store_all_at [OF assms(2,3)])
    finally show ?thesis
      using assms(3,4) by (simp add: load_packet_run reply_def)
  qed
  show "x \<notin> set rs \<Longrightarrow> ?m x = mem (sys s) x" for x
    by (rule store_all_other)
qed

theorem memory_transfer_witness:
  "\<exists>m. gdb_command (store_packet 0xffffffff80001000 [0xca, 0xfe]) (state_zero (io_init ()), gdb_new []) =
      (Again, put_mem m (state_zero (io_init ())), send_packet ''OK'' (gdb_new [])) \<and>
    gdb_command (load_packet 0xffffffff80001000 2) (put_mem m (state_zero (io_init ())), gdb_new []) =
      (Again, put_mem m (state_zero (io_init ())), send_packet ''cafe'' (gdb_new []))"
proof -
  have "spans (state_zero (io_init ())) 0xffffffff80001000 [0x1000, 0x1001]" by code_simp
  moreover have "concat (map hex2 [0xca, 0xfe]) = ''cafe''" by code_simp
  ultimately show ?thesis
    using memory_transfer [of "state_zero (io_init ())" "0xffffffff80001000" "[0x1000, 0x1001]" "[0xca, 0xfe]" "gdb_new []"]
    by (auto simp flip: numeral_2_eq_2)
qed

section \<open>Packets on the wire\<close>

lemma take_body_rx: "CHR ''#'' \<notin> set b \<Longrightarrow> take_body (map Rx b @ Rx (CHR ''#'') # es) = Some (b, es)"
  by (induction b) auto

lemma packet_of_frame: "CHR ''#'' \<notin> set b \<Longrightarrow> packet_of (map Rx (frame b) @ es) = Some (b, es)"
  by (simp add: packet_of_def frame_def take_body_rx hex2_def)

lemma recv_frame:
  assumes "CHR ''#'' \<notin> set b" "rx g = map Rx (frame b) @ es" "tx_room g = []"
  shows "recv_packet g = (b, g\<lparr>rx := es, tx := tx g @ ''+''\<rparr>)"
  using assms by (simp add: recv_packet_def packet_of_frame write_conn_def Let_def)

lemma send_acked:
  assumes "rx g = Rx c # es" "tx_room g = []"
  shows "send_packet b g = g\<lparr>rx := es, tx := tx g @ frame b\<rparr>"
  using assms by (simp add: send_packet_def write_conn_def Let_def)

lemma packets_frame:
  assumes "conn g" "CHR ''#'' \<notin> set b" "rx g = map Rx (frame b) @ es" "tx_room g = []"
  shows "packets (s, g) =
    (case gdb_command b (s, g\<lparr>rx := es, tx := tx g @ ''+''\<rparr>) of (Again, t, g2) \<Rightarrow> packets (t, g2) | r \<Rightarrow> r)"
  using recv_frame [OF assms(2-4)] assms(1) by (subst packets.simps) simp

lemma packets_continue:
  assumes "conn g" "rx g = map Rx (frame ''c'') @ es" "tx_room g = []"
  shows "packets (s, g) = (Return, s, g\<lparr>rx := es, tx := tx g @ ''+''\<rparr>)"
  using packets_frame [of g "''c''" es s] assms by (simp add: gdb_command_def)

section \<open>Breakpoints\<close>

definition breakpoint_packet :: "u32 \<Rightarrow> string" where
  "breakpoint_packet a = ''Z0,'' @ put_hex_be (ucast a) 4 @ '',4''"

lemma breakpoint_packet_text: "CHR ''#'' \<notin> set (breakpoint_packet a)"
  using hex_no_char(3) [OF put_hex_be_hex] by (simp add: breakpoint_packet_def)

lemma breakpoint_address: "bp_address (breakpoint_packet a) = Some (ucast a)"
proof -
  have "CHR 0x00 \<notin> set (put_hex_be (ucast a) 4 @ '',4'')"
    using hex_no_char(1) [OF put_hex_be_hex] by simp
  moreover have "scan_hex (put_hex_be (ucast a) 4 @ '',4'') = Some (ucast a, '',4'')"
    by (rule scan_hex_length) simp
  ultimately show ?thesis
    by (simp add: bp_address_def breakpoint_packet_def c_str_id)
qed

lemma ucast_ucast_u32: "ucast (ucast (a :: u32) :: u64) = a"
  by (rule bit_word_eqI) (simp add: bit_simps)

lemma breakpoint_inserted:
  "gdb_command (breakpoint_packet a) (s, g) = (Again, s, send_packet ''OK'' (g\<lparr>breakpoints := insert a (breakpoints g)\<rparr>))"
proof -
  have "gdb_command (breakpoint_packet a) (s, g) = bp_command insert (breakpoint_packet a) (s, g)"
    by (simp add: gdb_command_def breakpoint_packet_def str_at_def)
  then show ?thesis
    by (simp add: bp_command_def breakpoint_address reply_def ucast_ucast_u32)
qed

text \<open>The client's side of a session: set a breakpoint, continue, and continue again after the stop.\<close>

definition breakpoint_script :: "u32 \<Rightarrow> rx_event list" where
  "breakpoint_script a = map Rx (frame (breakpoint_packet a) @ ''+'' @ frame ''c'' @ ''+'' @ frame ''c'')"

text \<open>C29.  A breakpoint stops the machine, there and only there: after a client has set one with a \<^verbatim>\<open>Z0\<close> packet
  and continued, the hook reports \<^verbatim>\<open>S05\<close> to it before an instruction at that address runs, with the machine as
  it is, and goes on when the client says so; before an instruction at an address without a breakpoint the
  hook only counts, unless it is due to poll.\<close>

theorem breakpoint_stops:
  assumes "conn g" "\<not> stepping g" "tx_room g = []" "rx g = breakpoint_script a"
  shows "\<exists>g1. packets (s, g) = (Return, s, g1) \<and> tx g1 = tx g @ ''+$OK#9a+'' \<and>
    (\<forall>t. ucast (pc t) = a \<longrightarrow> (\<exists>g2. step_hook (t, g1) = (Return, t, g2) \<and> tx g2 = tx g1 @ ''$S05#b8+'')) \<and>
    (\<forall>t. ucast (pc t) \<notin> insert a (breakpoints g) \<longrightarrow> (poll_ctr g + 1) AND 0xffff \<noteq> 0 \<longrightarrow>
       step_hook (t, g1) = (Return, t, g1\<lparr>poll_ctr := poll_ctr g + 1\<rparr>))"
proof -
  let ?es = "map Rx (''+'' @ frame ''c'')"
  let ?g1 = "g\<lparr>breakpoints := insert a (breakpoints g), rx := ?es, tx := tx g @ ''+'' @ frame ''OK'' @ ''+''\<rparr>"
  have ok: "frame ''OK'' = ''$OK#9a''" and s05: "frame (stop_reply 5) = ''$S05#b8''"
    by code_simp+
  have "rx g = map Rx (frame (breakpoint_packet a)) @ Rx CHR ''+'' # map Rx (frame ''c'') @ ?es"
    by (simp add: assms(4) breakpoint_script_def)
  from packets_frame [OF assms(1) breakpoint_packet_text this assms(3)]
  have run: "packets (s, g) = (Return, s, ?g1)"
    using assms(1,3) by (simp add: breakpoint_inserted send_acked packets_continue)
  have stop: "step_hook (t, ?g1) = (Return, t, ?g1\<lparr>rx := [], tx := tx ?g1 @ frame (stop_reply 5) @ ''+''\<rparr>)"
    if "ucast (pc t) = a" for t
    using that assms(1-3) by (simp add: step_hook_def command_loop_def send_acked packets_continue)
  have go: "step_hook (t, ?g1) = (Return, t, ?g1\<lparr>poll_ctr := poll_ctr g + 1\<rparr>)"
    if "ucast (pc t) \<notin> insert a (breakpoints g)" "(poll_ctr g + 1) AND 0xffff \<noteq> 0" for t
    using that assms(1,2) by (simp add: step_hook_def poll_now_def Let_def)
  have hit: "\<exists>g2. step_hook (t, ?g1) = (Return, t, g2) \<and> tx g2 = tx ?g1 @ ''$S05#b8+''" if "ucast (pc t) = a" for t
    by (rule exI, rule conjI, rule stop [OF that]) (simp add: s05)
  have out: "tx ?g1 = tx g @ ''+$OK#9a+''"
    by (simp add: ok)
  show ?thesis
    by (rule exI [of _ ?g1]) (intro conjI allI impI run out hit go; assumption)
qed

theorem breakpoint_stops_witness:
  "\<exists>g1. packets (state_zero (io_init ()), (gdb_new [])\<lparr>conn := True, rx := breakpoint_script 0x80001000\<rparr>) =
      (Return, state_zero (io_init ()), g1) \<and> tx g1 = ''+$OK#9a+'' \<and>
    (\<exists>g2. step_hook ((state_zero (io_init ()))\<lparr>pc := 0xffffffff80001000\<rparr>, g1) =
       (Return, (state_zero (io_init ()))\<lparr>pc := 0xffffffff80001000\<rparr>, g2) \<and> tx g2 = ''+$OK#9a+$S05#b8+'')"
  using breakpoint_stops [of "(gdb_new [])\<lparr>conn := True, rx := breakpoint_script 0x80001000\<rparr>" "0x80001000"
      "state_zero (io_init ())"]
  by (force simp: gdb_new_def)

section \<open>A client that only looks\<close>

text \<open>The packet letters a client never sends: no letter of \<open>L\<close> follows a \<^verbatim>\<open>$\<close> in its stream.  The flag says
  that the byte before was a \<^verbatim>\<open>$\<close>.\<close>

fun avoids :: "string \<Rightarrow> bool \<Rightarrow> rx_event list \<Rightarrow> bool" where
  "avoids L d [] = True"
| "avoids L d (Rx c # es) \<longleftrightarrow> (d \<longrightarrow> c \<notin> set L) \<and> avoids L (c = CHR ''$'') es"
| "avoids L d (Idle # es) = avoids L d es"

text \<open>Neither the attached client nor one that may attach later sends a packet with a letter of \<open>L\<close>.\<close>

definition looker :: "string \<Rightarrow> gdb_stub \<Rightarrow> bool" where
  "looker L g \<longleftrightarrow> avoids L False (rx g) \<and> (\<forall>es. Some es \<in> set (clients g) \<longrightarrow> avoids L False es)"

lemma avoids_False: "avoids L d es \<Longrightarrow> avoids L False es"
  by (induction L d es rule: avoids.induct) auto

lemma avoids_recv1: "recv1 es = Some (c, fs) \<Longrightarrow> avoids L d es \<Longrightarrow> avoids L False fs"
  by (induction es arbitrary: d rule: recv1.induct) (auto dest: avoids_False)

lemma avoids_start: "skip_start es = Some fs \<Longrightarrow> avoids L d es \<Longrightarrow> avoids L True fs"
  by (induction es arbitrary: d rule: skip_start.induct) (auto split: if_splits)

lemma avoids_body:
  "take_body es = Some (b, fs) \<Longrightarrow> avoids L d es \<Longrightarrow> avoids L False fs \<and> (d \<longrightarrow> b \<noteq> [] \<longrightarrow> hd b \<notin> set L)"
proof (induction es arbitrary: b d rule: take_body.induct)
  case (2 c es)
  show ?case
  proof (cases "c = CHR ''#''")
    case False
    then obtain b1 where "take_body es = Some (b1, fs)" "b = c # b1"
      using "2.prems"(1) by (auto split: option.splits)
    then show ?thesis using "2.IH" [OF False, of b1 "c = CHR ''$''"] "2.prems"(2) by simp
  qed (use "2.prems" in \<open>auto dest: avoids_False\<close>)
qed auto

lemma avoids_packet:
  "packet_of es = Some (b, fs) \<Longrightarrow> avoids L False es \<Longrightarrow> avoids L False fs \<and> (b \<noteq> [] \<longrightarrow> hd b \<notin> set L)"
  by (auto simp: packet_of_def split: option.splits dest!: avoids_start avoids_recv1 avoids_body)

lemma recv_packet_looker:
  assumes "recv_packet g = (p, h)" "looker L g"
  shows "looker L h" "p \<noteq> [] \<Longrightarrow> hd p \<notin> set L"
proof -
  have "looker L h \<and> (p \<noteq> [] \<longrightarrow> hd p \<notin> set L)"
  proof (cases "packet_of (rx g)")
    case None
    then show ?thesis
      using assms by (auto simp: recv_packet_def close_conn_def looker_def)
  next
    case (Some bf)
    have h: "p = fst bf" "rx h = snd bf" "clients h = clients g"
      using assms(1) Some by (auto simp: recv_packet_def write_conn_def Let_def split: prod.splits)
    show ?thesis
      using assms(2) avoids_packet [of "rx g" "fst bf" "snd bf" L] Some by (simp add: looker_def h)
  qed
  then show "looker L h" "p \<noteq> [] \<Longrightarrow> hd p \<notin> set L" by simp_all
qed

lemma send_packet_looker: "looker L g \<Longrightarrow> looker L (send_packet b g)"
  by (auto simp: send_packet_def write_conn_def close_conn_def Let_def looker_def
      dest: avoids_recv1 split: option.splits)

lemma looker_update [simp]:
  "looker L (g\<lparr>breakpoints := B\<rparr>) = looker L g" "looker L (g\<lparr>stepping := b\<rparr>) = looker L g"
  "looker L (close_conn g) = looker L g" "looker L (g\<lparr>poll_ctr := n\<rparr>) = looker L g"
  by (simp_all add: looker_def close_conn_def)

text \<open>What a run of the stub may do while the letters \<open>L\<close> are avoided: it hands back the machine, ends the
  process only for a \<^verbatim>\<open>k\<close> packet and is undefined only for a packet that carries an address.\<close>

definition harmless :: "string \<Rightarrow> 'd state_t \<Rightarrow> after \<times> 'd debugged \<Rightarrow> bool" where
  "harmless L s r \<longleftrightarrow> fst (snd r) = s \<and> looker L (snd (snd r)) \<and>
     (fst r = Exit \<longrightarrow> CHR ''k'' \<notin> set L) \<and> (fst r = Undefined \<longrightarrow> \<not> set ''mZz'' \<subseteq> set L)"

lemma harmless_reply [simp]: "looker L g \<Longrightarrow> harmless L s (reply b (s, g))"
  by (simp add: harmless_def reply_def send_packet_looker)

lemma harmless_bp: "looker L g \<Longrightarrow> \<not> set ''mZz'' \<subseteq> set L \<Longrightarrow> harmless L s (bp_command f p (s, g))"
  by (auto simp: bp_command_def harmless_def reply_def send_packet_looker split: option.split)

lemma harmless_command:
  assumes "set ''GM'' \<subseteq> set L" "p \<noteq> [] \<Longrightarrow> hd p \<notin> set L" "looker L g"
  shows "harmless L s (gdb_command p (s, g))"
proof (cases "p = []")
  case False
  then have c: "hd p \<notin> set L" by (rule assms(2))
  have "harmless L s (case scan_range (c_str (tl p)) of None \<Rightarrow> (Undefined, s, g)
      | Some (va, len) \<Rightarrow> reply (read_memory va len s) (s, g))" if "hd p = CHR ''m''"
    using c that assms(3) by (auto simp: harmless_def reply_def send_packet_looker split: option.split)
  then show ?thesis
    using False c assms(1,3) harmless_bp [OF assms(3), of s]
    by (auto simp: gdb_command_def Let_def harmless_def [of _ _ "(Return, _)"] harmless_def [of _ _ "(Exit, _)"]
        send_packet_looker simp del: split_paired_All)
qed (use assms(3) in \<open>simp add: gdb_command_def\<close>)

lemma harmless_packets: "set ''GM'' \<subseteq> set L \<Longrightarrow> looker L g \<Longrightarrow> harmless L s (packets (s, g))"
proof (induction "(s, g)" arbitrary: s g rule: packets.induct)
  case (1 s g)
  show ?case
  proof (cases "conn g")
    case True
    obtain p g1 where rp: "recv_packet g = (p, g1)" by fastforce
    note l1 = recv_packet_looker [OF rp 1(3)]
    obtain a s2 g2 where c: "gdb_command p (s, g1) = (a, s2, g2)" by (metis prod.exhaust)
    have h: "harmless L s (a, s2, g2)" using harmless_command [OF 1(2) l1(2) l1(1), of s] c by simp
    show ?thesis
      using 1(1) [OF _ rp [symmetric] refl] 1(2) True rp c l1(1) h
      by (subst packets.simps) (auto simp: harmless_def split: after.splits)
  qed (use 1 in \<open>simp add: packets.simps harmless_def\<close>)
qed

lemma harmless_loop: "set ''GM'' \<subseteq> set L \<Longrightarrow> looker L g \<Longrightarrow> harmless L s (command_loop sig (s, g))"
  by (auto simp: command_loop_def intro!: harmless_packets send_packet_looker split: option.split)

lemma try_accept_looker: "looker L g \<Longrightarrow> looker L (try_accept g)"
  by (auto simp: try_accept_def looker_def split: list.splits option.splits)

lemma ctrlc_looker: "looker L g \<Longrightarrow> looker L (snd (ctrlc_pending g))"
  by (auto simp: ctrlc_pending_def looker_def close_conn_def dest: avoids_False split: list.splits rx_event.splits)

lemma harmless_hook:
  assumes "set ''GM'' \<subseteq> set L" "looker L g"
  shows "harmless L s (step_hook (s, g))"
proof -
  let ?p = "g\<lparr>poll_ctr := poll_ctr g + 1\<rparr>"
  have r: "looker L h \<Longrightarrow> harmless L s (Return, s, h)" for h
    by (simp add: harmless_def)
  show ?thesis
    using assms(2) try_accept_looker [of L ?p] ctrlc_looker [of L ?p]
    by (auto simp: step_hook_def Let_def split: prod.split intro!: r harmless_loop [OF assms(1)])
qed

text \<open>What the run loop relies on from a hook: while the other side is quiet, the hook hands back the machine
  it was given, and it only ends the process where it may.\<close>

locale quiet_hook =
  fixes hook :: "'d debugged \<Rightarrow> after \<times> 'd debugged"
    and quiet :: "gdb_stub \<Rightarrow> bool"
    and may_kill may_break :: bool
  assumes hands_back: "quiet g \<Longrightarrow> hook (s, g) = (r, t, h) \<Longrightarrow> t = s \<and> quiet h"
    and ends: "quiet g \<Longrightarrow> hook (s, g) = (r, t, h) \<Longrightarrow> (r = Exit \<longrightarrow> may_kill) \<and> (r = Undefined \<longrightarrow> may_break)"
begin

lemma quiet_step:
  assumes "quiet g"
  shows "case debug_step hook E n (s, g) of Ran x h \<Rightarrow> x = machine_step E n s \<and> quiet h | Killed \<Rightarrow> may_kill | Broken \<Rightarrow> may_break"
proof -
  obtain r t g1 where hk: "hook (maybe_take_interrupt E s, g) = (r, t, g1)" by (metis prod.exhaust)
  show ?thesis
    using hands_back [OF assms hk] ends [OF assms hk] by (cases r) (simp_all add: debug_step_def machine_step_def hk)
qed

lemma quiet_run:
  "quiet g \<Longrightarrow> case debug_run hook E n maxicnt k (s, g) of
     (stopped, Ran x h) \<Rightarrow> run_loop E n maxicnt k s = (case x of Inl e \<Rightarrow> Inl e | Inr t \<Rightarrow> Inr (stopped, t))
   | (_, Killed) \<Rightarrow> may_kill
   | (_, Broken) \<Rightarrow> may_break"
proof (induction k arbitrary: s g)
  case (Suc k)
  show ?case
  proof (cases "debug_step hook E n (s, g)")
    case (Ran y g1)
    then have "y = machine_step E n s" "quiet g1"
      using quiet_step [OF Suc.prems(1), of E n s] by simp_all
    then show ?thesis
      using Suc.IH [of g1] Ran by (auto split: sum.splits)
  qed (use quiet_step [OF Suc.prems(1), of E n s] in auto)
qed auto

end

interpretation stub: quiet_hook step_hook "looker (''GM'' @ L)" "CHR ''k'' \<notin> set L" "\<not> set ''mZz'' \<subseteq> set L" for L
proof
  fix g h :: gdb_stub and s t :: "'a state_t" and r
  assume "looker (''GM'' @ L) g" "step_hook (s, g) = (r, t, h)"
  then have "harmless (''GM'' @ L) s (r, t, h)"
    using harmless_hook [of "''GM'' @ L" g s] by simp
  then show "t = s \<and> looker (''GM'' @ L) h"
      "(r = Exit \<longrightarrow> CHR ''k'' \<notin> set L) \<and> (r = Undefined \<longrightarrow> \<not> set ''mZz'' \<subseteq> set L)"
    by (auto simp: harmless_def)
qed

text \<open>C28.  A debugger that looks on does not disturb the program.  While no client, attached or yet to
  attach, starts a packet with the letter G (write registers) or M (write memory), every run of any length
  with the stub either gives the result of the run without it, or is ended by a k packet, or by the undefined
  behaviour of a malformed m, Z0 or z0 packet.  A run whose clients send no k packet either is not ended that
  way, and one whose clients send no m, Z or z packet either meets no undefined behaviour.  The clients
  may send every other byte, stop the machine anywhere and vanish at any time.\<close>

theorem looking_on_transparent:
  assumes "looker (''GM'' @ L) g"
  shows "case debug_run step_hook E n maxicnt k (s, g) of
      (stopped, Ran x h) \<Rightarrow> run_loop E n maxicnt k s = (case x of Inl e \<Rightarrow> Inl e | Inr t \<Rightarrow> Inr (stopped, t))
    | (_, Killed) \<Rightarrow> CHR ''k'' \<notin> set L
    | (_, Broken) \<Rightarrow> \<not> set ''mZz'' \<subseteq> set L"
  using assms by (rule stub.quiet_run)

theorem looking_on_transparent_witness:
  "\<exists>x h. debug_run step_hook base_env 2 1000 1
      (state_zero (io_init ()), (gdb_new [])\<lparr>conn := True, stepping := True,
         rx := map Rx (''+'' @ frame ''vMustReplyEmpty'' @ ''+'' @ frame ''c'')\<rparr>) = (False, Ran x h) \<and>
    tx h = ''$S05#b8+$#00+'' \<and>
    run_loop base_env 2 1000 1 (state_zero (io_init ())) = (case x of Inl e \<Rightarrow> Inl e | Inr t \<Rightarrow> Inr (False, t))"
proof -
  let ?s = "state_zero (io_init ())"
  let ?g = "(gdb_new [])\<lparr>conn := True, stepping := True,
    rx := map Rx (''+'' @ frame ''vMustReplyEmpty'' @ ''+'' @ frame ''c'')\<rparr>"
  let ?r = "debug_run step_hook base_env 2 1000 1 (?s, ?g)"
  have "case ?r of (b, Ran x h) \<Rightarrow> \<not> b \<and> tx h = ''$S05#b8+$#00+'' | _ \<Rightarrow> False" by code_simp
  then obtain x h where r: "?r = (False, Ran x h)" "tx h = ''$S05#b8+$#00+''"
    by (auto split: prod.splits turn.splits)
  have "avoids ''GMkmZz'' False (rx ?g)" by code_simp
  then have "looker (''GM'' @ ''kmZz'') ?g" by (simp add: looker_def gdb_new_def)
  from looking_on_transparent [OF this, of base_env 2 1000 1 ?s] r show ?thesis by auto
qed

end
