(* ===== verification/Cosim.thy ===== *)
theory Cosim
  imports Interpreter
begin

text \<open>
  Lockstep co-simulation (src/cosim.cc over the spin semaphores of src/shmem.cc): two processes, the server
  with the golden machine and the client with the one under test, meet after every instruction; the server
  compares what the client has posted with its own state and stops both at the first difference.

  The processes share a segment and interleave freely.  Every access to the segment is a step of its own,
  one store of the client, one comparison of the server, one compare-and-swap; a step that finds its
  semaphore in the wrong state spins.  Steps are sequentially consistent, which the compare-and-swaps and the
  volatile accesses of the program give on the hosts it runs on.
\<close>

section \<open>State\<close>

text \<open>The arguments of a call of \<^verbatim>\<open>cosim_step\<close>.\<close>

record post =
  p_icnt :: u64
  p_pc :: u64
  p_gpr :: "5 word \<Rightarrow> u64"
  p_mem_hash :: u64
  p_cp0dbg :: "nat \<Rightarrow> u32"

record cosim_shared =
  sh_icnt :: u64
  sh_pc :: u64
  sh_gpr :: "5 word \<Rightarrow> u64"
  sh_mem_hash :: u64
  sh_cp0dbg :: "nat \<Rightarrow> u32"
  diverged :: bool

definition COSIM_NO_HASH :: u64 where "COSIM_NO_HASH = - 1"

text \<open>Where each process is inside its call, with the locals it keeps there.\<close>

datatype server_loc =
    S_down
  | S_pc
  | S_gpr nat bool
  | S_hash bool
  | S_flag bool
  | S_up bool
  | S_stop

datatype client_loc = C_post nat | C_up | C_down | C_read | C_stop

text \<open>\<open>lck\<close> are the semaphore words; \<open>s_call\<close> and \<open>c_call\<close> count the calls that have returned.\<close>

record cosim =
  cs :: cosim_shared
  lck :: "nat \<Rightarrow> int"
  s_loc :: server_loc
  s_call :: nat
  c_loc :: client_loc
  c_call :: nat

text \<open>\<^verbatim>\<open>shmServer\<close> clears the segment.\<close>

definition cosim_init :: cosim where
  "cosim_init = \<lparr>cs = \<lparr>sh_icnt = 0, sh_pc = 0, sh_gpr = (\<lambda>_. 0), sh_mem_hash = 0, sh_cp0dbg = (\<lambda>_. 0), diverged = False\<rparr>,
     lck = (\<lambda>_. 0), s_loc = S_down, s_call = 0, c_loc = C_post 0, c_call = 0\<rparr>"

section \<open>Steps\<close>

definition compare_and_swap :: "nat \<Rightarrow> int \<Rightarrow> int \<Rightarrow> cosim \<Rightarrow> bool \<times> cosim" where
  "compare_and_swap i old new c = (if lck c i = old then (True, c\<lparr>lck := (lck c)(i := new)\<rparr>) else (False, c))"

definition fastSemaDown :: "nat \<Rightarrow> cosim \<Rightarrow> bool \<times> cosim" where
  "fastSemaDown i c = compare_and_swap i 1 0 c"

definition fastSemaUp :: "nat \<Rightarrow> cosim \<Rightarrow> bool \<times> cosim" where
  "fastSemaUp i c = compare_and_swap i 0 1 c"

text \<open>The k-th store of the client: icnt, pc, the registers, the hash, the four debug words.\<close>

definition post_store :: "post \<Rightarrow> nat \<Rightarrow> cosim_shared \<Rightarrow> cosim_shared" where
  "post_store p k h =
     (if k = 0 then h\<lparr>sh_icnt := p_icnt p\<rparr>
      else if k = 1 then h\<lparr>sh_pc := p_pc p\<rparr>
      else if k < 34 then h\<lparr>sh_gpr := (sh_gpr h)(of_nat (k - 2) := p_gpr p (of_nat (k - 2)))\<rparr>
      else if k = 34 then h\<lparr>sh_mem_hash := p_mem_hash p\<rparr>
      else h\<lparr>sh_cp0dbg := (sh_cp0dbg h)(k - 35 := p_cp0dbg p (k - 35))\<rparr>)"

definition client_step :: "(nat \<Rightarrow> post) \<Rightarrow> cosim \<Rightarrow> cosim" where
  "client_step dut c =
     (case c_loc c of
        C_post k \<Rightarrow>
          c\<lparr>cs := post_store (dut (c_call c)) k (cs c), c_loc := if k < 38 then C_post (Suc k) else C_up\<rparr>
      | C_up \<Rightarrow> (let (ok, d) = fastSemaUp 0 c in if ok then d\<lparr>c_loc := C_down\<rparr> else d)
      | C_down \<Rightarrow> (let (ok, d) = fastSemaDown 1 c in if ok then d\<lparr>c_loc := C_read\<rparr> else d)
      | C_read \<Rightarrow> if diverged (cs c) then c\<lparr>c_loc := C_stop\<rparr> else c\<lparr>c_loc := C_post 0, c_call := Suc (c_call c)\<rparr>
      | C_stop \<Rightarrow> c)"

definition server_step :: "(nat \<Rightarrow> post) \<Rightarrow> cosim \<Rightarrow> cosim" where
  "server_step gold c =
     (let p = gold (s_call c) in
      case s_loc c of
        S_down \<Rightarrow> (let (ok, d) = fastSemaDown 0 c in if ok then d\<lparr>s_loc := S_pc\<rparr> else d)
      | S_pc \<Rightarrow> c\<lparr>s_loc := S_gpr 1 (sh_pc (cs c) \<noteq> p_pc p)\<rparr>
      | S_gpr i bad \<Rightarrow>
          c\<lparr>s_loc := if 32 \<le> i then S_hash bad
                      else if sh_gpr (cs c) (of_nat i) \<noteq> p_gpr p (of_nat i) then S_hash True
                      else S_gpr (Suc i) bad\<rparr>
      | S_hash bad \<Rightarrow>
          c\<lparr>s_loc := S_flag (bad \<or> (p_mem_hash p \<noteq> COSIM_NO_HASH \<and> sh_mem_hash (cs c) \<noteq> p_mem_hash p))\<rparr>
      | S_flag bad \<Rightarrow> c\<lparr>cs := if bad then (cs c)\<lparr>diverged := True\<rparr> else cs c, s_loc := S_up bad\<rparr>
      | S_up bad \<Rightarrow>
          (let (ok, d) = fastSemaUp 1 c in
           if \<not> ok then d
           else if bad then d\<lparr>s_loc := S_stop\<rparr>
           else d\<lparr>s_loc := S_down, s_call := Suc (s_call d)\<rparr>)
      | S_stop \<Rightarrow> c)"

inductive cosim_reach :: "(nat \<Rightarrow> post) \<Rightarrow> (nat \<Rightarrow> post) \<Rightarrow> cosim \<Rightarrow> bool" for gold dut where
  start: "cosim_reach gold dut cosim_init"
| client: "cosim_reach gold dut c \<Longrightarrow> cosim_reach gold dut (client_step dut c)"
| server: "cosim_reach gold dut c \<Longrightarrow> cosim_reach gold dut (server_step gold c)"

section \<open>What is posted\<close>

text \<open>FNV-1a over the low DRAM, word by word in the host's order.\<close>

definition ram_hash :: "(u32 \<Rightarrow> u8) \<Rightarrow> u64" where
  "ram_hash m =
     fold (\<lambda>i h. (h XOR mem_load 8 m (0x08000000 + of_nat (8 * i))) * 1099511628211)
       [0..<0x2000000] 1469598103934665603"

text \<open>The arguments of the run loop's call; the interval of the hashes is not 0, by which the program divides.\<close>

definition cosim_post :: "u64 \<Rightarrow> u64 \<Rightarrow> 'd state_t \<Rightarrow> post" where
  "cosim_post memstart memn s =
     \<lparr>p_icnt = icnt s, p_pc = pc s, p_gpr = gpr s,
      p_mem_hash = (if memstart \<le> icnt s \<and> icnt s mod memn = 0 then ram_hash (mem (sys s)) else COSIM_NO_HASH),
      p_cp0dbg = (\<lambda>i. [cpr0 s CPR0_CAUSE, cpr0 s CPR0_SR, cpr0 s CPR0_COUNT, cpr0 s CPR0_EPC] ! i)\<rparr>"

section \<open>Lockstep\<close>

text \<open>What the server compares.\<close>

definition agree :: "post \<Rightarrow> post \<Rightarrow> bool" where
  "agree g d \<longleftrightarrow> p_pc d = p_pc g \<and> (\<forall>i\<in>{1..<32}. p_gpr d (of_nat i) = p_gpr g (of_nat i)) \<and>
     (p_mem_hash g = COSIM_NO_HASH \<or> p_mem_hash d = p_mem_hash g)"

text \<open>The first k stores of a post have arrived.\<close>

definition posted :: "post \<Rightarrow> nat \<Rightarrow> cosim_shared \<Rightarrow> bool" where
  "posted p k h \<longleftrightarrow>
     (1 < k \<longrightarrow> sh_pc h = p_pc p) \<and>
     (\<forall>i<32. i + 2 < k \<longrightarrow> sh_gpr h (of_nat i) = p_gpr p (of_nat i)) \<and>
     (34 < k \<longrightarrow> sh_mem_hash h = p_mem_hash p)"

lemma posted_0 [simp]: "posted p 0 h"
  by (simp add: posted_def)

lemma posted_diverged [simp]: "posted p k (h\<lparr>diverged := b\<rparr>) = posted p k h"
  by (simp add: posted_def)

lemma post_store_diverged [simp]: "diverged (post_store p k h) = diverged h"
  by (simp add: post_store_def)

lemma posted_Suc: "posted p k h \<Longrightarrow> posted p (Suc k) (post_store p k h)"
  by (auto simp: posted_def post_store_def less_Suc_eq)

text \<open>The locals of the server say what it has compared so far.\<close>

definition regs_agree :: "nat \<Rightarrow> post \<Rightarrow> post \<Rightarrow> bool" where
  "regs_agree n g d \<longleftrightarrow> (\<forall>i\<in>{1..<n}. p_gpr d (of_nat i) = p_gpr g (of_nat i))"

fun compared :: "post \<Rightarrow> post \<Rightarrow> bool \<Rightarrow> server_loc \<Rightarrow> bool" where
  "compared g d dv S_pc \<longleftrightarrow> \<not> dv"
| "compared g d dv (S_gpr i bad) \<longleftrightarrow>
     \<not> dv \<and> 1 \<le> i \<and> i \<le> 32 \<and> (bad \<longleftrightarrow> p_pc d \<noteq> p_pc g) \<and> regs_agree i g d"
| "compared g d dv (S_hash bad) \<longleftrightarrow> \<not> dv \<and> (bad \<longleftrightarrow> \<not> (p_pc d = p_pc g \<and> regs_agree 32 g d))"
| "compared g d dv (S_flag bad) \<longleftrightarrow> \<not> dv \<and> (bad \<longleftrightarrow> \<not> agree g d)"
| "compared g d dv (S_up bad) \<longleftrightarrow> (dv \<longleftrightarrow> bad) \<and> (bad \<longleftrightarrow> \<not> agree g d)"
| "compared g d dv S_down \<longleftrightarrow> False"
| "compared g d dv S_stop \<longleftrightarrow> False"

text \<open>The phases of a round: the client posts; it has posted; the server compares; the server has released
  the client, having gone on to its next call or stopped; both have stopped.\<close>

definition verdict_out :: "(nat \<Rightarrow> post) \<Rightarrow> (nat \<Rightarrow> post) \<Rightarrow> cosim \<Rightarrow> bool" where
  "verdict_out gold dut c \<longleftrightarrow>
     (let n = c_call c in
      if agree (gold n) (dut n) then s_loc c = S_down \<and> s_call c = Suc n \<and> \<not> diverged (cs c)
      else s_loc c = S_stop \<and> s_call c = n \<and> diverged (cs c))"

definition cosim_inv :: "(nat \<Rightarrow> post) \<Rightarrow> (nat \<Rightarrow> post) \<Rightarrow> cosim \<Rightarrow> bool" where
  "cosim_inv gold dut c \<longleftrightarrow>
     (let n = c_call c; p = dut n; waits = (s_loc c = S_down \<and> s_call c = n \<and> \<not> diverged (cs c)) in
      (\<forall>i<n. agree (gold i) (dut i)) \<and>
      (case c_loc c of
         C_post k \<Rightarrow> waits \<and> lck c 0 = 0 \<and> lck c 1 = 0 \<and> k < 39 \<and> posted p k (cs c)
       | C_up \<Rightarrow> waits \<and> lck c 0 = 0 \<and> lck c 1 = 0 \<and> posted p 39 (cs c)
       | C_down \<Rightarrow>
           (waits \<and> lck c 0 = 1 \<and> lck c 1 = 0 \<and> posted p 39 (cs c)) \<or>
           (compared (gold n) p (diverged (cs c)) (s_loc c) \<and> s_call c = n \<and> lck c 0 = 0 \<and> lck c 1 = 0 \<and> posted p 39 (cs c)) \<or>
           (verdict_out gold dut c \<and> lck c 0 = 0 \<and> lck c 1 = 1)
       | C_read \<Rightarrow> verdict_out gold dut c \<and> lck c 0 = 0 \<and> lck c 1 = 0
       | C_stop \<Rightarrow> \<not> agree (gold n) p \<and> s_loc c = S_stop \<and> s_call c = n))"

lemmas sema_defs = fastSemaUp_def fastSemaDown_def compare_and_swap_def

lemma client_keeps:
  assumes "cosim_inv gold dut c"
  shows "cosim_inv gold dut (client_step dut c)"
proof (cases "c_loc c")
  case (C_post k)
  then show ?thesis
    using assms posted_Suc [of "dut (c_call c)" k "cs c"]
    by (cases "k = 38") (auto simp: client_step_def cosim_inv_def Let_def)
next
  case C_read
  then show ?thesis
    using assms by (auto simp: client_step_def cosim_inv_def verdict_out_def Let_def less_Suc_eq split: if_splits)
qed (use assms in \<open>auto simp: client_step_def cosim_inv_def verdict_out_def sema_defs Let_def\<close>)

text \<open>While the server compares, the client waits and its post is complete.\<close>

definition comparing :: "(nat \<Rightarrow> post) \<Rightarrow> (nat \<Rightarrow> post) \<Rightarrow> cosim \<Rightarrow> bool" where
  "comparing gold dut c \<longleftrightarrow>
     c_loc c = C_down \<and> s_call c = c_call c \<and> lck c 0 = 0 \<and> lck c 1 = 0 \<and>
     posted (dut (c_call c)) 39 (cs c) \<and> (\<forall>i < c_call c. agree (gold i) (dut i)) \<and>
     compared (gold (c_call c)) (dut (c_call c)) (diverged (cs c)) (s_loc c)"

lemma inv_comparing: "cosim_inv gold dut c \<Longrightarrow> s_loc c \<noteq> S_down \<Longrightarrow> s_loc c \<noteq> S_stop \<Longrightarrow> comparing gold dut c"
  by (auto simp: cosim_inv_def comparing_def verdict_out_def Let_def split: client_loc.splits if_splits)

lemma comparing_inv: "comparing gold dut c \<Longrightarrow> cosim_inv gold dut c"
  by (simp add: cosim_inv_def comparing_def Let_def)

lemma regs_agree_Suc:
  "1 \<le> i \<Longrightarrow> regs_agree (Suc i) g d \<longleftrightarrow> regs_agree i g d \<and> p_gpr d (of_nat i) = p_gpr g (of_nat i)"
  by (auto simp: regs_agree_def less_Suc_eq)

lemma regs_disagree: "1 \<le> i \<Longrightarrow> i < 32 \<Longrightarrow> p_gpr d (of_nat i) \<noteq> p_gpr g (of_nat i) \<Longrightarrow> \<not> regs_agree 32 g d"
  by (auto simp: regs_agree_def)

lemma comparing_step:
  assumes "comparing gold dut c" "\<And>b. s_loc c \<noteq> S_up b"
  shows "comparing gold dut (server_step gold c)"
proof (cases "s_loc c")
  case (S_gpr i bad)
  have "sh_gpr (cs c) (of_nat i) = p_gpr (dut (c_call c)) (of_nat i)" if "i < 32"
    using assms(1) that by (simp add: comparing_def posted_def)
  then show ?thesis
    using assms(1) S_gpr regs_disagree [of i "dut (c_call c)" "gold (c_call c)"]
    by (cases "i = 32") (auto simp: comparing_def server_step_def regs_agree_Suc Let_def)
qed (use assms in \<open>auto simp: comparing_def server_step_def posted_def agree_def regs_agree_def Let_def\<close>)

lemma server_keeps:
  assumes "cosim_inv gold dut c"
  shows "cosim_inv gold dut (server_step gold c)"
proof (cases "s_loc c")
  case S_stop
  then show ?thesis
    using assms by (simp add: server_step_def)
next
  case S_down
  then show ?thesis
    using assms
    by (auto simp: server_step_def cosim_inv_def verdict_out_def sema_defs Let_def split: client_loc.splits if_splits)
next
  case (S_up b)
  then show ?thesis
    using inv_comparing [OF assms]
    by (auto simp: server_step_def cosim_inv_def comparing_def verdict_out_def sema_defs Let_def)
qed (use comparing_inv [OF comparing_step [OF inv_comparing [OF assms]]] in simp_all)

lemma cosim_reach_inv: "cosim_reach gold dut c \<Longrightarrow> cosim_inv gold dut c"
proof (induction rule: cosim_reach.induct)
  case start
  show ?case by (simp add: cosim_inv_def cosim_init_def Let_def)
qed (simp_all add: client_keeps server_keeps)

text \<open>C27.  The comparison is exact under every interleaving: a call that returns on either side has compared two
  states that agree, a process only stops at a difference, it is the first one, and both stop at the same
  call.  No half-written post is ever compared.\<close>

theorem first_divergence_stops_both:
  assumes "cosim_reach gold dut c"
  shows "(\<forall>i < s_call c. agree (gold i) (dut i)) \<and> (\<forall>i < c_call c. agree (gold i) (dut i)) \<and>
    (s_loc c = S_stop \<longrightarrow> \<not> agree (gold (s_call c)) (dut (s_call c)) \<and> c_call c = s_call c) \<and>
    (c_loc c = C_stop \<longrightarrow> \<not> agree (gold (c_call c)) (dut (c_call c)) \<and> s_loc c = S_stop \<and> s_call c = c_call c)"
  using cosim_reach_inv [OF assms]
  by (auto simp: cosim_inv_def verdict_out_def Let_def less_Suc_eq split: client_loc.splits if_splits)

definition zero_post :: post where
  "zero_post = \<lparr>p_icnt = 0, p_pc = 0, p_gpr = (\<lambda>_. 0), p_mem_hash = COSIM_NO_HASH, p_cp0dbg = (\<lambda>_. 0)\<rparr>"

text \<open>A machine that is co-simulated with itself never stops.\<close>

lemma self_cosimulation: "cosim_reach gold gold c \<Longrightarrow> s_loc c \<noteq> S_stop \<and> c_loc c \<noteq> C_stop"
  using cosim_reach_inv [of gold gold c]
  by (auto simp: cosim_inv_def verdict_out_def agree_def Let_def split: client_loc.splits)

section \<open>Progress\<close>

text \<open>A schedule says whose turn it is.\<close>

definition cosim_turn :: "(nat \<Rightarrow> post) \<Rightarrow> (nat \<Rightarrow> post) \<Rightarrow> bool \<Rightarrow> cosim \<Rightarrow> cosim" where
  "cosim_turn gold dut b c = (if b then server_step gold c else client_step dut c)"

primrec scheduled :: "(bool \<Rightarrow> 'c \<Rightarrow> 'c) \<Rightarrow> 'c \<Rightarrow> (nat \<Rightarrow> bool) \<Rightarrow> nat \<Rightarrow> 'c" where
  "scheduled turn c sched 0 = c"
| "scheduled turn c sched (Suc t) = turn (sched t) (scheduled turn c sched t)"

definition cosim_run :: "(nat \<Rightarrow> post) \<Rightarrow> (nat \<Rightarrow> post) \<Rightarrow> (nat \<Rightarrow> bool) \<Rightarrow> nat \<Rightarrow> cosim" where
  "cosim_run gold dut = scheduled (cosim_turn gold dut) cosim_init"

definition fair :: "(nat \<Rightarrow> bool) \<Rightarrow> bool" where
  "fair sched \<longleftrightarrow> (\<forall>m b. \<exists>t\<ge>m. sched t = b)"

text \<open>The contract of two processes that take turns: a turn spins or does some work, and one of the two can
  always work until both are done.  Under a fair schedule bounded work is then finished.\<close>

locale process_pair =
  fixes init :: 'c
    and turn :: "bool \<Rightarrow> 'c \<Rightarrow> 'c"
    and ok :: "'c \<Rightarrow> bool"
    and amount :: "'c \<Rightarrow> nat"
    and done0 :: "'c \<Rightarrow> bool"
  assumes ok_init: "ok init"
    and ok_turn: "ok c \<Longrightarrow> ok (turn b c)"
    and spins_or_works: "ok c \<Longrightarrow> turn b c = c \<or> amount c < amount (turn b c)"
    and some_works: "ok c \<Longrightarrow> \<not> done0 c \<Longrightarrow> \<exists>b. amount c < amount (turn b c)"
begin

lemma run_ok: "ok (scheduled turn init sched t)"
  by (induction t) (simp_all add: ok_init ok_turn)

lemma run_works:
  "t \<le> u \<Longrightarrow> scheduled turn init sched u = scheduled turn init sched t \<or>
     amount (scheduled turn init sched t) < amount (scheduled turn init sched u)"
proof (induction u rule: dec_induct)
  case (step u)
  then show ?case using spins_or_works [OF run_ok, of "sched u" sched u] by auto
qed simp

lemma fair_works:
  assumes "fair sched" "\<not> done0 (scheduled turn init sched t)"
  shows "\<exists>u. amount (scheduled turn init sched t) < amount (scheduled turn init sched u)"
proof -
  let ?c = "scheduled turn init sched"
  obtain b where b: "amount (?c t) < amount (turn b (?c t))"
    using some_works [OF run_ok assms(2)] by blast
  obtain u where u: "t \<le> u" "sched u = b"
    using assms(1) by (auto simp: fair_def)
  show ?thesis
  proof (cases "?c u = ?c t")
    case True
    then have "amount (?c t) < amount (?c (Suc u))" using b u(2) by simp
    then show ?thesis ..
  next
    case False
    then show ?thesis using run_works [OF u(1), of sched] by blast
  qed
qed

lemma bounded_work_done:
  assumes "fair sched" "\<And>t. amount (scheduled turn init sched t) \<le> k"
  shows "\<exists>t. done0 (scheduled turn init sched t)"
proof (rule ccontr)
  assume *: "\<nexists>t. done0 (scheduled turn init sched t)"
  have "\<exists>t. j \<le> amount (scheduled turn init sched t)" for j
  proof (induction j)
    case (Suc j)
    then show ?case using fair_works [OF assms(1)] * by (meson Suc_leI le_less_trans)
  qed simp
  from this [of "Suc k"] show False using assms(2) not_less_eq_eq by blast
qed

end

fun server_pos :: "server_loc \<Rightarrow> nat" where
  "server_pos S_down = 0"
| "server_pos S_pc = 1"
| "server_pos (S_gpr i bad) = 1 + i"
| "server_pos (S_hash bad) = 34"
| "server_pos (S_flag bad) = 35"
| "server_pos (S_up bad) = 36"
| "server_pos S_stop = 37"

fun client_pos :: "client_loc \<Rightarrow> nat" where
  "client_pos (C_post k) = k"
| "client_pos C_up = 39"
| "client_pos C_down = 40"
| "client_pos C_read = 41"
| "client_pos C_stop = 42"

definition work :: "cosim \<Rightarrow> nat" where
  "work c = 80 * (s_call c + c_call c) + server_pos (s_loc c) + client_pos (c_loc c)"

definition stopped :: "cosim \<Rightarrow> bool" where
  "stopped c \<longleftrightarrow> s_loc c = S_stop \<and> c_loc c = C_stop"

lemma inv_bounds:
  assumes "cosim_inv gold dut c"
  shows "server_pos (s_loc c) \<le> 37" "client_pos (c_loc c) \<le> 42" "s_loc c = S_gpr i b \<Longrightarrow> i \<le> 32"
    "c_loc c = C_post k \<Longrightarrow> k < 39"
proof -
  have "comparing gold dut c" if "s_loc c \<noteq> S_down" "s_loc c \<noteq> S_stop"
    by (rule inv_comparing [OF assms that])
  then show "server_pos (s_loc c) \<le> 37" "s_loc c = S_gpr i b \<Longrightarrow> i \<le> 32"
    by (cases "s_loc c"; simp add: comparing_def)+
  show "client_pos (c_loc c) \<le> 42" "c_loc c = C_post k \<Longrightarrow> k < 39"
    using assms by (cases "c_loc c"; simp add: cosim_inv_def Let_def)+
qed

text \<open>A step spins or gets on.\<close>

lemma server_works:
  assumes "cosim_inv gold dut c"
  shows "server_step gold c = c \<or> work c < work (server_step gold c)"
  using inv_bounds(3) [OF assms]
  by (cases "s_loc c") (auto simp: server_step_def sema_defs work_def Let_def)

lemma client_works:
  assumes "cosim_inv gold dut c"
  shows "client_step dut c = c \<or> work c < work (client_step dut c)"
  using inv_bounds(4) [OF assms]
  by (cases "c_loc c") (auto simp: client_step_def sema_defs work_def Let_def)

text \<open>The two never wait for each other.\<close>

lemma not_stuck:
  assumes "cosim_inv gold dut c" "\<not> stopped c"
  shows "work c < work (server_step gold c) \<or> work c < work (client_step dut c)"
proof -
  consider (waits) "s_loc c = S_down" "c_loc c = C_down" "lck c 0 = 1" | (compares) "comparing gold dut c"
    | (moves) "c_loc c \<noteq> C_stop" "c_loc c = C_up \<Longrightarrow> lck c 0 = 0" "c_loc c = C_down \<Longrightarrow> lck c 1 = 1"
    using assms by (cases "c_loc c") (auto simp: cosim_inv_def comparing_def stopped_def Let_def)
  then show ?thesis
  proof cases
    case waits
    then show ?thesis by (simp add: server_step_def sema_defs work_def)
  next
    case compares
    then show ?thesis
      by (cases "s_loc c") (auto simp: comparing_def server_step_def sema_defs work_def Let_def)
  next
    case moves
    then show ?thesis
      using inv_bounds(4) [OF assms(1)] by (cases "c_loc c") (auto simp: client_step_def sema_defs work_def Let_def)
  qed
qed

interpretation pair: process_pair cosim_init "cosim_turn gold dut" "cosim_inv gold dut" work stopped for gold dut
proof
  show "cosim_inv gold dut cosim_init"
    by (rule cosim_reach_inv [OF cosim_reach.start])
  show "\<exists>b. work c < work (cosim_turn gold dut b c)" if "cosim_inv gold dut c" "\<not> stopped c" for c
    using not_stuck [OF that] by (metis cosim_turn_def)
qed (simp_all add: cosim_turn_def client_keeps server_keeps server_works client_works)

lemma run_reach: "cosim_reach gold dut (cosim_run gold dut sched t)"
  by (induction t) (auto simp: cosim_run_def cosim_turn_def intro: cosim_reach.intros)

lemma calls_bounded:
  assumes "\<not> agree (gold n) (dut n)" "cosim_reach gold dut c"
  shows "work c \<le> 160 * n + 79"
proof -
  have i: "cosim_inv gold dut c" by (rule cosim_reach_inv [OF assms(2)])
  have "\<forall>i < c_call c. agree (gold i) (dut i)" "\<forall>i < s_call c. agree (gold i) (dut i)"
    using i by (auto simp: cosim_inv_def verdict_out_def Let_def less_Suc_eq split: client_loc.splits if_splits)
  then have "c_call c \<le> n" "s_call c \<le> n"
    using assms(1) not_le by blast+
  then show ?thesis using inv_bounds(1,2) [OF i] by (simp add: work_def)
qed

lemma both_stop:
  "fair sched \<Longrightarrow> \<not> agree (gold n) (dut n) \<Longrightarrow> \<exists>t. stopped (cosim_run gold dut sched t)"
  using pair.bounded_work_done [of sched gold dut] calls_bounded [of gold n dut, OF _ run_reach]
  unfolding cosim_run_def by blast

text \<open>C26.  The co-simulation does not hang: under every schedule that lets both processes run again and again,
  the spin loops included, the first difference is found and both processes stop at it.\<close>

theorem divergence_found:
  assumes "fair sched" "\<not> agree (gold n) (dut n)" "\<forall>i<n. agree (gold i) (dut i)"
  shows "\<exists>t. s_loc (cosim_run gold dut sched t) = S_stop \<and> c_loc (cosim_run gold dut sched t) = C_stop \<and>
    s_call (cosim_run gold dut sched t) = n \<and> c_call (cosim_run gold dut sched t) = n"
proof -
  obtain t where t: "stopped (cosim_run gold dut sched t)"
    using both_stop [of sched gold n dut, OF assms(1,2)] by blast
  let ?c = "cosim_run gold dut sched t"
  have "\<not> agree (gold (c_call ?c)) (dut (c_call ?c)) \<and> s_call ?c = c_call ?c \<and> (\<forall>i < c_call ?c. agree (gold i) (dut i))"
    using cosim_reach_inv [OF run_reach, of gold dut sched t] t by (simp add: cosim_inv_def stopped_def Let_def)
  then have "c_call ?c = n \<and> s_call ?c = n"
    using assms(2,3) by (metis nat_neq_iff)
  then show ?thesis using t by (auto simp: stopped_def)
qed

lemma fair_even: "fair even"
  unfolding fair_def by (metis dvd_triv_left even_Suc le_SucI order_refl)

lemma zero_post_differs:
  "\<not> agree zero_post (zero_post\<lparr>p_pc := of_nat 1\<rparr>)" "\<forall>i < 1. agree zero_post (zero_post\<lparr>p_pc := of_nat i\<rparr>)"
  by (simp_all add: agree_def zero_post_def)

theorem divergence_found_witness:
  "\<exists>t. s_loc (cosim_run (\<lambda>_. zero_post) (\<lambda>i. zero_post\<lparr>p_pc := of_nat i\<rparr>) even t) = S_stop \<and>
     s_call (cosim_run (\<lambda>_. zero_post) (\<lambda>i. zero_post\<lparr>p_pc := of_nat i\<rparr>) even t) = 1"
  using divergence_found [of even "\<lambda>_. zero_post" 1 "\<lambda>i. zero_post\<lparr>p_pc := of_nat i\<rparr>",
      OF fair_even zero_post_differs] by blast

theorem first_divergence_stops_both_witness:
  "\<exists>c. cosim_reach (\<lambda>_. zero_post) (\<lambda>i. zero_post\<lparr>p_pc := of_nat i\<rparr>) c \<and> c_loc c = C_stop \<and> s_loc c = S_stop \<and>
     \<not> agree zero_post (zero_post\<lparr>p_pc := of_nat (c_call c)\<rparr>) \<and> s_call c = c_call c"
proof -
  let ?g = "\<lambda>_ :: nat. zero_post" and ?d = "\<lambda>i. zero_post\<lparr>p_pc := of_nat i\<rparr>"
  obtain t where "stopped (cosim_run ?g ?d even t)"
    using both_stop [of even ?g 1 ?d, OF fair_even zero_post_differs(1)] by blast
  then obtain c where c: "cosim_reach ?g ?d c" "c_loc c = C_stop" "s_loc c = S_stop"
    using run_reach unfolding stopped_def by blast
  show ?thesis
    using first_divergence_stops_both [OF c(1)] c by blast
qed

end
