(* ===== verification/Newport_State.thy ===== *)
theory Newport_State
  imports Prelude
begin

text \<open>
  The state of the Newport graphics board (\<^verbatim>\<open>class sgi_newport\<close> with its nested structs, src/sgi_newport.hh):
  the registers of the REX3 raster engine, the RB2 framebuffer, the chips behind the display control bus
  (XMAP9, CMAP, VC2, RAMDAC) and the board itself.

  \<^item> An \<^verbatim>\<open>int16_t\<close> or \<^verbatim>\<open>int32_t\<close> is a word, read through \<^const>\<open>sint\<close>.
  \<^item> A framebuffer is a function of the word index; \<open>np_fault\<close> records an access outside the
    allocated words.  \<^verbatim>\<open>rb.ptr\<close> has no field: every access sets it first, so it is an argument.
  \<^item> The floating-point operations of the host and the knob \<^verbatim>\<open>NEWPORT_SCALAR\<close> are the record \<open>np_host\<close>.
  \<^item> The fields for captures (\<^verbatim>\<open>touching\<close>, \<^verbatim>\<open>touched\<close>) and the display pointer are left out.
\<close>

section \<open>State\<close>

record rex3 =
  draw_mode0 :: u32
  draw_mode1 :: u32
  color_host :: bool
  rwpacked :: bool
  rwdouble :: bool
  blend_back :: bool
  plane_enable :: u8
  plane_depth :: u8
  hostdepth :: u8
  sfactor :: u8
  dfactor :: u8
  host_shift :: u32
  ls_mode :: u32
  ls_pattern :: u32
  ls_pattern_saved :: u32
  z_pattern :: u32
  color_back :: u32
  color_vram :: u32
  alpha_ref :: u32
  setup_reg :: u32
  step_z :: u32
  x_start :: u32
  y_start :: u32
  x_end :: u32
  y_end :: u32
  x_start_frac :: u16
  y_start_frac :: u16
  x_end_frac :: u16
  y_end_frac :: u16
  x_save :: u16
  xy_move :: u32
  x_move :: u16
  y_move :: u16
  bres_d :: u32
  bres_s1 :: u32
  bres_octant_inc1 :: u32
  bres_round_inc2 :: u32
  bres_e1 :: u32
  bres_s2 :: u32
  a_weight0 :: u32
  a_weight1 :: u32
  x_start_f :: u32
  y_start_f :: u32
  x_end_f :: u32
  y_end_f :: u32
  x_start_i :: u16
  y_start_i :: u16
  x_end_i :: u16
  y_end_i :: u16
  xy_start_i :: u32
  xy_end_i :: u32
  x_start_end_i :: u32
  color_red :: u32
  color_alpha :: u32
  color_green :: u32
  color_blue :: u32
  curr_red :: u32
  curr_alpha :: u32
  curr_green :: u32
  curr_blue :: u32
  slope_red :: u32
  slope_alpha :: u32
  slope_green :: u32
  slope_blue :: u32
  write_mask :: u32
  color_i :: u32
  zero_overflow :: u32
  host_dataport :: u64
  dcb_mode :: u32
  dcb_reg_select :: u32
  dcb_slave_select :: u32
  dcb_data_msw :: u32
  dcb_data_lsw :: u32
  dcb_mask :: u32
  smask_x :: "nat \<Rightarrow> u32"
  smask_y :: "nat \<Rightarrow> u32"
  top_scanline :: u32
  xy_window :: u32
  x_window :: u16
  y_window :: u16
  clip_mode :: u32
  rex_config :: u32
  rex_status :: u32

text \<open>\<^verbatim>\<open>rb.dest\<close> is one of the two buffers.\<close>

record rb2 =
  global_mask :: u32
  rb_write_mask :: u32
  rb_blend :: bool
  rb_fast_clear :: bool
  rb_plane_enable :: u8
  draw_depth :: u8
  logicop :: u8
  src_shift :: u8
  rgbci :: "u32 \<Rightarrow> u32"
  cidaux :: "u32 \<Rightarrow> u32"
  dest_aux :: bool

record xmap9 =
  xm_config :: u32
  xm_revision :: u32
  cursor_cmap :: u32
  popup_cmap :: u32
  mode_idx :: u32
  xm_mode :: "nat \<Rightarrow> u32"

record cmap =
  cm_status :: u32
  cm_revision :: u32
  cm_idx :: u16
  pal :: "u16 \<Rightarrow> u32"

record vc2 =
  vid_entry :: u16
  cursor_entry :: u16
  cursor_x :: u16
  cursor_y :: u16
  cur_cursor_x :: u16
  did_entry :: u16
  scanline_len :: u16
  ram_addr :: u16
  vt_frame_ptr :: u16
  vt_line_ptr :: u16
  vt_line_run :: u16
  vt_line_count :: u16
  cursor_table_ptr :: u16
  work_cursor_y :: u16
  did_frame_ptr :: u16
  did_line_ptr :: u16
  display_ctrl :: u16
  vc_config :: u16
  reg_idx :: u8
  vram :: "u16 \<Rightarrow> u16"
  readout_y0 :: int
  readout_y1 :: int
  cursor_on :: bool

record newport =
  rex :: rex3
  rb :: rb2
  xmap :: "bool \<Rightarrow> xmap9"
  cmaps :: "bool \<Rightarrow> cmap"
  vc :: vc2
  lut_r :: "u8 \<Rightarrow> u32"
  lut_g :: "u8 \<Rightarrow> u32"
  lut_b :: "u8 \<Rightarrow> u32"
  lut_idx :: u8
  vrint_line :: bool
  next_vblank :: u64
  vblank_period :: u64
  nframes :: u64
  backbusy_until :: u64
  in_dma :: bool
  go_pixels :: u64
  np_fault :: bool

text \<open>The host: \<^verbatim>\<open>float\<close> operations on the bit patterns of single precision.\<close>

record np_host =
  np_scalar :: bool
  fl_of_u32 :: "u32 \<Rightarrow> u32"
  fl_div :: "u32 \<Rightarrow> u32 \<Rightarrow> u32"
  fl_mul :: "u32 \<Rightarrow> u32 \<Rightarrow> u32"
  fl_add :: "u32 \<Rightarrow> u32 \<Rightarrow> u32"
  fl_sub :: "u32 \<Rightarrow> u32 \<Rightarrow> u32"
  fl_less :: "u32 \<Rightarrow> u32 \<Rightarrow> bool"
  fl_to_u32 :: "u32 \<Rightarrow> u32"

definition FB_W :: int where "FB_W = 1280 + 64"
definition FB_H :: int where "FB_H = 1024 + 64"
definition DISP_W :: int where "DISP_W = 1280"
definition DISP_H :: int where "DISP_H = 1024"

abbreviation fb_words :: int where "fb_words \<equiv> FB_W * FB_H"

definition bitn :: "u32 \<Rightarrow> nat \<Rightarrow> u32" where "bitn x n = b2w (bit x n)"
definition hi16 :: "u32 \<Rightarrow> u16" where "hi16 w = ucast (drop_bit 16 w)"
definition lo16 :: "u32 \<Rightarrow> u16" where "lo16 w = ucast w"

definition upd_rex :: "(rex3 \<Rightarrow> rex3) \<Rightarrow> newport \<Rightarrow> newport" where
  "upd_rex f n = n\<lparr>rex := f (rex n)\<rparr>"

end
