(* ===== verification/Newport.thy ===== *)
theory Newport
  imports Newport_State
begin

text \<open>
  The drawing side of the Newport board (src/sgi_newport.cc): writes to the framebuffer, colours,
  clipping, and every drawing command: spans and blocks with their vector kernel \<^verbatim>\<open>span_fast\<close>, lines,
  pixel reads and screen copies.

  Arithmetic in \<^verbatim>\<open>int\<close> that stays far from its bounds is done on \<open>int\<close>; the loops that compare
  16-bit coordinates for equality wrap as the source does, and their termination is proved here.
  Traces, captures (\<^verbatim>\<open>touching\<close>, \<^verbatim>\<open>go_hook\<close>) and the counters of the log are left out.
\<close>

section \<open>RB2\<close>

definition dest_of :: "rb2 \<Rightarrow> u32 \<Rightarrow> u32" where
  "dest_of b = (if dest_aux b then cidaux b else rgbci b)"

definition set_dest :: "(u32 \<Rightarrow> u32) \<Rightarrow> rb2 \<Rightarrow> rb2" where
  "set_dest f b = (if dest_aux b then b\<lparr>cidaux := f\<rparr> else b\<lparr>rgbci := f\<rparr>)"

definition s_shift :: "u8 list list list" where
  "s_shift =
    [[[0, 0], [0, 0], [0, 0], [0, 0]],
     [[0, 0], [0, 8], [0, 12], [0, 0]],
     [[0, 0], [0, 8], [0, 12], [0, 0]],
     [[0, 0], [0, 0], [0, 0], [0, 0]],
     [[8, 16], [8, 16], [8, 16], [8, 16]],
     [[2, 6], [2, 6], [2, 6], [2, 6]],
     [[0, 4], [0, 4], [0, 4], [0, 4]],
     [[0, 0], [0, 0], [0, 0], [0, 0]]]"

definition rb_set_flags :: "u32 \<Rightarrow> rb2 \<Rightarrow> rb2" where
  "rb_set_flags m1 b =
     (let plane = m1 AND 7; depth = drop_bit 3 m1 AND 3 in
      b\<lparr>rb_blend := bit m1 18, rb_fast_clear := bit m1 17, rb_plane_enable := ucast plane,
        draw_depth := ucast depth, logicop := ucast (drop_bit 28 m1 AND 0xf),
        src_shift := s_shift ! unat plane ! unat depth ! (if bit m1 5 then 1 else 0),
        dest_aux := (if plane = 1 \<or> plane = 2 then False
                     else if plane = 4 \<or> plane = 5 \<or> plane = 6 then True else dest_aux b)\<rparr>)"

definition rb_read :: "u32 \<Rightarrow> rb2 \<Rightarrow> u32" where
  "rb_read a b = drop_bit (unat (src_shift b)) (dest_of b a)"

definition rb_store :: "u32 \<Rightarrow> u32 \<Rightarrow> rb2 \<Rightarrow> rb2" where
  "rb_store a v b =
     (let m = rb_write_mask b AND global_mask b in
      set_dest ((dest_of b)(a := (dest_of b a AND NOT m) OR (v AND m))) b)"

definition replicate_lanes :: "u8 \<Rightarrow> u32 \<Rightarrow> u32" where
  "replicate_lanes depth src =
     (if depth = 0 then (let s = src OR push_bit 4 src; s = s OR push_bit 8 s in s OR push_bit 16 s)
      else if depth = 1 then (let s = src OR push_bit 8 src in s OR push_bit 16 s)
      else if depth = 2 then src OR push_bit 12 src
      else src)"

definition plane_shift :: "u8 \<Rightarrow> u32 \<Rightarrow> u32" where
  "plane_shift plane src =
     (if plane = 4 then push_bit 8 src else if plane = 5 then push_bit 2 src else src)"

definition logic_op :: "u8 \<Rightarrow> u32 \<Rightarrow> u32 \<Rightarrow> u32" where
  "logic_op op src dst =
     (if op = 0 then 0 else if op = 1 then src AND dst else if op = 2 then src AND NOT dst
      else if op = 3 then src else if op = 4 then NOT src AND dst else if op = 5 then dst
      else if op = 6 then src XOR dst else if op = 7 then src OR dst
      else if op = 8 then NOT (src OR dst) else if op = 9 then NOT (src XOR dst)
      else if op = 10 then NOT dst else if op = 11 then src OR NOT dst
      else if op = 12 then NOT src else if op = 13 then NOT src OR dst
      else if op = 14 then NOT (src AND dst) else 0xffffff)"

definition rb_write :: "u32 \<Rightarrow> u32 \<Rightarrow> rb2 \<Rightarrow> rb2" where
  "rb_write a src0 b =
     (let src = plane_shift (rb_plane_enable b) (replicate_lanes (draw_depth b) src0) in
      if rb_blend b \<or> rb_fast_clear b then rb_store a src b
      else rb_store a (logic_op (logicop b) src (rb_read a b)) b)"

text \<open>\<^verbatim>\<open>rb_set_addr\<close>: the pointer must stay inside the buffer.\<close>

definition rb_set_addr :: "u32 \<Rightarrow> newport \<Rightarrow> newport" where
  "rb_set_addr a n = n\<lparr>np_fault := np_fault n \<or> fb_words \<le> uint a\<rparr>"

definition upd_rb :: "(rb2 \<Rightarrow> rb2) \<Rightarrow> newport \<Rightarrow> newport" where
  "upd_rb f n = n\<lparr>rb := f (rb n)\<rparr>"

section \<open>Colours\<close>

definition unpack_bgr :: "u8 \<Rightarrow> u32 \<Rightarrow> u32 \<times> u32 \<times> u32" where
  "unpack_bgr from c =
     (if from = 0 then (0xff * bitn c 0, (0xaa * bitn c 2) OR (0x55 * bitn c 1), 0xff * bitn c 3)
      else if from = 1 then
        ((0x92 * bitn c 2) OR (0x49 * bitn c 1) OR (0x24 * bitn c 0),
         (0x92 * bitn c 5) OR (0x49 * bitn c 4) OR (0x24 * bitn c 3),
         (0xaa * bitn c 7) OR (0x55 * bitn c 6))
      else if from = 2 then (0x11 * (c AND 0xf), 0x11 * (drop_bit 4 c AND 0xf), 0x11 * (drop_bit 8 c AND 0xf))
      else (c AND 0xff, drop_bit 8 c AND 0xff, drop_bit 16 c AND 0xff))"

definition convert_depth :: "u32 \<Rightarrow> u8 \<Rightarrow> u8 \<Rightarrow> u32" where
  "convert_depth c from to =
     (if from = to then c
      else
        (let (r0, g0, b0) = unpack_bgr from c; r = r0 AND 0xff; g = g0 AND 0xff; b = b0 AND 0xff in
         if to = 0 then push_bit 3 (bitn b 7) OR drop_bit 5 (g AND 0xc0) OR bitn r 7
         else if to = 1 then (b AND 0xc0) OR drop_bit 2 (g AND 0xe0) OR drop_bit 5 (r AND 0xe0)
         else if to = 2 then push_bit 4 (b AND 0xf0) OR (g AND 0xf0) OR drop_bit 4 (r AND 0xf0)
         else push_bit 16 b OR push_bit 8 g OR r))"

definition s_host_shifts :: "u32 list" where "s_host_shifts = [8, 8, 16, 32]"
definition s_masks :: "u32 list" where "s_masks = [0xf, 0xff, 0xfff, 0xffffffff]"

definition host_color :: "rex3 \<Rightarrow> u32 \<times> rex3" where
  "host_color r =
     (let hd = unat (hostdepth r);
          c = ucast (drop_bit (unat (host_shift r)) (host_dataport r)) AND s_masks ! hd;
          r1 = (if rwpacked r
                then (if (rwdouble r \<and> 0 < host_shift r) \<or> 32 < host_shift r
                      then r\<lparr>host_shift := host_shift r - s_host_shifts ! hd\<rparr>
                      else r\<lparr>host_shift := 64 - s_host_shifts ! hd\<rparr>)
                else r);
          c = convert_depth c (hostdepth r) (plane_depth r)
      in (if bit (draw_mode1 r) 11 then ucast (bswap 4 (ucast c)) else c, r1))"

definition default_color :: "rex3 \<Rightarrow> u32 \<Rightarrow> u32" where
  "default_color r src =
     (let c = (if bit (draw_mode1 r) 17 then color_vram r else src) in
      if plane_depth r = 0 then
        (let c = c AND 0xf; c = c OR push_bit 4 c; c = c OR push_bit 8 c in c OR push_bit 16 c)
      else if plane_depth r = 1 then (let c = c AND 0xff; c = c OR push_bit 8 c in c OR push_bit 16 c)
      else if plane_depth r = 2 then
        (let c = (if bit (draw_mode1 r) 15
                  then drop_bit 12 (color_vram r AND 0xf00000) OR drop_bit 8 (color_vram r AND 0xf000)
                       OR drop_bit 4 (color_vram r AND 0xf0)
                  else c AND 0xfff)
         in c OR push_bit 12 c)
      else color_vram r AND 0xffffff)"

definition s_bayer :: "u32 list list" where
  "s_bayer = [[0, 12, 3, 15], [8, 4, 11, 7], [2, 14, 1, 13], [10, 6, 9, 5]]"

definition bayer_at :: "u16 \<Rightarrow> u16 \<Rightarrow> u32" where
  "bayer_at x y = s_bayer ! unat (x AND 3) ! unat (y AND 3)"

definition clamp9 :: "u32 \<Rightarrow> u32" where
  "clamp9 c =
     (let v = drop_bit 11 c AND 0x1ff in
      if 0x180 \<le> v \<or> bit c 31 then 0 else if 0xff < v then 0xff else v)"

text \<open>One channel of the dither: the integer part, one more when the fraction exceeds the threshold,
  and the limit.  The scaled channel is below 256, so the \<^verbatim>\<open>uint8_t\<close> of the source loses nothing.\<close>

definition dither_channel :: "u32 \<Rightarrow> u32 \<Rightarrow> u32 \<Rightarrow> u32" where
  "dither_channel lim bay s =
     (let d = drop_bit 4 s AND lim; d = (if bay < s AND 0xf then d + 1 else d) in if lim < d then lim else d)"

definition rgb_from :: "rex3 \<Rightarrow> u32 \<Rightarrow> u32 \<Rightarrow> u32 \<Rightarrow> u32 \<Rightarrow> u16 \<Rightarrow> u16 \<Rightarrow> u32" where
  "rgb_from r cr cg cb ca x y =
     (let red = clamp9 cr; green = clamp9 cg; blue = clamp9 cb; alpha = push_bit 24 (clamp9 ca) in
      if \<not> bit (draw_mode1 r) 15 then default_color r cr
      else if bit (draw_mode1 r) 16 then
        (let bay = bayer_at x y in
         if plane_depth r = 0 then
           (let dr = dither_channel 1 bay (drop_bit 3 red - drop_bit 4 red);
                dg = dither_channel 3 bay (drop_bit 2 green - drop_bit 4 green);
                db = dither_channel 1 bay (drop_bit 3 blue - drop_bit 4 blue);
                c = push_bit 3 db OR push_bit 1 dg OR dr
            in alpha OR push_bit 4 c OR c)
         else if plane_depth r = 1 then
           (let dr = dither_channel 7 bay (drop_bit 1 red - drop_bit 4 red);
                dg = dither_channel 7 bay (drop_bit 1 green - drop_bit 4 green);
                db = dither_channel 3 bay (drop_bit 2 blue - drop_bit 4 blue)
            in alpha OR push_bit 6 db OR push_bit 3 dg OR dr)
         else if plane_depth r = 2 then
           (let dr = dither_channel 15 bay (red - drop_bit 4 red);
                dg = dither_channel 15 bay (green - drop_bit 4 green);
                db = dither_channel 15 bay (blue - drop_bit 4 blue);
                c = push_bit 8 db OR push_bit 4 dg OR dr
            in alpha OR push_bit 12 c OR c)
         else alpha OR push_bit 16 blue OR push_bit 8 green OR red)
      else alpha OR convert_depth (push_bit 16 blue OR push_bit 8 green OR red) 3 (plane_depth r))"

definition rgb_color :: "rex3 \<Rightarrow> u16 \<Rightarrow> u16 \<Rightarrow> u32" where
  "rgb_color r x y = rgb_from r (curr_red r) (curr_green r) (curr_blue r) (curr_alpha r) x y"

definition sext_bits :: "nat \<Rightarrow> u32 \<Rightarrow> u32" where
  "sext_bits k v = signed_drop_bit (32 - k) (push_bit (32 - k) v)"

definition ci_clamp :: "u32 \<Rightarrow> u32" where
  "ci_clamp c =
     (let v = drop_bit 11 c AND 0x1ff in
      if 0x180 \<le> v \<or> bit c 31 then 0 else if 0xff < v then 0x7ffff else c)"

definition iterate_shade :: "rex3 \<Rightarrow> rex3" where
  "iterate_shade r =
     (let r1 = r\<lparr>curr_red := (if flag (slope_red r) 0x7fffff then curr_red r + sext_bits 24 (slope_red r) else curr_red r),
                 curr_green := (if flag (slope_green r) 0x7ffff then curr_green r + sext_bits 20 (slope_green r) else curr_green r),
                 curr_blue := (if flag (slope_blue r) 0x7ffff then curr_blue r + sext_bits 20 (slope_blue r) else curr_blue r),
                 curr_alpha := (if flag (slope_alpha r) 0x7ffff then curr_alpha r + sext_bits 20 (slope_alpha r) else curr_alpha r)\<rparr>
      in if \<not> bit (draw_mode0 r) 21 then r1
         else if bit (draw_mode1 r) 15 then
           r1\<lparr>curr_red := ci_clamp (curr_red r1), curr_green := ci_clamp (curr_green r1),
              curr_blue := ci_clamp (curr_blue r1), curr_alpha := ci_clamp (curr_alpha r1)\<rparr>
         else
           (let depth = drop_bit 3 (draw_mode1 r) AND 3 in
            if depth = 0 \<and> bit (color_red r1) 15 then r1\<lparr>color_red := 0x00007fff\<rparr>
            else if depth = 1 \<and> bit (color_red r1) 19 then r1\<lparr>color_red := 0x0007ffff\<rparr>
            else if depth = 2 \<and> bit (color_red r1) 21 then r1\<lparr>color_red := 0x001fffff\<rparr>
            else r1))"

section \<open>Pixels\<close>

text \<open>A coordinate inside a mask, both as 16-bit signed numbers.\<close>

definition inside :: "u16 \<Rightarrow> u16 \<Rightarrow> u16 \<Rightarrow> bool" where
  "inside lo hi x \<longleftrightarrow> lo <=s x \<and> x <=s hi"

definition clip_pass :: "u16 \<Rightarrow> u16 \<Rightarrow> rex3 \<Rightarrow> bool" where
  "clip_pass x0 y0 r \<longleftrightarrow>
     (bit (clip_mode r) 0 \<longrightarrow>
        inside (hi16 (smask_x r 0)) (lo16 (smask_x r 0)) x0 \<and> inside (hi16 (smask_y r 0)) (lo16 (smask_y r 0)) y0) \<and>
     (let x = x0 + x_window r - 0x1000; y = y0 + y_window r - 0x1000 in
      (flag (clip_mode r) 0x1e \<longrightarrow>
         list_ex (\<lambda>b. bit (clip_mode r) b \<and>
           inside (hi16 (smask_x r b) - 0x1000) (lo16 (smask_x r b) - 0x1000) x \<and>
           inside (hi16 (smask_y r b) - 0x1000) (lo16 (smask_y r b) - 0x1000) y) [1, 2, 3, 4]) \<and>
      \<not> (sint x < 0 \<or> sint y < 0 \<or> FB_W \<le> sint x \<or> DISP_H \<le> sint y))"

definition fl_unit :: "np_host \<Rightarrow> u32 \<Rightarrow> u32" where
  "fl_unit H v = fl_div H (fl_of_u32 H v) 0x437f0000"

type_synonym bgr = "u32 \<times> u32 \<times> u32"

definition map3 :: "(u32 \<Rightarrow> u32) \<Rightarrow> bgr \<Rightarrow> bgr" where
  "map3 f p = (case p of (b, g, r) \<Rightarrow> (f b, f g, f r))"

definition zip3 :: "(u32 \<Rightarrow> u32 \<Rightarrow> u32) \<Rightarrow> bgr \<Rightarrow> bgr \<Rightarrow> bgr" where
  "zip3 f p q = (case (p, q) of ((b, g, r), (b', g', r')) \<Rightarrow> (f b b', f g g', f r r'))"

definition bytes3 :: "np_host \<Rightarrow> u32 \<Rightarrow> bgr" where
  "bytes3 H w = map3 (fl_unit H) (drop_bit 16 w AND 0xff, drop_bit 8 w AND 0xff, w AND 0xff)"

definition nibbles3 :: "np_host \<Rightarrow> u32 \<Rightarrow> bgr" where
  "nibbles3 H w = map3 (fl_unit H) ((drop_bit 8 w AND 15) * 0x11, (drop_bit 4 w AND 15) * 0x11, (w AND 15) * 0x11)"

definition blend_source :: "np_host \<Rightarrow> rex3 \<Rightarrow> u32 \<Rightarrow> bgr" where
  "blend_source H r src =
     (if plane_depth r = 1 then (case unpack_bgr 1 src of (sr, sg, sb) \<Rightarrow> map3 (fl_of_u32 H) (sb, sg, sr))
      else if plane_depth r = 2 then nibbles3 H src
      else if plane_depth r = 3 then bytes3 H src
      else (0, 0, 0))"

definition blend_dest :: "np_host \<Rightarrow> rex3 \<Rightarrow> u32 \<Rightarrow> bgr" where
  "blend_dest H r dst =
     (if plane_depth r = 1 \<or> plane_depth r = 2 then (if blend_back r then bytes3 H (color_back r) else nibbles3 H dst)
      else if plane_depth r = 3 then (if blend_back r then bytes3 H (color_back r) else bytes3 H dst)
      else (0, 0, 0))"

definition fl_one_minus :: "np_host \<Rightarrow> u32 \<Rightarrow> u32" where
  "fl_one_minus H v = fl_sub H 0x3f800000 v"

definition source_term :: "np_host \<Rightarrow> rex3 \<Rightarrow> u32 \<Rightarrow> bgr \<Rightarrow> bgr \<Rightarrow> bgr" where
  "source_term H r sa s d =
     (let sfa = bit (draw_mode1 r) 27 in
      if sfactor r = 1 then s
      else if sfactor r = 2 then zip3 (fl_mul H) s d
      else if sfactor r = 3 then zip3 (\<lambda>a b. fl_mul H a (fl_one_minus H b)) s d
      else if sfactor r = 4 then (if sfa then map3 (\<lambda>a. fl_mul H a sa) s else s)
      else if sfactor r = 5 then (if sfa then map3 (\<lambda>a. fl_mul H a (fl_one_minus H sa)) s else (0, 0, 0))
      else (0, 0, 0))"

definition dest_term :: "np_host \<Rightarrow> rex3 \<Rightarrow> u32 \<Rightarrow> bgr \<Rightarrow> bgr \<Rightarrow> bgr" where
  "dest_term H r sa s d =
     (if dfactor r = 1 then d
      else if dfactor r = 2 then zip3 (fl_mul H) d s
      else if dfactor r = 3 then zip3 (\<lambda>a b. fl_mul H a (fl_one_minus H b)) d s
      else if dfactor r = 4 then map3 (\<lambda>a. fl_mul H a sa) d
      else if dfactor r = 5 then map3 (\<lambda>a. fl_mul H a (fl_one_minus H sa)) d
      else (0, 0, 0))"

definition fl_quantise :: "np_host \<Rightarrow> u32 \<Rightarrow> u32" where
  "fl_quantise H v =
     (if fl_less H 0x3f800000 v then 255 else if fl_less H v 0 then 0 else fl_to_u32 H (fl_mul H v 0x437f0000))"

definition blend_pixel :: "np_host \<Rightarrow> u32 \<Rightarrow> u32 \<Rightarrow> newport \<Rightarrow> newport" where
  "blend_pixel H a src n =
     (let r = rex n; sa = fl_unit H (drop_bit 24 src AND 0xff);
          s = blend_source H r src; d = blend_dest H r (rb_read a (rb n));
          (b, g, r') = map3 (fl_quantise H) (zip3 (fl_add H) (source_term H r sa s d) (dest_term H r sa s d))
      in if plane_depth r = 2 then
           upd_rb (rb_write a (push_bit 4 (b AND 0xf0) OR (g AND 0xf0) OR drop_bit 4 (r' AND 0xf0))) n
         else if plane_depth r = 3 then upd_rb (rb_write a (push_bit 16 b OR push_bit 8 g OR r')) n
         else n)"

text \<open>\<^verbatim>\<open>(uint32_t)(y * FB_W + x)\<close>.\<close>

definition fb_index :: "u16 \<Rightarrow> u16 \<Rightarrow> u32" where
  "fb_index x y = scast y * 1344 + scast x"

definition output_pixel :: "np_host \<Rightarrow> u16 \<Rightarrow> u16 \<Rightarrow> u32 \<Rightarrow> newport \<Rightarrow> newport" where
  "output_pixel H x y color n0 =
     (let n = n0\<lparr>go_pixels := go_pixels n0 + 1\<rparr>; r = rex n in
      if \<not> clip_pass x y r then n
      else
        (let a = fb_index (x + x_window r - 0x1000) (y + y_window r - 0x1000); n1 = rb_set_addr a n in
         if bit (draw_mode1 r) 18 then blend_pixel H a color n1 else upd_rb (rb_write a color) n1))"

section \<open>Coordinates\<close>

definition write_x_start :: "u32 \<Rightarrow> rex3 \<Rightarrow> rex3" where
  "write_x_start v r =
     (let i = ucast (signed_drop_bit 11 v) :: u16 in
      r\<lparr>x_start := v AND 0x07ffff80, x_start_frac := ucast (signed_drop_bit 7 v AND 0xf), x_start_i := i,
        x_start_f := v AND 0x007fff80, xy_start_i := (xy_start_i r AND 0x0000ffff) OR push_bit 16 (ucast i)\<rparr>)"

definition write_y_start :: "u32 \<Rightarrow> rex3 \<Rightarrow> rex3" where
  "write_y_start v r =
     (let i = ucast (signed_drop_bit 11 v) :: u16 in
      r\<lparr>y_start := v AND 0x07ffff80, y_start_frac := ucast (signed_drop_bit 7 v AND 0xf), y_start_i := i,
        y_start_f := v AND 0x007fff80, xy_start_i := (xy_start_i r AND 0xffff0000) OR ucast i\<rparr>)"

definition write_x_end :: "u32 \<Rightarrow> rex3 \<Rightarrow> rex3" where
  "write_x_end v r =
     (let i = ucast (signed_drop_bit 11 v) :: u16 in
      r\<lparr>x_end := v AND 0x07ffff80, x_end_frac := ucast (signed_drop_bit 7 v AND 0xf), x_end_i := i,
        x_end_f := v AND 0x007fff80, xy_end_i := (xy_end_i r AND 0x0000ffff) OR push_bit 16 (ucast i)\<rparr>)"

definition write_y_end :: "u32 \<Rightarrow> rex3 \<Rightarrow> rex3" where
  "write_y_end v r =
     (let i = ucast (signed_drop_bit 11 v) :: u16 in
      r\<lparr>y_end := v AND 0x07ffff80, y_end_frac := ucast (signed_drop_bit 7 v AND 0xf), y_end_i := i,
        y_end_f := v AND 0x007fff80, xy_end_i := (xy_end_i r AND 0xffff0000) OR ucast i\<rparr>)"

text \<open>\<^verbatim>\<open>c << 11\<close> of a 16-bit coordinate.\<close>

definition shl11 :: "u16 \<Rightarrow> u32" where "shl11 c = push_bit 11 (scast c)"

definition sext20 :: "u32 \<Rightarrow> int" where
  "sext20 v = sint (signed_drop_bit 12 (push_bit 12 v))"

definition octant :: "rex3 \<Rightarrow> nat" where
  "octant r = unat (drop_bit 24 (bres_octant_inc1 r) AND 7)"

definition do_setup :: "rex3 \<Rightarrow> rex3" where
  "do_setup r =
     (let x1 = sext20 (drop_bit 7 (x_start r)); y1 = sext20 (drop_bit 7 (y_start r));
          x2 = sext20 (drop_bit 7 (x_end r)); y2 = sext20 (drop_bit 7 (y_end r));
          dx = \<bar>x1 - x2\<bar>; dy = \<bar>y1 - y2\<bar>;
          oct = (if y2 < y1 then 1 else 0) OR (if x2 < x1 then 2 else 0) OR (if dy < dx then 4 else 0)
      in r\<lparr>bres_octant_inc1 := (bres_octant_inc1 r AND NOT 0x07000000) OR push_bit 24 oct\<rparr>)"

section \<open>Lines\<close>

record bres_t =
  incrx1 :: int
  incrx2 :: int
  incry1 :: int
  incry2 :: int
  y_loop :: bool

definition s_bres :: "bres_t list" where
  "s_bres =
     [\<lparr>incrx1 = 0, incrx2 = 1, incry1 = -1, incry2 = -1, y_loop = True\<rparr>,
      \<lparr>incrx1 = 0, incrx2 = 1, incry1 = 1, incry2 = 1, y_loop = True\<rparr>,
      \<lparr>incrx1 = 0, incrx2 = -1, incry1 = -1, incry2 = -1, y_loop = True\<rparr>,
      \<lparr>incrx1 = 0, incrx2 = -1, incry1 = 1, incry2 = 1, y_loop = True\<rparr>,
      \<lparr>incrx1 = 1, incrx2 = 1, incry1 = 0, incry2 = -1, y_loop = False\<rparr>,
      \<lparr>incrx1 = 1, incrx2 = 1, incry1 = 0, incry2 = 1, y_loop = False\<rparr>,
      \<lparr>incrx1 = -1, incrx2 = -1, incry1 = 0, incry2 = -1, y_loop = False\<rparr>,
      \<lparr>incrx1 = -1, incrx2 = -1, incry1 = 0, incry2 = 1, y_loop = False\<rparr>]"

text \<open>The lambdas \<^verbatim>\<open>plot\<close> and \<^verbatim>\<open>step\<close> of the two line routines; the first argument of \<open>line_plot\<close> is
  the shift of a coordinate, 4 for fractional lines and 0 for integer ones.\<close>

definition line_plot :: "np_host \<Rightarrow> nat \<Rightarrow> u32 \<Rightarrow> int \<Rightarrow> int \<Rightarrow> newport \<Rightarrow> newport" where
  "line_plot H sh color px py n =
     (let r = rex n; shade = bit (draw_mode0 r) 18; rgbmode = bit (draw_mode1 r) 15;
          x16 = word_of_int (drop_bit sh px); y16 = word_of_int (drop_bit sh py);
          n1 = output_pixel H x16 y16 (if shade \<or> rgbmode then rgb_color r x16 y16 else color) n
      in if shade then upd_rex iterate_shade n1 else n1)"

record line_t =
  l_x :: int
  l_y :: int
  l_d :: int

definition line_step :: "bres_t \<Rightarrow> int \<Rightarrow> int \<Rightarrow> line_t \<Rightarrow> line_t" where
  "line_step bi incr1 incr2 l =
     (if l_d l < 0 then \<lparr>l_x = l_x l + incrx1 bi, l_y = l_y l - incry1 bi, l_d = l_d l + incr1\<rparr>
      else \<lparr>l_x = l_x l + incrx2 bi, l_y = l_y l - incry2 bi, l_d = l_d l + incr2\<rparr>)"

primrec line_run :: "np_host \<Rightarrow> nat \<Rightarrow> u32 \<Rightarrow> bres_t \<Rightarrow> int \<Rightarrow> int \<Rightarrow> nat \<Rightarrow> line_t \<times> newport \<Rightarrow> line_t \<times> newport" where
  "line_run H sh color bi i1 i2 0 ln = ln"
| "line_run H sh color bi i1 i2 (Suc k) ln =
     (case ln of (l, n) \<Rightarrow>
        line_run H sh color bi i1 i2 k (line_step bi i1 i2 l, line_plot H sh color (l_x l) (l_y l) n))"

definition start_at :: "nat \<Rightarrow> int \<Rightarrow> int \<Rightarrow> newport \<Rightarrow> newport" where
  "start_at sh x y = upd_rex (\<lambda>r. write_y_start (word_of_int (push_bit sh y)) (write_x_start (word_of_int (push_bit sh x)) r))"

text \<open>The tail the two routines share: the first pixel, the loop, the last pixel, and the new start; the
  shifts of the start coordinates after a step and after the last pixel are those of the routine.\<close>

definition line_draw ::
    "np_host \<Rightarrow> nat \<Rightarrow> nat \<Rightarrow> nat \<Rightarrow> u32 \<Rightarrow> bres_t \<Rightarrow> int \<Rightarrow> int \<Rightarrow> int \<Rightarrow> line_t \<Rightarrow> int \<times> int \<Rightarrow> newport \<Rightarrow> newport" where
  "line_draw H sh up up_last color bi incr1 incr2 loop l0 e n =
     (let m0 = draw_mode0 (rex n); iterate_one = (m0 AND 0x300 = 0); skip_first = bit m0 10; skip_last = bit m0 11;
          run = line_run H sh color bi incr1 incr2;
          (l1, n1) = (if \<not> skip_first \<or> iterate_one then run 1 (l0, n) else (l0, n))
      in if iterate_one then start_at up (l_x l1) (l_y l1) n1
         else
           (let (l2, n2) = run (nat (loop - 1)) (l1, n1) in
            if skip_last then start_at up (l_x l2) (l_y l2) n2
            else start_at up_last (fst e) (snd e) (line_plot H sh color (fst e) (snd e) n2)))"

definition do_fline :: "np_host \<Rightarrow> u32 \<Rightarrow> newport \<Rightarrow> newport" where
  "do_fline H color n =
     (let r = rex n;
          x1 = sext20 (drop_bit 7 (x_start r)); y1 = sext20 (drop_bit 7 (y_start r));
          x2 = sext20 (drop_bit 7 (x_end r)); y2 = sext20 (drop_bit 7 (y_end r));
          x10 = x1 AND NOT 0xf; y10 = y1 AND NOT 0xf; x20 = x2 AND NOT 0xf; y20 = y2 AND NOT 0xf;
          x1f = sint (x_start_frac r); y1f = sint (y_start_frac r);
          dx = \<bar>x1 - x2\<bar>; dy = \<bar>y1 - y2\<bar>;
          dx_i = \<bar>x10 - x20\<bar> - 1; dy_i = \<bar>y10 - y20\<bar> - 1;
          oct = octant r; bi = s_bres ! oct;
          loop0 = (if y_loop bi then dy_i else dx_i);
          loop = (if bit (draw_mode0 r) 15 \<and> 32 < loop0 then 32 else loop0);
          incr1 = (if y_loop bi then 2 * dx else 2 * dy);
          incr2 = (if y_loop bi then 2 * (dx - dy) else 2 * (dy - dx));
          d0 = (if y_loop bi then 3 * dx - 2 * dy else 3 * dy - 2 * dx);
          (x1f, y1f, dx, dy) =
            (if oct = 1 then (y1f, x1f, dy, dx)
             else if oct = 3 then (y1f, 0x10 - x1f, dy, dx)
             else if oct = 7 then (0x10 - x1f, y1f, dx, dy)
             else if oct = 6 then (0x10 - x1f, 0x10 - y1f, dx, dy)
             else if oct = 2 then (0x10 - y1f, 0x10 - x1f, dy, dx)
             else if oct = 0 then (0x10 - y1f, x1f, dy, dx)
             else if oct = 4 then (x1f, 0x10 - y1f, dx, dy)
             else (x1f, y1f, dx, dy));
          d = d0 + 2 * ((dx * y1f) div 16 - (dy * x1f) div 16);
          e = d - 2 * dx;
          l0 = (if 0 < e
                then (if y_loop bi then \<lparr>l_x = x10 + incrx2 bi, l_y = y10, l_d = e\<rparr>
                      else \<lparr>l_x = x10, l_y = y10 + incry2 bi, l_d = e\<rparr>)
                else \<lparr>l_x = x10, l_y = y10, l_d = d\<rparr>)
      in line_draw H 4 7 0 color bi incr1 incr2 loop l0 (x2, y2) n)"

definition do_iline :: "np_host \<Rightarrow> u32 \<Rightarrow> newport \<Rightarrow> newport" where
  "do_iline H color n =
     (let r = rex n; x2 = sint (x_end_i r); y2 = sint (y_end_i r);
          x = sint (x_start_i r); y = sint (y_start_i r);
          dx = \<bar>x2 - x\<bar>; dy = \<bar>y2 - y\<bar>; bi = s_bres ! octant r;
          loop0 = (if y_loop bi then dy else dx);
          loop = (if bit (draw_mode0 r) 15 \<and> 32 < loop0 then 32 else loop0);
          incr1 = 2 * (if y_loop bi then dx else dy);
          incr2 = 2 * (if y_loop bi then dx - dy else dy - dx);
          l0 = \<lparr>l_x = x, l_y = y, l_d = incr1 - (if y_loop bi then dy else dx)\<rparr>
      in line_draw H 0 11 11 color bi incr1 incr2 loop l0 (x2, y2) n)"

section \<open>Pixel reads\<close>

definition do_pixel_read :: "newport \<Rightarrow> u32 \<times> newport" where
  "do_pixel_read n0 =
     (let n = n0\<lparr>go_pixels := go_pixels n0 + 1\<rparr>; r = rex n;
          sx = x_start_i r + x_window r - 0x1000; sy = y_start_i r + y_window r - 0x1000;
          (v, n1) = (if 0 \<le> sint sx \<and> 0 \<le> sint sy \<and> sint sx < FB_W \<and> sint sy < FB_H
                     then (rb_read (fb_index sx sy) (rb n), rb_set_addr (fb_index sx sy) n) else (0, n));
          v = (if plane_enable r = 1 \<or> plane_enable r = 2 then convert_depth v (plane_depth r) (hostdepth r) else v);
          x = x_start_i r + 1; ddy = (if y_end_i r <s y_start_i r then -1 else 1);
          (x, y) = (if x_end_i r <s x then (x_save r, y_start_i r + ddy) else (x, y_start_i r))
      in (v, upd_rex (\<lambda>r. write_y_start (shl11 y) (write_x_start (shl11 x) r)) n1))"

primrec word_read_loop :: "nat \<Rightarrow> nat \<Rightarrow> u32 \<Rightarrow> u64 \<times> newport \<Rightarrow> nat \<Rightarrow> u64 \<times> newport" where
  "word_read_loop bits shift m vn 0 = vn"
| "word_read_loop bits shift m vn (Suc k) =
     (let (p, n) = do_pixel_read (snd vn)
      in word_read_loop bits (shift - bits) m (fst vn OR push_bit shift (ucast (p AND m)), n) k)"

definition do_pixel_word_read :: "newport \<Rightarrow> u64 \<times> newport" where
  "do_pixel_word_read n =
     (let r = rex n; xs = hi16 (xy_start_i r); xe = hi16 (xy_end_i r); hd = unat (drop_bit 8 (draw_mode1 r) AND 3);
          maxw = [8, 4, 2, 1] ! hd * (if bit (draw_mode1 r) 10 then 2 else 1);
          width = min (unat (xe - xs + 1)) maxw; bits = [4, 8, 16, 32] ! hd
      in word_read_loop bits (64 - bits) ([0xf, 0xff, 0xfff, 0xffffffff] ! hd) (0, n) width)"

section \<open>Spans and blocks\<close>

text \<open>The locals of \<^verbatim>\<open>span_or_block\<close> that stay fixed over the rows; \<^verbatim>\<open>dx\<close> is -1 when \<open>sj_left\<close>.\<close>

record span_job =
  sj_prim_end :: u16
  sj_end :: u16
  sj_left :: bool
  sj_stop :: bool
  sj_pattern :: u32
  sj_opaque :: bool
  sj_shade :: bool
  sj_rgb :: bool
  sj_fastclear :: bool
  sj_color :: u32
  sj_abort :: bool

definition dir :: "bool \<Rightarrow> u16" where "dir left = (if left then -1 else 1)"

definition span_pixel :: "np_host \<Rightarrow> span_job \<Rightarrow> u16 \<Rightarrow> nat \<Rightarrow> u16 \<Rightarrow> newport \<Rightarrow> newport" where
  "span_pixel H j y b x n0 =
     (let n = (if sj_shade j then upd_rex iterate_shade n0 else n0) in
      if bit (sj_pattern j) b then
        (if color_host (rex n) then (let (c, r) = host_color (rex n) in output_pixel H x y c (n\<lparr>rex := r\<rparr>))
         else if (sj_shade j \<or> sj_rgb j) \<and> \<not> sj_fastclear j then output_pixel H x y (rgb_color (rex n) x y) n
         else output_pixel H x y (sj_color j) n)
      else if sj_opaque j then output_pixel H x y (color_back (rex n)) n
      else n)"

text \<open>The steps from a coordinate to the next one equal to a target, at least one.\<close>

definition steps_to :: "bool \<Rightarrow> u16 \<Rightarrow> u16 \<Rightarrow> nat" where
  "steps_to left x t = Suc (unat ((t - (x + dir left)) * dir left))"

lemma dir_sq [simp]: "dir l * dir l = 1" "dir l * (dir l * x) = x"
  by (auto simp: dir_def)

lemma unat_pred: "x \<noteq> 0 \<Longrightarrow> Suc (unat (x - 1)) = unat x" for x :: u16
  by (simp add: unat_minus_one word_gt_0 unat_gt_0)

lemma steps_to_step:
  assumes "x + dir l \<noteq> t"
  shows "steps_to l x t = Suc (steps_to l (x + dir l) t)"
proof -
  let ?w = "(t - (x + dir l)) * dir l"
  have "?w \<noteq> 0"
  proof
    assume "?w = 0"
    then have "?w * dir l = 0" by (simp only: mult_zero_left)
    with assms show False by (simp only: mult.assoc dir_sq mult_1_right) simp
  qed
  moreover have "(t - (x + dir l + dir l)) * dir l = ?w - 1" by (simp add: algebra_simps)
  ultimately show ?thesis by (simp add: steps_to_def unat_pred)
qed

lemma steps_to_reached: "x + dir l = t \<Longrightarrow> steps_to l x t = 1"
  by (simp add: steps_to_def)

function span_loop :: "np_host \<Rightarrow> span_job \<Rightarrow> u16 \<Rightarrow> nat \<Rightarrow> u16 \<Rightarrow> newport \<Rightarrow> u16 \<times> newport" where
  "span_loop H j y b x n =
     (if sj_abort j then (x, n)
      else
        (let n1 = span_pixel H j y b x n; x1 = x + dir (sj_left j) in
         if x1 \<noteq> sj_prim_end j \<and> x1 \<noteq> sj_end j \<and> sj_stop j then span_loop H j y ((b + 31) mod 32) x1 n1
         else (x1, n1)))"
  by pat_completeness auto
termination
  by (relation "measure (\<lambda>(H, j, y, b, x, n). steps_to (sj_left j) x (sj_end j))") (auto simp: steps_to_step)

declare span_loop.simps [simp del]

text \<open>The kernel: \<open>seg_len\<close> lanes from \<^verbatim>\<open>start_x\<close> to the right.\<close>

definition seg_len :: "span_job \<Rightarrow> u16 \<Rightarrow> nat" where
  "seg_len j x =
     (if sj_stop j
      then (let k1 = unat (sj_prim_end j - x); k2 = unat (sj_end j - x);
                k1 = (if k1 = 0 then 65536 else k1); k2 = (if k2 = 0 then 65536 else k2)
            in if k1 < k2 then k1 else k2)
      else 1)"

definition SPAN_MAX :: nat where "SPAN_MAX = 2048"

definition lane_pat :: "span_job \<Rightarrow> nat \<Rightarrow> bool" where
  "lane_pat j k = bit (sj_pattern j) (nat ((31 - int k) mod 32))"

definition lane_wr :: "span_job \<Rightarrow> nat \<Rightarrow> bool" where
  "lane_wr j k \<longleftrightarrow> lane_pat j k \<or> sj_opaque j"

fun host_lanes :: "span_job \<Rightarrow> nat list \<Rightarrow> rex3 \<Rightarrow> u32 list \<times> rex3" where
  "host_lanes j [] r = ([], r)"
| "host_lanes j (k # ks) r =
     (let (c, r1) = (if lane_pat j k then host_color r else (color_back r, r)); (cs, r2) = host_lanes j ks r1
      in (c # cs, r2))"

type_synonym iter = "u32 \<times> u32 \<times> u32 \<times> u32"

definition curr_iter :: "rex3 \<Rightarrow> iter" where
  "curr_iter r = (curr_red r, curr_green r, curr_blue r, curr_alpha r)"

fun clamped_lanes :: "nat \<Rightarrow> rex3 \<Rightarrow> iter list \<times> rex3" where
  "clamped_lanes 0 r = ([], r)"
| "clamped_lanes (Suc k) r =
     (let r1 = iterate_shade r; (is, r2) = clamped_lanes k r1 in (curr_iter r1 # is, r2))"

definition slope_of :: "nat \<Rightarrow> u32 \<Rightarrow> u32 \<Rightarrow> u32" where
  "slope_of k m v = (if flag v m then sext_bits k v else 0)"

definition linear_lane :: "rex3 \<Rightarrow> nat \<Rightarrow> iter" where
  "linear_lane r k =
     (let m = of_nat (k + 1) in
      (curr_red r + m * slope_of 24 0x7fffff (slope_red r), curr_green r + m * slope_of 20 0x7ffff (slope_green r),
       curr_blue r + m * slope_of 20 0x7ffff (slope_blue r), curr_alpha r + m * slope_of 20 0x7ffff (slope_alpha r)))"

definition set_iter :: "iter \<Rightarrow> rex3 \<Rightarrow> rex3" where
  "set_iter i r =
     (case i of (cr, cg, cb, ca) \<Rightarrow> r\<lparr>curr_red := cr, curr_green := cg, curr_blue := cb, curr_alpha := ca\<rparr>)"

definition shade_lanes :: "span_job \<Rightarrow> nat \<Rightarrow> rex3 \<Rightarrow> iter list \<times> rex3" where
  "shade_lanes j len r =
     (if sj_shade j \<and> bit (draw_mode0 r) 21 then clamped_lanes len r
      else if sj_shade j then
        (let ls = map (linear_lane r) [0..<len] in (ls, set_iter (last ls) r))
      else (replicate len (curr_iter r), r))"

definition span_clamp :: "u32 \<Rightarrow> u32" where
  "span_clamp c =
     (let v = drop_bit 11 c AND 0x1ff; lim = (if 0xff < v then 0xff else v) in
      if 0x180 \<le> v \<or> bit c 31 then 0 else lim)"

definition lane_channel :: "u32 \<Rightarrow> u32 \<Rightarrow> u32 \<Rightarrow> u32" where
  "lane_channel lim bay s =
     (let d = (drop_bit 4 s AND lim) + b2w (bay < s AND 0xf) in if lim < d then lim else d)"

definition dither_lane :: "u8 \<Rightarrow> iter \<Rightarrow> u32 \<Rightarrow> u32" where
  "dither_lane depth i bay =
     (case i of (cr, cg, cb, ca) \<Rightarrow>
      let red = span_clamp cr; green = span_clamp cg; blue = span_clamp cb; alpha = push_bit 24 (span_clamp ca) in
      if depth = 0 then
        (let dr = lane_channel 1 bay (drop_bit 3 red - drop_bit 4 red);
             dg = lane_channel 3 bay (drop_bit 2 green - drop_bit 4 green);
             db = lane_channel 1 bay (drop_bit 3 blue - drop_bit 4 blue);
             c = push_bit 3 db OR push_bit 1 dg OR dr
         in alpha OR push_bit 4 c OR c)
      else if depth = 1 then
        (let dr = lane_channel 7 bay (drop_bit 1 red - drop_bit 4 red);
             dg = lane_channel 7 bay (drop_bit 1 green - drop_bit 4 green);
             db = lane_channel 3 bay (drop_bit 2 blue - drop_bit 4 blue)
         in alpha OR push_bit 6 db OR push_bit 3 dg OR dr)
      else if depth = 2 then
        (let dr = lane_channel 15 bay (red - drop_bit 4 red);
             dg = lane_channel 15 bay (green - drop_bit 4 green);
             db = lane_channel 15 bay (blue - drop_bit 4 blue);
             c = push_bit 8 db OR push_bit 4 dg OR dr
         in alpha OR push_bit 12 c OR c)
      else alpha OR push_bit 16 blue OR push_bit 8 green OR red)"

definition lane_rgb :: "span_job \<Rightarrow> rex3 \<Rightarrow> u16 \<Rightarrow> u16 \<Rightarrow> nat \<Rightarrow> iter \<Rightarrow> u32" where
  "lane_rgb j r x0 y k i =
     (if \<not> lane_pat j k then color_back r
      else if sj_rgb j \<and> bit (draw_mode1 r) 16 then dither_lane (plane_depth r) i (bayer_at (x0 + of_nat k) y)
      else (case i of (cr, cg, cb, ca) \<Rightarrow> rgb_from r cr cg cb ca (x0 + of_nat k) y))"

definition span_colors :: "span_job \<Rightarrow> nat \<Rightarrow> u16 \<Rightarrow> u16 \<Rightarrow> rex3 \<Rightarrow> u32 list \<times> rex3" where
  "span_colors j len x0 y r =
     (if color_host r then host_lanes j [0..<len] r
      else if (sj_shade j \<or> sj_rgb j) \<and> \<not> sj_fastclear j then
        (let (is, r1) = shade_lanes j len r in (map (\<lambda>k. lane_rgb j r1 x0 y k (is ! k)) [0..<len], r1))
      else (map (\<lambda>k. if lane_pat j k then sj_color j else color_back r) [0..<len], r))"

text \<open>Clipping: the masks 1 to 4 whose rows hold this one, then a predicate per lane.\<close>

definition row_masks :: "int \<Rightarrow> rex3 \<Rightarrow> (int \<times> int) list" where
  "row_masks yw r =
     map (\<lambda>b. (sint (hi16 (smask_x r b) - 0x1000), sint (lo16 (smask_x r b) - 0x1000)))
       (filter (\<lambda>b. bit (clip_mode r) b \<and> sint (hi16 (smask_y r b) - 0x1000) \<le> yw \<and>
                    yw \<le> sint (lo16 (smask_y r b) - 0x1000)) [1, 2, 3, 4])"

definition row_ok :: "u16 \<Rightarrow> int \<Rightarrow> rex3 \<Rightarrow> bool" where
  "row_ok y yw r \<longleftrightarrow>
     0 \<le> yw \<and> yw < DISP_H \<and>
     (bit (clip_mode r) 0 \<longrightarrow> sint (hi16 (smask_y r 0)) \<le> sint y \<and> sint y \<le> sint (lo16 (smask_y r 0))) \<and>
     (flag (clip_mode r) 0x1e \<longrightarrow> row_masks yw r \<noteq> [])"

definition lane_pass :: "span_job \<Rightarrow> int \<Rightarrow> int \<Rightarrow> int \<Rightarrow> rex3 \<Rightarrow> nat \<Rightarrow> bool" where
  "lane_pass j x0 xw0 yw r k \<longleftrightarrow>
     (let x = x0 + int k; xw = xw0 + int k; m0 = bit (clip_mode r) 0;
          x_min0 = (if m0 then sint (hi16 (smask_x r 0)) else -65536);
          x_max0 = (if m0 then sint (lo16 (smask_x r 0)) else 65536)
      in lane_wr j k \<and> x_min0 \<le> x \<and> x \<le> x_max0 \<and> 0 \<le> xw \<and> xw < FB_W \<and>
         (flag (clip_mode r) 0x1e \<longrightarrow> list_ex (\<lambda>(lo, hi). lo \<le> xw \<and> xw \<le> hi) (row_masks yw r)))"

definition truth_table :: "u8 \<Rightarrow> u32 \<Rightarrow> u32 \<Rightarrow> u32" where
  "truth_table op v d =
     (let t = (\<lambda>i. if bit op i then -1 else 0) in
      (v AND d AND t 0) OR (v AND NOT d AND t 1) OR (NOT v AND d AND t 2) OR (NOT v AND NOT d AND t 3))"

definition lane_value :: "rb2 \<Rightarrow> u32 \<Rightarrow> u32 \<Rightarrow> u32" where
  "lane_value b c old =
     (let m = rb_write_mask b AND global_mask b;
          v = plane_shift (rb_plane_enable b) (replicate_lanes (draw_depth b) c);
          nv = (if rb_blend b \<or> rb_fast_clear b then v
                else truth_table (logicop b) v (drop_bit (unat (src_shift b)) old))
      in (old AND NOT m) OR (nv AND m))"

text \<open>The write loop over the lanes of the row; \<open>base\<close> is the 32-bit index of lane 0, to which the
  lane number is added as a pointer offset.\<close>

definition lane_store :: "u32 list \<Rightarrow> (nat \<Rightarrow> bool) \<Rightarrow> u32 \<Rightarrow> nat \<Rightarrow> newport \<Rightarrow> newport" where
  "lane_store col ok base k n =
     (let i = uint base + int k; a = base + of_nat k; b = rb n in
      if fb_words \<le> i then n\<lparr>np_fault := True\<rparr>
      else if ok k then n\<lparr>rb := set_dest ((dest_of b)(a := lane_value b (col ! k) (dest_of b a))) b\<rparr>
      else n)"

definition span_fast :: "span_job \<Rightarrow> u16 \<Rightarrow> u16 \<Rightarrow> newport \<Rightarrow> (u16 \<times> newport) option" where
  "span_fast j start_x y n =
     (let r = rex n; len = seg_len j start_x; x0 = sint start_x; xw0 = x0 + sint (x_window r) - 0x1000 in
      if SPAN_MAX < len \<or> 32767 < x0 + int len - 1 \<or> xw0 < -32768 \<or> 32767 < xw0 + int len - 1 \<or> bit (draw_mode1 r) 18
      then None
      else
        (let (col, r1) = span_colors j len start_x y r;
             nw = length (filter (lane_wr j) [0..<len]);
             n1 = n\<lparr>rex := r1, go_pixels := go_pixels n + of_nat nw\<rparr>;
             yw = sint (y + y_window r1 - 0x1000); x1 = start_x + of_nat len;
             kl = (if xw0 < 0 then nat (- xw0) else 0);
             kh = (if FB_W < xw0 + int len then FB_W - xw0 else int len)
         in if \<not> row_ok y yw r1 then Some (x1, n1)
            else if kh \<le> int kl then Some (x1, n1)
            else Some (x1, fold (lane_store col (lane_pass j x0 xw0 yw r1) (word_of_int (yw * FB_W + xw0)))
                             [kl..<nat kh] n1)))"

section \<open>The row loop\<close>

text \<open>How far a segment goes, by either routine.\<close>

definition seg_steps :: "span_job \<Rightarrow> u16 \<Rightarrow> nat" where
  "seg_steps j x =
     (if sj_stop j then min (steps_to (sj_left j) x (sj_prim_end j)) (steps_to (sj_left j) x (sj_end j)) else 1)"

lemma steps_to_end: "x + of_nat (steps_to l x t) * dir l = t"
  by (simp add: steps_to_def algebra_simps)

lemma span_loop_x:
  assumes "\<not> sj_abort j"
  shows "fst (span_loop H j y b x n) = x + of_nat (seg_steps j x) * dir (sj_left j)"
  using assms
proof (induction H j y b x n rule: span_loop.induct)
  case (1 H j y b x n)
  let ?x = "x + dir (sj_left j)"
  show ?case
  proof (cases "?x \<noteq> sj_prim_end j \<and> ?x \<noteq> sj_end j \<and> sj_stop j")
    case True
    then have "fst (span_loop H j y b x n) = ?x + of_nat (seg_steps j ?x) * dir (sj_left j)"
      using 1 by (subst span_loop.simps) simp
    moreover have "seg_steps j x = Suc (seg_steps j ?x)"
      using True by (simp add: seg_steps_def steps_to_step [of x "sj_left j" "sj_prim_end j"] steps_to_step [of x "sj_left j" "sj_end j"])
    ultimately show ?thesis by (simp add: algebra_simps)
  next
    case False
    then have "fst (span_loop H j y b x n) = ?x" using 1(2) by (subst span_loop.simps) (auto simp: Let_def)
    moreover have "seg_steps j x = 1" using False by (auto simp: seg_steps_def steps_to_def)
    ultimately show ?thesis by simp
  qed
qed

lemma steps_right: "steps_to False x t = (if t = x then 65536 else unat (t - x))"
proof (cases "t = x")
  case False
  then have "t - x \<noteq> 0" by simp
  from unat_pred [OF this] False show ?thesis by (simp add: steps_to_def dir_def diff_diff_eq [symmetric])
qed (simp add: steps_to_def dir_def unsigned_minus_1_eq_mask mask_eq_exp_minus_1)

lemma seg_len_steps: "\<not> sj_left j \<Longrightarrow> seg_len j x = seg_steps j x"
  by (auto simp: seg_len_def seg_steps_def steps_right Let_def unat_eq_0)

lemma span_fast_x:
  assumes "span_fast j x y n = Some (x1, n1)"
  shows "x1 = x + of_nat (seg_len j x)"
  using assms by (auto simp: span_fast_def Let_def split_def split: if_splits)

definition reset_color :: "rex3 \<Rightarrow> rex3" where
  "reset_color r = r\<lparr>curr_red := color_red r, curr_alpha := color_alpha r, curr_green := color_green r, curr_blue := color_blue r\<rparr>"

definition row_segment :: "np_host \<Rightarrow> bool \<Rightarrow> span_job \<Rightarrow> u16 \<Rightarrow> u16 \<Rightarrow> newport \<Rightarrow> u16 \<times> newport" where
  "row_segment H fast j x y n =
     (case (if fast then span_fast j x y n else None) of
        Some xn \<Rightarrow> xn
      | None \<Rightarrow> span_loop H j y 31 x n)"

lemma row_segment_x:
  assumes "\<not> sj_abort j" "fast \<longrightarrow> \<not> sj_left j"
  shows "fst (row_segment H fast j x y n) = x + of_nat (seg_steps j x) * dir (sj_left j)"
proof (cases "if fast then span_fast j x y n else None")
  case None
  then show ?thesis using assms(1) by (simp add: row_segment_def span_loop_x)
next
  case (Some xn)
  then have "fast" "span_fast j x y n = Some (fst xn, snd xn)" by (auto split: if_splits)
  with span_fast_x [OF this(2)] assms(2) show ?thesis by (simp add: row_segment_def seg_len_steps dir_def)
qed

definition row_done :: "span_job \<Rightarrow> u16 \<Rightarrow> bool" where
  "row_done j x \<longleftrightarrow> (\<not> sj_left j \<and> sj_end j <=s x) \<or> (sj_left j \<and> x <=s sj_end j) \<or> sj_abort j"

definition use_fast :: "np_host \<Rightarrow> span_job \<Rightarrow> bool" where
  "use_fast H j \<longleftrightarrow> \<not> np_scalar H \<and> \<not> sj_left j \<and> \<not> sj_abort j"

definition next_row :: "span_job \<Rightarrow> bool \<Rightarrow> bool \<Rightarrow> u16 \<Rightarrow> u16 \<times> newport \<Rightarrow> u16 \<times> u16 \<times> newport" where
  "next_row j block up y xn =
     (case xn of (x, n) \<Rightarrow>
      if row_done j x
      then (let n1 = upd_rex reset_color n in if block then (x_save (rex n1), y + dir up, n1) else (x, y, n1))
      else (x, y, n))"

function rows_loop ::
    "np_host \<Rightarrow> span_job \<Rightarrow> bool \<Rightarrow> bool \<Rightarrow> bool \<Rightarrow> u16 \<Rightarrow> u16 \<times> u16 \<times> newport \<Rightarrow> u16 \<times> u16 \<times> newport" where
  "rows_loop H j block stop_y up end_y (x, y, n) =
     (let xyn = next_row j block up y (row_segment H (use_fast H j) j x y n) in
      if block \<and> fst (snd xyn) \<noteq> end_y \<and> stop_y then rows_loop H j block stop_y up end_y xyn else xyn)"
  by pat_completeness auto

text \<open>Within a row at most one more segment follows, or one pixel at a time: a segment that
  starts where the primitive ends reaches the end of the row.\<close>

definition row_pot :: "span_job \<Rightarrow> u16 \<Rightarrow> nat" where
  "row_pot j x = (if sj_stop j then (if x = sj_prim_end j then 0 else 1) else steps_to (sj_left j) x (sj_end j))"

lemma steps_to_le: "steps_to l x t \<le> 65536"
  using unsigned_less [of "(t - (x + dir l)) * dir l", where 'a = nat] by (simp add: steps_to_def)

lemma steps_to_self: "steps_to l x x = 65536"
  by (simp add: steps_to_def dir_def unsigned_minus_1_eq_mask mask_eq_exp_minus_1)

lemma row_pot_decreases:
  assumes "x1 = x + of_nat (seg_steps j x) * dir (sj_left j)" "x1 \<noteq> sj_end j"
  shows "row_pot j x1 < row_pot j x"
proof (cases "sj_stop j")
  case True
  let ?a = "steps_to (sj_left j) x (sj_prim_end j)" and ?b = "steps_to (sj_left j) x (sj_end j)"
  have "seg_steps j x \<noteq> ?b" using assms steps_to_end [of x "sj_left j" "sj_end j"] by auto
  then have a: "seg_steps j x = ?a" "?a < ?b" using True by (auto simp: seg_steps_def min_def split: if_splits)
  have "x1 = sj_prim_end j" using assms(1) a(1) steps_to_end [of x "sj_left j" "sj_prim_end j"] by simp
  moreover have "x \<noteq> sj_prim_end j" using a(2) steps_to_le [of "sj_left j" x "sj_end j"] steps_to_self [of "sj_left j" x] by auto
  ultimately show ?thesis using True by (simp add: row_pot_def)
next
  case False
  with assms steps_to_step [of x "sj_left j" "sj_end j"] show ?thesis by (simp add: row_pot_def seg_steps_def)
qed

termination rows_loop
proof (relation "measures [\<lambda>(H, j, block, stop_y, up, end_y, x, y, n). steps_to up y end_y,
    \<lambda>(H, j, block, stop_y, up, end_y, x, y, n). row_pot j x]", goal_cases)
  case (2 H j block stop_y up end_y x y n xyn)
  obtain x1 n1 where seg: "row_segment H (use_fast H j) j x y n = (x1, n1)" by fastforce
  show ?case
  proof (cases "row_done j x1")
    case True
    then obtain x2 n2 where "xyn = (x2, y + dir up, n2)" using 2 seg by (auto simp: next_row_def Let_def)
    moreover from this have "y + dir up \<noteq> end_y" using 2(2) by simp
    ultimately show ?thesis using steps_to_step [of y up end_y] by simp
  next
    case False
    then have "xyn = (x1, y, n1)" "\<not> sj_abort j" "x1 \<noteq> sj_end j"
      using 2 seg by (auto simp: next_row_def row_done_def)
    moreover from this have "row_pot j x1 < row_pot j x"
      using row_segment_x [of j "use_fast H j" H x y n] seg by (intro row_pot_decreases) (simp_all add: use_fast_def)
    ultimately show ?thesis by simp
  qed
qed simp

declare rows_loop.simps [simp del]

definition s_max_host :: "int list list" where
  "s_max_host = [[4, 4, 2, 1], [8, 8, 4, 2]]"

definition prim_end :: "rex3 \<Rightarrow> bool \<Rightarrow> bool \<Rightarrow> u16 \<Rightarrow> u16" where
  "prim_end r block left end_x =
     (let start_x = x_start_i r; span = sint end_x - sint start_x;
          p = (if bit (draw_mode0 r) 15 \<and> (if block then 32 \<le> span else 32 < \<bar>span\<bar>)
               then start_x + 32 * dir left else end_x);
          max_len = s_max_host ! (if rwdouble r then 1 else 0) ! unat (hostdepth r)
      in if color_host r \<and> rwpacked r \<and> max_len < \<bar>sint p - sint start_x\<bar>
         then start_x + dir left * word_of_int max_len else p)"

definition span_job_of :: "rex3 \<Rightarrow> bool \<Rightarrow> span_job" where
  "span_job_of r block =
     (let left = bit (octant r) 1; end_x = x_end_i r + dir left; m0 = draw_mode0 r; m1 = draw_mode1 r in
      \<lparr>sj_prim_end = prim_end r block left end_x, sj_end = end_x, sj_left = left,
       sj_stop = (bit m0 8 \<or> (color_host r \<and> rwpacked r)),
       sj_pattern = (if bit m0 12 then z_pattern r else if bit m0 13 then ls_pattern r else 0xffffffff),
       sj_opaque = (bit m0 16 \<or> bit m0 17), sj_shade = bit m0 18, sj_rgb = bit m1 15, sj_fastclear = bit m1 17,
       sj_color = default_color r (color_i r), sj_abort = (bit m0 19 \<and> left)\<rparr>)"

definition span_or_block :: "np_host \<Rightarrow> bool \<Rightarrow> newport \<Rightarrow> newport" where
  "span_or_block H block n =
     (let r = rex n; up = bit (octant r) 0; end_y = (if block then y_end_i r + dir up else y_end_i r);
          (x, y, n1) = rows_loop H (span_job_of r block) block (bit (draw_mode0 r) 9) up end_y (x_start_i r, y_start_i r, n);
          n2 = upd_rex (write_x_start (shl11 x)) n1
      in if block then upd_rex (write_y_start (shl11 y)) n2 else n2)"

section \<open>Screen copies\<close>

definition copy_pixel :: "np_host \<Rightarrow> u16 \<Rightarrow> u16 \<Rightarrow> newport \<Rightarrow> newport" where
  "copy_pixel H x y n =
     (let r = rex n; sx = sint x + sint (x_window r) - 0x1000; sy = sint y + sint (y_window r) - 0x1000;
          a = word_of_int (sy * FB_W + sx);
          (src, n1) = (if 0 \<le> sx \<and> 0 \<le> sy \<and> sx < FB_W \<and> sy < FB_H then (rb_read a (rb n), rb_set_addr a n) else (0, n))
      in output_pixel H (x + x_move r) (y + y_move r) src n1)"

function copy_loop :: "np_host \<Rightarrow> bool \<Rightarrow> bool \<Rightarrow> u16 \<Rightarrow> u16 \<Rightarrow> u16 \<Rightarrow> newport \<Rightarrow> u16 \<times> newport" where
  "copy_loop H left stop_x end_x y x n =
     (let n1 = copy_pixel H x y n; x1 = x + dir left in
      if x1 \<noteq> end_x \<and> stop_x then copy_loop H left stop_x end_x y x1 n1 else (x1, n1))"
  by pat_completeness auto
termination
  by (relation "measure (\<lambda>(H, left, stop_x, end_x, y, x, n). steps_to left x end_x)") (auto simp: steps_to_step)

declare copy_loop.simps [simp del]

lemma copy_loop_x: "fst (copy_loop H left stop_x end_x y x n) = (if stop_x then end_x else x + dir left)"
proof (induction H left stop_x end_x y x n rule: copy_loop.induct)
  case (1 H left stop_x end_x y x n)
  then show ?case by (subst copy_loop.simps) (auto simp: Let_def)
qed

definition copy_next :: "bool \<Rightarrow> u16 \<Rightarrow> u16 \<Rightarrow> u16 \<times> newport \<Rightarrow> u16 \<times> u16 \<times> newport" where
  "copy_next up end_x y xn =
     (case xn of (x, n) \<Rightarrow> if x = end_x then (x_save (rex n), y + dir up, n) else (x, y, n))"

function copy_rows ::
    "np_host \<Rightarrow> bool \<Rightarrow> bool \<Rightarrow> u16 \<Rightarrow> bool \<Rightarrow> bool \<Rightarrow> u16 \<Rightarrow> u16 \<times> u16 \<times> newport \<Rightarrow> u16 \<times> u16 \<times> newport" where
  "copy_rows H left stop_x end_x up stop_y end_y (x, y, n) =
     (let xyn = copy_next up end_x y (copy_loop H left stop_x end_x y x n) in
      if fst (snd xyn) \<noteq> end_y \<and> stop_y then copy_rows H left stop_x end_x up stop_y end_y xyn else xyn)"
  by pat_completeness auto
termination
proof (relation "measures [\<lambda>(H, left, stop_x, end_x, up, stop_y, end_y, x, y, n). steps_to up y end_y,
    \<lambda>(H, left, stop_x, end_x, up, stop_y, end_y, x, y, n). steps_to left x end_x]", goal_cases)
  case (2 H left stop_x end_x up stop_y end_y x y n xyn)
  obtain x1 n1 where c: "copy_loop H left stop_x end_x y x n = (x1, n1)" by fastforce
  show ?case
  proof (cases "x1 = end_x")
    case True
    then have "xyn = (x_save (rex n1), y + dir up, n1)" using 2(1) c by (simp add: copy_next_def)
    with 2(2) show ?thesis using steps_to_step [of y up end_y] by simp
  next
    case False
    then have "xyn = (x1, y, n1)" "x1 = x + dir left"
      using 2(1) c copy_loop_x [of H left stop_x end_x y x n] by (auto simp: copy_next_def split: if_splits)
    with False show ?thesis using steps_to_step [of x left end_x] by simp
  qed
qed simp

declare copy_rows.simps [simp del]

definition scr2scr :: "np_host \<Rightarrow> newport \<Rightarrow> newport" where
  "scr2scr H n =
     (let r = rex n; left = bit (octant r) 1; up = bit (octant r) 0;
          (x, y, n1) = copy_rows H left (bit (draw_mode0 r) 8) (x_end_i r + dir left) up (bit (draw_mode0 r) 9)
                         (y_end_i r + dir up) (x_start_i r, y_start_i r, n)
      in upd_rex (\<lambda>r. write_y_start (shl11 y) (write_x_start (shl11 x) r)) n1)"

section \<open>Commands\<close>

definition setup_if :: "newport \<Rightarrow> newport" where
  "setup_if n = (if bit (draw_mode0 (rex n)) 5 then upd_rex do_setup n else n)"

definition do_command_body :: "np_host \<Rightarrow> u32 \<Rightarrow> u32 \<Rightarrow> newport \<Rightarrow> newport" where
  "do_command_body H opcode adrmode n =
     (if opcode = 1 then
        (let (v, n1) = do_pixel_word_read (setup_if n) in upd_rex (\<lambda>r. r\<lparr>host_dataport := v\<rparr>) n1)
      else if opcode = 2 then
        (let n1 = setup_if n; c = default_color (rex n1) (color_i (rex n1)) in
         if adrmode = 0 then span_or_block H False n1
         else if adrmode = 1 then span_or_block H True n1
         else if adrmode = 2 \<or> adrmode = 4 then do_iline H c n1
         else if adrmode = 3 then do_fline H c n1
         else n1)
      else if opcode = 3 \<and> adrmode < 2 then scr2scr H (setup_if n)
      else n)"

definition do_command :: "np_host \<Rightarrow> newport \<Rightarrow> newport" where
  "do_command H n =
     (let m0 = draw_mode0 (rex n) in do_command_body H (m0 AND 3) (drop_bit 2 m0 AND 7) (n\<lparr>go_pixels := 0\<rparr>))"

end
