(* ===== verification/Newport_Span.thy ===== *)
theory Newport_Span
  imports Newport
begin

text \<open>
  The vector kernel \<^verbatim>\<open>span_fast\<close> of the Newport board against the pixel loop of \<^verbatim>\<open>span_or_block\<close>: colour
  generation, pattern, clipping, lane replication and the logic operation as a truth table agree lane
  by lane with the calls of \<^verbatim>\<open>output_pixel\<close>.
\<close>

section \<open>The pixel loop as a fold over lanes\<close>

definition lane_bit :: "nat \<Rightarrow> nat" where "lane_bit k = nat ((31 - int k) mod 32)"

lemma lane_bit_eq: "lane_bit k = 31 - k mod 32"
proof -
  define m where "m = k mod 32"
  define q where "q = k div 32"
  have m: "m < 32" by (simp add: m_def)
  have "k = 32 * q + m" by (simp add: q_def m_def)
  then have "31 - int k = int (31 - m) + 32 * (- int q)" using m by simp
  then have "(31 - int k) mod 32 = int (31 - m) mod 32" by (simp only: mod_mult_self2)
  also have "\<dots> = int (31 - m)" by (rule mod_pos_pos_trivial) simp_all
  finally show ?thesis by (simp only: lane_bit_def m_def nat_int)
qed

lemma lane_bit_0 [simp]: "lane_bit 0 = 31"
  by (simp add: lane_bit_eq)

lemma lane_bit_Suc: "lane_bit (Suc k) = (lane_bit k + 31) mod 32"
proof -
  define m where "m = k mod 32"
  have m: "m < 32" by (simp add: m_def)
  have "31 - (if Suc m = 32 then 0 else Suc m) = (31 - m + 31) mod 32"
  proof (cases "m = 31")
    case False
    with m have "31 - m + 31 = (30 - m) + 32" "30 - m < 32" by simp_all
    then have "(31 - m + 31) mod 32 = 30 - m" by (metis mod_add_self2 mod_less)
    with False show ?thesis by simp
  qed simp
  then show ?thesis unfolding lane_bit_eq mod_Suc m_def by simp
qed

definition span_lane :: "np_host \<Rightarrow> span_job \<Rightarrow> u16 \<Rightarrow> u16 \<Rightarrow> nat \<Rightarrow> newport \<Rightarrow> newport" where
  "span_lane H j y x k = span_pixel H j y (lane_bit k) (x + of_nat k * dir (sj_left j))"

lemma span_loop_fold:
  assumes "\<not> sj_abort j"
  shows "snd (span_loop H j y (lane_bit k) (x + of_nat k * dir (sj_left j)) n) =
    fold (span_lane H j y x) [k..<k + seg_steps j (x + of_nat k * dir (sj_left j))] n"
  using assms
proof (induction "seg_steps j (x + of_nat k * dir (sj_left j))" arbitrary: k n rule: less_induct)
  case less
  let ?x = "x + of_nat k * dir (sj_left j)" and ?x1 = "x + of_nat (Suc k) * dir (sj_left j)"
  let ?n = "span_lane H j y x k n"
  have x1: "?x + dir (sj_left j) = ?x1" by (simp add: algebra_simps)
  show ?case
  proof (cases "?x1 \<noteq> sj_prim_end j \<and> ?x1 \<noteq> sj_end j \<and> sj_stop j")
    case True
    then have s: "seg_steps j ?x = Suc (seg_steps j ?x1)"
      using steps_to_step [of ?x "sj_left j" "sj_prim_end j"] steps_to_step [of ?x "sj_left j" "sj_end j"]
      by (simp only: x1 seg_steps_def) simp
    have "snd (span_loop H j y (lane_bit k) ?x n) = snd (span_loop H j y (lane_bit (Suc k)) ?x1 ?n)"
      using True less.prems by (subst span_loop.simps) (simp only: x1 Let_def lane_bit_Suc span_lane_def if_True if_False simp_thms)
    also have "\<dots> = fold (span_lane H j y x) [Suc k..<Suc k + seg_steps j ?x1] ?n"
      using less.prems s by (intro less.hyps) simp_all
    also have "\<dots> = fold (span_lane H j y x) [k..<k + seg_steps j ?x] n"
      by (simp add: s upt_conv_Cons del: upt_Suc)
    finally show ?thesis .
  next
    case False
    have "seg_steps j ?x = 1"
      using False unfolding x1 [symmetric] by (auto simp: seg_steps_def steps_to_def)
    moreover have "snd (span_loop H j y (lane_bit k) ?x n) = ?n"
      using False less.prems by (subst span_loop.simps) (simp only: x1 Let_def span_lane_def if_False simp_thms snd_conv)
    ultimately show ?thesis by simp
  qed
qed

lemma span_loop_lanes:
  assumes "\<not> sj_abort j" "\<not> sj_left j"
  shows "span_loop H j y 31 x n = (x + of_nat (seg_len j x), fold (span_lane H j y x) [0..<seg_len j x] n)"
  using span_loop_fold [of j H y 0 x n] span_loop_x [of j H y 31 x n] assms
  by (simp add: prod_eq_iff seg_len_steps dir_def)

section \<open>Colours\<close>

text \<open>What one pass of the loop computes before it writes: the colour and the engine after it.\<close>

definition scalar_lane :: "span_job \<Rightarrow> u16 \<Rightarrow> u16 \<Rightarrow> nat \<Rightarrow> rex3 \<Rightarrow> u32 \<times> rex3" where
  "scalar_lane j y x k r0 =
     (let r = (if sj_shade j then iterate_shade r0 else r0) in
      if lane_pat j k then
        (if color_host r then host_color r
         else if (sj_shade j \<or> sj_rgb j) \<and> \<not> sj_fastclear j then (rgb_color r (x + of_nat k) y, r)
         else (sj_color j, r))
      else (color_back r, r))"

lemma span_lane_scalar:
  assumes "\<not> sj_left j"
  shows "span_lane H j y x k n =
    (case scalar_lane j y x k (rex n) of (c, r) \<Rightarrow>
       if lane_wr j k then output_pixel H (x + of_nat k) y c (n\<lparr>rex := r\<rparr>) else n\<lparr>rex := r\<rparr>)"
proof -
  define r where "r = (if sj_shade j then iterate_shade (rex n) else rex n)"
  obtain c r1 where h: "host_color r = (c, r1)" by fastforce
  have n: "(if sj_shade j then upd_rex iterate_shade n else n) = n\<lparr>rex := r\<rparr>" by (simp add: upd_rex_def r_def)
  have x: "x + of_nat k * dir (sj_left j) = x + of_nat k" using assms by (simp add: dir_def)
  show ?thesis
    unfolding span_lane_def span_pixel_def scalar_lane_def n x Let_def r_def [symmetric] lane_wr_def lane_pat_def lane_bit_def [symmetric]
    by (simp add: h)
qed

fun scalar_colors :: "span_job \<Rightarrow> u16 \<Rightarrow> u16 \<Rightarrow> nat list \<Rightarrow> rex3 \<Rightarrow> u32 list \<times> rex3" where
  "scalar_colors j y x [] r = ([], r)"
| "scalar_colors j y x (k # ks) r =
     (let (c, r1) = scalar_lane j y x k r; (cs, r2) = scalar_colors j y x ks r1 in (c # cs, r2))"

lemma scalar_colors_append:
  "scalar_colors j y x (ks @ ls) r =
     (let (cs, r1) = scalar_colors j y x ks r; (ds, r2) = scalar_colors j y x ls r1 in (cs @ ds, r2))"
  by (induction ks arbitrary: r) (simp_all add: split_def Let_def)

lemma host_color_keeps:
  "color_host (snd (host_color r)) = color_host r" "color_back (snd (host_color r)) = color_back r"
  by (simp_all add: host_color_def Let_def)

lemma host_lanes_scalar:
  assumes "\<not> sj_shade j" "color_host r"
  shows "host_lanes j ks r = scalar_colors j y x ks r"
  using assms(2)
proof (induction ks arbitrary: r)
  case (Cons k ks)
  have "color_host (snd (if lane_pat j k then host_color r else (color_back r, r)))"
    using Cons.prems by (simp add: host_color_keeps)
  from Cons.IH [OF this] show ?case
    using assms(1) Cons.prems by (simp add: scalar_lane_def split_def Let_def)
qed simp

lemma plain_lanes_scalar:
  assumes "\<not> sj_shade j" "\<not> color_host r" "\<not> sj_rgb j \<or> sj_fastclear j"
  shows "scalar_colors j y x ks r = (map (\<lambda>k. if lane_pat j k then sj_color j else color_back r) ks, r)"
  using assms by (induction ks) (auto simp: scalar_lane_def)

lemma iterate_shade_frame [simp]:
  "draw_mode0 (iterate_shade r) = draw_mode0 r" "draw_mode1 (iterate_shade r) = draw_mode1 r"
  "plane_depth (iterate_shade r) = plane_depth r" "color_vram (iterate_shade r) = color_vram r"
  "color_back (iterate_shade r) = color_back r" "color_host (iterate_shade r) = color_host r"
  by (simp_all add: iterate_shade_def Let_def)

lemma shade_frame [simp]:
  "draw_mode0 ((iterate_shade ^^ k) r) = draw_mode0 r" "draw_mode1 ((iterate_shade ^^ k) r) = draw_mode1 r"
  "plane_depth ((iterate_shade ^^ k) r) = plane_depth r" "color_vram ((iterate_shade ^^ k) r) = color_vram r"
  "color_back ((iterate_shade ^^ k) r) = color_back r" "color_host ((iterate_shade ^^ k) r) = color_host r"
  by (induction k) simp_all

lemma rgb_from_shade: "rgb_from ((iterate_shade ^^ k) r) = rgb_from r"
  unfolding rgb_from_def default_color_def shade_frame ..

lemma channel_eq: "lane_channel lim bay s = dither_channel lim bay s"
  by (simp add: lane_channel_def dither_channel_def b2w_def)

lemma clamp_eq: "span_clamp c = clamp9 c"
  by (simp add: span_clamp_def clamp9_def Let_def)

lemma dither_lane_eq:
  assumes "bit (draw_mode1 r) 15" "bit (draw_mode1 r) 16"
  shows "dither_lane (plane_depth r) (cr, cg, cb, ca) (bayer_at x y) = rgb_from r cr cg cb ca x y"
  using assms by (simp add: dither_lane_def rgb_from_def channel_eq clamp_eq Let_def)

lemma lane_rgb_eq:
  assumes "sj_rgb j = bit (draw_mode1 r) 15"
  shows "lane_rgb j r x y k i =
    (if lane_pat j k then (case i of (cr, cg, cb, ca) \<Rightarrow> rgb_from r cr cg cb ca (x + of_nat k) y) else color_back r)"
  using assms by (cases i) (simp add: lane_rgb_def dither_lane_eq)

text \<open>The shaded lanes: lane k sees the engine after k + 1 steps of the iterators.\<close>

lemma shaded_scalar:
  assumes "sj_shade j" "\<not> color_host r" "\<not> sj_fastclear j"
  shows "scalar_colors j y x [0..<len] r =
    (map (\<lambda>k. if lane_pat j k then (case curr_iter ((iterate_shade ^^ Suc k) r) of (cr, cg, cb, ca) \<Rightarrow>
            rgb_from r cr cg cb ca (x + of_nat k) y) else color_back r) [0..<len], (iterate_shade ^^ len) r)"
proof (induction len)
  case (Suc len)
  have "scalar_lane j y x len ((iterate_shade ^^ len) r) =
    (if lane_pat j len then (case curr_iter ((iterate_shade ^^ Suc len) r) of (cr, cg, cb, ca) \<Rightarrow>
       rgb_from r cr cg cb ca (x + of_nat len) y) else color_back r, (iterate_shade ^^ Suc len) r)"
    using assms rgb_from_shade [of "Suc len" r] by (simp add: scalar_lane_def rgb_color_def curr_iter_def Let_def)
  with Suc show ?case by (simp add: scalar_colors_append)
qed simp

lemma clamped_lanes_eq:
  "clamped_lanes len r = (map (\<lambda>k. curr_iter ((iterate_shade ^^ Suc k) r)) [0..<len], (iterate_shade ^^ len) r)"
proof (induction len arbitrary: r)
  case (Suc len)
  have "map (\<lambda>k. curr_iter ((iterate_shade ^^ Suc k) r)) [0..<Suc len] =
      curr_iter (iterate_shade r) # map (\<lambda>k. curr_iter ((iterate_shade ^^ Suc k) (iterate_shade r))) [0..<len]"
    by (subst upt_conv_Cons) (simp_all add: map_Suc_upt [symmetric] funpow_swap1 del: upt_Suc)
  then show ?case by (simp add: Suc funpow_swap1 split_def Let_def del: upt_Suc)
qed simp

lemma iterate_linear:
  assumes "\<not> bit (draw_mode0 r) 21"
  shows "iterate_shade r =
    r\<lparr>curr_red := curr_red r + slope_of 24 0x7fffff (slope_red r), curr_green := curr_green r + slope_of 20 0x7ffff (slope_green r),
      curr_blue := curr_blue r + slope_of 20 0x7ffff (slope_blue r), curr_alpha := curr_alpha r + slope_of 20 0x7ffff (slope_alpha r)\<rparr>"
proof -
  have "(if flag v m then c + sext_bits k v else c) = c + slope_of k m v" for c v m k by (simp add: slope_of_def)
  then show ?thesis using assms by (simp add: iterate_shade_def Let_def)
qed

lemma linear_shade:
  assumes "\<not> bit (draw_mode0 r) 21"
  shows "(iterate_shade ^^ Suc k) r = set_iter (linear_lane r k) r"
proof (induction k)
  case 0
  show ?case using assms by (simp add: iterate_linear set_iter_def linear_lane_def)
next
  case (Suc k)
  have "(iterate_shade ^^ Suc (Suc k)) r = iterate_shade ((iterate_shade ^^ Suc k) r)" by simp
  also have "\<dots> = iterate_shade (set_iter (linear_lane r k) r)" by (simp only: Suc)
  also have "\<dots> = set_iter (linear_lane r (Suc k)) r"
    using assms by (subst iterate_linear) (simp_all add: set_iter_def linear_lane_def distrib_right add.assoc)
  finally show ?case .
qed

lemma shade_lanes_eq:
  assumes "sj_shade j" "0 < len"
  shows "shade_lanes j len r = (map (\<lambda>k. curr_iter ((iterate_shade ^^ Suc k) r)) [0..<len], (iterate_shade ^^ len) r)"
proof (cases "bit (draw_mode0 r) 21")
  case False
  have c: "curr_iter (set_iter i r) = i" for i by (cases i) (simp add: curr_iter_def set_iter_def)
  obtain k where k: "len = Suc k" using assms(2) by (cases len) simp_all
  have "last (map (linear_lane r) [0..<len]) = linear_lane r k" by (simp add: k)
  then show ?thesis
    using assms(1) False by (simp add: shade_lanes_def linear_shade k c del: funpow.simps)
qed (use assms in \<open>simp add: shade_lanes_def clamped_lanes_eq\<close>)

lemma flat_scalar:
  assumes "\<not> sj_shade j" "sj_rgb j" "\<not> color_host r" "\<not> sj_fastclear j"
  shows "scalar_colors j y x ks r =
    (map (\<lambda>k. if lane_pat j k then rgb_color r (x + of_nat k) y else color_back r) ks, r)"
  using assms by (induction ks) (auto simp: scalar_lane_def)

lemma span_colors_scalar:
  assumes "\<not> (sj_shade j \<and> (color_host r \<or> sj_fastclear j))" "sj_rgb j = bit (draw_mode1 r) 15" "0 < len"
  shows "span_colors j len x y r = scalar_colors j y x [0..<len] r"
proof -
  consider "color_host r" | "\<not> color_host r" "sj_shade j" | "\<not> color_host r" "\<not> sj_shade j" "sj_rgb j" "\<not> sj_fastclear j"
    | "\<not> color_host r" "\<not> sj_shade j" "\<not> sj_rgb j \<or> sj_fastclear j" by blast
  then show ?thesis
  proof cases
    case 1
    with assms(1) show ?thesis by (simp add: span_colors_def host_lanes_scalar)
  next
    case 2
    have "lane_rgb j ((iterate_shade ^^ len) r) x y k i =
        (if lane_pat j k then (case i of (cr, cg, cb, ca) \<Rightarrow> rgb_from r cr cg cb ca (x + of_nat k) y) else color_back r)" for k i
      using assms(2) by (subst lane_rgb_eq) (simp_all add: rgb_from_shade)
    with 2 assms show ?thesis
      by (simp add: span_colors_def shade_lanes_eq shaded_scalar del: funpow.simps)
  next
    case 3
    with assms show ?thesis
      by (simp add: span_colors_def shade_lanes_def flat_scalar lane_rgb_eq curr_iter_def rgb_color_def)
  next
    case 4
    then show ?thesis by (auto simp: span_colors_def plain_lanes_scalar)
  qed
qed

section \<open>Writes\<close>

text \<open>What the registers keep of the framebuffer state: a write mask of 24 bits, one of sixteen
  operations.\<close>

definition rb_wf :: "rb2 \<Rightarrow> bool" where
  "rb_wf b \<longleftrightarrow> rb_write_mask b AND NOT 0xffffff = 0 \<and> logicop b < 16"

lemma mask24: "(0xffffff :: u32) = mask 24"
  by (simp add: mask_eq_exp_minus_1)

lemma mask24_bits:
  fixes m :: u32
  assumes "m AND NOT 0xffffff = 0" "bit m i"
  shows "i < 24"
proof (rule ccontr)
  assume "\<not> i < 24"
  then have "bit (m AND NOT (mask 24)) i" using assms(2) bit_imp_le_length [OF assms(2)] by (simp add: bit_simps)
  with assms(1) show False by (simp add: mask24)
qed

lemma word8_below_16: "op < 16 \<Longrightarrow> op \<in> {0, 1, 2, 3, 4, 5, 6, 7, 8, 9, 10, 11, 12, 13, 14, 15}" for op :: u8
proof -
  assume "op < 16"
  then have "unat op < 16" by (simp add: word_less_nat_alt)
  then have "unat op \<in> {0, 1, 2, 3, 4, 5, 6, 7, 8, 9, 10, 11, 12, 13, 14, 15}" by (simp, presburger)
  then show ?thesis by (auto simp: word_unat_eq_iff)
qed

definition op_bit :: "u8 \<Rightarrow> bool \<Rightarrow> bool \<Rightarrow> bool" where
  "op_bit op v d = bit op (if v then (if d then 0 else 1) else (if d then 2 else 3))"

lemma logic_op_bit:
  assumes "op < 16" "i < 24"
  shows "bit (logic_op op v d) i = op_bit op (bit v i) (bit d i)"
proof -
  have ones: "bit (0xffffff :: u32) i" using assms(2) unfolding mask24 by (simp add: bit_simps)
  show ?thesis
    using word8_below_16 [OF assms(1)] assms(2) ones
    by (elim insertE emptyE; cases "bit v i"; cases "bit d i") (simp_all add: logic_op_def op_bit_def bit_simps)
qed

lemma truth_table_bit:
  assumes "i < 32"
  shows "bit (truth_table op v d) i = op_bit op (bit v i) (bit d i)"
  using assms by (cases "bit v i"; cases "bit d i") (simp_all add: truth_table_def op_bit_def bit_simps)

lemma truth_table_eq:
  assumes "op < 16" "m AND NOT 0xffffff = 0"
  shows "logic_op op v d AND m = truth_table op v d AND m"
  using mask24_bits [OF assms(2)] assms(1)
  by (intro bit_word_eqI) (auto simp: bit_and_iff logic_op_bit truth_table_bit)

lemma dest_of_set [simp]: "dest_of (set_dest f b) = f"
  by (simp add: dest_of_def set_dest_def)

lemma set_dest_frame [simp]:
  "rb_write_mask (set_dest f b) = rb_write_mask b" "global_mask (set_dest f b) = global_mask b"
  "rb_blend (set_dest f b) = rb_blend b" "rb_fast_clear (set_dest f b) = rb_fast_clear b"
  "rb_plane_enable (set_dest f b) = rb_plane_enable b" "draw_depth (set_dest f b) = draw_depth b"
  "logicop (set_dest f b) = logicop b" "src_shift (set_dest f b) = src_shift b" "dest_aux (set_dest f b) = dest_aux b"
  by (simp_all add: set_dest_def)

definition put_lane :: "u32 \<Rightarrow> u32 \<Rightarrow> rb2 \<Rightarrow> rb2" where
  "put_lane a c b = set_dest ((dest_of b)(a := lane_value b c (dest_of b a))) b"

lemma rb_write_lane: "rb_wf b \<Longrightarrow> rb_write a c b = put_lane a c b"
  using truth_table_eq [of "logicop b" "rb_write_mask b AND global_mask b"]
  by (simp add: rb_wf_def rb_write_def rb_store_def put_lane_def lane_value_def rb_read_def Let_def and.left_commute and.assoc)

lemma put_lane_wf [simp]: "rb_wf (put_lane a c b) = rb_wf b"
  by (simp add: put_lane_def rb_wf_def)

section \<open>Clipping\<close>

lemma sint16: "- 32768 \<le> v \<Longrightarrow> v \<le> 32767 \<Longrightarrow> sint (word_of_int v :: u16) = v"
  by (simp add: signed_of_int signed_take_bit_int_eq_self)

lemma uint32: "0 \<le> v \<Longrightarrow> v < 2 ^ 32 \<Longrightarrow> uint (word_of_int v :: u32) = v"
  by (simp add: unsigned_of_int take_bit_int_eq_self)

lemma coord_add: "x + of_nat k = (word_of_int (sint x + int k) :: u16)"
  by (simp add: of_int_sint)

lemma window_add: "x + of_nat k + w - 0x1000 = (word_of_int (sint x + sint w - 0x1000 + int k) :: u16)"
  by (simp add: of_int_sint algebra_simps)

lemma inside_sint: "inside lo hi x \<longleftrightarrow> sint lo \<le> sint x \<and> sint x \<le> sint hi"
  by (simp add: inside_def word_sle_eq)

lemma clip_window:
  "clip_pass x y r \<Longrightarrow> 0 \<le> sint (x + x_window r - 0x1000) \<and> sint (x + x_window r - 0x1000) < FB_W \<and>
     0 \<le> sint (y + y_window r - 0x1000) \<and> sint (y + y_window r - 0x1000) < DISP_H"
  by (auto simp: clip_pass_def Let_def)

lemma fb_index_int: "fb_index x y = word_of_int (sint y * FB_W + sint x)"
  by (simp add: fb_index_def FB_W_def)

lemma fb_index_bound:
  assumes "0 \<le> sint x" "sint x < FB_W" "0 \<le> sint y" "sint y < FB_H"
  shows "uint (fb_index x y) < fb_words"
proof -
  let ?v = "sint y * FB_W + sint x"
  have "0 \<le> ?v" using assms by (simp add: FB_W_def)
  moreover have "?v < fb_words" using assms by (simp add: FB_W_def FB_H_def)
  ultimately have "uint (word_of_int ?v :: u32) = ?v" by (intro uint32) (simp_all add: FB_W_def FB_H_def)
  then show ?thesis using \<open>?v < fb_words\<close> by (simp only: fb_index_int)
qed

lemma clip_no_fault:
  assumes "clip_pass x y r"
  shows "\<not> fb_words \<le> uint (fb_index (x + x_window r - 0x1000) (y + y_window r - 0x1000))"
  using fb_index_bound [of "x + x_window r - 0x1000" "y + y_window r - 0x1000"] clip_window [OF assms]
  by (simp add: DISP_H_def FB_H_def not_le)

text \<open>Without blending a pixel is at most one lane write, inside the buffer.\<close>

lemma output_pixel_plain:
  assumes "\<not> bit (draw_mode1 (rex n)) 18" "rb_wf (rb n)"
  shows "output_pixel H x y c n = n\<lparr>go_pixels := go_pixels n + 1, rb :=
    (if clip_pass x y (rex n)
     then put_lane (fb_index (x + x_window (rex n) - 0x1000) (y + y_window (rex n) - 0x1000)) c (rb n) else rb n)\<rparr>"
proof (cases "clip_pass x y (rex n)")
  case True
  from clip_no_fault [OF True] show ?thesis
    using assms True by (simp add: output_pixel_def rb_set_addr_def upd_rb_def rb_write_lane Let_def)
qed (simp add: output_pixel_def)

lemma list_ex_masks:
  "list_ex (\<lambda>(lo, hi). lo \<le> xw \<and> xw \<le> hi) (row_masks yw r) \<longleftrightarrow>
   list_ex (\<lambda>b. bit (clip_mode r) b \<and> (sint (hi16 (smask_x r b) - 0x1000) \<le> xw \<and> xw \<le> sint (lo16 (smask_x r b) - 0x1000)) \<and>
     (sint (hi16 (smask_y r b) - 0x1000) \<le> yw \<and> yw \<le> sint (lo16 (smask_y r b) - 0x1000))) [1, 2, 3, 4]"
  unfolding row_masks_def list_ex_iff set_map set_filter by auto

lemma lane_clip:
  assumes "sint x + int k \<le> 32767" "-32768 \<le> sint x + sint (x_window r) - 0x1000"
    "sint x + sint (x_window r) - 0x1000 + int k \<le> 32767" "yw = sint (y + y_window r - 0x1000)"
  shows "lane_wr j k \<and> clip_pass (x + of_nat k) y r \<longleftrightarrow>
    row_ok y yw r \<and> lane_pass j (sint x) (sint x + sint (x_window r) - 0x1000) yw r k"
proof -
  let ?xw = "sint x + sint (x_window r) - 0x1000"
  have xk: "sint (x + of_nat k) = sint x + int k"
    unfolding coord_add using assms(1) sint_ge [of x] by (intro sint16) simp_all
  have xwk: "sint (x + of_nat k + x_window r - 0x1000) = ?xw + int k"
    unfolding window_add using assms(2,3) by (intro sint16) simp_all
  have rng: "-65536 \<le> sint x + int k" "sint x + int k \<le> 65536" using assms(1) sint_ge [of x] by simp_all
  have ne: "list_ex (\<lambda>(lo, hi). lo \<le> ?xw + int k \<and> ?xw + int k \<le> hi) (row_masks yw r) \<Longrightarrow> row_masks yw r \<noteq> []"
    by auto
  show ?thesis
    using rng ne unfolding clip_pass_def row_ok_def lane_pass_def Let_def inside_sint xk xwk list_ex_masks assms(4) [symmetric]
    by auto
qed

section \<open>One row\<close>

text \<open>What a lane leaves of the engine's registers: all that clipping and writing read.\<close>

definition clip_ctx :: "rex3 \<Rightarrow> u32 \<times> (nat \<Rightarrow> u32) \<times> (nat \<Rightarrow> u32) \<times> u16 \<times> u16 \<times> u32 \<times> bool" where
  "clip_ctx r = (clip_mode r, smask_x r, smask_y r, x_window r, y_window r, draw_mode1 r, color_host r)"

lemma clip_ctx_shade [simp]: "clip_ctx (iterate_shade r) = clip_ctx r"
  by (simp add: clip_ctx_def iterate_shade_def Let_def)

lemma clip_ctx_host [simp]: "clip_ctx (snd (host_color r)) = clip_ctx r"
  by (simp add: clip_ctx_def host_color_def Let_def)

lemma clip_ctx_lane: "clip_ctx (snd (scalar_lane j y x k r)) = clip_ctx r"
  by (simp add: scalar_lane_def Let_def)

lemma clip_ctx_eqD:
  assumes "clip_ctx r1 = clip_ctx r"
  shows "clip_pass x y r1 = clip_pass x y r" "x_window r1 = x_window r" "y_window r1 = y_window r"
    "draw_mode1 r1 = draw_mode1 r" "color_host r1 = color_host r"
    "row_ok y yw r1 = row_ok y yw r" "lane_pass j x0 xw0 yw r1 k = lane_pass j x0 xw0 yw r k"
proof -
  from assms have e: "clip_mode r1 = clip_mode r" "smask_x r1 = smask_x r" "smask_y r1 = smask_y r"
    "x_window r1 = x_window r" "y_window r1 = y_window r" "draw_mode1 r1 = draw_mode1 r" "color_host r1 = color_host r"
    by (simp_all add: clip_ctx_def)
  then show "x_window r1 = x_window r" "y_window r1 = y_window r" "draw_mode1 r1 = draw_mode1 r" "color_host r1 = color_host r"
    by simp_all
  show "clip_pass x y r1 = clip_pass x y r" by (simp only: clip_pass_def e)
  show "row_ok y yw r1 = row_ok y yw r" "lane_pass j x0 xw0 yw r1 k = lane_pass j x0 xw0 yw r k"
    by (simp_all only: row_ok_def lane_pass_def row_masks_def e)
qed

definition write_lanes :: "(nat \<Rightarrow> bool) \<Rightarrow> (nat \<Rightarrow> u32) \<Rightarrow> (nat \<times> u32) list \<Rightarrow> rb2 \<Rightarrow> rb2" where
  "write_lanes ok adr = fold (\<lambda>(k, c) b. if ok k then put_lane (adr k) c b else b)"

lemma write_lanes_simps [simp]:
  "write_lanes ok adr [] b = b"
  "write_lanes ok adr ((k, c) # kcs) b = write_lanes ok adr kcs (if ok k then put_lane (adr k) c b else b)"
  by (simp_all add: write_lanes_def)

lemma lanes_fold:
  assumes "\<not> sj_left j" "\<not> bit (draw_mode1 (rex n)) 18" "rb_wf (rb n)"
  shows "fold (span_lane H j y x) ks n =
    (case scalar_colors j y x ks (rex n) of (cs, r) \<Rightarrow>
       n\<lparr>rex := r, go_pixels := go_pixels n + of_nat (length (filter (lane_wr j) ks)),
         rb := write_lanes (\<lambda>k. lane_wr j k \<and> clip_pass (x + of_nat k) y (rex n))
                 (\<lambda>k. fb_index (x + of_nat k + x_window (rex n) - 0x1000) (y + y_window (rex n) - 0x1000))
                 (zip ks cs) (rb n)\<rparr>)"
  using assms(2,3)
proof (induction ks arbitrary: n)
  case (Cons k ks)
  obtain c r where l: "scalar_lane j y x k (rex n) = (c, r)" by fastforce
  obtain cs r2 where cs: "scalar_colors j y x ks r = (cs, r2)" by fastforce
  have "clip_ctx r = clip_ctx (rex n)" using clip_ctx_lane [of j y x k "rex n"] l by simp
  note ctx = clip_ctx_eqD [OF this]
  let ?n = "if lane_wr j k then output_pixel H (x + of_nat k) y c (n\<lparr>rex := r\<rparr>) else n\<lparr>rex := r\<rparr>"
  have s: "span_lane H j y x k n = ?n" using l by (simp add: span_lane_scalar [OF assms(1)])
  have n1: "?n = n\<lparr>rex := r, go_pixels := go_pixels n + (if lane_wr j k then 1 else 0),
      rb := (if lane_wr j k \<and> clip_pass (x + of_nat k) y (rex n)
             then put_lane (fb_index (x + of_nat k + x_window (rex n) - 0x1000) (y + y_window (rex n) - 0x1000)) c (rb n) else rb n)\<rparr>"
    using Cons.prems ctx by (simp add: output_pixel_plain)
  have ok: "\<not> bit (draw_mode1 (rex ?n)) 18" "rb_wf (rb ?n)" using Cons.prems ctx(4) unfolding n1 by simp_all
  show ?case
    unfolding fold_simps s Cons.IH [OF ok] by (simp add: n1 l cs ctx)
qed simp

lemma lane_stores:
  assumes "\<not> np_fault (fold (lane_store col ok base) ks n)"
  shows "fold (lane_store col ok base) ks n =
    n\<lparr>rb := write_lanes ok (\<lambda>k. base + of_nat k) (map (\<lambda>k. (k, col ! k)) ks) (rb n)\<rparr>"
  using assms
proof (induction ks arbitrary: n)
  case (Cons k ks)
  have sticky: "np_fault (fold (lane_store col ok base) ls m)" if "np_fault m" for ls m
    using that by (induction ls arbitrary: m) (simp_all add: lane_store_def Let_def)
  have "\<not> fb_words \<le> uint base + int k"
  proof
    assume "fb_words \<le> uint base + int k"
    then have "np_fault (lane_store col ok base k n)" by (simp add: lane_store_def)
    from sticky [OF this] Cons.prems show False by simp
  qed
  then have e: "lane_store col ok base k n = n\<lparr>rb := (if ok k then put_lane (base + of_nat k) (col ! k) (rb n) else rb n)\<rparr>"
    by (simp add: lane_store_def put_lane_def Let_def)
  from Cons.prems have "\<not> np_fault (fold (lane_store col ok base) ks (lane_store col ok base k n))" by simp
  from Cons.IH [OF this] show ?case by (simp add: e)
qed simp

lemma write_lanes_cong:
  assumes "\<And>k c. (k, c) \<in> set kcs \<Longrightarrow> ok k = ok' k \<and> (ok k \<longrightarrow> adr k = adr' k)"
  shows "write_lanes ok adr kcs = write_lanes ok' adr' kcs"
  unfolding write_lanes_def using assms by (intro ext fold_cong) auto

lemma write_lanes_append: "write_lanes ok adr (ks @ ls) b = write_lanes ok adr ls (write_lanes ok adr ks b)"
  by (simp add: write_lanes_def)

lemma write_lanes_none:
  assumes "\<forall>k\<in>set (map fst kcs). \<not> ok k"
  shows "write_lanes ok adr kcs b = b"
  using assms
proof (induction kcs)
  case (Cons kc kcs)
  then show ?case by (cases kc) simp
qed simp

lemma write_lanes_window:
  assumes "\<And>k. k < len \<Longrightarrow> ok k \<Longrightarrow> lo \<le> k \<and> k < hi" "lo \<le> hi" "hi \<le> len"
  shows "write_lanes ok adr (map (\<lambda>k. (k, col ! k)) [0..<len]) b = write_lanes ok adr (map (\<lambda>k. (k, col ! k)) [lo..<hi]) b"
proof -
  have "[0..<len] = [0..<lo] @ [lo..<hi] @ [hi..<len]"
    using upt_add_eq_append [of 0 lo "len - lo"] upt_add_eq_append [of lo hi "len - hi"] assms(2,3) by simp
  moreover have "\<not> ok k" if "k < lo" for k using assms(1) [of k] assms(2,3) that by auto
  then have "write_lanes ok adr (map (\<lambda>k. (k, col ! k)) [0..<lo]) b' = b'" for b'
    by (intro write_lanes_none) simp
  moreover have "\<not> ok k" if "hi \<le> k" "k < len" for k using assms(1) [of k] that by auto
  then have "write_lanes ok adr (map (\<lambda>k. (k, col ! k)) [hi..<len]) b' = b'" for b'
    by (intro write_lanes_none) simp
  ultimately show ?thesis by (simp add: write_lanes_append)
qed

lemma scalar_colors_length: "length (fst (scalar_colors j y x ks r)) = length ks"
  by (induction ks arbitrary: r) (simp_all add: split_def Let_def)

lemma clip_ctx_colors: "clip_ctx (snd (scalar_colors j y x ks r)) = clip_ctx r"
  by (induction ks arbitrary: r) (simp_all add: split_def Let_def clip_ctx_lane)

lemma seg_len_pos: "0 < seg_len j x"
  by (simp add: seg_len_def Let_def)

text \<open>What the kernel relies on: it goes to the right, the shading flags are those it implements,
  and the framebuffer state is the one the registers keep.\<close>

definition fast_ok :: "span_job \<Rightarrow> newport \<Rightarrow> bool" where
  "fast_ok j n \<longleftrightarrow> \<not> (sj_shade j \<and> (color_host (rex n) \<or> sj_fastclear j)) \<and>
     sj_rgb j = bit (draw_mode1 (rex n)) 15 \<and> rb_wf (rb n)"

lemma zip_map_nth: "length cs = len \<Longrightarrow> zip [0..<len] cs = map (\<lambda>k. (k, cs ! k)) [0..<len]"
  by (intro nth_equalityI) simp_all

lemma span_fast_exact:
  assumes f: "span_fast j x y n = Some (x1, n1)" "\<not> np_fault n1"
    and j: "\<not> sj_left j" "\<not> sj_abort j" and ok: "fast_ok j n"
  shows "span_loop H j y 31 x n = (x1, n1)"
proof -
  define r where "r = rex n"
  define len where "len = seg_len j x"
  define x0 where "x0 = sint x"
  define xw0 where "xw0 = x0 + sint (x_window r) - 0x1000"
  define yw where "yw = sint (y + y_window r - 0x1000)"
  obtain col r1 where c: "scalar_colors j y x [0..<len] r = (col, r1)" by fastforce
  have rng: "x0 + int len - 1 \<le> 32767" "-32768 \<le> xw0" "xw0 + int len - 1 \<le> 32767" "\<not> bit (draw_mode1 r) 18"
    using f(1) by (auto simp: span_fast_def r_def len_def x0_def xw0_def Let_def split: if_splits)
  have sc: "span_colors j len x y r = (col, r1)"
    using span_colors_scalar [of j r len x y] ok seg_len_pos [of j x] c by (simp add: fast_ok_def r_def len_def)
  have ctx: "clip_ctx r1 = clip_ctx r" using clip_ctx_colors [of j y x "[0..<len]" r] c by simp
  have lcol: "length col = len" using scalar_colors_length [of j y x "[0..<len]" r] c by simp
  let ?ok = "lane_pass j x0 xw0 yw r" and ?adr = "\<lambda>k. fb_index (x + of_nat k + x_window r - 0x1000) (y + y_window r - 0x1000)"
  have clip: "lane_wr j k \<and> clip_pass (x + of_nat k) y r \<longleftrightarrow> row_ok y yw r \<and> ?ok k" if "k < len" for k
    unfolding x0_def xw0_def by (rule lane_clip) (use that rng in \<open>simp_all add: x0_def xw0_def yw_def\<close>)
  have adr: "?adr k = word_of_int (yw * FB_W + xw0) + of_nat k" if "k < len" for k
  proof -
    have "sint (x + of_nat k + x_window r - 0x1000) = xw0 + int k"
      unfolding window_add xw0_def x0_def by (rule sint16) (use that rng in \<open>simp_all add: xw0_def x0_def\<close>)
    then show ?thesis by (simp add: fb_index_int yw_def)
  qed
  define kl where "kl = (if xw0 < 0 then nat (- xw0) else 0)"
  define kh where "kh = (if FB_W < xw0 + int len then FB_W - xw0 else int len)"
  have win: "kl \<le> k \<and> int k < kh" if "k < len" "?ok k" for k
    using that by (auto simp: lane_pass_def kl_def kh_def Let_def)
  define b where "b = write_lanes ?ok ?adr (map (\<lambda>k. (k, col ! k)) [0..<len]) (rb n)"
  define n' where "n' = n\<lparr>rex := r1, go_pixels := go_pixels n + of_nat (length (filter (lane_wr j) [0..<len]))\<rparr>"
  have scalar: "span_loop H j y 31 x n = (x + of_nat len, n'\<lparr>rb := if row_ok y yw r then b else rb n\<rparr>)"
  proof -
    let ?w = "write_lanes (\<lambda>k. lane_wr j k \<and> clip_pass (x + of_nat k) y r) ?adr (map (\<lambda>k. (k, col ! k)) [0..<len])"
    have "?w (rb n) = (if row_ok y yw r then b else rb n)"
    proof (cases "row_ok y yw r")
      case True
      have "?w = write_lanes ?ok ?adr (map (\<lambda>k. (k, col ! k)) [0..<len])"
      proof (rule write_lanes_cong)
        fix k c assume "(k, c) \<in> set (map (\<lambda>k. (k, col ! k)) [0..<len])"
        then have "k < len" by auto
        from clip [OF this] True show "(lane_wr j k \<and> clip_pass (x + of_nat k) y r) = ?ok k \<and>
          (lane_wr j k \<and> clip_pass (x + of_nat k) y r \<longrightarrow> ?adr k = ?adr k)" by simp
      qed
      with True show ?thesis by (simp add: b_def)
    next
      case False
      have "?w (rb n) = rb n" by (rule write_lanes_none) (use False clip in auto)
      with False show ?thesis by simp
    qed
    then show ?thesis
      using lanes_fold [OF j(1), of n H y x "[0..<len]"] rng(4) ok c
      by (simp add: span_loop_lanes [OF j(2,1)] len_def [symmetric] r_def [symmetric] fast_ok_def n'_def zip_map_nth lcol)
  qed
  have lp: "lane_pass j a b' c r1 = lane_pass j a b' c r" for a b' c by (rule ext) (rule clip_ctx_eqD(7) [OF ctx])
  have fast: "n1 = (if row_ok y yw r \<and> int kl < kh
      then fold (lane_store col ?ok (word_of_int (yw * FB_W + xw0))) [kl..<nat kh] n' else n')" "x1 = x + of_nat len"
    using f(1) rng clip_ctx_eqD(3,6) [OF ctx]
    by (auto simp: lp span_fast_def r_def [symmetric] len_def [symmetric] x0_def [symmetric] xw0_def [symmetric] sc Let_def
        n'_def yw_def kl_def kh_def not_le split: if_splits)
  show ?thesis
  proof (cases "row_ok y yw r \<and> int kl < kh")
    case False
    then have "row_ok y yw r \<Longrightarrow> \<not> ?ok k" if "k < len" for k using win [OF that] by auto
    then have "b = rb n" if "row_ok y yw r" unfolding b_def using that by (intro write_lanes_none) simp
    with False scalar fast show ?thesis by (simp add: n'_def split: if_splits)
  next
    case True
    have n1: "n1 = n'\<lparr>rb := write_lanes ?ok (\<lambda>k. word_of_int (yw * FB_W + xw0) + of_nat k) (map (\<lambda>k. (k, col ! k)) [kl..<nat kh]) (rb n')\<rparr>"
      using True fast(1) f(2) by (subst lane_stores [symmetric]) simp_all
    have "b = write_lanes ?ok ?adr (map (\<lambda>k. (k, col ! k)) [kl..<nat kh]) (rb n)"
      unfolding b_def
    proof (rule write_lanes_window)
      show "kl \<le> k \<and> k < nat kh" if "k < len" "?ok k" for k using win [OF that] by linarith
    qed (use True in \<open>auto simp: kh_def\<close>)
    also have "write_lanes ?ok ?adr (map (\<lambda>k. (k, col ! k)) [kl..<nat kh]) =
        write_lanes ?ok (\<lambda>k. word_of_int (yw * FB_W + xw0) + of_nat k) (map (\<lambda>k. (k, col ! k)) [kl..<nat kh])"
      by (rule write_lanes_cong) (use adr in \<open>auto simp: kh_def split: if_splits\<close>)
    finally show ?thesis using True scalar fast(2) n1 by (simp add: n'_def)
  qed
qed

section \<open>Whole commands\<close>

text \<open>What a drawing step keeps: faults stay, and so does all that \<open>fast_ok\<close> reads.\<close>

definition keeps :: "newport \<Rightarrow> newport \<Rightarrow> bool" where
  "keeps n n' \<longleftrightarrow> (np_fault n \<longrightarrow> np_fault n') \<and> clip_ctx (rex n') = clip_ctx (rex n) \<and> rb_wf (rb n') = rb_wf (rb n)"

lemma keeps_refl [simp]: "keeps n n"
  by (simp add: keeps_def)

lemma keeps_trans [trans]: "keeps n n1 \<Longrightarrow> keeps n1 n2 \<Longrightarrow> keeps n n2"
  by (simp add: keeps_def)

lemma rb_write_wf [simp]: "rb_wf (rb_write a c b) = rb_wf b"
  by (simp add: rb_write_def rb_store_def rb_wf_def Let_def)

lemma keeps_output: "keeps n (output_pixel H x y c n)"
  by (simp add: keeps_def output_pixel_def blend_pixel_def upd_rb_def rb_set_addr_def Let_def split_def)

lemma keeps_pixel: "keeps n (span_pixel H j y b x n)"
proof -
  have k: "keeps n m \<Longrightarrow> keeps n (output_pixel H x y c m)" for c m using keeps_output keeps_trans by blast
  have m: "clip_ctx r = clip_ctx (rex n) \<Longrightarrow> keeps n (n\<lparr>rex := r\<rparr>)" for r by (simp add: keeps_def)
  show ?thesis
    unfolding span_pixel_def Let_def split_def upd_rex_def by (simp add: k m)
qed

lemma keeps_loop: "keeps n (snd (span_loop H j y b x n))"
proof (induction H j y b x n rule: span_loop.induct)
  case (1 H j y b x n)
  show ?case
    using 1 keeps_pixel [of n H j y b x] by (subst span_loop.simps) (auto simp: Let_def intro: keeps_trans)
qed

lemma keeps_next_row: "keeps n (snd (snd (next_row j block up y (x, n))))"
  by (simp add: next_row_def keeps_def upd_rex_def reset_color_def clip_ctx_def Let_def)

lemma fast_ok_keeps: "fast_ok j n \<Longrightarrow> keeps n n' \<Longrightarrow> fast_ok j n'"
  using clip_ctx_eqD(4,5) [of "rex n'" "rex n"] by (auto simp: fast_ok_def keeps_def)

lemma span_fast_sticky:
  assumes "span_fast j x y n = Some (x1, n1)" "np_fault n"
  shows "np_fault n1"
proof -
  have "np_fault (fold (lane_store col ok base) ls m)" if "np_fault m" for col ok base ls m
    using that by (induction ls arbitrary: m) (simp_all add: lane_store_def Let_def)
  with assms show ?thesis by (auto simp: span_fast_def Let_def split_def split: if_splits)
qed

lemma row_segment_sticky: "np_fault n \<Longrightarrow> np_fault (snd (row_segment H fast j x y n))"
  using keeps_loop [of n H j y 31 x] span_fast_sticky [of j x y n]
  by (auto simp: row_segment_def keeps_def split: option.split if_splits)

lemma rows_sticky: "np_fault (snd (snd xyn)) \<Longrightarrow> np_fault (snd (snd (rows_loop H j block stop_y up end_y xyn)))"
proof (induction H j block stop_y up end_y xyn rule: rows_loop.induct)
  case (1 H j block stop_y up end_y x y n)
  obtain x1 n1 where s: "row_segment H (use_fast H j) j x y n = (x1, n1)" by fastforce
  have "np_fault n1" using row_segment_sticky [of n H "use_fast H j" j x y] 1(2) s by simp
  then have "np_fault (snd (snd (next_row j block up y (x1, n1))))" using keeps_next_row [of n1] by (simp add: keeps_def)
  then show ?case using 1(1) s by (subst rows_loop.simps) (auto simp: Let_def)
qed

text \<open>The knob changes the choice of the routine only.\<close>

lemma blend_host:
  "fl_unit (H\<lparr>np_scalar := v\<rparr>) = fl_unit H" "fl_one_minus (H\<lparr>np_scalar := v\<rparr>) = fl_one_minus H"
  "fl_quantise (H\<lparr>np_scalar := v\<rparr>) = fl_quantise H" "fl_mul (H\<lparr>np_scalar := v\<rparr>) = fl_mul H"
  "fl_add (H\<lparr>np_scalar := v\<rparr>) = fl_add H" "fl_of_u32 (H\<lparr>np_scalar := v\<rparr>) = fl_of_u32 H"
  by (simp_all add: fun_eq_iff fl_unit_def fl_one_minus_def fl_quantise_def)

lemma output_host [simp]: "output_pixel (H\<lparr>np_scalar := v\<rparr>) = output_pixel H"
proof -
  have t: "bytes3 (H\<lparr>np_scalar := v\<rparr>) = bytes3 H" "nibbles3 (H\<lparr>np_scalar := v\<rparr>) = nibbles3 H"
    by (simp_all add: fun_eq_iff bytes3_def nibbles3_def blend_host)
  have "blend_source (H\<lparr>np_scalar := v\<rparr>) = blend_source H" "blend_dest (H\<lparr>np_scalar := v\<rparr>) = blend_dest H"
    "source_term (H\<lparr>np_scalar := v\<rparr>) = source_term H" "dest_term (H\<lparr>np_scalar := v\<rparr>) = dest_term H"
    by (simp_all only: fun_eq_iff blend_source_def blend_dest_def source_term_def dest_term_def blend_host t simp_thms)
  then have "blend_pixel (H\<lparr>np_scalar := v\<rparr>) = blend_pixel H"
    by (simp only: fun_eq_iff blend_pixel_def blend_host simp_thms)
  then show ?thesis by (simp only: fun_eq_iff output_pixel_def simp_thms)
qed

lemma span_pixel_host [simp]: "span_pixel (H\<lparr>np_scalar := v\<rparr>) = span_pixel H"
  by (simp only: fun_eq_iff span_pixel_def output_host simp_thms)

lemma line_plot_host [simp]: "line_plot (H\<lparr>np_scalar := v\<rparr>) = line_plot H"
  by (simp only: fun_eq_iff line_plot_def output_host simp_thms)

lemma copy_pixel_host [simp]: "copy_pixel (H\<lparr>np_scalar := v\<rparr>) = copy_pixel H"
  by (simp only: fun_eq_iff copy_pixel_def output_host simp_thms)

lemma span_loop_host [simp]: "span_loop (H\<lparr>np_scalar := v\<rparr>) = span_loop H"
proof (intro ext)
  fix j y b x n
  show "span_loop (H\<lparr>np_scalar := v\<rparr>) j y b x n = span_loop H j y b x n"
  proof (induction H j y b x n rule: span_loop.induct)
    case (1 H j y b x n)
    then show ?case by (subst (1 2) span_loop.simps) (simp add: Let_def)
  qed
qed

lemma line_run_host [simp]: "line_run (H\<lparr>np_scalar := v\<rparr>) = line_run H"
proof (intro ext)
  fix sh c bi i1 i2 k ln
  show "line_run (H\<lparr>np_scalar := v\<rparr>) sh c bi i1 i2 k ln = line_run H sh c bi i1 i2 k ln"
    by (induction k arbitrary: ln) (simp_all add: split_def)
qed

lemma line_draw_host [simp]: "line_draw (H\<lparr>np_scalar := v\<rparr>) = line_draw H"
  by (simp only: fun_eq_iff line_draw_def line_plot_host line_run_host simp_thms)

lemma lines_host [simp]: "do_iline (H\<lparr>np_scalar := v\<rparr>) = do_iline H" "do_fline (H\<lparr>np_scalar := v\<rparr>) = do_fline H"
  by (simp_all only: fun_eq_iff do_iline_def do_fline_def line_draw_host simp_thms)

lemma copy_loop_host [simp]: "copy_loop (H\<lparr>np_scalar := v\<rparr>) = copy_loop H"
proof (intro ext)
  fix l s e y x n
  show "copy_loop (H\<lparr>np_scalar := v\<rparr>) l s e y x n = copy_loop H l s e y x n"
  proof (induction H l s e y x n rule: copy_loop.induct)
    case (1 H l s e y x n)
    then show ?case by (subst (1 2) copy_loop.simps) (simp add: Let_def)
  qed
qed

lemma scr2scr_host [simp]: "scr2scr (H\<lparr>np_scalar := v\<rparr>) = scr2scr H"
proof -
  have "copy_rows (H\<lparr>np_scalar := v\<rparr>) l s e u t f xyn = copy_rows H l s e u t f xyn" for l s e u t f xyn
  proof (induction H l s e u t f xyn rule: copy_rows.induct)
    case (1 H l s e u t f x y n)
    then show ?case by (subst (1 2) copy_rows.simps) (simp add: Let_def)
  qed
  then show ?thesis by (intro ext) (simp add: scr2scr_def)
qed

lemma row_segment_exact:
  assumes "fast_ok j n" "\<not> np_fault (snd (row_segment H (use_fast H j) j x y n))"
  shows "row_segment H (use_fast H j) j x y n = span_loop H j y 31 x n"
proof (cases "if use_fast H j then span_fast j x y n else None")
  case (Some xn)
  then have f: "use_fast H j" "span_fast j x y n = Some (fst xn, snd xn)" by (auto split: if_splits)
  with assms(2) have "\<not> np_fault (snd xn)" by (simp add: row_segment_def)
  from span_fast_exact [OF f(2) this _ _ assms(1), of H] f show ?thesis by (simp add: row_segment_def use_fast_def)
qed (simp add: row_segment_def)

lemma rows_exact:
  assumes "fast_ok j (snd (snd xyn))" "\<not> np_fault (snd (snd (rows_loop H j block stop_y up end_y xyn)))"
  shows "rows_loop H j block stop_y up end_y xyn = rows_loop (H\<lparr>np_scalar := True\<rparr>) j block stop_y up end_y xyn"
  using assms
proof (induction H j block stop_y up end_y xyn rule: rows_loop.induct)
  case (1 H j block stop_y up end_y x y n)
  let ?seg = "row_segment H (use_fast H j) j x y n"
  obtain x1 n1 where s: "?seg = (x1, n1)" by fastforce
  let ?next = "next_row j block up y (x1, n1)"
  have nf: "\<not> np_fault (snd (snd ?next))"
  proof
    assume "np_fault (snd (snd ?next))"
    then have "np_fault (snd (snd (rows_loop H j block stop_y up end_y (x, y, n))))"
      by (subst rows_loop.simps) (auto simp: s Let_def intro: rows_sticky)
    with 1(3) show False by simp
  qed
  then have "\<not> np_fault n1" using keeps_next_row [of n1 j block up y x1] by (auto simp: keeps_def)
  then have seg: "?seg = span_loop H j y 31 x n" using row_segment_exact [of j n H x y] 1(2) s by simp
  have "keeps n n1" using keeps_loop [of n H j y 31 x] unfolding seg [symmetric] s by simp
  then have "keeps n (snd (snd ?next))" using keeps_next_row by (rule keeps_trans)
  moreover have "fast_ok j n" using 1(2) by simp
  ultimately have "fast_ok j (snd (snd ?next))" by (rule fast_ok_keeps [rotated])
  moreover have "row_segment (H\<lparr>np_scalar := True\<rparr>) (use_fast (H\<lparr>np_scalar := True\<rparr>) j) j x y n = (x1, n1)"
    using s seg by (simp add: row_segment_def use_fast_def)
  moreover have "\<not> np_fault (snd (snd (rows_loop H j block stop_y up end_y ?next)))"
    if "block \<and> fst (snd ?next) \<noteq> end_y \<and> stop_y"
    using 1(3) that by (subst (asm) rows_loop.simps) (auto simp: s Let_def)
  ultimately show ?case
    using 1(1) s by (subst (1 2) rows_loop.simps) (auto simp: Let_def)
qed

text \<open>The flags of a command that the kernel does not implement: shading while the pixels come from
  the host or from the clear colour.\<close>

definition shade_ignored :: "rex3 \<Rightarrow> bool" where
  "shade_ignored r \<longleftrightarrow> bit (draw_mode0 r) 18 \<and> (color_host r \<or> bit (draw_mode1 r) 17)"

lemma span_or_block_exact:
  assumes "rb_wf (rb n)" "\<not> shade_ignored (rex n)" "\<not> np_fault (span_or_block H block n)"
  shows "span_or_block H block n = span_or_block (H\<lparr>np_scalar := True\<rparr>) block n"
proof -
  let ?up = "bit (octant (rex n)) 0" and ?e = "if block then y_end_i (rex n) + dir (bit (octant (rex n)) 0) else y_end_i (rex n)"
  let ?L = "\<lambda>H. rows_loop H (span_job_of (rex n) block) block (bit (draw_mode0 (rex n)) 9) ?up ?e (x_start_i (rex n), y_start_i (rex n), n)"
  have "fast_ok (span_job_of (rex n) block) n"
    using assms(1,2) by (simp add: fast_ok_def span_job_of_def shade_ignored_def Let_def)
  moreover have "\<not> np_fault (snd (snd (?L H)))"
    using assms(3) by (simp add: span_or_block_def upd_rex_def Let_def split_def split: if_splits)
  ultimately have "?L H = ?L (H\<lparr>np_scalar := True\<rparr>)" by (intro rows_exact) simp_all
  then show ?thesis by (simp only: span_or_block_def Let_def)
qed

lemma setup_if_frame [simp]:
  "rb (setup_if n) = rb n" "shade_ignored (rex (setup_if n)) = shade_ignored (rex n)"
  by (simp_all add: setup_if_def upd_rex_def do_setup_def shade_ignored_def Let_def)

lemma body_exact:
  assumes "rb_wf (rb n)" "\<not> shade_ignored (rex n)" "\<not> np_fault (do_command_body H opcode adrmode n)"
  shows "do_command_body H opcode adrmode n = do_command_body (H\<lparr>np_scalar := True\<rparr>) opcode adrmode n"
proof (cases "opcode = 2 \<and> (adrmode = 0 \<or> adrmode = 1)")
  case True
  then have e: "do_command_body G opcode adrmode n = span_or_block G (adrmode = 1) (setup_if n)" for G
    by (auto simp: do_command_body_def Let_def)
  have "rb_wf (rb (setup_if n))" "\<not> shade_ignored (rex (setup_if n))" using assms(1,2) by simp_all
  from span_or_block_exact [OF this assms(3) [unfolded e]] show ?thesis unfolding e .
next
  case False
  then show ?thesis by (auto simp: do_command_body_def Let_def)
qed

end
