(* ===== verification/SCC.thy ===== *)
theory SCC
  imports Prelude
begin

text \<open>
  The Z85230 serial controller of the Indy (\<^verbatim>\<open>class sgi_scc\<close>, src/sgi_scc.hh and
  src/sgi_scc.cc): the register pointer protocol, transmit timing with its interrupt, and
  the eight-deep receive FIFO fed from the host's standard input.

  The two-element arrays of the class are functions of the channel, \<open>True\<close> for channel A
  (index 1).  The FIFO indices are naturals: \<open>scc_inv\<close> shows that they stay below 9, so the
  \<^verbatim>\<open>uint8_t\<close> of the class never wraps.  The host's end of the two streams is part of the
  record: \<open>stdin\<close> holds the bytes \<^verbatim>\<open>read(0, ...)\<close> can still return, \<open>stdout\<close> the bytes
  written with \<^verbatim>\<open>putchar\<close>, the newest last.
\<close>

section \<open>State\<close>

record sgi_scc =
  ptr :: "bool \<Rightarrow> u8"
  wr1 :: "bool \<Rightarrow> u8"
  wr9 :: u8
  tx_busy :: "bool \<Rightarrow> bool"
  drain_at :: "bool \<Rightarrow> u64"
  tx_ip :: "bool \<Rightarrow> bool"
  clk :: u64
  rx_fifo :: "u8 list"
  rx_wptr :: nat
  rx_rptr :: nat
  rx_count :: nat
  rx_init :: bool
  rx_poll_at :: u64
  stdin :: "u8 list"
  stdout :: "u8 list"

definition sgi_scc_new :: sgi_scc where
  "sgi_scc_new = \<lparr>ptr = (\<lambda>_. 0), wr1 = (\<lambda>_. 0), wr9 = 0, tx_busy = (\<lambda>_. False),
     drain_at = (\<lambda>_. 0), tx_ip = (\<lambda>_. False), clk = 0, rx_fifo = replicate 8 0,
     rx_wptr = 0, rx_rptr = 0, rx_count = 0, rx_init = False, rx_poll_at = 0,
     stdin = [], stdout = []\<rparr>"

section \<open>Constants and register decoding\<close>

definition RR0_RX_AVAIL :: u8 where "RR0_RX_AVAIL = 0x01"
definition RR0_TX_EMPTY :: u8 where "RR0_TX_EMPTY = 0x04"
definition RR0_ALL_SENT :: u8 where "RR0_ALL_SENT = 0x40"
definition TxINT_ENAB :: u8 where "TxINT_ENAB = 0x02"
definition CHBTxIP :: u8 where "CHBTxIP = 0x02"
definition CHATxIP :: u8 where "CHATxIP = 0x10"
definition CHBRxIP :: u8 where "CHBRxIP = 0x04"
definition CHARxIP :: u8 where "CHARxIP = 0x20"
definition WR0_CMD_MASK :: u8 where "WR0_CMD_MASK = 0x38"
definition CMD_POINT_HIGH :: u8 where "CMD_POINT_HIGH = 0x08"
definition CMD_RES_Tx_P :: u8 where "CMD_RES_Tx_P = 0x28"
definition TX_DRAIN_TICKS :: u64 where "TX_DRAIN_TICKS = 1024"

definition is_data_reg :: "u32 \<Rightarrow> bool" where "is_data_reg offs = bit offs 2"
definition chan :: "u32 \<Rightarrow> bool" where "chan offs = bit offs 3"

definition tx_int :: "u8 \<Rightarrow> bool \<Rightarrow> bool" where
  "tx_int w ip \<longleftrightarrow> flag w TxINT_ENAB \<and> ip"

definition rx_int_en :: "u8 \<Rightarrow> bool" where
  "rx_int_en w \<longleftrightarrow> flag w 0x18"

section \<open>The receive FIFO\<close>

definition rx_room :: "sgi_scc \<Rightarrow> bool" where
  "rx_room s \<longleftrightarrow> rx_count s < 8"

definition rx_push :: "u8 \<Rightarrow> sgi_scc \<Rightarrow> sgi_scc" where
  "rx_push c s = s\<lparr>rx_fifo := (rx_fifo s)[rx_wptr s := c],
     rx_wptr := (rx_wptr s + 1) mod 8, rx_count := rx_count s + 1\<rparr>"

definition rx_pop :: "sgi_scc \<Rightarrow> u8 \<times> sgi_scc" where
  "rx_pop s = (rx_fifo s ! rx_rptr s,
     s\<lparr>rx_rptr := (rx_rptr s + 1) mod 8, rx_count := rx_count s - 1\<rparr>)"

text \<open>The loop \<^verbatim>\<open>while(room && read(...) == 1) push\<close>: what is left of the input and the
  queue after it.\<close>

fun feed :: "('q \<Rightarrow> bool) \<Rightarrow> (u8 \<Rightarrow> 'q \<Rightarrow> 'q) \<Rightarrow> u8 list \<Rightarrow> 'q \<Rightarrow> u8 list \<times> 'q" where
  "feed room push [] q = ([], q)"
| "feed room push (c # cs) q = (if room q then feed room push cs (push c q) else (c # cs, q))"

definition rx_poll :: "sgi_scc \<Rightarrow> sgi_scc" where
  "rx_poll s =
     (let (rest, s1) = feed rx_room rx_push (stdin s) (s\<lparr>rx_init := True\<rparr>) in s1\<lparr>stdin := rest\<rparr>)"

section \<open>Operations\<close>

definition drain :: "bool \<Rightarrow> sgi_scc \<Rightarrow> sgi_scc" where
  "drain ch s =
     (if tx_busy s ch \<and> drain_at s ch \<le> clk s
      then s\<lparr>tx_busy := (tx_busy s)(ch := False), tx_ip := (tx_ip s)(ch := True)\<rparr> else s)"

definition sgi_scc_tick :: "u64 \<Rightarrow> sgi_scc \<Rightarrow> sgi_scc" where
  "sgi_scc_tick dticks s =
     (let s1 = s\<lparr>clk := clk s + dticks\<rparr>;
          s2 = (if rx_poll_at s1 \<le> clk s1
                then (rx_poll s1)\<lparr>rx_poll_at := clk s1 + 65536\<rparr> else s1)
      in drain True (drain False s2))"

definition rr3 :: "sgi_scc \<Rightarrow> u8" where
  "rr3 s = (if tx_int (wr1 s True) (tx_ip s True) then CHATxIP else 0)
     OR (if tx_int (wr1 s False) (tx_ip s False) then CHBTxIP else 0)
     OR (if 0 < rx_count s \<and> rx_int_en (wr1 s True) then CHARxIP else 0)
     OR (if 0 < rx_count s \<and> rx_int_en (wr1 s False) then CHBRxIP else 0)"

definition rr0 :: "bool \<Rightarrow> sgi_scc \<Rightarrow> u8" where
  "rr0 ch s = (if tx_busy s ch then 0 else RR0_TX_EMPTY OR RR0_ALL_SENT)
     OR (if 0 < rx_count s then RR0_RX_AVAIL else 0)"

definition sgi_scc_read :: "u32 \<Rightarrow> sgi_scc \<Rightarrow> u8 \<times> sgi_scc" where
  "sgi_scc_read offs s =
     (let ch = chan offs in
      if is_data_reg offs then (if 0 < rx_count s then rx_pop s else (0, s))
      else
        (let p = ptr s ch; s1 = s\<lparr>ptr := (ptr s)(ch := 0)\<rparr> in
         if p = 3 then (rr3 s1, s1)
         else if p = 1 then (if tx_busy s1 ch then 0 else 1, s1)
         else (rr0 ch s1, s1)))"

definition sgi_scc_write :: "u32 \<Rightarrow> u8 \<Rightarrow> sgi_scc \<Rightarrow> sgi_scc" where
  "sgi_scc_write offs b s =
     (let ch = chan offs in
      if is_data_reg offs
      then s\<lparr>stdout := stdout s @ [b], tx_ip := (tx_ip s)(ch := False),
             tx_busy := (tx_busy s)(ch := True),
             drain_at := (drain_at s)(ch := clk s + TX_DRAIN_TICKS)\<rparr>
      else
        (let p = ptr s ch in
         if p = 0
         then (let cmd = b AND WR0_CMD_MASK;
                   s1 = (if cmd = CMD_RES_Tx_P then s\<lparr>tx_ip := (tx_ip s)(ch := False)\<rparr> else s)
               in s1\<lparr>ptr := (ptr s1)(ch := (b AND 0x07) OR (if cmd = CMD_POINT_HIGH then 0x08 else 0))\<rparr>)
         else (let s1 = (if p = 1 then s\<lparr>wr1 := (wr1 s)(ch := b)\<rparr>
                         else if p = 9 then s\<lparr>wr9 := b\<rparr> else s)
               in s1\<lparr>ptr := (ptr s1)(ch := 0)\<rparr>)))"

definition scc_int_pending :: "sgi_scc \<Rightarrow> bool" where
  "scc_int_pending s \<longleftrightarrow>
     (0 < rx_count s \<and> (rx_int_en (wr1 s False) \<or> rx_int_en (wr1 s True))) \<or>
     tx_int (wr1 s False) (tx_ip s False) \<or> tx_int (wr1 s True) (tx_ip s True)"

section \<open>Runs\<close>

text \<open>The outside world of the controller: the user types, the machine ticks, the CPU
  reads and writes.  \<open>scc_run\<close> collects the bytes data reads take out of the FIFO.\<close>

datatype scc_event = Typed "u8 list" | Tick u64 | Rd u32 | Wr u32 u8

definition takes_byte :: "u32 \<Rightarrow> sgi_scc \<Rightarrow> bool" where
  "takes_byte offs s \<longleftrightarrow> is_data_reg offs \<and> 0 < rx_count s"

primrec scc_event_step :: "scc_event \<Rightarrow> sgi_scc \<Rightarrow> sgi_scc" where
  "scc_event_step (Typed cs) s = s\<lparr>stdin := stdin s @ cs\<rparr>"
| "scc_event_step (Tick d) s = sgi_scc_tick d s"
| "scc_event_step (Rd offs) s = snd (sgi_scc_read offs s)"
| "scc_event_step (Wr offs b) s = sgi_scc_write offs b s"

primrec event_out :: "scc_event \<Rightarrow> sgi_scc \<Rightarrow> u8 list" where
  "event_out (Typed cs) s = []"
| "event_out (Tick d) s = []"
| "event_out (Rd offs) s = (if takes_byte offs s then [fst (sgi_scc_read offs s)] else [])"
| "event_out (Wr offs b) s = []"

primrec event_in :: "scc_event \<Rightarrow> u8 list" where
  "event_in (Typed cs) = cs"
| "event_in (Tick d) = []"
| "event_in (Rd offs) = []"
| "event_in (Wr offs b) = []"

fun scc_run :: "scc_event list \<Rightarrow> sgi_scc \<Rightarrow> u8 list \<times> sgi_scc" where
  "scc_run [] s = ([], s)"
| "scc_run (e # es) s =
     (let (out, s') = scc_run es (scc_event_step e s) in (event_out e s @ out, s'))"

section \<open>The receive path refines a queue\<close>

text \<open>What the controller relies on from its FIFO: pushing appends when there is room,
  popping takes the oldest byte.\<close>

locale byte_queue =
  fixes inv :: "'q \<Rightarrow> bool"
    and contents :: "'q \<Rightarrow> u8 list"
    and room :: "'q \<Rightarrow> bool"
    and push :: "u8 \<Rightarrow> 'q \<Rightarrow> 'q"
    and pop :: "'q \<Rightarrow> u8 \<times> 'q"
  assumes push_inv: "inv q \<Longrightarrow> room q \<Longrightarrow> inv (push c q)"
    and push_contents: "inv q \<Longrightarrow> room q \<Longrightarrow> contents (push c q) = contents q @ [c]"
    and pop_inv: "inv q \<Longrightarrow> contents q \<noteq> [] \<Longrightarrow> inv (snd (pop q))"
    and pop_contents: "inv q \<Longrightarrow> contents q \<noteq> [] \<Longrightarrow> fst (pop q) # contents (snd (pop q)) = contents q"
begin

lemma feed_inv: "inv q \<Longrightarrow> inv (snd (feed room push cs q))"
  by (induction cs arbitrary: q) (auto simp: push_inv)

lemma feed_conserves:
  "inv q \<Longrightarrow> contents (snd (feed room push cs q)) @ fst (feed room push cs q) = contents q @ cs"
proof (induction cs arbitrary: q)
  case (Cons c cs)
  then show ?case using push_inv push_contents by (cases "room q") simp_all
qed simp

lemma feed_stops: "fst (feed room push cs q) \<noteq> [] \<Longrightarrow> \<not> room (snd (feed room push cs q))"
  by (induction room push cs q rule: feed.induct) (auto split: if_splits)

end

text \<open>The bytes in the ring, oldest first, and the invariant of the ring indices.\<close>

definition rx_list :: "sgi_scc \<Rightarrow> u8 list" where
  "rx_list s = map (\<lambda>i. rx_fifo s ! ((rx_rptr s + i) mod 8)) [0..<rx_count s]"

definition scc_inv :: "sgi_scc \<Rightarrow> bool" where
  "scc_inv s \<longleftrightarrow> length (rx_fifo s) = 8 \<and> rx_rptr s < 8 \<and> rx_count s \<le> 8 \<and>
     rx_wptr s = (rx_rptr s + rx_count s) mod 8"

lemma rx_list_empty [simp]: "rx_list s = [] \<longleftrightarrow> rx_count s = 0"
  by (simp add: rx_list_def)

lemma mod_add_inj:
  fixes i j :: nat
  assumes "i < n" "j < n"
  shows "(r + i) mod n = (r + j) mod n \<longleftrightarrow> i = j"
  using assms
proof (induction i j rule: linorder_wlog)
  case (le i j)
  then have "(r + j) mod n = (r + i) mod n \<longleftrightarrow> n dvd j - i"
    using mod_eq_dvd_iff_nat [of "r + i" "r + j" n] by simp
  moreover have "n dvd j - i \<longleftrightarrow> i = j"
    using le nat_dvd_not_less [of "j - i" n] by (cases "i = j") auto
  ultimately show ?case by metis
qed metis

lemma rx_push_list:
  assumes "scc_inv s" "rx_room s"
  shows "rx_list (rx_push c s) = rx_list s @ [c]"
proof (rule nth_equalityI)
  show "length (rx_list (rx_push c s)) = length (rx_list s @ [c])"
    by (simp add: rx_list_def rx_push_def)
  fix i assume "i < length (rx_list (rx_push c s))"
  then have i: "i \<le> rx_count s" by (simp add: rx_list_def rx_push_def)
  have "(rx_rptr s + i) mod 8 = (rx_rptr s + rx_count s) mod 8 \<longleftrightarrow> i = rx_count s"
    using assms(2) i by (intro mod_add_inj) (simp_all add: rx_room_def)
  then show "rx_list (rx_push c s) ! i = (rx_list s @ [c]) ! i"
    using assms i
    by (auto simp: rx_list_def rx_push_def scc_inv_def nth_append nth_list_update)
qed

lemma rx_pop_list:
  assumes "scc_inv s" "rx_list s \<noteq> []"
  shows "fst (rx_pop s) # rx_list (snd (rx_pop s)) = rx_list s"
proof -
  obtain k where k: "rx_count s = Suc k" using assms(2) by (cases "rx_count s") auto
  have "rx_list s = rx_fifo s ! (rx_rptr s mod 8) # map (\<lambda>i. rx_fifo s ! ((rx_rptr s + Suc i) mod 8)) [0..<k]"
    by (simp add: rx_list_def k upt_rec [of 0] map_Suc_upt [symmetric] o_def del: upt_Suc)
  then show ?thesis
    using assms(1) by (simp add: rx_pop_def rx_list_def k scc_inv_def mod_simps)
qed

interpretation rx: byte_queue scc_inv rx_list rx_room rx_push rx_pop
proof unfold_locales
  show "scc_inv (rx_push c s)" if "scc_inv s" "rx_room s" for c s
    using that by (simp add: scc_inv_def rx_push_def rx_room_def mod_simps)
  show "scc_inv (snd (rx_pop s))" if "scc_inv s" "rx_list s \<noteq> []" for s
    using that by (cases "rx_count s") (simp_all add: scc_inv_def rx_pop_def mod_simps)
qed (use rx_push_list rx_pop_list in auto)

text \<open>Operations that do not touch the ring.\<close>

definition same_rx :: "sgi_scc \<Rightarrow> sgi_scc \<Rightarrow> bool" where
  "same_rx s s' \<longleftrightarrow> rx_fifo s' = rx_fifo s \<and> rx_wptr s' = rx_wptr s \<and> rx_rptr s' = rx_rptr s \<and>
     rx_count s' = rx_count s \<and> stdin s' = stdin s"

lemma same_rx_view:
  "same_rx s s' \<Longrightarrow> scc_inv s' = scc_inv s \<and> rx_list s' = rx_list s \<and> stdin s' = stdin s"
  by (simp add: same_rx_def scc_inv_def rx_list_def)

lemma same_rx_trans: "same_rx s s' \<Longrightarrow> same_rx s' s'' \<Longrightarrow> same_rx s s''"
  by (simp add: same_rx_def)

lemma drain_same_rx: "same_rx s (drain ch s)"
  by (simp add: same_rx_def drain_def)

lemma write_same_rx: "same_rx s (sgi_scc_write offs b s)"
  by (simp add: same_rx_def sgi_scc_write_def Let_def)

lemma rx_poll_conserves:
  assumes "scc_inv s"
  shows "scc_inv (rx_poll s) \<and> rx_list (rx_poll s) @ stdin (rx_poll s) = rx_list s @ stdin s"
proof -
  let ?s = "s\<lparr>rx_init := True\<rparr>"
  have eq: "same_rx s ?s" by (simp add: same_rx_def)
  then have i: "scc_inv ?s" using assms same_rx_view by blast
  obtain rest s1 where f: "feed rx_room rx_push (stdin s) ?s = (rest, s1)" by fastforce
  have "scc_inv s1" "rx_list s1 @ rest = rx_list s @ stdin s"
    using rx.feed_inv [OF i, of "stdin s"] rx.feed_conserves [OF i, of "stdin s"] same_rx_view [OF eq]
    by (simp_all add: f)
  then show ?thesis
    by (simp add: rx_poll_def f rx_list_def scc_inv_def)
qed

lemma tick_conserves:
  assumes "scc_inv s"
  shows "scc_inv (sgi_scc_tick d s) \<and>
     rx_list (sgi_scc_tick d s) @ stdin (sgi_scc_tick d s) = rx_list s @ stdin s"
proof -
  define s1 where "s1 = s\<lparr>clk := clk s + d\<rparr>"
  define s2 where "s2 = (if rx_poll_at s1 \<le> clk s1
                then (rx_poll s1)\<lparr>rx_poll_at := clk s1 + 65536\<rparr> else s1)"
  have "same_rx s s1" by (simp add: same_rx_def s1_def)
  then have i: "scc_inv s1" and v: "rx_list s1 @ stdin s1 = rx_list s @ stdin s"
    using assms same_rx_view [of s s1] by auto
  have p: "same_rx (rx_poll s1) ((rx_poll s1)\<lparr>rx_poll_at := clk s1 + 65536\<rparr>)"
    by (simp add: same_rx_def)
  have "scc_inv s2 \<and> rx_list s2 @ stdin s2 = rx_list s @ stdin s"
    unfolding s2_def using rx_poll_conserves [OF i] i v same_rx_view [OF p] by simp
  moreover have "same_rx s2 (sgi_scc_tick d s)"
    unfolding sgi_scc_tick_def Let_def s1_def [symmetric] s2_def [symmetric]
    by (rule same_rx_trans [OF drain_same_rx drain_same_rx])
  ultimately show ?thesis using same_rx_view [of s2 "sgi_scc_tick d s"] by simp
qed

lemma read_conserves:
  assumes "scc_inv s"
  shows "scc_inv (snd (sgi_scc_read offs s)) \<and>
     event_out (Rd offs) s @ rx_list (snd (sgi_scc_read offs s)) = rx_list s \<and>
     stdin (snd (sgi_scc_read offs s)) = stdin s"
proof (cases "takes_byte offs s")
  case True
  then show ?thesis
    using assms rx.pop_inv [OF assms] rx.pop_contents [OF assms]
    by (simp add: takes_byte_def sgi_scc_read_def) (simp add: rx_pop_def)
next
  case False
  then have "same_rx s (snd (sgi_scc_read offs s))"
    by (auto simp: takes_byte_def sgi_scc_read_def same_rx_def Let_def)
  with False assms same_rx_view show ?thesis by simp
qed

lemma event_conserves:
  assumes "scc_inv s"
  shows "scc_inv (scc_event_step e s) \<and>
     event_out e s @ rx_list (scc_event_step e s) @ stdin (scc_event_step e s) =
     rx_list s @ stdin s @ event_in e"
proof (cases e)
  case (Typed cs)
  then show ?thesis using assms by (simp add: scc_inv_def rx_list_def)
next
  case (Tick d)
  then show ?thesis using tick_conserves [OF assms] by simp
next
  case (Rd offs)
  then show ?thesis using read_conserves [OF assms, of offs] by (simp add: append_assoc [symmetric] del: event_out.simps append_assoc)
next
  case (Wr offs b)
  then show ?thesis using assms same_rx_view [OF write_same_rx [of s offs b]] by simp
qed

lemma run_conserves:
  "scc_inv s \<Longrightarrow> scc_run es s = (out, s') \<Longrightarrow>
   scc_inv s' \<and> out @ rx_list s' @ stdin s' = rx_list s @ stdin s @ concat (map event_in es)"
proof (induction es arbitrary: s out)
  case (Cons e es)
  obtain o1 where o1: "scc_run es (scc_event_step e s) = (o1, s')" "out = event_out e s @ o1"
    using Cons.prems(2) by (auto split: prod.splits)
  then show ?case
    using Cons.IH [OF _ o1(1)] event_conserves [OF Cons.prems(1), of e]
    by (metis append_assoc concat.simps(2) list.simps(9))
qed simp

lemma scc_new_inv: "scc_inv sgi_scc_new" and scc_new_list: "rx_list sgi_scc_new = []"
  by (simp_all add: scc_inv_def sgi_scc_new_def)

section \<open>Transmit timing\<close>

text \<open>An event that writes no register of a channel leaves its shifter alone, except for
  the passage of time.\<close>

definition writes :: "bool \<Rightarrow> scc_event \<Rightarrow> bool" where
  "writes ch e = (case e of Wr offs b \<Rightarrow> chan offs = ch | _ \<Rightarrow> False)"

definition ticks :: "scc_event \<Rightarrow> nat" where
  "ticks e = (case e of Tick d \<Rightarrow> unat d | _ \<Rightarrow> 0)"

definition tx_fields :: "sgi_scc \<Rightarrow> (bool \<Rightarrow> bool) \<times> (bool \<Rightarrow> bool) \<times> (bool \<Rightarrow> u64) \<times> (bool \<Rightarrow> u8) \<times> u64" where
  "tx_fields s = (tx_busy s, tx_ip s, drain_at s, wr1 s, clk s)"

lemma feed_tx: "tx_fields (snd (feed rx_room rx_push cs s)) = tx_fields s"
  by (induction cs arbitrary: s) (auto simp: rx_push_def tx_fields_def)

lemma rx_poll_tx: "tx_fields (rx_poll s) = tx_fields s"
proof -
  obtain rest s1 where f: "feed rx_room rx_push (stdin s) (s\<lparr>rx_init := True\<rparr>) = (rest, s1)" by fastforce
  with feed_tx [of "stdin s" "s\<lparr>rx_init := True\<rparr>"] show ?thesis
    by (simp add: rx_poll_def f tx_fields_def)
qed

text \<open>The shifter of a channel \<open>n\<close> ticks after a data write at clock \<open>t\<close>.\<close>

definition shifting :: "bool \<Rightarrow> nat \<Rightarrow> nat \<Rightarrow> sgi_scc \<Rightarrow> bool" where
  "shifting ch t n s \<longleftrightarrow> unat (clk s) = t + n \<and> unat (drain_at s ch) = t + 1024 \<and>
     tx_busy s ch = (n < 1024) \<and> tx_ip s ch = (1024 \<le> n)"

lemma tick_shifting:
  assumes "shifting ch t n s" "t + n + unat d < 2 ^ 64"
  shows "shifting ch t (n + unat d) (sgi_scc_tick d s)"
proof -
  define s1 where "s1 = s\<lparr>clk := clk s + d\<rparr>"
  define s2 where "s2 = (if rx_poll_at s1 \<le> clk s1
                then (rx_poll s1)\<lparr>rx_poll_at := clk s1 + 65536\<rparr> else s1)"
  have f: "tx_fields s2 = tx_fields s1" using rx_poll_tx [of s1] by (simp add: s2_def tx_fields_def)
  have c: "unat (clk s + d) = t + n + unat d"
    using assms by (simp add: shifting_def unat_word_ariths)
  have "sgi_scc_tick d s = drain True (drain False s2)"
    unfolding sgi_scc_tick_def Let_def s1_def [symmetric] s2_def [symmetric] ..
  moreover have "shifting ch t (n + unat d) (drain True (drain False s2))"
    using assms(1) f c
    by (cases ch) (auto simp: drain_def shifting_def tx_fields_def s1_def word_le_nat_alt)
  ultimately show ?thesis by simp
qed

lemma event_shifting:
  assumes "shifting ch t n s" "\<not> writes ch e" "t + n + ticks e < 2 ^ 64"
  shows "shifting ch t (n + ticks e) (scc_event_step e s)"
proof (cases e)
  case (Tick d)
  with assms show ?thesis by (simp add: tick_shifting ticks_def)
next
  case (Rd offs)
  with assms show ?thesis by (auto simp: ticks_def shifting_def sgi_scc_read_def rx_pop_def Let_def)
next
  case (Wr offs b)
  with assms show ?thesis by (auto simp: ticks_def writes_def shifting_def sgi_scc_write_def Let_def)
qed (use assms in \<open>auto simp: ticks_def shifting_def\<close>)

lemma run_shifting:
  "shifting ch t n s \<Longrightarrow> \<forall>e\<in>set es. \<not> writes ch e \<Longrightarrow> t + n + sum_list (map ticks es) < 2 ^ 64 \<Longrightarrow>
   shifting ch t (n + sum_list (map ticks es)) (snd (scc_run es s))"
proof (induction es arbitrary: s n)
  case (Cons e es)
  then have "shifting ch t (n + ticks e) (scc_event_step e s)" by (intro event_shifting) auto
  from Cons.IH [OF this] Cons.prems show ?case by (simp add: case_prod_beta add.assoc)
qed simp

lemma write_shifting:
  "is_data_reg offs \<Longrightarrow> unat (clk s) + 1024 < 2 ^ 64 \<Longrightarrow>
   shifting (chan offs) (unat (clk s)) 0 (sgi_scc_write offs b s)"
  by (simp add: shifting_def sgi_scc_write_def TX_DRAIN_TICKS_def unat_word_ariths Let_def)

section \<open>Properties\<close>

text \<open>C13.  Console input is lossless and in order: over any interleaving of typing, ticks and register
  accesses since power-up, the bytes the data reads have returned, then the bytes in the
  eight-deep ring, then the bytes still waiting on the host are exactly the bytes typed, and the
  ring indices keep their invariant.\<close>

theorem console_input_in_order:
  assumes "scc_run es sgi_scc_new = (out, s)"
  shows "out @ rx_list s @ stdin s = concat (map event_in es) \<and> scc_inv s"
  using run_conserves [OF scc_new_inv assms] by (simp add: scc_new_list sgi_scc_new_def)

theorem console_input_in_order_witness:
  "let (out, s) = scc_run [Typed [1,2,3,4,5,6,7,8,9], Tick 70000, Rd 12, Rd 8, Typed [10], Rd 4, Tick 70000] sgi_scc_new
   in out = [1,2] \<and> rx_list s = [3,4,5,6,7,8,9,10] \<and> stdin s = [] \<and>
      out @ rx_list s @ stdin s = [1,2,3,4,5,6,7,8,9,10]"
proof -
  let ?es = "[Typed [1,2,3,4,5,6,7,8,9], Tick 70000, Rd 12, Rd 8, Typed [10], Rd 4, Tick 70000]"
  obtain out s where r: "scc_run ?es sgi_scc_new = (out, s)" by fastforce
  have "fst (scc_run ?es sgi_scc_new) = [1,2]" "stdin (snd (scc_run ?es sgi_scc_new)) = []"
    by code_simp+
  then have "out = [1,2]" "stdin s = []" by (simp_all only: r fst_conv snd_conv)
  with console_input_in_order [OF r] have "out = [1,2] \<and> rx_list s = [3,4,5,6,7,8,9,10] \<and> stdin s = []"
    by simp
  then show ?thesis by (simp only: r Let_def prod.case) simp
qed

text \<open>Transmit timing: after a byte is written to the data register of a channel, whatever other
  accesses follow that write no register of the channel, the channel reports busy and raises no
  interrupt until 1024 ticks have passed, and from then on its transmit interrupt is pending, so the
  line is asserted exactly when it is enabled in WR1 (or the other sources assert it).\<close>

theorem transmit_interrupt_timing:
  fixes s :: sgi_scc
  assumes "is_data_reg offs" "ch = chan offs" "\<forall>e\<in>set es. \<not> writes ch e"
    and "n = sum_list (map ticks es)" "unat (clk s) + n < 2 ^ 64" "unat (clk s) + 1024 < 2 ^ 64"
    and "s' = snd (scc_run es (sgi_scc_write offs b s))"
  shows "tx_busy s' ch = (n < 1024) \<and> tx_ip s' ch = (1024 \<le> n) \<and>
    (flag (rr0 ch s') RR0_TX_EMPTY \<longleftrightarrow> 1024 \<le> n) \<and>
    (1024 \<le> n \<and> flag (wr1 s' ch) TxINT_ENAB \<longrightarrow> scc_int_pending s')"
proof -
  have sh: "shifting ch (unat (clk s)) n s'"
    using run_shifting [OF write_shifting [OF assms(1,6)], of es b] assms by simp
  have "flag (rr0 ch s') RR0_TX_EMPTY \<longleftrightarrow> \<not> tx_busy s' ch"
    by (auto simp: flag_def rr0_def RR0_TX_EMPTY_def RR0_ALL_SENT_def RR0_RX_AVAIL_def)
  with sh show ?thesis
    by (cases ch) (auto simp: shifting_def scc_int_pending_def tx_int_def)
qed

theorem transmit_interrupt_timing_witness:
  "let s = sgi_scc_write 8 2 (sgi_scc_write 8 1 sgi_scc_new);
       s1 = snd (scc_run [Tick 512, Wr 0 1, Tick 511] (sgi_scc_write 12 65 s));
       s2 = snd (scc_run [Tick 512, Wr 0 1, Tick 512] (sgi_scc_write 12 65 s))
   in tx_busy s1 True \<and> \<not> tx_ip s1 True \<and> \<not> tx_busy s2 True \<and> scc_int_pending s2"
proof -
  let ?s = "sgi_scc_write 8 2 (sgi_scc_write 8 1 sgi_scc_new)"
  define s1 where "s1 = snd (scc_run [Tick 512, Wr 0 1, Tick 511] (sgi_scc_write 12 65 ?s))"
  define s2 where "s2 = snd (scc_run [Tick 512, Wr 0 1, Tick 512] (sgi_scc_write 12 65 ?s))"
  have c: "clk ?s = 0" by code_simp
  have w: "flag (wr1 s2 True) TxINT_ENAB" unfolding s2_def by code_simp
  have "tx_busy s1 True \<and> \<not> tx_ip s1 True"
    using transmit_interrupt_timing [OF _ _ _ _ _ _ s1_def, of True 1023] c
    by (simp add: is_data_reg_def chan_def writes_def ticks_def)
  moreover have "\<not> tx_busy s2 True \<and> scc_int_pending s2"
    using transmit_interrupt_timing [OF _ _ _ _ _ _ s2_def, of True 1024] c w
    by (simp add: is_data_reg_def chan_def writes_def ticks_def)
  ultimately show ?thesis unfolding s1_def s2_def Let_def by blast
qed

end
