(* ===== verification/Seeq.thy ===== *)
theory Seeq
  imports Prelude
begin

text \<open>
  The Seeq 80C03 Ethernet controller (\<^verbatim>\<open>class sgi_seeq\<close>, src/sgi_seeq.hh and
  src/sgi_seeq.cc): its eight registers, the transmit frame buffer, the address filter and
  the receive byte stream the DMA engine of the HPC3 reads.

  The host's tap device is part of the record: \<open>tap_up\<close> tells whether it was opened,
  \<open>tap_in\<close> holds the frames \<^verbatim>\<open>read\<close> can still return (an empty one stands for end of file)
  and \<open>tap_out\<close> the frames written, the newest last.
\<close>

section \<open>State\<close>

record sgi_seeq =
  tap_up :: bool
  rx_cmd :: u8
  rx_stat :: u8
  tx_cmd :: u8
  tx_stat :: u8
  station_addr :: "u8 list"
  mcast_lsb :: "u8 list"
  mcast_msb :: "u8 list"
  pktgap :: u8
  ctl :: u8
  intpend :: bool
  tx_frame :: "u8 list"
  rx_queue :: "u8 list list"
  rx_cur :: "u8 list"
  rx_pos :: nat
  tap_in :: "u8 list list"
  tap_out :: "u8 list list"

definition RC_MATCH_MASK :: u8 where "RC_MATCH_MASK = 0xc0"
definition RC_MATCH_NONE :: u8 where "RC_MATCH_NONE = 0x00"
definition RC_MATCH_PROMIS :: u8 where "RC_MATCH_PROMIS = 0x40"
definition RC_MATCH_STABC :: u8 where "RC_MATCH_STABC = 0x80"
definition RC_MATCH_STAMC :: u8 where "RC_MATCH_STAMC = 0xc0"
definition RS_OLD :: u8 where "RS_OLD = 0x80"
definition RS_GOOD :: u8 where "RS_GOOD = 0x20"
definition RS_END :: u8 where "RS_END = 0x10"
definition XC_BANK_MASK :: u8 where "XC_BANK_MASK = 0x60"
definition XC_BANK0 :: u8 where "XC_BANK0 = 0x00"
definition XC_BANK1 :: u8 where "XC_BANK1 = 0x20"
definition XC_BANK2 :: u8 where "XC_BANK2 = 0x40"
definition XS_OLD :: u8 where "XS_OLD = 0x80"
definition XS_SUCCESS :: u8 where "XS_SUCCESS = 0x08"
definition EDLC_NO_SQE :: u8 where "EDLC_NO_SQE = 0x01"
definition RX_STATUS_GOOD :: u8 where "RX_STATUS_GOOD = RS_GOOD OR RS_END"
definition ETH_MIN :: nat where "ETH_MIN = 60"

definition sgi_seeq_new :: "bool \<Rightarrow> sgi_seeq" where
  "sgi_seeq_new up = \<lparr>tap_up = up, rx_cmd = 0, rx_stat = 0x80, tx_cmd = 0, tx_stat = 0x88,
     station_addr = replicate 6 0, mcast_lsb = replicate 6 0, mcast_msb = replicate 2 0,
     pktgap = 0, ctl = 0, intpend = False, tx_frame = [], rx_queue = [], rx_cur = [], rx_pos = 0,
     tap_in = [], tap_out = []\<rparr>"

section \<open>Operations\<close>

definition seeq_reset :: "sgi_seeq \<Rightarrow> sgi_seeq" where
  "seeq_reset s = s\<lparr>rx_cmd := 0, rx_stat := RS_OLD, tx_cmd := 0, tx_stat := XS_OLD OR XS_SUCCESS,
     ctl := 0, intpend := False, tx_frame := [], rx_queue := [], rx_cur := [], rx_pos := 0\<rparr>"

definition raise_interrupt :: "sgi_seeq \<Rightarrow> sgi_seeq" where
  "raise_interrupt s =
     (let rx_irq = (\<not> flag (rx_stat s) RS_OLD \<and> flag (rx_cmd s AND 0x1f) (rx_stat s AND 0x1f));
          tx_irq = (\<not> flag (tx_stat s) XS_OLD \<and> flag (tx_cmd s AND 0x0f) (tx_stat s AND 0x0f))
      in s\<lparr>intpend := rx_irq \<or> tx_irq\<rparr>)"

definition address_filter :: "u8 list \<Rightarrow> sgi_seeq \<Rightarrow> bool" where
  "address_filter frame s =
     (if length frame < 6 then False
      else
        (let is_bcast = (take 6 frame = replicate 6 0xff);
             is_sta = (take 6 frame = station_addr s);
             is_multi = flag (frame ! 0) 1;
             m = rx_cmd s AND RC_MATCH_MASK
         in if m = RC_MATCH_NONE then False
            else if m = RC_MATCH_PROMIS then True
            else if m = RC_MATCH_STABC then is_bcast \<or> is_sta
            else if m = RC_MATCH_STAMC then is_bcast \<or> is_sta \<or> is_multi
            else is_bcast \<or> is_sta))"

definition seeq_pio_r :: "u32 \<Rightarrow> sgi_seeq \<Rightarrow> u8 \<times> sgi_seeq" where
  "seeq_pio_r reg s =
     (let r = reg AND 7 in
      if r = 6 then (rx_stat s, raise_interrupt (s\<lparr>rx_stat := rx_stat s OR RS_OLD\<rparr>))
      else if r = 7 then (tx_stat s, raise_interrupt (s\<lparr>tx_stat := tx_stat s OR XS_OLD\<rparr>))
      else (if r = 5 then EDLC_NO_SQE else 0x00, s))"

definition seeq_pio_w :: "u32 \<Rightarrow> u8 \<Rightarrow> sgi_seeq \<Rightarrow> sgi_seeq" where
  "seeq_pio_w reg val s =
     (let r = reg AND 7; idx = unat r; bank = tx_cmd s AND XC_BANK_MASK in
      if r = 6 then raise_interrupt (s\<lparr>rx_cmd := val\<rparr>)
      else if r = 7 then raise_interrupt (s\<lparr>tx_cmd := val\<rparr>)
      else if bank = XC_BANK0 then s\<lparr>station_addr := (station_addr s)[idx := val]\<rparr>
      else if bank = XC_BANK1 then s\<lparr>mcast_lsb := (mcast_lsb s)[idx := val]\<rparr>
      else if bank = XC_BANK2
      then (if idx = 0 \<or> idx = 1 then s\<lparr>mcast_msb := (mcast_msb s)[idx := val]\<rparr>
            else if idx = 2 then s\<lparr>pktgap := val\<rparr>
            else if idx = 3 then s\<lparr>ctl := val\<rparr> else s)
      else s)"

definition tx_dma_w :: "u8 \<Rightarrow> sgi_seeq \<Rightarrow> sgi_seeq" where
  "tx_dma_w v s = s\<lparr>tx_frame := tx_frame s @ [v]\<rparr>"

definition tx_flush :: "sgi_seeq \<Rightarrow> sgi_seeq" where
  "tx_flush s =
     (if tx_frame s = [] then s
      else
        (let s1 = (if tap_up s \<and> 14 \<le> length (tx_frame s)
                   then s\<lparr>tap_out := tap_out s @ [tx_frame s]\<rparr> else s)
         in raise_interrupt (s1\<lparr>tx_frame := [], tx_stat := XS_SUCCESS\<rparr>)))"

text \<open>\<^verbatim>\<open>read(tap_fd, buf, 2048)\<close> cuts a longer frame.\<close>

fun seeq_poll_loop :: "u8 list list \<Rightarrow> sgi_seeq \<Rightarrow> sgi_seeq" where
  "seeq_poll_loop [] s = s\<lparr>tap_in := []\<rparr>"
| "seeq_poll_loop (f # fs) s =
     (let b = take 2048 f in
      if b = [] then s\<lparr>tap_in := fs\<rparr>
      else if length b < 14 then seeq_poll_loop fs s
      else if \<not> address_filter b s then seeq_poll_loop fs s
      else seeq_poll_loop fs (s\<lparr>rx_queue := rx_queue s @ [b]\<rparr>))"

definition seeq_poll :: "sgi_seeq \<Rightarrow> sgi_seeq" where
  "seeq_poll s = (if \<not> tap_up s then s else seeq_poll_loop (tap_in s) s)"

definition rx_stream :: "u8 list \<Rightarrow> u8 list" where
  "rx_stream f =
     [0, 0] @ f @ replicate ((if length f < ETH_MIN then ETH_MIN else length f) - length f) 0
       @ [RX_STATUS_GOOD]"

definition rx_avail :: "sgi_seeq \<Rightarrow> bool \<times> sgi_seeq" where
  "rx_avail s =
     (if rx_pos s < length (rx_cur s) then (True, s)
      else if rx_queue s = [] then (False, s)
      else (True, s\<lparr>rx_cur := rx_stream (hd (rx_queue s)), rx_queue := tl (rx_queue s), rx_pos := 0\<rparr>))"

text \<open>The byte and the flag \<^verbatim>\<open>last\<close>.\<close>

definition rx_dma_r :: "sgi_seeq \<Rightarrow> (u8 \<times> bool) \<times> sgi_seeq" where
  "rx_dma_r s =
     (if length (rx_cur s) \<le> rx_pos s then ((0, True), s)
      else
        (let v = rx_cur s ! rx_pos s; s1 = s\<lparr>rx_pos := rx_pos s + 1\<rparr>;
             last = (length (rx_cur s1) \<le> rx_pos s1)
         in ((v, last), if last then raise_interrupt (s1\<lparr>rx_stat := RS_GOOD OR RS_END\<rparr>) else s1)))"

section \<open>Reception\<close>

text \<open>A DMA engine that reads the staged stream until the flag \<^verbatim>\<open>last\<close>, at most \<open>n\<close> bytes.\<close>

fun rx_read_frame :: "nat \<Rightarrow> sgi_seeq \<Rightarrow> u8 list \<times> sgi_seeq" where
  "rx_read_frame 0 s = ([], s)"
| "rx_read_frame (Suc n) s =
     (let ((b, last), s1) = rx_dma_r s in
      if last then ([b], s1) else (let (bs, s2) = rx_read_frame n s1 in (b # bs, s2)))"

text \<open>The frames the filter and the length checks let through.\<close>

definition accepts :: "sgi_seeq \<Rightarrow> u8 list \<Rightarrow> bool" where
  "accepts s f \<longleftrightarrow> 14 \<le> length f \<and> address_filter f s"

lemma raise_interrupt_frame [simp]:
  "rx_queue (raise_interrupt s) = rx_queue s" "rx_cur (raise_interrupt s) = rx_cur s"
  "rx_pos (raise_interrupt s) = rx_pos s" "rx_stat (raise_interrupt s) = rx_stat s"
  "rx_cmd (raise_interrupt s) = rx_cmd s" "tap_out (raise_interrupt s) = tap_out s"
  "tx_frame (raise_interrupt s) = tx_frame s" "tap_in (raise_interrupt s) = tap_in s"
  by (simp_all add: raise_interrupt_def Let_def)

lemma poll_loop_queue:
  "[] \<notin> set fs \<Longrightarrow>
   rx_queue (seeq_poll_loop fs s) = rx_queue s @ filter (accepts s) (map (take 2048) fs) \<and>
   tap_in (seeq_poll_loop fs s) = []"
proof (induction fs arbitrary: s)
  case (Cons f fs)
  have a: "address_filter g (s\<lparr>rx_queue := q\<rparr>) = address_filter g s" for g q
    by (simp add: address_filter_def)
  show ?case using Cons a by (auto simp: Let_def accepts_def)
qed simp

lemma read_frame_stream:
  "rx_pos s < length (rx_cur s) \<Longrightarrow> length (rx_cur s) - rx_pos s \<le> n \<Longrightarrow>
   rx_read_frame n s = (out, s') \<Longrightarrow>
   out = drop (rx_pos s) (rx_cur s) \<and> rx_pos s' = length (rx_cur s') \<and> rx_cur s' = rx_cur s \<and>
   rx_queue s' = rx_queue s \<and> rx_stat s' = 0x30 \<and> rx_cmd s' = rx_cmd s \<and>
   (flag (rx_cmd s) 0x10 \<longrightarrow> intpend s')"
proof (induction n arbitrary: s out)
  case (Suc n)
  have d: "drop (rx_pos s) (rx_cur s) = rx_cur s ! rx_pos s # drop (Suc (rx_pos s)) (rx_cur s)"
    using Suc.prems(1) by (rule Cons_nth_drop_Suc [symmetric])
  show ?case
  proof (cases "Suc (rx_pos s) = length (rx_cur s)")
    case True
    have "flag (rx_cmd s AND 0x1f) 0x10 = flag (rx_cmd s) 0x10" by (simp add: flag_def and.assoc)
    then show ?thesis
      using Suc.prems True d
      by (auto simp: rx_dma_r_def Let_def RS_GOOD_def RS_END_def raise_interrupt_def RS_OLD_def flag_def)
  next
    case False
    let ?s1 = "s\<lparr>rx_pos := Suc (rx_pos s)\<rparr>"
    have r: "rx_dma_r s = ((rx_cur s ! rx_pos s, False), ?s1)"
      using Suc.prems(1) False by (simp add: rx_dma_r_def)
    obtain o1 where o1: "rx_read_frame n ?s1 = (o1, s')" "out = rx_cur s ! rx_pos s # o1"
      using Suc.prems(3) r by (auto split: prod.splits)
    have "rx_pos ?s1 < length (rx_cur ?s1)" "length (rx_cur ?s1) - rx_pos ?s1 \<le> n"
      using Suc.prems False by auto
    from Suc.IH [OF this o1(1)] o1(2) d show ?thesis by simp
  qed
qed simp

lemma rx_stream_length [simp]: "length (rx_stream f) = max 60 (length f) + 3"
  by (simp add: rx_stream_def ETH_MIN_def)

lemma rx_stream_frame: "take (length f) (drop 2 (rx_stream f)) = f" "last (rx_stream f) = 0x30"
  by (simp_all add: rx_stream_def RX_STATUS_GOOD_def RS_GOOD_def RS_END_def)

section \<open>Properties\<close>

text \<open>C21.  Reception: polling the tap queues exactly the frames that are long enough and pass the
  address filter, in order; and when the previous stream is drained, the DMA port then delivers the
  oldest queued frame as two pad bytes, the frame, zeros up to sixty bytes and the status byte 0x30,
  flags the end exactly there, removes the frame from the queue and raises the end-of-frame interrupt
  when it is enabled.\<close>

theorem ethernet_reception:
  assumes "tap_up s" "[] \<notin> set (tap_in s)" "rx_pos s = length (rx_cur s)"
    and "s1 = seeq_poll s" "rx_queue s1 = f # fs"
    and "rx_avail s1 = (av, s2)" "max 60 (length f) + 3 \<le> n" "rx_read_frame n s2 = (out, s3)"
  shows "f # fs = rx_queue s @ filter (accepts s) (map (take 2048) (tap_in s)) \<and> av \<and>
    out = [0, 0] @ f @ replicate (60 - length f) 0 @ [0x30] \<and> rx_queue s3 = fs \<and>
    (flag (rx_cmd s2) 0x10 \<longrightarrow> intpend s3)"
proof -
  have q: "rx_queue s1 = rx_queue s @ filter (accepts s) (map (take 2048) (tap_in s))"
    using poll_loop_queue [OF assms(2), of s] assms(1,4) by (simp add: seeq_poll_def)
  have frame: "rx_cur (seeq_poll_loop gs t) = rx_cur t \<and> rx_pos (seeq_poll_loop gs t) = rx_pos t" for gs t
    by (induction gs arbitrary: t) (auto simp: Let_def)
  then have p: "rx_pos s1 = length (rx_cur s1)"
    using assms(1,3,4) by (simp add: seeq_poll_def)
  then have s2: "av" "s2 = s1\<lparr>rx_cur := rx_stream f, rx_queue := fs, rx_pos := 0\<rparr>"
    using assms(5,6) by (simp_all add: rx_avail_def)
  have "rx_pos s2 < length (rx_cur s2)" "length (rx_cur s2) - rx_pos s2 \<le> n"
    using assms(7) by (simp_all add: s2)
  from read_frame_stream [OF this assms(8)]
  have "out = rx_stream f" "rx_queue s3 = fs" "flag (rx_cmd s2) 0x10 \<longrightarrow> intpend s3"
    by (simp_all add: s2)
  moreover have "rx_stream f = [0, 0] @ f @ replicate (60 - length f) 0 @ [0x30]"
    by (simp add: rx_stream_def ETH_MIN_def RX_STATUS_GOOD_def RS_GOOD_def RS_END_def)
  ultimately show ?thesis using q s2(1) assms(5) by simp
qed

theorem ethernet_reception_witness:
  "let s = seeq_pio_w 6 0x90 ((sgi_seeq_new True)\<lparr>tap_in := [replicate 14 0x12, replicate 14 0xff]\<rparr>)
   in fst (rx_read_frame 63 (snd (rx_avail (seeq_poll s)))) =
        [0, 0] @ replicate 14 0xff @ replicate 46 0 @ [0x30] \<and>
      intpend (snd (rx_read_frame 63 (snd (rx_avail (seeq_poll s)))))"
proof -
  define s where "s = seeq_pio_w 6 0x90 ((sgi_seeq_new True)\<lparr>tap_in := [replicate 14 0x12, replicate 14 0xff]\<rparr>)"
  have h: "tap_up s" "[] \<notin> set (tap_in s)" "rx_pos s = length (rx_cur s)"
    "rx_queue (seeq_poll s) = replicate 14 0xff # []"
    "flag (rx_cmd (snd (rx_avail (seeq_poll s)))) 0x10" unfolding s_def by code_simp+
  obtain av s2 where a: "rx_avail (seeq_poll s) = (av, s2)" by fastforce
  obtain out s3 where r: "rx_read_frame 63 s2 = (out, s3)" by fastforce
  from ethernet_reception [OF h(1-3) refl h(4) a _ r] h(5)
  have "out = [0, 0] @ replicate 14 0xff @ replicate 46 0 @ [0x30]" "intpend s3" by (simp_all add: a)
  then show ?thesis unfolding Let_def s_def [symmetric] a snd_conv r fst_conv by blast
qed

text \<open>C22.  Transmission: the bytes the DMA engine feeds since the last flush leave as one frame, in order,
  when there are at least fourteen of them and the tap is open; a shorter run is dropped, the buffer is
  empty afterwards either way, and the transmit status reads success once and stale from then on.\<close>

theorem ethernet_transmission:
  assumes "tx_frame s = []" "bs \<noteq> []" "s' = tx_flush (fold tx_dma_w bs s)"
  shows "tap_out s' = tap_out s @ (if tap_up s \<and> 14 \<le> length bs then [bs] else []) \<and>
    tx_frame s' = [] \<and> fst (seeq_pio_r 7 s') = XS_SUCCESS \<and>
    fst (seeq_pio_r 7 (snd (seeq_pio_r 7 s'))) = XS_SUCCESS OR XS_OLD"
proof -
  have f: "fold tx_dma_w bs t = t\<lparr>tx_frame := tx_frame t @ bs\<rparr>" for t
    by (induction bs arbitrary: t) (simp_all add: tx_dma_w_def)
  show ?thesis
    using assms by (simp add: f tx_flush_def Let_def seeq_pio_r_def raise_interrupt_def)
qed

theorem ethernet_transmission_witness:
  "tap_out (tx_flush (fold tx_dma_w (replicate 14 7) (sgi_seeq_new True))) = [replicate 14 7]"
  using ethernet_transmission [of "sgi_seeq_new True" "replicate 14 7" "tx_flush (fold tx_dma_w (replicate 14 7) (sgi_seeq_new True))"]
  by (simp add: sgi_seeq_new_def)

end
