(* ===== verification/SCSI.thy ===== *)
theory SCSI
  imports Prelude
begin

text \<open>
  The WD33C93 SCSI controller fused with its disk (\<^verbatim>\<open>class sgi_scsi\<close>, src/sgi_scsi.hh and
  src/sgi_scsi.cc): the indirect register file, the command decoder, the data phase the HPC3
  moves byte by byte, and the copy-on-write overlay with its delta file.

  The disk image is \<open>disk_image\<close>: what \<^verbatim>\<open>pread\<close> returns for a block, 512 bytes unless the file
  ends inside the block.  \<open>scsi_poke\<close> collects the writes of \<^verbatim>\<open>s->irq_poke\<close>; whoever calls
  an operation hands it on to the CPU state.  The register pointer \<^verbatim>\<open>sasr\<close> is always masked
  with 0x1f and is a word of five bits.
\<close>

section \<open>State\<close>

datatype phase_t = PH_IDLE | PH_DATA_IN | PH_DATA_OUT

type_synonym block = "u8 list"

record sgi_scsi =
  direct_write :: bool
  nblocks :: u64
  disk_image :: "u64 \<Rightarrow> block"
  wd_regs :: "5 word \<Rightarrow> u8"
  sasr :: "5 word"
  phase :: phase_t
  buf :: "u8 list"
  pos :: nat
  drq :: bool
  intrq :: bool
  wr_lba :: u64
  sense :: "u8 list"
  tgt_status :: u8
  overlay :: "u64 \<Rightarrow> block option"
  scsi_poke :: bool

definition WD_OWN_ID :: "5 word" where "WD_OWN_ID = 0x00"
definition WD_CDB :: "5 word" where "WD_CDB = 0x03"
definition WD_TARGET_LUN :: "5 word" where "WD_TARGET_LUN = 0x0f"
definition WD_COMMAND_PHASE :: "5 word" where "WD_COMMAND_PHASE = 0x10"
definition WD_XFER_CNT_MSB :: "5 word" where "WD_XFER_CNT_MSB = 0x12"
definition WD_DEST_ID :: "5 word" where "WD_DEST_ID = 0x15"
definition WD_SCSI_STATUS :: "5 word" where "WD_SCSI_STATUS = 0x17"
definition WD_COMMAND :: "5 word" where "WD_COMMAND = 0x18"
definition WD_AUX_STATUS :: "5 word" where "WD_AUX_STATUS = 0x1f"
definition AUX_DBR :: u8 where "AUX_DBR = 0x01"
definition AUX_CIP :: u8 where "AUX_CIP = 0x10"
definition AUX_BSY :: u8 where "AUX_BSY = 0x20"
definition AUX_INT :: u8 where "AUX_INT = 0x80"
definition CMD_RESET :: u8 where "CMD_RESET = 0x00"
definition CMD_SEL_ATN_XFER :: u8 where "CMD_SEL_ATN_XFER = 0x08"
definition CMD_SEL_XFER :: u8 where "CMD_SEL_XFER = 0x09"
definition ST_RESET :: u8 where "ST_RESET = 0x00"
definition ST_SELECT_TRANSFER_SUCCESS :: u8 where "ST_SELECT_TRANSFER_SUCCESS = 0x16"
definition ST_SELECTION_TIMEOUT :: u8 where "ST_SELECTION_TIMEOUT = 0x42"
definition DISK_TARGET :: u8 where "DISK_TARGET = 1"

lemmas wd_defs = WD_OWN_ID_def WD_CDB_def WD_TARGET_LUN_def WD_COMMAND_PHASE_def WD_XFER_CNT_MSB_def
  WD_DEST_ID_def WD_SCSI_STATUS_def WD_COMMAND_def WD_AUX_STATUS_def

text \<open>Writes of the register file; \<^verbatim>\<open>aux_clear_set\<close> is the pair of updates of the auxiliary
  status.\<close>

definition set_wd :: "5 word \<Rightarrow> u8 \<Rightarrow> sgi_scsi \<Rightarrow> sgi_scsi" where
  "set_wd r v s = s\<lparr>wd_regs := (wd_regs s)(r := v)\<rparr>"

definition aux_done :: "sgi_scsi \<Rightarrow> sgi_scsi" where
  "aux_done s =
     set_wd WD_AUX_STATUS ((wd_regs s WD_AUX_STATUS AND NOT (AUX_CIP OR AUX_BSY)) OR AUX_INT) s"

definition post_intrq :: "sgi_scsi \<Rightarrow> sgi_scsi" where
  "post_intrq s = s\<lparr>intrq := True, scsi_poke := True\<rparr>"

definition zero_count :: "sgi_scsi \<Rightarrow> sgi_scsi" where
  "zero_count s = set_wd 0x14 0 (set_wd 0x13 0 (set_wd WD_XFER_CNT_MSB 0 s))"

section \<open>Reset and blocks\<close>

definition scsi_reset :: "sgi_scsi \<Rightarrow> sgi_scsi" where
  "scsi_reset s = set_wd WD_AUX_STATUS 0
     (s\<lparr>sasr := 0, pos := 0, drq := False, intrq := False, phase := PH_IDLE, buf := []\<rparr>)"

definition sgi_scsi_new :: "bool \<Rightarrow> u64 \<Rightarrow> (u64 \<Rightarrow> block) \<Rightarrow> (u64 \<Rightarrow> block option) \<Rightarrow> sgi_scsi" where
  "sgi_scsi_new dw n img ov = scsi_reset
     \<lparr>direct_write = dw, nblocks = n, disk_image = img, wd_regs = (\<lambda>_. 0), sasr = 0, phase = PH_IDLE,
      buf = [], pos = 0, drq = False, intrq = False, wr_lba = 0,
      sense = (replicate 18 0)[0 := 0x70, 7 := 0x0a], tgt_status = 0, overlay = ov,
      scsi_poke = False\<rparr>"

definition block_read :: "u64 \<Rightarrow> sgi_scsi \<Rightarrow> block" where
  "block_read lba s =
     (case overlay s lba of
        Some b \<Rightarrow> b
      | None \<Rightarrow> if nblocks s \<le> lba then replicate 512 0
                else if length (disk_image s lba) \<noteq> 512 then replicate 512 0 else disk_image s lba)"

definition block_write :: "u64 \<Rightarrow> block \<Rightarrow> sgi_scsi \<Rightarrow> sgi_scsi" where
  "block_write lba src s =
     (if direct_write s then (if lba < nblocks s then s\<lparr>disk_image := (disk_image s)(lba := src)\<rparr> else s)
      else s\<lparr>overlay := (overlay s)(lba := Some src)\<rparr>)"

section \<open>The delta file\<close>

definition DELTA_MAGIC :: "u8 list" where
  "DELTA_MAGIC = map (\<lambda>c. of_nat (of_char c)) ''IMDELTA1''"

text \<open>The file as its list of bytes; \<^verbatim>\<open>None\<close> when it cannot be opened.  The records end at the
  first one that is cut short.\<close>

function load_records :: "u8 list \<Rightarrow> (u64 \<Rightarrow> block option) \<Rightarrow> (u64 \<Rightarrow> block option)" where
  "load_records bs ov =
     (if length bs < 8 \<or> length (drop 8 bs) < 512 then ov
      else load_records (drop 512 (drop 8 bs)) (ov(le_val (take 8 bs) := Some (take 512 (drop 8 bs)))))"
  by auto
termination
  by (relation "measure (length \<circ> fst)") auto

declare load_records.simps [simp del]

definition load_delta :: "u8 list option \<Rightarrow> (u64 \<Rightarrow> block option) \<Rightarrow> (u64 \<Rightarrow> block option)" where
  "load_delta f ov =
     (case f of
        None \<Rightarrow> ov
      | Some bs \<Rightarrow> if take 8 bs \<noteq> DELTA_MAGIC then ov else load_records (drop 8 bs) ov)"

text \<open>The overlay is an \<^verbatim>\<open>unordered_map\<close>: the records are written in whatever order its
  iteration has, the argument here.\<close>

definition flush_delta :: "(u64 \<times> block) list \<Rightarrow> u8 list" where
  "flush_delta kvs = DELTA_MAGIC @ concat (map (\<lambda>(lba, b). le_bytes 8 lba @ take 512 b) kvs)"

section \<open>The data phase\<close>

definition scsi_complete :: "u8 \<Rightarrow> sgi_scsi \<Rightarrow> sgi_scsi" where
  "scsi_complete scsi_status s =
     post_intrq (aux_done (zero_count (set_wd WD_COMMAND_PHASE 0x60
       (set_wd WD_TARGET_LUN (tgt_status s) (set_wd WD_SCSI_STATUS scsi_status s)))))"

primrec write_blocks :: "nat \<Rightarrow> u64 \<Rightarrow> u8 list \<Rightarrow> sgi_scsi \<Rightarrow> sgi_scsi" where
  "write_blocks 0 lba bs s = s"
| "write_blocks (Suc n) lba bs s = write_blocks n (lba + 1) (drop 512 bs) (block_write lba (take 512 bs) s)"

definition finish :: "sgi_scsi \<Rightarrow> sgi_scsi" where
  "finish s =
     (let s1 = (if phase s = PH_DATA_OUT \<and> wd_regs s WD_CDB = 0x2a
                then write_blocks (length (buf s) div 512) (wr_lba s) (buf s) s else s)
      in scsi_complete ST_SELECT_TRANSFER_SUCCESS (s1\<lparr>phase := PH_IDLE, drq := False\<rparr>))"

definition begin_data_in :: "u8 list \<Rightarrow> sgi_scsi \<Rightarrow> sgi_scsi" where
  "begin_data_in p s =
     (let s1 = s\<lparr>buf := p, pos := 0\<rparr>
      in if length p = 0 then finish s1 else s1\<lparr>phase := PH_DATA_IN, drq := True\<rparr>)"

definition begin_data_out :: "nat \<Rightarrow> sgi_scsi \<Rightarrow> sgi_scsi" where
  "begin_data_out n s =
     (let s1 = s\<lparr>buf := replicate n 0, pos := 0\<rparr>
      in if n = 0 then finish s1 else s1\<lparr>phase := PH_DATA_OUT, drq := True\<rparr>)"

definition pause_transfer :: "sgi_scsi \<Rightarrow> sgi_scsi" where
  "pause_transfer s =
     post_intrq (aux_done (zero_count (set_wd WD_COMMAND_PHASE 0x46
       (set_wd WD_SCSI_STATUS (if phase s = PH_DATA_OUT then 0x48 else 0x49) (s\<lparr>drq := False\<rparr>)))))"

definition residual :: "sgi_scsi \<Rightarrow> nat" where
  "residual s = (if phase s = PH_DATA_IN \<or> phase s = PH_DATA_OUT then length (buf s) - pos s else 0)"

section \<open>Commands\<close>

definition cdb :: "sgi_scsi \<Rightarrow> 5 word \<Rightarrow> u8" where
  "cdb s i = wd_regs s (WD_CDB + i)"

definition cdb_lba :: "sgi_scsi \<Rightarrow> u64" where
  "cdb_lba s = push_bit 24 (ucast (cdb s 2)) OR push_bit 16 (ucast (cdb s 3))
     OR push_bit 8 (ucast (cdb s 4)) OR ucast (cdb s 5)"

definition cdb_len :: "sgi_scsi \<Rightarrow> u32" where
  "cdb_len s = push_bit 8 (ucast (cdb s 7)) OR ucast (cdb s 8)"

primrec read_blocks :: "nat \<Rightarrow> u64 \<Rightarrow> sgi_scsi \<Rightarrow> u8 list" where
  "read_blocks 0 lba s = []"
| "read_blocks (Suc n) lba s = block_read lba s @ read_blocks n (lba + 1) s"

definition ascii :: "string \<Rightarrow> u8 list" where
  "ascii t = map (\<lambda>c. of_nat (of_char c)) t"

definition inquiry_data :: "u8 list" where
  "inquiry_data = [0x00, 0x00, 0x02, 0x02, 31, 0, 0, 0]
     @ ascii ''SGI     '' @ ascii ''interp_mips disk'' @ ascii ''1.0 ''"

definition capacity_data :: "u64 \<Rightarrow> u8 list" where
  "capacity_data n =
     (let last = (if n \<noteq> 0 then ucast (n - 1) else 0) :: u32
      in [ucast (drop_bit 24 last), ucast (drop_bit 16 last), ucast (drop_bit 8 last), ucast last,
          0, 0, 2, 0])"

text \<open>The decoder of a command block for the disk at LUN 0.\<close>

definition decode_cdb :: "sgi_scsi \<Rightarrow> sgi_scsi" where
  "decode_cdb s =
     (let op = cdb s 0; alloc = unat (cdb s 4) in
      if op = 0x00 \<or> op = 0x1b then finish s
      else if op = 0x12 then begin_data_in (take alloc inquiry_data) s
      else if op = 0x03 then begin_data_in (take alloc (sense s)) s
      else if op = 0x25 then begin_data_in (capacity_data (nblocks s)) s
      else if op = 0x1a then begin_data_in (take alloc [3, 0, 0, 0]) s
      else if op = 0x15 then begin_data_out alloc s
      else if op = 0x28
        then (let n = unat (cdb_len s); s1 = s\<lparr>buf := read_blocks n (cdb_lba s) s, pos := 0\<rparr>
              in if n = 0 then finish s1 else s1\<lparr>phase := PH_DATA_IN, drq := True\<rparr>)
      else if op = 0x2a then begin_data_out (unat (cdb_len s) * 512) (s\<lparr>wr_lba := cdb_lba s\<rparr>)
      else finish s)"

definition select_and_transfer :: "sgi_scsi \<Rightarrow> sgi_scsi" where
  "select_and_transfer s =
     (if (phase s = PH_DATA_IN \<or> phase s = PH_DATA_OUT) \<and> 0 < pos s \<and> pos s < length (buf s)
      then (set_wd WD_AUX_STATUS (wd_regs s WD_AUX_STATUS OR (AUX_CIP OR AUX_BSY)) s)\<lparr>drq := True\<rparr>
      else if wd_regs s WD_DEST_ID AND 7 \<noteq> DISK_TARGET
      then post_intrq (set_wd WD_COMMAND_PHASE 0 (set_wd WD_SCSI_STATUS ST_SELECTION_TIMEOUT (aux_done s)))
      else
        (let s1 = set_wd WD_AUX_STATUS (wd_regs s WD_AUX_STATUS OR (AUX_CIP OR AUX_BSY)) s;
             op = cdb s1 0; lun = wd_regs s1 WD_TARGET_LUN AND 7; s2 = s1\<lparr>tgt_status := 0x00\<rparr>
         in if lun \<noteq> 0 \<and> op \<noteq> 0x03
            then finish (s2\<lparr>sense := (sense s2)[0 := 0x70, 2 := 0x05, 7 := 0x0a, 12 := 0x25, 13 := 0x00],
                            tgt_status := 0x02\<rparr>)
            else decode_cdb s2))"

definition exec_command :: "u8 \<Rightarrow> sgi_scsi \<Rightarrow> sgi_scsi" where
  "exec_command cc s =
     (if cc = CMD_RESET
      then (let s1 = scsi_reset s;
                s2 = set_wd WD_SCSI_STATUS (if flag (wd_regs s1 WD_OWN_ID) 0x08 then 0x01 else ST_RESET) s1
            in post_intrq (set_wd WD_AUX_STATUS (wd_regs s2 WD_AUX_STATUS OR AUX_INT) s2))
      else if cc = CMD_SEL_ATN_XFER \<or> cc = CMD_SEL_XFER then select_and_transfer s
      else s)"

section \<open>Ports\<close>

definition scsi_pio_w :: "u32 \<Rightarrow> u8 \<Rightarrow> sgi_scsi \<Rightarrow> sgi_scsi" where
  "scsi_pio_w port v s =
     (if port = 0 then s\<lparr>sasr := ucast v\<rparr>
      else if sasr s = WD_COMMAND then exec_command (v AND 0x7f) (set_wd WD_COMMAND v s)
      else (set_wd (sasr s) v s)\<lparr>sasr := sasr s + 1\<rparr>)"

definition scsi_pio_r :: "u32 \<Rightarrow> sgi_scsi \<Rightarrow> u8 \<times> sgi_scsi" where
  "scsi_pio_r port s =
     (if port = 0 then ((if intrq s then AUX_INT else 0) OR (if drq s then AUX_DBR else 0), s)
      else if sasr s = WD_SCSI_STATUS
      then (wd_regs s WD_SCSI_STATUS,
            (set_wd WD_AUX_STATUS (wd_regs s WD_AUX_STATUS AND NOT AUX_INT) (s\<lparr>intrq := False\<rparr>))
              \<lparr>sasr := sasr s + 1\<rparr>)
      else (wd_regs s (sasr s), s\<lparr>sasr := sasr s + 1\<rparr>))"

definition scsi_dma_r :: "sgi_scsi \<Rightarrow> u8 \<times> sgi_scsi" where
  "scsi_dma_r s =
     (case phase s of
        PH_DATA_IN \<Rightarrow>
          if length (buf s) \<le> pos s then (0, s)
          else (let b = buf s ! pos s; s1 = s\<lparr>pos := pos s + 1\<rparr>
                in (b, if length (buf s1) \<le> pos s1 then finish s1 else s1))
      | _ \<Rightarrow> (0, s))"

definition scsi_dma_w :: "u8 \<Rightarrow> sgi_scsi \<Rightarrow> sgi_scsi" where
  "scsi_dma_w v s =
     (case phase s of
        PH_DATA_OUT \<Rightarrow>
          if length (buf s) \<le> pos s then s
          else (let s1 = s\<lparr>buf := (buf s)[pos s := v], pos := pos s + 1\<rparr>
                in if length (buf s1) \<le> pos s1 then finish s1 else s1)
      | _ \<Rightarrow> s)"

section \<open>The state invariant\<close>

text \<open>Everything the machine does to the controller.\<close>

inductive scsi_reach :: "sgi_scsi \<Rightarrow> sgi_scsi \<Rightarrow> bool" for s0 where
  power_up: "scsi_reach s0 s0"
| pio_w: "scsi_reach s0 s \<Longrightarrow> scsi_reach s0 (scsi_pio_w port v s)"
| pio_r: "scsi_reach s0 s \<Longrightarrow> scsi_reach s0 (snd (scsi_pio_r port s))"
| dma_r: "scsi_reach s0 s \<Longrightarrow> scsi_reach s0 (snd (scsi_dma_r s))"
| dma_w: "scsi_reach s0 s \<Longrightarrow> scsi_reach s0 (scsi_dma_w v s)"
| pause: "scsi_reach s0 s \<Longrightarrow> scsi_reach s0 (pause_transfer s)"
| do_reset: "scsi_reach s0 s \<Longrightarrow> scsi_reach s0 (scsi_reset s)"
| poked: "scsi_reach s0 s \<Longrightarrow> scsi_reach s0 (s\<lparr>scsi_poke := False\<rparr>)"

definition blocks_ok :: "(u64 \<Rightarrow> block option) \<Rightarrow> bool" where
  "blocks_ok ov \<longleftrightarrow> (\<forall>lba b. ov lba = Some b \<longrightarrow> length b = 512)"

text \<open>Static part: the sizes of the sense data and of the blocks.  Dynamic part: a data phase has
  bytes left to move, and data is requested only in a data phase, except that a pause may withdraw
  the request.\<close>

definition scsi_static :: "sgi_scsi \<Rightarrow> bool" where
  "scsi_static s \<longleftrightarrow> length (sense s) = 18 \<and> blocks_ok (overlay s) \<and>
     (direct_write s \<longrightarrow> overlay s = Map.empty)"

definition scsi_inv :: "sgi_scsi \<Rightarrow> bool" where
  "scsi_inv s \<longleftrightarrow> scsi_static s \<and> (drq s \<longrightarrow> phase s \<noteq> PH_IDLE) \<and>
     (phase s \<noteq> PH_IDLE \<longrightarrow> pos s < length (buf s))"

lemmas reg_defs = set_wd_def aux_done_def zero_count_def post_intrq_def

lemma complete_frame [simp]:
  "phase (scsi_complete c s) = phase s" "buf (scsi_complete c s) = buf s" "pos (scsi_complete c s) = pos s"
  "drq (scsi_complete c s) = drq s" "sense (scsi_complete c s) = sense s" "overlay (scsi_complete c s) = overlay s"
  "disk_image (scsi_complete c s) = disk_image s" "nblocks (scsi_complete c s) = nblocks s"
  "direct_write (scsi_complete c s) = direct_write s" "sasr (scsi_complete c s) = sasr s"
  by (simp_all add: scsi_complete_def reg_defs)

lemma block_write_frame [simp]:
  "phase (block_write l b s) = phase s" "buf (block_write l b s) = buf s" "pos (block_write l b s) = pos s"
  "drq (block_write l b s) = drq s" "sense (block_write l b s) = sense s"
  "nblocks (block_write l b s) = nblocks s" "direct_write (block_write l b s) = direct_write s"
  "wd_regs (block_write l b s) = wd_regs s" "sasr (block_write l b s) = sasr s"
  "tgt_status (block_write l b s) = tgt_status s"
  by (simp_all add: block_write_def)

lemma write_blocks_frame [simp]:
  "phase (write_blocks n l bs s) = phase s" "buf (write_blocks n l bs s) = buf s"
  "pos (write_blocks n l bs s) = pos s" "drq (write_blocks n l bs s) = drq s"
  "sense (write_blocks n l bs s) = sense s" "nblocks (write_blocks n l bs s) = nblocks s"
  "direct_write (write_blocks n l bs s) = direct_write s" "wd_regs (write_blocks n l bs s) = wd_regs s"
  "sasr (write_blocks n l bs s) = sasr s" "tgt_status (write_blocks n l bs s) = tgt_status s"
  by (induction n arbitrary: l bs s) simp_all

lemma block_write_static: "scsi_static s \<Longrightarrow> length b = 512 \<Longrightarrow> scsi_static (block_write l b s)"
  by (auto simp: scsi_static_def block_write_def blocks_ok_def)

lemma write_blocks_static:
  "scsi_static s \<Longrightarrow> 512 * n \<le> length bs \<Longrightarrow> scsi_static (write_blocks n l bs s)"
proof (induction n arbitrary: l bs s)
  case (Suc n)
  then show ?case using block_write_static [OF Suc.prems(1), of "take 512 bs" l] by simp
qed simp

lemma static_upd [simp]:
  "scsi_static (s\<lparr>phase := p\<rparr>) = scsi_static s" "scsi_static (s\<lparr>drq := d\<rparr>) = scsi_static s"
  "scsi_static (s\<lparr>buf := x\<rparr>) = scsi_static s" "scsi_static (s\<lparr>pos := i\<rparr>) = scsi_static s"
  "scsi_static (s\<lparr>tgt_status := st\<rparr>) = scsi_static s" "scsi_static (s\<lparr>wr_lba := l\<rparr>) = scsi_static s"
  "scsi_static (set_wd r v s) = scsi_static s" "scsi_static (scsi_complete c s) = scsi_static s"
  by (simp_all add: scsi_static_def set_wd_def)

lemma finish_frame [simp]:
  "phase (finish s) = PH_IDLE" "drq (finish s) = False" "buf (finish s) = buf s" "pos (finish s) = pos s"
  by (simp_all add: finish_def Let_def)

lemma finish_inv: "scsi_static s \<Longrightarrow> scsi_inv (finish s)"
  by (simp add: scsi_inv_def finish_def Let_def write_blocks_static)

lemma begin_data_in_inv: "scsi_static s \<Longrightarrow> scsi_inv (begin_data_in p s)"
  by (cases p) (simp_all add: begin_data_in_def Let_def finish_inv, simp add: scsi_inv_def)

lemma begin_data_out_inv: "scsi_static s \<Longrightarrow> scsi_inv (begin_data_out n s)"
  by (cases n) (simp_all add: begin_data_out_def Let_def finish_inv, simp add: scsi_inv_def)

lemma block_read_length: "scsi_static s \<Longrightarrow> length (block_read lba s) = 512"
  by (auto simp: block_read_def scsi_static_def blocks_ok_def split: option.split)

lemma read_blocks_length: "scsi_static s \<Longrightarrow> length (read_blocks n lba s) = 512 * n"
  by (induction n arbitrary: lba) (simp_all add: block_read_length)

lemma decode_cdb_inv:
  assumes "scsi_static s"
  shows "scsi_inv (decode_cdb s)"
proof -
  have "scsi_inv (s\<lparr>buf := read_blocks n lba s, pos := 0, phase := PH_DATA_IN, drq := True\<rparr>)" if "n \<noteq> 0" for n lba
    using assms that read_blocks_length [OF assms, of n lba] by (simp add: scsi_inv_def)
  then show ?thesis
    using assms by (simp add: decode_cdb_def Let_def finish_inv begin_data_in_inv begin_data_out_inv)
qed

lemma select_and_transfer_inv: "scsi_inv s \<Longrightarrow> scsi_inv (select_and_transfer s)"
proof -
  assume i: "scsi_inv s"
  then have st: "scsi_static s" by (simp add: scsi_inv_def)
  then have "scsi_static (s\<lparr>sense := (sense s)[0 := 0x70, 2 := 0x05, 7 := 0x0a, 12 := 0x25, 13 := 0x00]\<rparr>)"
    by (simp add: scsi_static_def)
  moreover have "scsi_inv (post_intrq (set_wd a x (set_wd b y (aux_done s))))" for a x b y
    using i by (simp add: scsi_inv_def scsi_static_def reg_defs)
  ultimately show ?thesis
    using i st
    by (auto simp: select_and_transfer_def Let_def set_wd_def intro!: finish_inv decode_cdb_inv)
       (auto simp: scsi_inv_def scsi_static_def)
qed

lemma reset_inv: "scsi_static s \<Longrightarrow> scsi_inv (scsi_reset s)"
  by (simp add: scsi_inv_def scsi_reset_def set_wd_def) (simp add: scsi_static_def)

lemma set_wd_inv [simp]: "scsi_inv (set_wd r v s) = scsi_inv s"
  by (simp add: scsi_inv_def) (simp add: set_wd_def)

lemma post_intrq_inv [simp]: "scsi_inv (post_intrq s) = scsi_inv s"
  by (simp add: scsi_inv_def scsi_static_def post_intrq_def)

lemma inv_static: "scsi_inv s \<Longrightarrow> scsi_static s"
  by (simp add: scsi_inv_def)

lemma exec_command_inv: "scsi_inv s \<Longrightarrow> scsi_inv (exec_command c s)"
  by (simp add: exec_command_def Let_def select_and_transfer_inv reset_inv inv_static)

lemma sasr_inv [simp]: "scsi_inv (s\<lparr>sasr := x\<rparr>) = scsi_inv s"
  by (simp add: scsi_inv_def scsi_static_def)

lemma pio_w_inv: "scsi_inv s \<Longrightarrow> scsi_inv (scsi_pio_w port v s)"
  by (simp add: scsi_pio_w_def exec_command_inv)

lemma pio_r_inv: "scsi_inv s \<Longrightarrow> scsi_inv (snd (scsi_pio_r port s))"
  by (simp add: scsi_pio_r_def) (simp add: scsi_inv_def scsi_static_def)

lemma dma_r_inv: "scsi_inv s \<Longrightarrow> scsi_inv (snd (scsi_dma_r s))"
  by (cases "phase s")
     (auto simp: scsi_dma_r_def Let_def scsi_inv_def intro!: finish_inv [unfolded scsi_inv_def, THEN conjunct1])

lemma dma_w_inv: "scsi_inv s \<Longrightarrow> scsi_inv (scsi_dma_w v s)"
  by (cases "phase s")
     (auto simp: scsi_dma_w_def Let_def scsi_inv_def intro!: finish_inv [unfolded scsi_inv_def, THEN conjunct1])

lemma pause_inv: "scsi_inv s \<Longrightarrow> scsi_inv (pause_transfer s)"
  by (simp add: pause_transfer_def scsi_inv_def scsi_static_def reg_defs)

lemma scsi_reach_inv: "scsi_reach s0 s \<Longrightarrow> scsi_inv s0 \<Longrightarrow> scsi_inv s"
proof (induction rule: scsi_reach.induct)
  case (do_reset s)
  then show ?case using reset_inv by (simp add: scsi_inv_def)
next
  case (poked s)
  then show ?case by (simp add: scsi_inv_def scsi_static_def)
qed (simp_all add: pio_w_inv pio_r_inv dma_r_inv dma_w_inv pause_inv)

lemma scsi_new_inv: "blocks_ok ov \<Longrightarrow> (dw \<longrightarrow> ov = Map.empty) \<Longrightarrow> scsi_inv (sgi_scsi_new dw n img ov)"
  by (simp add: sgi_scsi_new_def) (rule reset_inv, simp add: scsi_static_def)

section \<open>Moving data\<close>

fun dma_reads :: "nat \<Rightarrow> sgi_scsi \<Rightarrow> u8 list \<times> sgi_scsi" where
  "dma_reads 0 s = ([], s)"
| "dma_reads (Suc n) s = (let (b, s1) = scsi_dma_r s; (bs, s2) = dma_reads n s1 in (b # bs, s2))"

text \<open>The data phase after its cursor has reached \<open>p\<close>.\<close>

definition moved :: "nat \<Rightarrow> sgi_scsi \<Rightarrow> sgi_scsi" where
  "moved p s = (if p < length (buf s) then s\<lparr>pos := p\<rparr> else finish (s\<lparr>pos := p\<rparr>))"

lemma dma_reads_run:
  "phase s = PH_DATA_IN \<Longrightarrow> pos s < length (buf s) \<Longrightarrow> n \<noteq> 0 \<Longrightarrow> pos s + n \<le> length (buf s) \<Longrightarrow>
   dma_reads n s = (take n (drop (pos s) (buf s)), moved (pos s + n) s)"
proof (induction n arbitrary: s)
  case (Suc n)
  have d: "drop (pos s) (buf s) = buf s ! pos s # drop (Suc (pos s)) (buf s)"
    using Suc.prems(2) by (rule Cons_nth_drop_Suc [symmetric])
  have r: "scsi_dma_r s = (buf s ! pos s, moved (Suc (pos s)) s)"
    using Suc.prems by (simp add: scsi_dma_r_def moved_def not_less)
  show ?case
  proof (cases "n = 0")
    case True
    then show ?thesis using d by (simp add: r)
  next
    case False
    let ?s = "s\<lparr>pos := Suc (pos s)\<rparr>"
    have "dma_reads n ?s = (take n (drop (pos ?s) (buf ?s)), moved (pos ?s + n) ?s)"
      using Suc.prems False by (intro Suc.IH) simp_all
    moreover have "moved (Suc (pos s)) s = ?s" using Suc.prems False by (simp add: moved_def)
    ultimately show ?thesis using d by (simp add: r) (simp add: moved_def)
  qed
qed simp

lemma dma_writes_run:
  "phase s = PH_DATA_OUT \<Longrightarrow> pos s < length (buf s) \<Longrightarrow> bs \<noteq> [] \<Longrightarrow> pos s + length bs = length (buf s) \<Longrightarrow>
   fold scsi_dma_w bs s = finish (s\<lparr>buf := take (pos s) (buf s) @ bs, pos := length (buf s)\<rparr>)"
proof (induction bs arbitrary: s)
  case (Cons b bs)
  let ?s = "s\<lparr>buf := (buf s)[pos s := b], pos := Suc (pos s)\<rparr>"
  have tk: "take (Suc (pos s)) ((buf s)[pos s := b]) = take (pos s) (buf s) @ [b]"
    using Cons.prems(2) by (simp add: take_Suc_conv_app_nth)
  show ?case
  proof (cases "bs = []")
    case True
    have "take (Suc (pos s)) ((buf s)[pos s := b]) = (buf s)[pos s := b]"
      using Cons.prems True by simp
    then show ?thesis using Cons.prems True tk by (simp add: scsi_dma_w_def)
  next
    case False
    have "scsi_dma_w b s = ?s" using Cons.prems False by (cases bs) (simp_all add: scsi_dma_w_def)
    moreover have "fold scsi_dma_w bs ?s = finish (?s\<lparr>buf := take (pos ?s) (buf ?s) @ bs, pos := length (buf ?s)\<rparr>)"
      using Cons.prems False by (intro Cons.IH) (auto simp: neq_Nil_conv)
    ultimately show ?thesis by (simp add: tk)
  qed
qed simp

section \<open>Blocks\<close>

lemma block_read_write:
  assumes "scsi_static s" "length b = 512" "direct_write s \<longrightarrow> l < nblocks s"
  shows "block_read x (block_write l b s) = (if x = l then b else block_read x s)"
  using assms
  by (auto simp: block_read_def block_write_def scsi_static_def not_le split: option.split)

lemma block_read_outside:
  assumes "scsi_static s" "512 * n \<le> length bs" "direct_write s \<longrightarrow> unat l + n \<le> unat (nblocks s)"
    and "unat l + n < 2 ^ 64" "unat x < unat l \<or> unat l + n \<le> unat x"
  shows "block_read x (write_blocks n l bs s) = block_read x s"
  using assms
proof (induction n arbitrary: l bs s)
  case (Suc n)
  let ?s = "block_write l (take 512 bs) s"
  have u: "unat (l + 1) = unat l + 1" using Suc.prems(4) by (simp add: unat_word_ariths)
  have d: "direct_write s \<longrightarrow> l < nblocks s" using Suc.prems(3) by (auto simp: word_less_nat_alt)
  have "scsi_static ?s" using Suc.prems by (intro block_write_static) simp_all
  then have "block_read x (write_blocks n (l + 1) (drop 512 bs) ?s) = block_read x ?s"
    using Suc.prems by (intro Suc.IH) (auto simp: u)
  also have "\<dots> = block_read x s"
    using Suc.prems d by (subst block_read_write) auto
  finally show ?case by simp
qed simp

lemma read_written_blocks:
  assumes "scsi_static s" "512 * n \<le> length bs" "direct_write s \<longrightarrow> unat l + n \<le> unat (nblocks s)"
    and "unat l + n < 2 ^ 64"
  shows "read_blocks n l (write_blocks n l bs s) = take (512 * n) bs"
  using assms
proof (induction n arbitrary: l bs s)
  case (Suc n)
  let ?s = "block_write l (take 512 bs) s"
  have u: "unat (l + 1) = unat l + 1" using Suc.prems(4) by (simp add: unat_word_ariths)
  have d: "direct_write s \<longrightarrow> l < nblocks s" using Suc.prems(3) by (auto simp: word_less_nat_alt)
  have st: "scsi_static ?s" using Suc.prems by (intro block_write_static) simp_all
  have "block_read l (write_blocks n (l + 1) (drop 512 bs) ?s) = block_read l ?s"
    using Suc.prems st by (intro block_read_outside) (auto simp: u)
  also have "\<dots> = take 512 bs" using Suc.prems d by (subst block_read_write) auto
  finally have b: "block_read l (write_blocks n (l + 1) (drop 512 bs) ?s) = take 512 bs" .
  have "read_blocks n (l + 1) (write_blocks n (l + 1) (drop 512 bs) ?s) = take (512 * n) (drop 512 bs)"
    using Suc.prems st by (intro Suc.IH) (auto simp: u)
  with b show ?case by (simp add: take_add)
qed simp

text \<open>Reading blocks depends only on the disk.\<close>

definition same_disk :: "sgi_scsi \<Rightarrow> sgi_scsi \<Rightarrow> bool" where
  "same_disk s s' \<longleftrightarrow> overlay s' = overlay s \<and> nblocks s' = nblocks s \<and> disk_image s' = disk_image s \<and>
     direct_write s' = direct_write s"

lemma same_disk_read: "same_disk s s' \<Longrightarrow> block_read l s' = block_read l s"
  by (simp add: same_disk_def block_read_def split: option.split)

lemma same_disk_reads: "same_disk s s' \<Longrightarrow> read_blocks n l s' = read_blocks n l s"
  by (induction n arbitrary: l) (simp_all add: same_disk_read)

lemma same_disk_writes:
  "same_disk s s' \<Longrightarrow> same_disk (write_blocks n l bs s) (write_blocks n l bs s')"
proof (induction n arbitrary: l bs s s')
  case (Suc n)
  then have "same_disk (block_write l (take 512 bs) s) (block_write l (take 512 bs) s')"
    by (simp add: same_disk_def block_write_def)
  with Suc.IH show ?case by simp
qed simp

section \<open>Commands as the driver issues them\<close>

text \<open>The register sequence of a Select-And-Transfer: command block, LUN 0, target, command.\<close>

definition scsi_issue :: "u8 list \<Rightarrow> sgi_scsi \<Rightarrow> sgi_scsi" where
  "scsi_issue c s = scsi_pio_w 1 CMD_SEL_ATN_XFER (scsi_pio_w 0 0x18
     (scsi_pio_w 1 DISK_TARGET (scsi_pio_w 0 0x15
     (scsi_pio_w 1 0 (scsi_pio_w 0 0x0f (fold (scsi_pio_w 1) c (scsi_pio_w 0 3 s)))))))"

definition rw10 :: "u8 \<Rightarrow> u32 \<Rightarrow> u16 \<Rightarrow> u8 list" where
  "rw10 op lba len = [op, 0, ucast (drop_bit 24 lba), ucast (drop_bit 16 lba), ucast (drop_bit 8 lba),
     ucast lba, 0, ucast (drop_bit 8 len), ucast len, 0]"

lemma issue_decode:
  assumes "phase s = PH_IDLE"
  shows "\<exists>s2. scsi_issue (rw10 op lba len) s = decode_cdb s2 \<and> same_disk s s2 \<and> phase s2 = PH_IDLE \<and>
     sense s2 = sense s \<and> tgt_status s2 = 0 \<and> map (cdb s2) [0, 2, 3, 4, 5, 7, 8] =
       [op, ucast (drop_bit 24 lba), ucast (drop_bit 16 lba), ucast (drop_bit 8 lba), ucast lba,
        ucast (drop_bit 8 len), ucast len]"
proof -
  define s1 where "s1 = scsi_pio_w 0 0x18 (scsi_pio_w 1 DISK_TARGET (scsi_pio_w 0 0x15
     (scsi_pio_w 1 0 (scsi_pio_w 0 0x0f (fold (scsi_pio_w 1) (rw10 op lba len) (scsi_pio_w 0 3 s))))))"
  have f: "same_disk s s1" "phase s1 = PH_IDLE" "sense s1 = sense s" "sasr s1 = WD_COMMAND"
    "wd_regs s1 WD_DEST_ID = 1" "wd_regs s1 WD_TARGET_LUN = 0"
    and c: "map (cdb s1) [0, 2, 3, 4, 5, 7, 8] =
       [op, ucast (drop_bit 24 lba), ucast (drop_bit 16 lba), ucast (drop_bit 8 lba), ucast lba,
        ucast (drop_bit 8 len), ucast len]"
    using assms
    by (simp_all add: s1_def rw10_def scsi_pio_w_def set_wd_def wd_defs same_disk_def cdb_def DISK_TARGET_def)
  define s2 where "s2 = (set_wd WD_AUX_STATUS (wd_regs s1 WD_AUX_STATUS OR (AUX_CIP OR AUX_BSY))
     (set_wd WD_COMMAND CMD_SEL_ATN_XFER s1))\<lparr>tgt_status := 0\<rparr>"
  have "scsi_issue (rw10 op lba len) s = exec_command CMD_SEL_ATN_XFER (set_wd WD_COMMAND CMD_SEL_ATN_XFER s1)"
    using f(4) by (simp add: scsi_issue_def s1_def [symmetric] scsi_pio_w_def [of 1 CMD_SEL_ATN_XFER])
      (simp add: CMD_SEL_ATN_XFER_def)
  also have "\<dots> = decode_cdb s2"
    using f by (simp add: exec_command_def CMD_RESET_def CMD_SEL_ATN_XFER_def select_and_transfer_def
      s2_def Let_def DISK_TARGET_def) (simp add: set_wd_def wd_defs)
  finally show ?thesis
    using f c by (intro exI [of _ s2]) (simp add: s2_def same_disk_def set_wd_def cdb_def wd_defs)
qed

lemma unat_u16: "unat (ucast (x :: u16) :: u32) = unat x"
  using unsigned_less [of x, where 'a = nat] by (simp add: unsigned_ucast_eq take_bit_nat_eq_self_iff)

lemma rw10_fields:
  assumes "map (cdb s) [0, 2, 3, 4, 5, 7, 8] =
       [op, ucast (drop_bit 24 lba), ucast (drop_bit 16 lba), ucast (drop_bit 8 lba), ucast lba,
        ucast (drop_bit 8 len), ucast len]"
  shows "cdb_lba s = ucast (lba :: u32)" "cdb_len s = ucast (len :: u16)"
proof -
  show "cdb_lba s = ucast lba"
  proof (rule bit_word_eqI)
    fix n
    show "bit (cdb_lba s) n = bit (ucast lba :: u64) n"
      using assms bit_imp_le_length [of lba n]
      by (cases "n < 8"; cases "n < 16"; cases "n < 24") (auto simp: cdb_lba_def bit_simps)
  qed
  show "cdb_len s = ucast len"
    using assms by (intro bit_word_eqI) (auto simp: cdb_len_def bit_simps dest: bit_imp_le_length)
qed

text \<open>What the driver finds when a command is complete.\<close>

definition command_done :: "sgi_scsi \<Rightarrow> bool" where
  "command_done s \<longleftrightarrow> phase s = PH_IDLE \<and> \<not> drq s \<and> intrq s \<and> scsi_poke s \<and>
     wd_regs s WD_SCSI_STATUS = ST_SELECT_TRANSFER_SUCCESS"

lemma finish_done: "command_done (finish s)"
  by (simp add: command_done_def) (simp add: finish_def Let_def scsi_complete_def reg_defs wd_defs)

lemma finish_disk:
  "phase s \<noteq> PH_DATA_OUT \<Longrightarrow> same_disk s (finish s)"
  "phase s = PH_DATA_OUT \<Longrightarrow> wd_regs s WD_CDB = 0x2a \<Longrightarrow>
   same_disk (write_blocks (length (buf s) div 512) (wr_lba s) (buf s) s) (finish s)"
  by (simp_all add: finish_def Let_def same_disk_def)

lemma scsi_write10:
  assumes "phase s = PH_IDLE" "len \<noteq> 0" "length bs = 512 * unat len"
    and "s' = fold scsi_dma_w bs (scsi_issue (rw10 0x2a lba len) s)"
  shows "command_done s' \<and> same_disk (write_blocks (unat len) (ucast lba) bs s) s'"
proof -
  obtain s2 where i: "scsi_issue (rw10 0x2a lba len) s = decode_cdb s2" "same_disk s s2" "phase s2 = PH_IDLE"
    and c: "map (cdb s2) [0, 2, 3, 4, 5, 7, 8] =
       [0x2a, ucast (drop_bit 24 lba), ucast (drop_bit 16 lba), ucast (drop_bit 8 lba), ucast lba,
        ucast (drop_bit 8 len), ucast len]"
    using issue_decode [OF assms(1), of "0x2a" lba len] by (elim exE conjE) (rule that)
  let ?n = "unat len * 512"
  have n: "?n \<noteq> 0" using assms(2) by (simp add: unat_eq_0)
  let ?s3 = "s2\<lparr>wr_lba := ucast lba, buf := replicate ?n 0, pos := 0, phase := PH_DATA_OUT, drq := True\<rparr>"
  have "unat (cdb_len s2) = unat len" by (simp add: rw10_fields(2) [OF c] unat_u16)
  then have d: "decode_cdb s2 = ?s3"
    using c n by (simp add: decode_cdb_def Let_def begin_data_out_def rw10_fields(1) [OF c])
  let ?s4 = "?s3\<lparr>buf := bs, pos := ?n\<rparr>"
  have "s' = finish ?s4"
    using dma_writes_run [of ?s3 bs] assms(3,4) n by (cases "bs = []") (simp_all add: i(1) d)
  moreover have "wd_regs ?s4 WD_CDB = 0x2a" using c by (simp add: cdb_def)
  ultimately have "same_disk (write_blocks (unat len) (ucast lba) bs ?s4) s'"
    using finish_disk(2) [of ?s4] assms(3) by simp
  moreover have "same_disk (write_blocks (unat len) (ucast lba) bs s) (write_blocks (unat len) (ucast lba) bs ?s4)"
    using i(2) by (intro same_disk_writes) (simp add: same_disk_def)
  ultimately show ?thesis
    using finish_done \<open>s' = finish ?s4\<close> by (simp add: same_disk_def)
qed

lemma scsi_read10:
  assumes "scsi_static s" "phase s = PH_IDLE" "len \<noteq> 0"
    and "dma_reads (512 * unat len) (scsi_issue (rw10 0x28 lba len) s) = (out, s')"
  shows "out = read_blocks (unat len) (ucast lba) s \<and> command_done s' \<and> same_disk s s'"
proof -
  obtain s2 where i: "scsi_issue (rw10 0x28 lba len) s = decode_cdb s2" "same_disk s s2" "phase s2 = PH_IDLE"
    and c: "map (cdb s2) [0, 2, 3, 4, 5, 7, 8] =
       [0x28, ucast (drop_bit 24 lba), ucast (drop_bit 16 lba), ucast (drop_bit 8 lba), ucast lba,
        ucast (drop_bit 8 len), ucast len]"
    using issue_decode [OF assms(2), of "0x28" lba len] by (elim exE conjE) (rule that)
  let ?b = "read_blocks (unat len) (ucast lba) s2"
  let ?s3 = "s2\<lparr>buf := ?b, pos := 0, phase := PH_DATA_IN, drq := True\<rparr>"
  have n: "unat len \<noteq> 0" using assms(3) by (simp add: unat_eq_0)
  have l: "unat (cdb_len s2) = unat len" by (simp add: rw10_fields(2) [OF c] unat_u16)
  have d: "decode_cdb s2 = ?s3"
    using c n by (simp add: decode_cdb_def Let_def rw10_fields(1) [OF c] l)
  have b: "?b = read_blocks (unat len) (ucast lba) s" by (rule same_disk_reads [OF i(2)])
  have lb: "length ?b = 512 * unat len" using read_blocks_length [OF assms(1)] by (simp add: b)
  have "dma_reads (512 * unat len) ?s3 = (?b, finish (?s3\<lparr>pos := 512 * unat len\<rparr>))"
    using n lb dma_reads_run [of ?s3 "512 * unat len"] by (simp add: moved_def)
  then have "out = ?b \<and> s' = finish (?s3\<lparr>pos := 512 * unat len\<rparr>)"
    using assms(4) unfolding i(1) d by (simp only: prod.inject)
  moreover have "same_disk s (finish (?s3\<lparr>pos := 512 * unat len\<rparr>))"
    using finish_disk(1) [of "?s3\<lparr>pos := 512 * unat len\<rparr>"] i(2) by (simp add: same_disk_def)
  ultimately show ?thesis using b finish_done by simp
qed

section \<open>Chunked transfers\<close>

text \<open>A driver that programs the DMA channel for fewer bytes than the command moves: the channel
  ends, the controller pauses, the driver reads the status and selects again.\<close>

definition scsi_resume :: "sgi_scsi \<Rightarrow> sgi_scsi" where
  "scsi_resume s =
     scsi_pio_w 1 CMD_SEL_ATN_XFER (scsi_pio_w 0 0x18 (snd (scsi_pio_r 1 (scsi_pio_w 0 0x17 s))))"

fun chunked_reads :: "nat list \<Rightarrow> sgi_scsi \<Rightarrow> u8 list \<times> sgi_scsi" where
  "chunked_reads [] s = ([], s)"
| "chunked_reads [k] s = dma_reads k s"
| "chunked_reads (k # k2 # ks) s =
     (let (a, s1) = dma_reads k s; (b, s2) = chunked_reads (k2 # ks) (scsi_resume (pause_transfer s1))
      in (a @ b, s2))"

lemma resume_paused:
  assumes "phase s = PH_DATA_IN" "0 < pos s" "pos s < length (buf s)" "s' = scsi_resume (pause_transfer s)"
  shows "phase s' = PH_DATA_IN \<and> pos s' = pos s \<and> buf s' = buf s \<and> drq s' \<and> \<not> intrq s' \<and> same_disk s s'"
  using assms
  by (simp add: scsi_resume_def scsi_pio_w_def scsi_pio_r_def pause_transfer_def reg_defs wd_defs
    exec_command_def CMD_RESET_def CMD_SEL_ATN_XFER_def select_and_transfer_def same_disk_def)

lemma chunked_reads_run:
  "phase s = PH_DATA_IN \<Longrightarrow> pos s < length (buf s) \<Longrightarrow> \<forall>k\<in>set ks. 0 < k \<Longrightarrow> ks \<noteq> [] \<Longrightarrow>
   pos s + sum_list ks = length (buf s) \<Longrightarrow> chunked_reads ks s = (out, s') \<Longrightarrow>
   out = drop (pos s) (buf s) \<and> command_done s' \<and> same_disk s s'"
proof (induction ks s arbitrary: out rule: chunked_reads.induct)
  case (2 k s)
  have "same_disk s (finish (s\<lparr>pos := pos s + k\<rparr>))"
    using finish_disk(1) [of "s\<lparr>pos := pos s + k\<rparr>"] 2(1) by (simp add: same_disk_def)
  then show ?case
    using dma_reads_run [of s k] 2 finish_done by (auto simp: moved_def)
next
  case (3 k k2 ks s)
  have k: "k \<noteq> 0" "0 < k2" "pos s + k < length (buf s)" using 3(4,6) by auto
  let ?s1 = "s\<lparr>pos := pos s + k\<rparr>"
  define s2 where "s2 = scsi_resume (pause_transfer ?s1)"
  have d: "dma_reads k s = (take k (drop (pos s) (buf s)), ?s1)"
    using dma_reads_run [of s k] 3(2,3) k by (simp add: moved_def)
  have r: "phase s2 = PH_DATA_IN" "pos s2 = pos s + k" "buf s2 = buf s" "same_disk ?s1 s2"
    using resume_paused [of ?s1 s2] 3(2) k by (simp_all add: s2_def)
  obtain b where b: "chunked_reads (k2 # ks) s2 = (b, s')" "out = take k (drop (pos s) (buf s)) @ b"
    using 3(7) d by (auto simp: s2_def split: prod.splits)
  have "b = drop (pos s2) (buf s2) \<and> command_done s' \<and> same_disk s2 s'"
    using 3(1) [OF d [symmetric] refl, folded s2_def, OF r(1) _ _ _ _ b(1)] 3(4,6) r k by auto
  then show ?case
    using b(2) r k append_take_drop_id [of k "drop (pos s) (buf s)"]
    by (auto simp: same_disk_def add.commute)
qed simp

section \<open>The delta file, cut anywhere\<close>

lemma load_records_step:
  assumes "length b = 512"
  shows "load_records (le_bytes 8 l @ b @ rest) ov = load_records rest (ov(l := Some b))"
proof -
  have "le_val (le_bytes 8 l) = l" by (rule bit_word_eqI) (simp add: le_val_le_bytes bit_simps)
  with assms show ?thesis by (subst load_records.simps) simp
qed

lemma load_records_short: "length bs < 520 \<Longrightarrow> load_records bs ov = ov"
  by (subst load_records.simps) auto

lemma take_past: "length xs \<le> m \<Longrightarrow> take m (xs @ ys) = xs @ take (m - length xs) ys"
  by simp

lemma load_records_cut:
  "\<forall>(l, b)\<in>set kvs. length b = 512 \<Longrightarrow> distinct (map fst kvs) \<Longrightarrow>
   load_records (take m (concat (map (\<lambda>(lba, b). le_bytes 8 lba @ take 512 b) kvs))) ov =
   ov ++ map_of (take (m div 520) kvs)"
proof (induction kvs arbitrary: m ov)
  case Nil
  then show ?case by (simp add: load_records_short)
next
  case (Cons kv kvs)
  obtain l b where kv: "kv = (l, b)" by fastforce
  have b: "length b = 512" using Cons.prems kv by simp
  let ?rest = "concat (map (\<lambda>(lba, b). le_bytes 8 lba @ take 512 b) kvs)"
  show ?case
  proof (cases "m < 520")
    case True
    then show ?thesis by (simp add: load_records_short)
  next
    case False
    then obtain j where m: "m = 520 + j" using le_Suc_ex [of 520 m] by auto
    have "take m (concat (map (\<lambda>(lba, b). le_bytes 8 lba @ take 512 b) (kv # kvs))) =
        le_bytes 8 l @ b @ take j ?rest"
      using b take_past [of "le_bytes 8 l @ b" m ?rest] by (simp add: kv m)
    then have "load_records (take m (concat (map (\<lambda>(lba, b). le_bytes 8 lba @ take 512 b) (kv # kvs)))) ov =
        ov(l := Some b) ++ map_of (take (j div 520) kvs)"
      using Cons by (simp add: load_records_step [OF b])
    also have "\<dots> = ov ++ map_of (take (m div 520) (kv # kvs))"
    proof -
      have "l \<notin> fst ` set (take (j div 520) kvs)"
        using Cons.prems(2) set_take_subset [of "j div 520" kvs] by (auto simp: kv)
      then have "map_of (take (j div 520) kvs) l = None" by (simp add: map_of_eq_None_iff)
      moreover have "(520 + j) div 520 = Suc (j div 520)" by simp
      ultimately show ?thesis by (auto simp: m kv fun_eq_iff map_add_def split: option.split)
    qed
    finally show ?thesis .
  qed
qed

lemma magic_length: "length DELTA_MAGIC = 8"
  by (simp add: DELTA_MAGIC_def)

lemma load_delta_cut:
  assumes "distinct (map fst kvs)" "\<forall>(l, b)\<in>set kvs. length b = 512"
  shows "load_delta (Some (take n (flush_delta kvs))) Map.empty = map_of (take ((n - 8) div 520) kvs)"
proof (cases "n < 8")
  case True
  then have "length (take 8 (take n (flush_delta kvs))) < 8" by simp
  then have "take 8 (take n (flush_delta kvs)) \<noteq> DELTA_MAGIC" using magic_length by (metis nat_neq_iff)
  with True show ?thesis by (simp add: load_delta_def)
next
  case False
  then have "take n (flush_delta kvs) =
      DELTA_MAGIC @ take (n - 8) (concat (map (\<lambda>(lba, b). le_bytes 8 lba @ take 512 b) kvs))"
    by (simp add: flush_delta_def magic_length)
  then show ?thesis
    using load_records_cut [OF assms(2,1), of "n - 8" Map.empty] by (simp add: load_delta_def magic_length)
qed

section \<open>Properties\<close>

text \<open>C16.  In every state the controller can reach, whatever registers the guest programs and however
  the DMA engine moves, pauses or resets: a data phase always has bytes left in its buffer, so every
  buffer access is in range; data is requested only inside a data phase; the sense data has 18 bytes and
  every block of the overlay 512.\<close>

theorem scsi_state_well_formed:
  assumes "blocks_ok ov" "dw \<longrightarrow> ov = Map.empty" "scsi_reach (sgi_scsi_new dw n img ov) s"
  shows "(phase s \<noteq> PH_IDLE \<longrightarrow> pos s < length (buf s)) \<and> (drq s \<longrightarrow> phase s \<noteq> PH_IDLE) \<and>
    length (sense s) = 18 \<and> blocks_ok (overlay s) \<and> length (block_read lba s) = 512 \<and>
    (residual s = 0 \<longleftrightarrow> phase s = PH_IDLE)"
proof -
  have "scsi_inv s" using scsi_reach_inv [OF assms(3) scsi_new_inv [OF assms(1,2)]] .
  then show ?thesis
    by (cases "phase s") (auto simp: scsi_inv_def block_read_length residual_def, auto simp: scsi_static_def)
qed

theorem scsi_state_well_formed_witness:
  "let s = scsi_issue (rw10 0x28 5 1) (sgi_scsi_new False 100 (\<lambda>_. replicate 512 7) Map.empty)
   in phase s = PH_DATA_IN \<and> pos s < length (buf s) \<and> length (sense s) = 18"
proof -
  let ?s0 = "sgi_scsi_new False 100 (\<lambda>_. replicate 512 7) Map.empty"
  have "scsi_reach ?s0 (scsi_issue (rw10 0x28 5 1) ?s0)"
    unfolding scsi_issue_def rw10_def fold.simps comp_def id_def by (intro scsi_reach.intros)
  from scsi_state_well_formed [OF _ _ this]
  have i: "phase (scsi_issue (rw10 0x28 5 1) ?s0) \<noteq> PH_IDLE \<longrightarrow>
     pos (scsi_issue (rw10 0x28 5 1) ?s0) < length (buf (scsi_issue (rw10 0x28 5 1) ?s0))"
     "length (sense (scsi_issue (rw10 0x28 5 1) ?s0)) = 18"
    by (simp_all add: blocks_ok_def)
  moreover have "phase (scsi_issue (rw10 0x28 5 1) ?s0) = PH_DATA_IN" by code_simp
  ultimately show ?thesis by (simp only: Let_def) simp
qed

text \<open>C4.  The disk remembers: when the driver issues WRITE(10) and the DMA engine feeds the data, a later
  READ(10) of the same blocks returns exactly those bytes, both commands end with the success status and
  an interrupt, and no block outside the written range changes; this holds for writes to the overlay at
  any address and for direct writes inside the image.\<close>

theorem scsi_write_then_read:
  assumes "scsi_inv s" "phase s = PH_IDLE" "len \<noteq> 0" "length bs = 512 * unat len"
    and "direct_write s \<longrightarrow> unat lba + unat len \<le> unat (nblocks s)"
    and "s1 = fold scsi_dma_w bs (scsi_issue (rw10 0x2a lba len) s)"
    and "dma_reads (512 * unat len) (scsi_issue (rw10 0x28 lba len) s1) = (out, s2)"
  shows "out = bs \<and> command_done s1 \<and> command_done s2 \<and>
    (\<forall>x. unat x < unat lba \<or> unat lba + unat len \<le> unat x \<longrightarrow> block_read x s2 = block_read x s)"
proof -
  let ?w = "write_blocks (unat len) (ucast lba) bs s"
  have st: "scsi_static s" using assms(1) by (rule inv_static)
  have u: "unat (ucast lba :: u64) = unat lba"
    using unsigned_less [of lba, where 'a = nat] by (simp add: unsigned_ucast_eq take_bit_nat_eq_self_iff)
  have fits: "unat (ucast lba :: u64) + unat len < 2 ^ 64"
    using unsigned_less [of lba, where 'a = nat] unsigned_less [of len, where 'a = nat] by (simp add: u)
  have w: "command_done s1" "same_disk ?w s1"
    using scsi_write10 [OF assms(2,3,4,6)] by simp_all
  have "scsi_static ?w" using st assms(4) by (intro write_blocks_static) simp_all
  moreover have "sense s1 = sense ?w \<Longrightarrow> scsi_static ?w \<Longrightarrow> scsi_static s1"
    using w(2) by (simp add: scsi_static_def same_disk_def)
  moreover have "scsi_inv s1"
    unfolding assms(6) scsi_issue_def
    by (rule fold_invariant [of bs "\<lambda>_. True"]) (use assms(1) in \<open>simp_all add: pio_w_inv dma_w_inv rw10_def\<close>)
  ultimately have st1: "scsi_static s1" by (simp add: inv_static)
  have "phase s1 = PH_IDLE" using w(1) by (simp add: command_done_def)
  from scsi_read10 [OF st1 this assms(3,7)]
  have r: "out = read_blocks (unat len) (ucast lba) s1" "command_done s2" "same_disk s1 s2" by simp_all
  have d: "direct_write s \<longrightarrow> unat (ucast lba :: u64) + unat len \<le> unat (nblocks s)" using assms(5) u by simp
  have "out = bs"
    using read_written_blocks [OF st _ d fits, of bs] assms(4) same_disk_reads [OF w(2)] r(1) by simp
  moreover have "block_read x s2 = block_read x s"
    if "unat x < unat lba \<or> unat lba + unat len \<le> unat x" for x
    using block_read_outside [OF st _ d fits, of bs x] that assms(4)
    by (simp add: u same_disk_read [OF r(3)] same_disk_read [OF w(2)])
  ultimately show ?thesis using w(1) r(2) by blast
qed

theorem scsi_write_then_read_witness:
  "let s = sgi_scsi_new False 0 (\<lambda>_. []) Map.empty;
       s1 = fold scsi_dma_w (replicate 512 9) (scsi_issue (rw10 0x2a 3 1) s)
   in fst (dma_reads 512 (scsi_issue (rw10 0x28 3 1) s1)) = replicate 512 9"
proof -
  define s where "s = sgi_scsi_new False 0 (\<lambda>_. []) Map.empty"
  have i: "scsi_inv s" unfolding s_def by (rule scsi_new_inv) (simp_all add: blocks_ok_def)
  have p: "phase s = PH_IDLE" "\<not> direct_write s" unfolding s_def by code_simp+
  define s1 where "s1 = fold scsi_dma_w (replicate 512 9) (scsi_issue (rw10 0x2a 3 1) s)"
  obtain out s2 where r: "dma_reads 512 (scsi_issue (rw10 0x28 3 1) s1) = (out, s2)" by fastforce
  have "out = replicate 512 9"
    using scsi_write_then_read [OF i p(1) _ _ _ s1_def, of out s2] p(2) r by simp
  then show ?thesis unfolding Let_def s_def [symmetric] s1_def [symmetric] r fst_conv .
qed

text \<open>C15.  Chunking is transparent: when the driver moves a data-in phase in any number of pieces, with a
  pause, a status read and a new selection between them, it receives the same bytes as in one transfer,
  the last piece completes the command, and the disk is unchanged.\<close>

theorem chunked_read_transparent:
  assumes "phase s = PH_DATA_IN" "pos s < length (buf s)" "\<forall>k\<in>set ks. 0 < k" "ks \<noteq> []"
    and "pos s + sum_list ks = length (buf s)" "chunked_reads ks s = (out, s')"
  shows "out = fst (dma_reads (sum_list ks) s) \<and> command_done s' \<and> same_disk s s'"
proof -
  have "sum_list ks \<noteq> 0" using assms(3,4) by (cases ks) auto
  then have "fst (dma_reads (sum_list ks) s) = drop (pos s) (buf s)"
    using dma_reads_run [OF assms(1,2), of "sum_list ks"] assms(5) by simp
  with chunked_reads_run [OF assms] show ?thesis by simp
qed

theorem chunked_read_transparent_witness:
  "fst (chunked_reads [3, 1, 4] (scsi_issue (rw10 0x25 0 0) (sgi_scsi_new False 100 (\<lambda>_. []) Map.empty))) =
   [0, 0, 0, 99, 0, 0, 2, 0]"
proof -
  define s where "s = scsi_issue (rw10 0x25 0 0) (sgi_scsi_new False 100 (\<lambda>_. []) Map.empty)"
  have h: "phase s = PH_DATA_IN" "pos s = 0" "length (buf s) = 8"
    "fst (dma_reads 8 s) = [0, 0, 0, 99, 0, 0, 2, 0]" unfolding s_def by code_simp+
  obtain out s' where r: "chunked_reads [3, 1, 4] s = (out, s')" by fastforce
  from chunked_read_transparent [OF h(1) _ _ _ _ r] h have "out = [0, 0, 0, 99, 0, 0, 2, 0]" by simp
  then show ?thesis unfolding s_def [symmetric] r fst_conv .
qed

text \<open>C17.  The delta file restores the overlay: whatever order the map is written in, loading the file
  gives back every block; and a file cut anywhere, as by a crash while it is written, loads exactly the
  records that are complete, never a partial block.\<close>

theorem delta_file_round_trip:
  assumes "distinct (map fst kvs)" "\<forall>(l, b)\<in>set kvs. length b = 512"
  shows "load_delta (Some (take n (flush_delta kvs))) Map.empty = map_of (take ((n - 8) div 520) kvs) \<and>
    (\<forall>s::sgi_scsi. map_of kvs = overlay s \<longrightarrow> load_delta (Some (flush_delta kvs)) Map.empty = overlay s)"
proof -
  have "length (concat (map (\<lambda>(lba, b). le_bytes 8 lba @ take 512 b) kvs)) = 520 * length kvs"
    using assms(2) by (induction kvs) auto
  then have "take (8 + 520 * length kvs) (flush_delta kvs) = flush_delta kvs"
    by (simp add: flush_delta_def magic_length)
  then have "load_delta (Some (flush_delta kvs)) Map.empty = map_of kvs"
    using load_delta_cut [OF assms, of "8 + 520 * length kvs"] by simp
  then show ?thesis using load_delta_cut [OF assms] by simp
qed

theorem delta_file_round_trip_witness:
  "load_delta (Some (take 1000 (flush_delta [(5, replicate 512 1), (7, replicate 512 2)]))) Map.empty =
   [5 \<mapsto> replicate 512 1]"
proof -
  let ?kvs = "[(5, replicate 512 1), (7, replicate 512 2)]"
  have "load_delta (Some (take 1000 (flush_delta ?kvs))) Map.empty = map_of (take ((1000 - 8) div 520) ?kvs)"
    using delta_file_round_trip [of ?kvs 1000] by fastforce
  also have "\<dots> = [5 \<mapsto> replicate 512 1]" by (simp add: take_Cons')
  finally show ?thesis .
qed

end
