(* ===== verification/Indy_State.thy ===== *)
theory Indy_State
  imports Bus SCC PS2 Seeq SCSI
begin

text \<open>
  The devices of the Indy as one state: the registers of the memory controller
  (\<^verbatim>\<open>class sgi_mc\<close>, src/sgi_mc.hh) and of the peripheral controller
  (\<^verbatim>\<open>class sgi_hpc\<close>, src/sgi_hpc.hh), and the devices behind them.  \<open>indy\<close> stands for the
  device pointers of \<^verbatim>\<open>state_t\<close> after \<^verbatim>\<open>main\<close> has attached the devices: SCSI, Ethernet,
  graphics and keyboard may be absent, as null pointers.

  \<^item> The Newport graphics board is a parameter: \<open>np_ops\<close> holds the member functions the
    router, the memory controller and the interrupt controller call on it.
  \<^item> \<open>indy_env\<close> holds the environment knobs of src/sgi_hpc.cc, the host's clock, and the fuel
    of the descriptor walks.
  \<^item> \<open>halted\<close> records that the process is gone: a failed \<^verbatim>\<open>assert\<close>, a write outside the
    EEPROM array, or a descriptor chain that does not end.
\<close>

section \<open>Memory controller registers\<close>

record sgi_mc =
  eeprom_ctrl :: u32
  cpu_error_status :: u32
  gio_error_status :: u32
  cpu_mem_access_config :: u32
  gio_mem_access_config :: u32
  gio64_arb_param :: u32
  rpss_divider :: u32
  cpu_control :: "bool \<Rightarrow> u32"
  memcfg :: "bool \<Rightarrow> u32"
  dma_gio_mask :: u32
  dma_gio_sub :: u32
  dma_cause :: u32
  dma_ctl :: u32
  dma_tlb_hi :: "nat \<Rightarrow> u32"
  dma_tlb_lo :: "nat \<Rightarrow> u32"
  dma_memadr :: u32
  dma_size :: u32
  dma_stride :: u32
  dma_gio_adr :: u32
  dma_mode :: u32
  dma_count :: u32
  dma_run :: u32
  dma_irq :: bool
  ee_nbits :: u32
  eerom :: "u8 list"
  ee_byte :: u8
  cbyte :: u32

definition bswap32 :: "u32 \<Rightarrow> u32" where
  "bswap32 x = ucast (bswap 4 (ucast x))"

definition bswap64 :: "u64 \<Rightarrow> u64" where
  "bswap64 x = bswap 8 x"

text \<open>\<^verbatim>\<open>MEMCFG\<close> and \<^verbatim>\<open>MEMCFG1\<close> of the environment override the 16 MB default.\<close>

definition sgi_mc_new :: "u32 option \<Rightarrow> u32 option \<Rightarrow> sgi_mc" where
  "sgi_mc_new e e1 =
     (let cfg0 = (case e of None \<Rightarrow> 0x2320 | Some c \<Rightarrow> c); cfg1 = (case e1 of None \<Rightarrow> 0 | Some c \<Rightarrow> c) in
      \<lparr>eeprom_ctrl = 0, cpu_error_status = 0, gio_error_status = 0, cpu_mem_access_config = 0,
       gio_mem_access_config = 0, gio64_arb_param = 0, rpss_divider = 0x104, cpu_control = (\<lambda>_. 0),
       memcfg = (\<lambda>i. if i then bswap32 (push_bit 16 cfg1) else bswap32 (push_bit 16 cfg0)),
       dma_gio_mask = 0, dma_gio_sub = 0, dma_cause = 0, dma_ctl = 0, dma_tlb_hi = (\<lambda>_. 0),
       dma_tlb_lo = (\<lambda>_. 0), dma_memadr = 0, dma_size = 0, dma_stride = 0, dma_gio_adr = 0,
       dma_mode = 0, dma_count = 0, dma_run = 0, dma_irq = False, ee_nbits = 0,
       eerom = replicate 256 0, ee_byte = 0, cbyte = 0\<rparr>)"

section \<open>Peripheral controller registers\<close>

datatype dma_state_t = CH_IDLE | CH_FETCH | CH_XFER | CH_DESC_DONE

record scsi_dma_t =
  cbp :: u32
  nbdp :: u32
  bc :: u32
  d_ctrl :: u32
  count :: u32
  dmacfg :: u32
  piocfg :: u32
  active :: bool
  to_device :: bool
  ch_state :: dma_state_t

definition scsi_dma_new :: scsi_dma_t where
  "scsi_dma_new = \<lparr>cbp = 0, nbdp = 0, bc = 0, d_ctrl = 0, count = 0, dmacfg = 0, piocfg = 0,
     active = False, to_device = False, ch_state = CH_IDLE\<rparr>"

text \<open>The arrays of two are functions of the index, \<open>True\<close> for 1; \<^verbatim>\<open>s_pkt_open\<close> and
  \<^verbatim>\<open>s_head\<close> are static variables of \<^verbatim>\<open>enet_run_dma\<close>.\<close>

record sgi_hpc =
  intstat :: u32
  misc :: u32
  ioc2_local_status :: "bool \<Rightarrow> u8"
  ioc2_local_mask :: "bool \<Rightarrow> u8"
  ioc2_cmeimask :: "bool \<Rightarrow> u8"
  ioc2_cmepol :: u8
  pbus_pio_config :: "nat \<Rightarrow> u32"
  pbus_dma_config :: "nat \<Rightarrow> u32"
  scsi_dma :: "bool \<Rightarrow> scsi_dma_t"
  enet_dma :: "bool \<Rightarrow> scsi_dma_t"
  enet_crbdp :: u32
  enet_tx_crbdp :: u32
  enet_tx_hold :: u32
  enet_poll_ctr :: u32
  s_pkt_open :: bool
  s_head :: u32
  t2_load :: u32
  t2_count_at_load :: u64
  t2_latch :: u16
  t2_wr_phase :: bool
  t2_rd_phase :: bool
  t2_loading :: bool

definition sgi_hpc_new :: sgi_hpc where
  "sgi_hpc_new = \<lparr>intstat = 0, misc = 0, ioc2_local_status = (\<lambda>_. 0), ioc2_local_mask = (\<lambda>_. 0),
     ioc2_cmeimask = (\<lambda>_. 0), ioc2_cmepol = 0, pbus_pio_config = (\<lambda>_. 0), pbus_dma_config = (\<lambda>_. 0),
     scsi_dma = (\<lambda>_. scsi_dma_new), enet_dma = (\<lambda>_. scsi_dma_new), enet_crbdp = 0, enet_tx_crbdp = 0,
     enet_tx_hold = 0, enet_poll_ctr = 0, s_pkt_open = False, s_head = 0, t2_load = 0,
     t2_count_at_load = 0, t2_latch = 0, t2_wr_phase = False, t2_rd_phase = False, t2_loading = False\<rparr>"

section \<open>The machine\<close>

text \<open>The member functions of \<^verbatim>\<open>sgi_newport\<close>; the instruction count is the only part of the CPU
  state its accesses read.  \<open>vblank\<close> yields the instruction count of the next retrace, whether
  the retrace raises an interrupt, and the board.\<close>

record 'n np_ops =
  newport_read :: "u64 \<Rightarrow> u32 \<Rightarrow> nat \<Rightarrow> 'n \<Rightarrow> u64 \<times> 'n"
  newport_write :: "u64 \<Rightarrow> u32 \<Rightarrow> u64 \<Rightarrow> nat \<Rightarrow> 'n \<Rightarrow> 'n"
  newport_vblank :: "u64 \<Rightarrow> 'n \<Rightarrow> u64 \<times> bool \<times> 'n"
  set_in_dma :: "bool \<Rightarrow> 'n \<Rightarrow> 'n"
  local1_bits :: "'n \<Rightarrow> u8"

record 'n indy =
  mc :: sgi_mc
  hpc :: sgi_hpc
  scc :: sgi_scc
  scsi :: "sgi_scsi option"
  seeq :: "sgi_seeq option"
  np :: "'n option"
  ps2 :: "sgi_ps2 option"
  halted :: bool

text \<open>The host's broken-down local time: seconds, minutes, hours, day of the week, day of the
  month, month (from 0) and year (from 1900).\<close>

record tm =
  tm_sec :: nat
  tm_min :: nat
  tm_hour :: nat
  tm_wday :: nat
  tm_mday :: nat
  tm_mon :: nat
  tm_year :: nat

record indy_env =
  DETTIME :: bool
  host_time :: "u64 \<Rightarrow> tm"
  g_tx_lat :: u32
  g_tx_crbdp_armlike :: bool
  g_crbdp_pkt :: bool
  g_headetxd :: bool
  SPEC_DMA :: bool
  COHERENT_DMA :: bool
  chain_fuel :: nat

text \<open>The environment with no knob set, a clock that stands still, and ample fuel.\<close>

definition default_env :: indy_env where
  "default_env = \<lparr>DETTIME = False, host_time = (\<lambda>_. \<lparr>tm_sec = 0, tm_min = 0, tm_hour = 0, tm_wday = 0,
       tm_mday = 1, tm_mon = 0, tm_year = 100\<rparr>), g_tx_lat = 0, g_tx_crbdp_armlike = False,
     g_crbdp_pkt = False, g_headetxd = False, SPEC_DMA = False, COHERENT_DMA = False, chain_fuel = 65536\<rparr>"

type_synonym 'n iio = "'n indy io"

text \<open>The devices as \<^verbatim>\<open>main\<close> attaches them; the optional ones are the arguments.\<close>

definition indy_new :: "sgi_scsi option \<Rightarrow> sgi_seeq option \<Rightarrow> 'n option \<Rightarrow> sgi_ps2 option \<Rightarrow> 'n indy" where
  "indy_new dsk eth brd kbd = \<lparr>mc = sgi_mc_new None None, hpc = sgi_hpc_new, scc = sgi_scc_new,
     scsi = dsk, seeq = eth, np = brd, ps2 = kbd, halted = False\<rparr>"

section \<open>Access to the parts\<close>

definition upd_dev :: "('n indy \<Rightarrow> 'n indy) \<Rightarrow> 'n iio \<Rightarrow> 'n iio" where
  "upd_dev f io0 = io0\<lparr>dev := f (dev io0)\<rparr>"

definition upd_mc :: "(sgi_mc \<Rightarrow> sgi_mc) \<Rightarrow> 'n iio \<Rightarrow> 'n iio" where
  "upd_mc f = upd_dev (\<lambda>d. d\<lparr>mc := f (mc d)\<rparr>)"

definition upd_hpc :: "(sgi_hpc \<Rightarrow> sgi_hpc) \<Rightarrow> 'n iio \<Rightarrow> 'n iio" where
  "upd_hpc f = upd_dev (\<lambda>d. d\<lparr>hpc := f (hpc d)\<rparr>)"

definition halt :: "'n iio \<Rightarrow> 'n iio" where
  "halt = upd_dev (\<lambda>d. d\<lparr>halted := True\<rparr>)"

definition poke :: "bool \<Rightarrow> 'n iio \<Rightarrow> 'n iio" where
  "poke b io0 = (if b then io0\<lparr>irq_poke := True\<rparr> else io0)"

text \<open>A SCSI operation, when the controller is present, with its poke handed on; likewise for
  the keyboard controller.\<close>

definition put_scsi :: "sgi_scsi \<Rightarrow> 'n iio \<Rightarrow> 'n iio" where
  "put_scsi c io0 = poke (scsi_poke c) (upd_dev (\<lambda>d. d\<lparr>scsi := Some (c\<lparr>scsi_poke := False\<rparr>)\<rparr>) io0)"

definition put_ps2 :: "sgi_ps2 \<Rightarrow> 'n iio \<Rightarrow> 'n iio" where
  "put_ps2 k io0 = poke (ps2_poke k) (upd_dev (\<lambda>d. d\<lparr>ps2 := Some (k\<lparr>ps2_poke := False\<rparr>)\<rparr>) io0)"

definition put_seeq :: "sgi_seeq \<Rightarrow> 'n iio \<Rightarrow> 'n iio" where
  "put_seeq e = upd_dev (\<lambda>d. d\<lparr>seeq := Some e\<rparr>)"

definition put_np :: "'n \<Rightarrow> 'n iio \<Rightarrow> 'n iio" where
  "put_np n = upd_dev (\<lambda>d. d\<lparr>np := Some n\<rparr>)"

definition put_scc :: "sgi_scc \<Rightarrow> 'n iio \<Rightarrow> 'n iio" where
  "put_scc c = upd_dev (\<lambda>d. d\<lparr>scc := c\<rparr>)"

text \<open>Reads and writes of guest memory by the DMA engines go to the backing store itself, past
  the cache: \<^verbatim>\<open>*s->mem.get_raw_ptr(pa)\<close>, \<^verbatim>\<open>rd_be32\<close> and \<^verbatim>\<open>wr_be32\<close>.\<close>

definition raw_get :: "u32 \<Rightarrow> 'd io \<Rightarrow> u8" where
  "raw_get pa io0 = mem io0 (get_raw_ptr (route_devices io0) pa)"

definition raw_put :: "u32 \<Rightarrow> u8 \<Rightarrow> 'd io \<Rightarrow> 'd io" where
  "raw_put pa v io0 = io0\<lparr>mem := (mem io0)(get_raw_ptr (route_devices io0) pa := v)\<rparr>"

definition rd_be32 :: "u32 \<Rightarrow> 'd io \<Rightarrow> u32" where
  "rd_be32 pa io0 =
     (let p = get_raw_ptr (route_devices io0) pa; m = mem io0 in
      push_bit 24 (ucast (m p)) OR push_bit 16 (ucast (m (p + 1))) OR push_bit 8 (ucast (m (p + 2)))
        OR ucast (m (p + 3)))"

definition wr_be32 :: "u32 \<Rightarrow> u32 \<Rightarrow> 'd io \<Rightarrow> 'd io" where
  "wr_be32 pa v io0 =
     (let p = get_raw_ptr (route_devices io0) pa in
      io0\<lparr>mem := (mem io0)(p := ucast (drop_bit 24 v), p + 1 := ucast (drop_bit 16 v),
                          p + 2 := ucast (drop_bit 8 v), p + 3 := ucast v)\<rparr>)"

text \<open>A bus on which every device access ends the run: the innermost level of the accesses devices
  make through the router themselves.\<close>

definition no_bus :: "'n indy dev_ops" where
  "no_bus = \<lparr>has_np = (\<lambda>d. np d \<noteq> None), has_hpc = (\<lambda>_. True), has_scc = (\<lambda>_. True),
     scc_read = (\<lambda>_ s. (0, halt s)), scc_write = (\<lambda>_ _. halt), scc_tick = (\<lambda>_. halt),
     np_read = (\<lambda>_ _ _ s. (0, halt s)), np_write = (\<lambda>_ _ _ _. halt), newport_retrace = (\<lambda>_. halt),
     mc_read = (\<lambda>_ _ _ s. (0, halt s)), mc_write = (\<lambda>_ _ _ _. halt),
     hpc_read = (\<lambda>_ _ _ s. (0, halt s)), hpc_write = (\<lambda>_ _ _ _. halt), enet_poll = (\<lambda>_. halt),
     ioc2_ip2_pending = (\<lambda>_. False), ioc2_ip3_pending = (\<lambda>_. False)\<rparr>"

end
