(* ===== verification/Newport_Board.thy ===== *)
theory Newport_Board
  imports Newport Indy_State
begin

text \<open>
  The Newport board as the machine sees it (src/sgi_newport.cc): the chips behind the display control bus
  (XMAP9, CMAP, VC2, RAMDAC), the REX3 register file with its GO address space, the bus interface, the
  vertical retrace and the picture that \<^verbatim>\<open>render\<close> composes.  \<open>newport_ops\<close> is the instance of the operations
  the router, the memory controller and the interrupt controller call on the board.

  The chips of a pair are indexed by a \<open>bool\<close>.  \<^verbatim>\<open>icnt\<close> is the only part of the CPU the board reads.
\<close>

section \<open>XMAP9 and CMAP\<close>

definition xmap9_read :: "u32 \<Rightarrow> xmap9 \<Rightarrow> u32" where
  "xmap9_read r m =
     (if r = 0 then xm_config m
      else if r = 1 then xm_revision m
      else if r = 2 then 2
      else if r = 3 then cursor_cmap m
      else if r = 4 then popup_cmap m
      else if r = 5 then
        (let e = xm_mode m (unat (drop_bit 2 (mode_idx m AND 0x7c))); b = mode_idx m AND 3 in
         if b = 0 then drop_bit 16 e AND 0xff else if b = 1 then drop_bit 8 e AND 0xff
         else if b = 2 then e AND 0xff else 0)
      else if r = 7 then mode_idx m
      else 0)"

definition xmap9_write :: "u32 \<Rightarrow> u32 \<Rightarrow> xmap9 \<Rightarrow> xmap9" where
  "xmap9_write r d m =
     (if r = 0 then m\<lparr>xm_config := d AND 0xff\<rparr>
      else if r = 3 then m\<lparr>cursor_cmap := d AND 0xff\<rparr>
      else if r = 4 then m\<lparr>popup_cmap := d AND 0xff\<rparr>
      else if r = 5 then m\<lparr>xm_mode := (xm_mode m)(unat (drop_bit 24 d AND 0x1f) := d AND 0xffffff)\<rparr>
      else if r = 7 then m\<lparr>mode_idx := d AND 0xff\<rparr>
      else m)"

definition cmap_read :: "u32 \<Rightarrow> cmap \<Rightarrow> u32" where
  "cmap_read r m = (if r = 4 then cm_status m else if r = 6 then cm_revision m else 0)"

definition cmap_write :: "u32 \<Rightarrow> u32 \<Rightarrow> cmap \<Rightarrow> cmap" where
  "cmap_write r d m =
     (if r = 0 then m\<lparr>cm_idx := ucast d\<rparr>
      else if r = 2 then m\<lparr>pal := (pal m)(cm_idx m := drop_bit 8 d)\<rparr>
      else m)"

section \<open>VC2\<close>

text \<open>The mask of \<^verbatim>\<open>VC2_RAM_SIZE - 1\<close>.\<close>

definition vc2_mask :: u16 where "vc2_mask = 0x7fff"

definition vc2_read :: "u32 \<Rightarrow> vc2 \<Rightarrow> u32 \<times> vc2" where
  "vc2_read r v =
     (if r = 1 then
        (let i = reg_idx v in
         (if i = 0x00 then ucast (vid_entry v) else if i = 0x01 then ucast (cursor_entry v)
          else if i = 0x02 then ucast (cursor_x v) else if i = 0x03 then ucast (cursor_y v)
          else if i = 0x04 then ucast (cur_cursor_x v) else if i = 0x05 then ucast (did_entry v)
          else if i = 0x06 then ucast (scanline_len v) else if i = 0x07 then ucast (ram_addr v)
          else if i = 0x08 then ucast (vt_frame_ptr v) else if i = 0x09 then ucast (vt_line_ptr v)
          else if i = 0x0a then ucast (vt_line_run v) else if i = 0x0b then ucast (vt_line_count v)
          else if i = 0x0c then ucast (cursor_table_ptr v) else if i = 0x0d then ucast (work_cursor_y v)
          else if i = 0x0e then ucast (did_frame_ptr v) else if i = 0x0f then ucast (did_line_ptr v)
          else if i = 0x10 then ucast (display_ctrl v) else if i = 0x1f then ucast (vc_config v)
          else 0, v))
      else if r = 3 then (ucast (vram v (ram_addr v)), v\<lparr>ram_addr := (ram_addr v + 1) AND vc2_mask\<rparr>)
      else (0, v))"

text \<open>\<^verbatim>\<open>vt_line_active\<close>: the locals are the pointer, \<^verbatim>\<open>sc\<close> and the two end flags.\<close>

primrec vt_line_loop :: "(u16 \<Rightarrow> u16) \<Rightarrow> nat \<Rightarrow> u32 \<Rightarrow> u32 \<Rightarrow> bool \<Rightarrow> bool \<Rightarrow> bool" where
  "vt_line_loop ram 0 p sc sa sb = False"
| "vt_line_loop ram (Suc k) p sc sa sb =
     (if sa \<and> sb then False
      else
        (let rd = (\<lambda>a. ram (ucast a AND vc2_mask)); w = rd p; w1 = rd (p + 1);
             (p1, sc1, sb1) = (if \<not> bit w 7 then (p + 2, ucast w1 AND 0x7f, bit w1 15) else (p + 1, sc, True));
             run = drop_bit 7 (rd p1 AND 0x7f00)
         in if run \<noteq> 0 \<and> bit sc1 6 then True else vt_line_loop ram k p1 sc1 (bit w 15) sb1))"

definition vt_line_active :: "(u16 \<Rightarrow> u16) \<Rightarrow> u32 \<Rightarrow> bool" where
  "vt_line_active ram p = vt_line_loop ram 4096 p 0 False False"

record size_t =
  sz_y0 :: int
  sz_y1 :: int
  sz_line :: nat
  y_started :: bool
  y_done :: bool

text \<open>The inner loop over the lines of one entry; \<open>seq_len\<close> counts down, the line number stops at
  2048.\<close>

primrec size_lines :: "bool \<Rightarrow> nat \<Rightarrow> size_t \<Rightarrow> size_t" where
  "size_lines act 0 s = s"
| "size_lines act (Suc k) s =
     (if sz_line s < 2048
      then size_lines act k
             ((if act \<and> \<not> y_started s then s\<lparr>y_started := True, sz_y0 := int (sz_line s)\<rparr>
               else if \<not> act \<and> y_started s \<and> \<not> y_done s then s\<lparr>sz_y1 := int (sz_line s), y_done := True\<rparr>
               else s)\<lparr>sz_line := sz_line s + 1\<rparr>)
      else s)"

primrec size_entries :: "(u16 \<Rightarrow> u16) \<Rightarrow> nat \<Rightarrow> u32 \<Rightarrow> size_t \<Rightarrow> size_t" where
  "size_entries ram 0 entry s = s"
| "size_entries ram (Suc k) entry s =
     (if y_done s then s
      else
        (let seq_ptr = ucast (ram (ucast entry AND vc2_mask)); seq_len = unat (ram (ucast (entry + 1) AND vc2_mask)) in
         if seq_len = 0 then s
         else size_entries ram k (entry + 2) (size_lines (vt_line_active ram seq_ptr) seq_len s)))"

definition update_screen_size :: "vc2 \<Rightarrow> vc2" where
  "update_screen_size v =
     (let s = size_entries (vram v) 4096 (ucast (vid_entry v))
                \<lparr>sz_y0 = 0, sz_y1 = 0, sz_line = 0, y_started = False, y_done = False\<rparr>
      in v\<lparr>readout_y0 := sz_y0 s, readout_y1 := (if y_started s \<and> \<not> y_done s then int (sz_line s) else sz_y1 s)\<rparr>)"

definition vc2_reg_write :: "u16 \<Rightarrow> vc2 \<Rightarrow> vc2" where
  "vc2_reg_write d v =
     (let i = reg_idx v in
      if i = 0x00 then update_screen_size (v\<lparr>vid_entry := d\<rparr>) else if i = 0x01 then v\<lparr>cursor_entry := d\<rparr>
      else if i = 0x02 then v\<lparr>cursor_x := d\<rparr> else if i = 0x03 then v\<lparr>cursor_y := d, cur_cursor_x := cursor_x v\<rparr>
      else if i = 0x04 then v\<lparr>cur_cursor_x := d\<rparr> else if i = 0x05 then v\<lparr>did_entry := d\<rparr>
      else if i = 0x06 then v\<lparr>scanline_len := d\<rparr> else if i = 0x07 then v\<lparr>ram_addr := d AND vc2_mask\<rparr>
      else if i = 0x08 then v\<lparr>vt_frame_ptr := d\<rparr> else if i = 0x09 then v\<lparr>vt_line_ptr := d\<rparr>
      else if i = 0x0a then v\<lparr>vt_line_run := d\<rparr> else if i = 0x0b then v\<lparr>vt_line_count := d\<rparr>
      else if i = 0x0c then v\<lparr>cursor_table_ptr := d\<rparr> else if i = 0x0d then v\<lparr>work_cursor_y := d\<rparr>
      else if i = 0x0e then v\<lparr>did_frame_ptr := d\<rparr> else if i = 0x0f then v\<lparr>did_line_ptr := d\<rparr>
      else if i = 0x10 then v\<lparr>display_ctrl := d, cursor_on := (bit d 4 \<and> bit d 7 \<and> \<not> bit d 8)\<rparr>
      else if i = 0x1f then v\<lparr>vc_config := d\<rparr>
      else v)"

definition vc2_write :: "u32 \<Rightarrow> u32 \<Rightarrow> u32 \<Rightarrow> vc2 \<Rightarrow> vc2" where
  "vc2_write r d m v =
     (if m = 0xff then (if r = 0 then v\<lparr>reg_idx := ucast d\<rparr> else v)
      else if m = 0xffff then
        (if r = 3 then v\<lparr>vram := (vram v)(ram_addr v := ucast d), ram_addr := (ram_addr v + 1) AND vc2_mask\<rparr> else v)
      else if r \<noteq> 0 then v
      else vc2_reg_write (ucast (drop_bit 8 d)) (v\<lparr>reg_idx := ucast (drop_bit 24 d)\<rparr>))"

definition cursor_pixel :: "int \<Rightarrow> int \<Rightarrow> vc2 \<Rightarrow> u16" where
  "cursor_pixel x0 y0 v =
     (let cx = int (unat (cursor_x v)); cy = int (unat (cursor_y v)) in
      if \<not> cursor_on v then 0
      else if x0 < cx - 31 \<or> cx < x0 \<or> y0 < cy - 31 \<or> cy < y0 then 0
      else
        (let x = x0 - (cx - 31); y = y0 - (cy - 31); mono64 = bit (display_ctrl v) 9; size = (if mono64 then 64 else 32);
             shift = nat (15 - x mod 16); rd = (\<lambda>a. vram v (word_of_int a AND vc2_mask)) in
         if x < 0 \<or> y < 0 \<or> size \<le> x \<or> size \<le> y then 0
         else if mono64 then b2w (bit (rd (int (unat (cursor_entry v)) + y * 4 + x div 16)) shift)
         else
           (let a = int (unat (cursor_entry v)) + y * 2 + x div 16
            in b2w (bit (rd a) shift) OR push_bit 1 (b2w (bit (rd (a + 64)) shift)))))"

section \<open>The display control bus\<close>

definition STATUS_BACKBUSY :: u32 where "STATUS_BACKBUSY = 0x10"
definition STATUS_VRINT :: u32 where "STATUS_VRINT = 0x20"
definition DCB_TIMEOUT_ICNT :: u64 where "DCB_TIMEOUT_ICNT = 100000"

definition upd_vc :: "(vc2 \<Rightarrow> vc2) \<Rightarrow> newport \<Rightarrow> newport" where
  "upd_vc f n = n\<lparr>vc := f (vc n)\<rparr>"

definition upd_xmap :: "bool \<Rightarrow> (xmap9 \<Rightarrow> xmap9) \<Rightarrow> newport \<Rightarrow> newport" where
  "upd_xmap i f n = n\<lparr>xmap := (xmap n)(i := f (xmap n i))\<rparr>"

definition upd_cmap :: "bool \<Rightarrow> (cmap \<Rightarrow> cmap) \<Rightarrow> newport \<Rightarrow> newport" where
  "upd_cmap i f n = n\<lparr>cmaps := (cmaps n)(i := f (cmaps n i))\<rparr>"

definition dcb_timeout :: "u64 \<Rightarrow> newport \<Rightarrow> newport" where
  "dcb_timeout icnt0 n =
     (upd_rex (\<lambda>r. r\<lparr>rex_status := rex_status r OR STATUS_BACKBUSY\<rparr>) n)\<lparr>backbusy_until := icnt0 + DCB_TIMEOUT_ICNT\<rparr>"

definition dcb_next :: "newport \<Rightarrow> newport" where
  "dcb_next = upd_rex (\<lambda>r. if bit (dcb_mode r) 3 then r\<lparr>dcb_reg_select := (dcb_reg_select r + 1) AND 7\<rparr> else r)"

definition dcb_read :: "u64 \<Rightarrow> newport \<Rightarrow> u32 \<times> newport" where
  "dcb_read icnt0 n =
     (let r = rex n; sl = dcb_slave_select r; rs = dcb_reg_select r;
          (v, n1) =
            (if sl = 0 then (let (v, c) = vc2_read rs (vc n) in (v, n\<lparr>vc := c\<rparr>))
             else if sl = 2 then (cmap_read rs (cmaps n False), n)
             else if sl = 3 then (cmap_read rs (cmaps n True), n)
             else if sl = 5 then (xmap9_read rs (xmap n False), n)
             else if sl = 6 then (xmap9_read rs (xmap n True), n)
             else if sl = 12 then (0, dcb_timeout icnt0 n)
             else if sl = 7 \<or> sl = 8 \<or> sl = 9 then (0, n)
             else (dcb_data_msw r, n))
      in (v, dcb_next n1))"

definition ramdac_write :: "u32 \<Rightarrow> u32 \<Rightarrow> newport \<Rightarrow> newport" where
  "ramdac_write rs d n =
     (if rs = 0 then n\<lparr>lut_idx := ucast d\<rparr>
      else if rs = 1 then
        n\<lparr>lut_r := (lut_r n)(lut_idx n := push_bit 16 (drop_bit 8 d AND 0xff)),
          lut_g := (lut_g n)(lut_idx n := push_bit 8 (drop_bit 16 d AND 0xff)),
          lut_b := (lut_b n)(lut_idx n := drop_bit 24 d AND 0xff), lut_idx := lut_idx n + 1\<rparr>
      else n)"

definition dcb_write :: "u64 \<Rightarrow> u32 \<Rightarrow> newport \<Rightarrow> newport" where
  "dcb_write icnt0 d n0 =
     (let n = upd_rex (\<lambda>r. r\<lparr>dcb_data_msw := d\<rparr>) n0; r = rex n; sl = dcb_slave_select r; rs = dcb_reg_select r in
      dcb_next
        (if sl = 0 then upd_vc (vc2_write rs d (dcb_mask r)) n
         else if sl = 1 then upd_cmap True (cmap_write rs d) (upd_cmap False (cmap_write rs d) n)
         else if sl = 2 then upd_cmap False (cmap_write rs d) n
         else if sl = 3 then upd_cmap True (cmap_write rs d) n
         else if sl = 4 then upd_xmap True (xmap9_write rs d) (upd_xmap False (xmap9_write rs d) n)
         else if sl = 5 then upd_xmap False (xmap9_write rs d) n
         else if sl = 6 then upd_xmap True (xmap9_write rs d) n
         else if sl = 7 then ramdac_write rs d n
         else if sl = 12 then dcb_timeout icnt0 n
         else n))"

section \<open>The register file\<close>

definition status_read :: "u64 \<Rightarrow> bool \<Rightarrow> newport \<Rightarrow> (u32 \<times> u32) \<times> newport" where
  "status_read icnt0 hi n =
     (let st = rex_status (rex n);
          st1 = (if flag st STATUS_BACKBUSY \<and> backbusy_until n \<le> icnt0 then st AND NOT STATUS_BACKBUSY else st)
      in if hi
         then (let st2 = st1 AND NOT STATUS_VRINT
               in ((st1 OR 3, st2), (upd_rex (\<lambda>r. r\<lparr>rex_status := st2\<rparr>) n)\<lparr>vrint_line := False\<rparr>))
         else ((0, st1), upd_rex (\<lambda>r. r\<lparr>rex_status := st1\<rparr>) n))"

text \<open>The halves of a line that has no side effect when read; \<open>None\<close> is an unknown register.\<close>

definition reg_pair :: "u32 \<Rightarrow> rex3 \<Rightarrow> (u32 \<times> u32) option" where
  "reg_pair a r =
     (if a = 0x0000 then Some (draw_mode1 r, draw_mode0 r)
      else if a = 0x0008 then Some (ls_mode r, ls_pattern r)
      else if a = 0x0010 then Some (ls_pattern_saved r, z_pattern r)
      else if a = 0x0018 then Some (color_back r, color_vram r)
      else if a = 0x0020 then Some (alpha_ref r, 0)
      else if a = 0x0028 then Some (smask_x r 0, smask_y r 0)
      else if a = 0x0030 then Some (setup_reg r, 0)
      else if a = 0x0100 then Some (x_start r, y_start r)
      else if a = 0x0108 then Some (x_end r, y_end r)
      else if a = 0x0110 then Some (ucast (x_save r), xy_move r)
      else if a = 0x0118 then Some (bres_d r, bres_s1 r)
      else if a = 0x0120 then Some (bres_octant_inc1 r, bres_round_inc2 r)
      else if a = 0x0128 then Some (bres_e1 r, bres_s2 r)
      else if a = 0x0130 then Some (a_weight0 r, a_weight1 r)
      else if a = 0x0138 then Some (x_start_f r, y_start_f r)
      else if a = 0x0140 then Some (x_end_f r, y_end_f r)
      else if a = 0x0148 then Some (scast (x_start_i r), x_end_f r)
      else if a = 0x0150 then Some (xy_start_i r, xy_end_i r)
      else if a = 0x0158 then Some (x_start_end_i r, 0)
      else if a = 0x0200 then Some (color_red r, color_alpha r)
      else if a = 0x0208 then Some (color_green r, color_blue r)
      else if a = 0x0210 then Some (slope_red r, slope_alpha r)
      else if a = 0x0218 then Some (slope_green r, slope_blue r)
      else if a = 0x0220 then Some (write_mask r, color_i r)
      else if a = 0x0228 then Some (zero_overflow r, slope_red r)
      else if a = 0x0230 then Some (ucast (drop_bit 32 (host_dataport r)), ucast (host_dataport r))
      else if a = 0x0238 then Some (dcb_mode r, 0)
      else if a = 0x1300 then Some (smask_x r 1, smask_y r 1)
      else if a = 0x1308 then Some (smask_x r 2, smask_y r 2)
      else if a = 0x1310 then Some (smask_x r 3, smask_y r 3)
      else if a = 0x1318 then Some (smask_x r 4, smask_y r 4)
      else if a = 0x1320 then Some (top_scanline r, xy_window r)
      else if a = 0x1328 then Some (clip_mode r, 0)
      else if a = 0x1330 then Some (rex_config r, 0)
      else None)"

definition reg_of_line :: "u32 \<Rightarrow> u32" where "reg_of_line line = (line AND NOT 0x100) * 8"

definition rex3_r :: "np_host \<Rightarrow> u64 \<Rightarrow> u32 \<Rightarrow> bool \<Rightarrow> bool \<Rightarrow> newport \<Rightarrow> u64 \<times> newport" where
  "rex3_r H icnt0 line hi lo n =
     (let a = reg_of_line line;
          access =
            (if a = 0x0240 then
               (let (h, n1) = (if hi then dcb_read icnt0 n else (0, n)) in Some ((h, dcb_data_lsw (rex n1)), n1))
             else if a = 0x1338 then Some (status_read icnt0 hi n)
             else (case reg_pair a (rex n) of None \<Rightarrow> None | Some hl \<Rightarrow> Some (hl, n)))
      in case access of
           None \<Rightarrow> (0, n)
         | Some ((h, l), n1) \<Rightarrow>
             (push_bit 32 (ucast (if hi then h else 0)) OR ucast (if lo then l else 0),
              if bit line 8 then do_command H n1 else n1))"

definition on_half :: "bool \<Rightarrow> (rex3 \<Rightarrow> rex3) \<Rightarrow> rex3 \<Rightarrow> rex3" where
  "on_half sel f r = (if sel then f r else r)"

definition save_x :: "rex3 \<Rightarrow> rex3" where "save_x r = r\<lparr>x_save := x_start_i r\<rparr>"

definition mode1_write :: "u32 \<Rightarrow> rex3 \<Rightarrow> rex3" where
  "mode1_write h r =
     r\<lparr>draw_mode1 := h, plane_enable := ucast (h AND 7), plane_depth := ucast (drop_bit 3 h AND 3),
       rwpacked := bit h 7, hostdepth := ucast (drop_bit 8 h AND 3), rwdouble := bit h 10,
       sfactor := ucast (drop_bit 19 h AND 7), dfactor := ucast (drop_bit 22 h AND 7), blend_back := bit h 25,
       host_shift := 64 - s_host_shifts ! unat (drop_bit 8 h AND 3)\<rparr>"

definition slope_enc :: "nat \<Rightarrow> u32 \<Rightarrow> u32" where
  "slope_enc k d =
     (let m = d AND mask k in if bit d 31 then (2 ^ k - m) OR 2 ^ k else m)"

definition red_write :: "u32 \<Rightarrow> rex3 \<Rightarrow> rex3" where
  "red_write h r0 =
     (let r = r0\<lparr>color_red := h AND 0xffffff, curr_red := h AND 0xffffff\<rparr> in
      if bit (draw_mode1 r) 15 then r
      else if plane_depth r = 0 then r\<lparr>color_i := drop_bit 11 h AND 0xf\<rparr>
      else if plane_depth r = 1 then r\<lparr>color_i := drop_bit 11 h AND 0xff\<rparr>
      else if plane_depth r = 2 then r\<lparr>color_i := drop_bit 9 h AND 0xfff\<rparr>
      else r)"

definition color_i_write :: "u32 \<Rightarrow> rex3 \<Rightarrow> rex3" where
  "color_i_write l r0 =
     (let r = r0\<lparr>color_i := l\<rparr>; red = push_bit 11 (l AND 0xff); green = push_bit 3 (l AND 0xff00);
          blue = drop_bit 5 (l AND 0xff0000)
      in if bit (draw_mode1 r) 15
         then r\<lparr>color_red := red, color_green := green, color_blue := blue, curr_red := red, curr_green := green,
                curr_blue := blue\<rparr>
         else r)"

definition dcb_mode_write :: "u32 \<Rightarrow> rex3 \<Rightarrow> rex3" where
  "dcb_mode_write h r =
     r\<lparr>dcb_mask := (if h AND 3 = 1 then 0x000000ff else if h AND 3 = 2 then 0x0000ffff else 0xffffffff),
       dcb_reg_select := drop_bit 4 h AND 7, dcb_slave_select := drop_bit 7 h AND 0xf, dcb_mode := h AND 0x1fffffff\<rparr>"

definition smask_write :: "nat \<Rightarrow> bool \<Rightarrow> u32 \<Rightarrow> bool \<Rightarrow> u32 \<Rightarrow> rex3 \<Rightarrow> rex3" where
  "smask_write i hi h lo l r =
     on_half lo (\<lambda>r. r\<lparr>smask_y := (smask_y r)(i := l)\<rparr>) (on_half hi (\<lambda>r. r\<lparr>smask_x := (smask_x r)(i := h)\<rparr>) r)"

text \<open>The writes that change the REX3 registers only.\<close>

definition reg_write :: "u32 \<Rightarrow> u64 \<Rightarrow> u64 \<Rightarrow> bool \<Rightarrow> bool \<Rightarrow> rex3 \<Rightarrow> rex3" where
  "reg_write a dat m hi lo r =
     (let h = ucast (drop_bit 32 dat); l = ucast dat;
          H = (\<lambda>f. on_half hi f); L = (\<lambda>f r. on_half lo f r) in
      if a = 0x0000 then L (\<lambda>r. r\<lparr>draw_mode0 := l, color_host := bit l 6\<rparr>) (H (mode1_write h) r)
      else if a = 0x0008 then L (\<lambda>r. r\<lparr>ls_pattern := l\<rparr>) (H (\<lambda>r. r\<lparr>ls_mode := h AND 0xfffffff\<rparr>) r)
      else if a = 0x0010 then L (\<lambda>r. r\<lparr>z_pattern := l\<rparr>) (H (\<lambda>r. r\<lparr>ls_pattern_saved := h\<rparr>) r)
      else if a = 0x0018 then L (\<lambda>r. r\<lparr>color_vram := l\<rparr>) (H (\<lambda>r. r\<lparr>color_back := h\<rparr>) r)
      else if a = 0x0020 then H (\<lambda>r. r\<lparr>alpha_ref := h AND 0xff\<rparr>) r
      else if a = 0x0028 then smask_write 0 hi h lo l r
      else if a = 0x0030 then L (\<lambda>r. r\<lparr>step_z := 1\<rparr>) (H (\<lambda>r. do_setup (r\<lparr>setup_reg := h\<rparr>)) r)
      else if a = 0x0038 then
        L (\<lambda>r. r\<lparr>ls_pattern_saved := ls_pattern r\<rparr>) (H (\<lambda>r. r\<lparr>ls_pattern := ls_pattern_saved r\<rparr>) r)
      else if a = 0x0100 then L (write_y_start l) (H (\<lambda>r. save_x (write_x_start h r)) r)
      else if a = 0x0108 then L (write_y_end l) (H (write_x_end h) r)
      else if a = 0x0110 then
        L (\<lambda>r. r\<lparr>xy_move := l, x_move := hi16 l, y_move := lo16 l\<rparr>) (H (\<lambda>r. r\<lparr>x_save := lo16 h\<rparr>) r)
      else if a = 0x0118 then L (\<lambda>r. r\<lparr>bres_s1 := l AND 0x1ffff\<rparr>) (H (\<lambda>r. r\<lparr>bres_d := h AND 0x7ffffff\<rparr>) r)
      else if a = 0x0120 then
        L (\<lambda>r. r\<lparr>bres_round_inc2 := l AND 0xff1fffff\<rparr>) (H (\<lambda>r. r\<lparr>bres_octant_inc1 := h AND 0x70fffff\<rparr>) r)
      else if a = 0x0128 then L (\<lambda>r. r\<lparr>bres_s2 := l AND 0x3ffffff\<rparr>) (H (\<lambda>r. r\<lparr>bres_e1 := h AND 0xffff\<rparr>) r)
      else if a = 0x0130 then L (\<lambda>r. r\<lparr>a_weight1 := l\<rparr>) (H (\<lambda>r. r\<lparr>a_weight0 := h\<rparr>) r)
      else if a = 0x0138 then
        L (write_y_start (l AND 0x007fff80)) (H (\<lambda>r. save_x (write_x_start (h AND 0x007fff80) r)) r)
      else if a = 0x0140 then L (write_y_end (l AND 0x007fff80)) (H (write_x_end (h AND 0x007fff80)) r)
      else if a = 0x0148 then
        L (write_x_end (l AND 0x007fff80)) (H (\<lambda>r. save_x (write_x_start (shl11 (lo16 h)) r)) r)
      else if a = 0x0150 then
        L (\<lambda>r. write_y_end (shl11 (lo16 l)) (write_x_end (shl11 (hi16 l)) r))
          (H (\<lambda>r. save_x (write_y_start (shl11 (lo16 h)) (write_x_start (shl11 (hi16 h)) r))) r)
      else if a = 0x0158 then H (\<lambda>r. save_x (write_x_end (shl11 (lo16 h)) (write_x_start (shl11 (hi16 h)) r))) r
      else if a = 0x0200 then
        L (\<lambda>r. r\<lparr>color_alpha := l AND 0xfffff, curr_alpha := l AND 0xfffff\<rparr>) (H (red_write h) r)
      else if a = 0x0208 then
        L (\<lambda>r. r\<lparr>color_blue := l AND 0xfffff, curr_blue := l AND 0xfffff\<rparr>)
          (H (\<lambda>r. r\<lparr>color_green := h AND 0xfffff, curr_green := h AND 0xfffff\<rparr>) r)
      else if a = 0x0210 then L (\<lambda>r. r\<lparr>slope_alpha := slope_enc 19 l\<rparr>) (H (\<lambda>r. r\<lparr>slope_red := slope_enc 23 h\<rparr>) r)
      else if a = 0x0218 then L (\<lambda>r. r\<lparr>slope_blue := slope_enc 19 l\<rparr>) (H (\<lambda>r. r\<lparr>slope_green := slope_enc 19 h\<rparr>) r)
      else if a = 0x0220 then L (color_i_write l) (H (\<lambda>r. r\<lparr>write_mask := h AND 0xffffff\<rparr>) r)
      else if a = 0x0228 then L (\<lambda>r. r\<lparr>slope_red := l\<rparr>) (H (\<lambda>r. r\<lparr>zero_overflow := h\<rparr>) r)
      else if a = 0x0230 then
        r\<lparr>host_dataport := (host_dataport r AND NOT m) OR (dat AND m),
          host_shift := 64 - s_host_shifts ! unat (hostdepth r)\<rparr>
      else if a = 0x0238 then H (dcb_mode_write h) r
      else if a = 0x1300 then smask_write 1 hi h lo l r
      else if a = 0x1308 then smask_write 2 hi h lo l r
      else if a = 0x1310 then smask_write 3 hi h lo l r
      else if a = 0x1318 then smask_write 4 hi h lo l r
      else if a = 0x1320 then
        L (\<lambda>r. r\<lparr>xy_window := l, x_window := hi16 l, y_window := lo16 l\<rparr>) (H (\<lambda>r. r\<lparr>top_scanline := h AND 0x3ff\<rparr>) r)
      else if a = 0x1328 then H (\<lambda>r. r\<lparr>clip_mode := h AND 0x1fff\<rparr>) r
      else if a = 0x1330 then H (\<lambda>r. r\<lparr>rex_config := h AND 0x1fffff\<rparr>) r
      else r)"

definition rex3_w :: "np_host \<Rightarrow> u64 \<Rightarrow> u32 \<Rightarrow> u64 \<Rightarrow> u64 \<Rightarrow> bool \<Rightarrow> bool \<Rightarrow> newport \<Rightarrow> newport" where
  "rex3_w H icnt0 line dat m hi lo n =
     (let a = reg_of_line line; h = ucast (drop_bit 32 dat);
          n1 =
            (if a = 0x0240 then
               (let n1 = (if hi then dcb_write icnt0 h n else n)
                in if lo then upd_rex (\<lambda>r. r\<lparr>dcb_data_lsw := ucast dat\<rparr>) n1 else n1)
             else
               (let n1 = upd_rex (reg_write a dat m hi lo) n in
                if a = 0x0000 \<and> hi then upd_rb (rb_set_flags h) n1
                else if a = 0x0220 \<and> hi then upd_rb (\<lambda>b. b\<lparr>rb_write_mask := h AND 0xffffff\<rparr>) n1
                else n1))
      in if bit line 8 then do_command H n1 else n1)"

section \<open>The bus interface\<close>

text \<open>The mask of the bytes an access of sz bytes touches in its eight-byte line, and the shift of
  its value; accesses are aligned, so none crosses the line.\<close>

definition lane_shift :: "u32 \<Rightarrow> nat \<Rightarrow> nat" where
  "lane_shift offs sz = (8 - unat (offs AND 7) - sz) * 8"

definition access_mask :: "u32 \<Rightarrow> nat \<Rightarrow> u64" where
  "access_mask offs sz = (if sz = 8 then -1 else push_bit (lane_shift offs sz) (mask (sz * 8)))"

definition board_read :: "np_host \<Rightarrow> u64 \<Rightarrow> u32 \<Rightarrow> nat \<Rightarrow> newport \<Rightarrow> u64 \<times> newport" where
  "board_read H icnt0 offs sz n =
     (let m = access_mask offs sz; (v, n1) = rex3_r H icnt0 (drop_bit 3 offs) (drop_bit 32 m \<noteq> 0) (take_bit 32 m \<noteq> 0) n;
          v = (if sz = 8 then v else drop_bit (lane_shift offs sz) v AND mask (sz * 8))
      in (if sz = 8 \<or> sz = 4 \<or> sz = 2 then bswap sz v else v, n1))"

definition board_write :: "np_host \<Rightarrow> u64 \<Rightarrow> u32 \<Rightarrow> u64 \<Rightarrow> nat \<Rightarrow> newport \<Rightarrow> newport" where
  "board_write H icnt0 offs v sz n =
     (let g = (if sz = 8 \<or> sz = 4 \<or> sz = 2 then bswap sz (take_bit (sz * 8) v) else v AND 0xff);
          m = access_mask offs sz
      in rex3_w H icnt0 (drop_bit 3 offs) (if sz = 8 then g else push_bit (lane_shift offs sz) g) m
           (drop_bit 32 m \<noteq> 0) (take_bit 32 m \<noteq> 0) n)"

section \<open>The board\<close>

definition board_vblank :: "u64 \<Rightarrow> newport \<Rightarrow> u64 \<times> bool \<times> newport" where
  "board_vblank icnt0 n0 =
     (let t = icnt0 + vblank_period n0; irq = bit (display_ctrl (vc n0)) 0;
          n = n0\<lparr>next_vblank := t, nframes := nframes n0 + 1\<rparr>
      in (t, irq, if irq then (upd_rex (\<lambda>r. r\<lparr>rex_status := rex_status r OR STATUS_VRINT\<rparr>) n)\<lparr>vrint_line := True\<rparr> else n))"

definition newport_ops :: "np_host \<Rightarrow> newport np_ops" where
  "newport_ops H = \<lparr>newport_read = board_read H, newport_write = board_write H, newport_vblank = board_vblank,
     set_in_dma = (\<lambda>on n. n\<lparr>in_dma := on\<rparr>), local1_bits = (\<lambda>n. if vrint_line n then 0x80 else 0x00)\<rparr>"

definition rex3_zero :: rex3 where
  "rex3_zero = \<lparr>draw_mode0 = 0, draw_mode1 = 0, color_host = False, rwpacked = False, rwdouble = False, blend_back = False,
     plane_enable = 0, plane_depth = 0, hostdepth = 0, sfactor = 0, dfactor = 0, host_shift = 0, ls_mode = 0,
     ls_pattern = 0, ls_pattern_saved = 0, z_pattern = 0, color_back = 0, color_vram = 0, alpha_ref = 0, setup_reg = 0,
     step_z = 0, x_start = 0, y_start = 0, x_end = 0, y_end = 0, x_start_frac = 0, y_start_frac = 0, x_end_frac = 0,
     y_end_frac = 0, x_save = 0, xy_move = 0, x_move = 0, y_move = 0, bres_d = 0, bres_s1 = 0, bres_octant_inc1 = 0,
     bres_round_inc2 = 0, bres_e1 = 0, bres_s2 = 0, a_weight0 = 0, a_weight1 = 0, x_start_f = 0, y_start_f = 0,
     x_end_f = 0, y_end_f = 0, x_start_i = 0, y_start_i = 0, x_end_i = 0, y_end_i = 0, xy_start_i = 0, xy_end_i = 0,
     x_start_end_i = 0, color_red = 0, color_alpha = 0, color_green = 0, color_blue = 0, curr_red = 0, curr_alpha = 0,
     curr_green = 0, curr_blue = 0, slope_red = 0, slope_alpha = 0, slope_green = 0, slope_blue = 0, write_mask = 0,
     color_i = 0, zero_overflow = 0, host_dataport = 0, dcb_mode = 0, dcb_reg_select = 0, dcb_slave_select = 0,
     dcb_data_msw = 0, dcb_data_lsw = 0, dcb_mask = 0, smask_x = (\<lambda>_. 0), smask_y = (\<lambda>_. 0), top_scanline = 0,
     xy_window = 0, x_window = 0, y_window = 0, clip_mode = 0, rex_config = 0, rex_status = 0\<rparr>"

definition vc2_new :: vc2 where
  "vc2_new = \<lparr>vid_entry = 0, cursor_entry = 0, cursor_x = 0, cursor_y = 0, cur_cursor_x = 0, did_entry = 0, scanline_len = 0,
     ram_addr = 0, vt_frame_ptr = 0, vt_line_ptr = 0, vt_line_run = 0, vt_line_count = 0, cursor_table_ptr = 0,
     work_cursor_y = 0, did_frame_ptr = 0, did_line_ptr = 0, display_ctrl = 0, vc_config = 0, reg_idx = 0,
     vram = (\<lambda>_. 0), readout_y0 = 0, readout_y1 = 0, cursor_on = False\<rparr>"

text \<open>The constructor; \<open>xl24\<close> and \<open>vb\<close> stand for \<^verbatim>\<open>NEWPORT_XL24\<close> and \<^verbatim>\<open>NEWPORT_VBLANK_ICNT\<close>.\<close>

definition newport_new :: "bool \<Rightarrow> u64 option \<Rightarrow> newport" where
  "newport_new xl24 vb =
     (let period = (case vb of None \<Rightarrow> 1000000 | Some p \<Rightarrow> if p = 0 then 1000000 else p);
          b = \<lparr>global_mask = (if xl24 then 0x00ffffff else 0x000000ff), rb_write_mask = 0, rb_blend = False,
               rb_fast_clear = False, rb_plane_enable = 0, draw_depth = 0, logicop = 0, src_shift = 0,
               rgbci = (\<lambda>_. 0), cidaux = (\<lambda>_. 0), dest_aux = False\<rparr>
      in \<lparr>rex = rex3_zero\<lparr>draw_mode1 := 0x3002f001, dcb_mode := 0x00000780, x_window := 0x1000, y_window := 0x1000\<rparr>,
          rb = rb_set_flags 0x3002f001 b,
          xmap = (\<lambda>_. \<lparr>xm_config = 0, xm_revision = (if xl24 then 3 else 1), cursor_cmap = 0, popup_cmap = 0,
                        mode_idx = 0, xm_mode = (\<lambda>_. 0)\<rparr>),
          cmaps = (\<lambda>_. \<lparr>cm_status = 8, cm_revision = (if xl24 then 0x02 else 0xa1), cm_idx = 0, pal = (\<lambda>_. 0)\<rparr>),
          vc = vc2_new, lut_r = (\<lambda>i. push_bit 16 (ucast i)), lut_g = (\<lambda>i. push_bit 8 (ucast i)), lut_b = ucast,
          lut_idx = 0, vrint_line = False, next_vblank = period, vblank_period = period, nframes = 0, backbusy_until = 0,
          in_dma = False, go_pixels = 0, np_fault = False\<rparr>)"

section \<open>The picture\<close>

definition pix_mode :: "u32 \<Rightarrow> u32" where "pix_mode te = drop_bit 8 te AND 3"
definition pix_size :: "u32 \<Rightarrow> u32" where "pix_size te = drop_bit 10 te AND 3"
definition aux_mode :: "u32 \<Rightarrow> u32" where "aux_mode te = drop_bit 16 te AND 7"
definition aux_msb :: "u32 \<Rightarrow> u32" where "aux_msb te = drop_bit 11 te AND 0x1f00"

definition ci_msb :: "u32 \<Rightarrow> u32" where
  "ci_msb te =
     (if pix_mode te = 0 then push_bit 5 (te AND 0xf8) else if pix_mode te = 1 then 0x1d00
      else if pix_mode te = 2 then 0x1e00 else 0x1f00)"

text \<open>The overlay planes; \<open>None\<close> lets the pixel below show.\<close>

definition overlay_out :: "(u32 \<Rightarrow> u32) \<Rightarrow> bool \<Rightarrow> u32 \<Rightarrow> u32 \<Rightarrow> u32 option" where
  "overlay_out p is_8bpp te a =
     (let md = aux_mode te; at = (\<lambda>v. p (aux_msb te OR v)); opt = (\<lambda>v. if v \<noteq> 0 then Some (at v) else None) in
      if is_8bpp then
        (if md = 1 then Some (at (drop_bit 8 a AND 3))
         else if md = 2 then opt (drop_bit 8 a AND 3)
         else if md = 6 then opt (drop_bit (if bit te 1 then 9 else 8) a AND 1)
         else if md = 7 then
           (let v = drop_bit 8 a AND 1 in Some (if v \<noteq> 0 then at v else at (drop_bit 9 a AND 1)))
         else None)
      else
        (if md = 1 then Some (at (drop_bit 8 a AND 0xff))
         else if md = 2 then opt ((drop_bit 8 a AND 0xf) OR (drop_bit 16 a AND 0xf0))
         else if md = 6 then opt (drop_bit (if bit te 1 then 12 else 8) a AND 0xf)
         else if md = 7 then
           (let v = drop_bit 8 a AND 0xf in Some (if v \<noteq> 0 then at v else at (drop_bit 12 a AND 0xf)))
         else None))"

definition color_out :: "(u32 \<Rightarrow> u32) \<Rightarrow> u32 \<Rightarrow> u32 \<Rightarrow> u32" where
  "color_out p te c =
     (let sz = pix_size te; sel = (\<lambda>k. if bit te 0 then k else 0) in
      if pix_mode te = 0 then
        (if sz = 0 then p (ci_msb te OR (drop_bit (sel 4) c AND 0xf))
         else if sz = 1 then p (ci_msb te OR (c AND 0xff))
         else if sz = 2 then p ((ci_msb te AND 0x1000) OR (drop_bit (sel 12) c AND 0xfff))
         else 0)
      else if pix_mode te = 1 then
        (let rgb = (if sz = 0 then convert_depth (drop_bit (sel 4) c AND 0xf) 0 3
                    else if sz = 1 then convert_depth (drop_bit (sel 8) c AND 0xff) 1 3
                    else if sz = 2 then convert_depth (drop_bit (sel 12) c AND 0xfff) 2 3
                    else c AND 0xffffff)
         in push_bit 16 (rgb AND 0xff) OR (rgb AND 0xff00) OR (drop_bit 16 rgb AND 0xff))
      else if pix_mode te = 2 then 0xff00ff else 0x00ff00)"

definition pixel_out :: "newport \<Rightarrow> u32 \<Rightarrow> u16 \<Rightarrow> u32 \<Rightarrow> u32 \<Rightarrow> u32" where
  "pixel_out n te cur c a =
     (let p = (\<lambda>i. pal (cmaps n False) (ucast i)); x = xmap n False in
      if cur \<noteq> 0 then p (push_bit 5 (cursor_cmap x) OR ucast cur)
      else if flag a 0xcc then p (push_bit 5 (popup_cmap x) OR (drop_bit 2 a AND 3))
      else (case (if aux_mode te \<noteq> 0 then overlay_out p (bit (xm_config x) 2) te a else None) of
              Some v \<Rightarrow> v
            | None \<Rightarrow> color_out p te c))"

definition ramdac :: "newport \<Rightarrow> u32 \<Rightarrow> u32" where
  "ramdac n v = lut_r n (ucast (drop_bit 16 v)) OR lut_g n (ucast (drop_bit 8 v)) OR lut_b n (ucast v)"

text \<open>\<^verbatim>\<open>load_mode\<close>: from the display id and its place in the table to the mode entry and the next id.\<close>

definition load_mode :: "newport \<Rightarrow> u16 \<times> u16 \<Rightarrow> u32 \<times> u16 \<times> u16" where
  "load_mode n d =
     (case d of (did, lp) \<Rightarrow>
      (xm_mode (xmap n False) (unat (did AND 0x1f)), vram (vc n) ((lp + 1) AND vc2_mask), lp + 1))"

fun scan_line :: "newport \<Rightarrow> u32 \<Rightarrow> nat list \<Rightarrow> u32 \<times> u16 \<times> u16 \<Rightarrow> u32 list \<times> u16" where
  "scan_line n y [] (te, did, lp) = ([], lp)"
| "scan_line n y (x # xs) (te, did, lp) =
     (let (te, did, lp) = (if of_nat x = drop_bit 5 did then load_mode n (did, lp) else (te, did, lp));
          a = y * 1344 + of_nat x;
          v = pixel_out n te (cursor_pixel (int x) (uint y) (vc n)) (rgbci (rb n) a) (cidaux (rb n) a);
          (vs, lp) = scan_line n y xs (te, did, lp)
      in (ramdac n v # vs, lp))"

definition render_row :: "newport \<Rightarrow> nat \<Rightarrow> u32 list \<times> newport" where
  "render_row n y =
     (let frame = did_entry (vc n) + of_nat y; line = vram (vc n) (frame AND vc2_mask);
          did = vram (vc n) (line AND vc2_mask);
          (vs, lp) = scan_line n (of_nat y) [0..<nat DISP_W] (load_mode n (did, line))
      in (vs, upd_vc (\<lambda>v. v\<lparr>did_frame_ptr := frame, did_line_ptr := lp\<rparr>) n))"

definition visible_rows :: "newport \<Rightarrow> int" where
  "visible_rows n =
     (let y0 = readout_y0 (vc n); y1 = readout_y1 (vc n) in if y0 < y1 then y1 - y0 else DISP_H)"

fun render_rows :: "newport \<Rightarrow> nat list \<Rightarrow> u32 list list \<times> newport" where
  "render_rows n [] = ([], n)"
| "render_rows n (y # ys) =
     (let (row, n1) = (if visible_rows n \<le> int y then (replicate (nat DISP_W) 0, n) else render_row n y);
          (rows, n2) = render_rows n1 ys
      in (row # rows, n2))"

definition render :: "newport \<Rightarrow> u32 list list \<times> newport" where
  "render n = render_rows n [0..<nat DISP_H]"

text \<open>The bytes that \<^verbatim>\<open>dump_ppm\<close> writes.\<close>

definition ppm_bytes :: "newport \<Rightarrow> u8 list" where
  "ppm_bytes n =
     map of_char ''P6'' @ [10] @ map of_char ''1280 1024'' @ [10] @ map of_char ''255'' @ [10] @
     concat (map (\<lambda>row. concat (map (\<lambda>p. [ucast (drop_bit 16 p), ucast (drop_bit 8 p), ucast p]) row)) (fst (render n)))"

end
