(* ===== verification/Newport_Properties.thy ===== *)
theory Newport_Properties
  imports Newport_Span Newport_Board
begin

text \<open>
  The drawing commands of the Newport board.  Its spans and blocks have two implementations, a pixel loop
  and a vector kernel; the kernel is shown to agree with the loop, with the two cases in which it does not,
  and the pixel loop to stay inside the framebuffer.
\<close>

section \<open>A board programmed by the guest\<close>

definition plain_host :: np_host where
  "plain_host = \<lparr>np_scalar = False, fl_of_u32 = id, fl_div = (\<lambda>a b. a), fl_mul = (\<lambda>a b. a), fl_add = (\<lambda>a b. a),
     fl_sub = (\<lambda>a b. a), fl_less = (<), fl_to_u32 = id\<rparr>"

text \<open>The reset board after stores to DRAWMODE1, DRAWMODE0, WRMASK, COLORI, the red slope, XYSTARTI and
  XYENDI.\<close>

definition programmed :: "u32 \<Rightarrow> u32 \<Rightarrow> u32 \<Rightarrow> u32 \<Rightarrow> u16 \<times> u16 \<Rightarrow> u16 \<times> u16 \<Rightarrow> newport" where
  "programmed m1 m0 c slope s e =
     upd_rb (\<lambda>b. (rb_set_flags m1 b)\<lparr>rb_write_mask := 0xffffff\<rparr>)
       (upd_rex (\<lambda>r. write_y_end (shl11 (snd e)) (write_x_end (shl11 (fst e))
          (save_x (write_y_start (shl11 (snd s)) (write_x_start (shl11 (fst s))
            (mode1_write m1 (r\<lparr>draw_mode0 := m0, color_host := bit m0 6, write_mask := 0xffffff, color_i := c,
                               slope_red := slope\<rparr>)))))))
         (newport_new False None))"

definition fill_board :: newport where
  "fill_board = programmed 0x30000009 0x306 5 0 (2, 1) (3, 2)"

section \<open>The vector kernel\<close>

lemma command_exact:
  assumes "rb_wf (rb n)" "\<not> shade_ignored (rex n)" "\<not> np_fault (do_command H n)"
  shows "do_command H n = do_command (H\<lparr>np_scalar := True\<rparr>) n"
proof -
  have "rb_wf (rb (n\<lparr>go_pixels := 0\<rparr>))" "\<not> shade_ignored (rex (n\<lparr>go_pixels := 0\<rparr>))" using assms(1,2) by simp_all
  from body_exact [OF this] assms(3) show ?thesis unfolding do_command_def Let_def .
qed

text \<open>C5.  The vector kernel is exact: a drawing command run with \<^verbatim>\<open>span_fast\<close> leaves the same framebuffer, the
  same registers and the same pixel count as with the pixel loop that \<^verbatim>\<open>NEWPORT_SCALAR\<close> selects, for every
  drawing mode except shading of host or clear pixels, provided that the framebuffer state is one the
  registers can set (a write mask of 24 bits) and the kernel does not leave the framebuffer.\<close>

theorem span_kernel_exact:
  assumes "rb_wf (rb n)" "\<not> shade_ignored (rex n)" "\<not> np_fault (do_command H n)"
  shows "do_command H n = do_command (H\<lparr>np_scalar := True\<rparr>) n"
  using assms by (rule command_exact)

theorem span_kernel_exact_witness:
  "do_command plain_host fill_board = do_command (plain_host\<lparr>np_scalar := True\<rparr>) fill_board \<and>
   map (rgbci (rb (do_command plain_host fill_board))) [1345, 1346, 1347, 1348, 2690] = [0, 5, 5, 0, 5]"
proof -
  have "rb_wf (rb fill_board)" "\<not> shade_ignored (rex fill_board)" by code_simp+
  moreover have "\<not> np_fault (do_command plain_host fill_board) \<and>
     map (rgbci (rb (do_command plain_host fill_board))) [1345, 1346, 1347, 1348, 2690] = [0, 5, 5, 0, 5]"
    by code_simp
  ultimately show ?thesis using span_kernel_exact [of fill_board plain_host] by simp
qed

text \<open>Two boards the guest can set up: a block whose left edge lies left of the first row of the
  framebuffer, and a packed host span with shading.\<close>

definition left_edge_board :: newport where
  "left_edge_board = programmed 0x30000009 0x306 5 0 (-2, 0) (0, 0)"

definition shaded_host_board :: newport where
  "shaded_host_board = programmed 0x30000189 0x40142 0 0x800 (0, 0) (16, 0)"

lemma left_edge:
  "np_fault (do_command plain_host left_edge_board)"
  "\<not> np_fault (do_command (plain_host\<lparr>np_scalar := True\<rparr>) left_edge_board)"
  by code_simp+

lemma shaded_host:
  "curr_red (rex (do_command plain_host shaded_host_board)) = 0"
  "curr_red (rex (do_command (plain_host\<lparr>np_scalar := True\<rparr>) shaded_host_board)) = 0x2000"
  by code_simp+

text \<open>The kernel departs from the pixel loop in two cases.  When a row starts left of the first row of the
  framebuffer, the index of its first lane wraps to almost 2^32 and the kernel reads and writes far outside
  the buffer, where the pixel loop clips.  When pixels come from the host while shading is on, the kernel
  skips the colour iterators that the pixel loop advances.\<close>

theorem span_kernel_departs:
  "np_fault (do_command plain_host left_edge_board) \<and>
   \<not> np_fault (do_command (plain_host\<lparr>np_scalar := True\<rparr>) left_edge_board) \<and>
   curr_red (rex (do_command plain_host shaded_host_board)) = 0 \<and>
   curr_red (rex (do_command (plain_host\<lparr>np_scalar := True\<rparr>) shaded_host_board)) = 0x2000"
  by (intro conjI left_edge shaded_host)

section \<open>The pixel loop stays in the framebuffer\<close>

lemma fault_frame [simp]: "np_fault (upd_rex f n) = np_fault n" "np_fault (upd_rb g n) = np_fault n"
  by (simp_all add: upd_rex_def upd_rb_def)

lemma fault_blend [simp]: "np_fault (blend_pixel H a c n) = np_fault n"
  by (simp add: blend_pixel_def split_def Let_def)

lemma fault_output [simp]: "np_fault (output_pixel H x y c n) = np_fault n"
proof (cases "clip_pass x y (rex n)")
  case True
  from clip_no_fault [OF True] show ?thesis using True by (simp add: output_pixel_def rb_set_addr_def Let_def)
qed (simp add: output_pixel_def)

lemma fault_span_pixel [simp]: "np_fault (span_pixel H j y b x n) = np_fault n"
  by (simp add: span_pixel_def Let_def split_def)

lemma fault_span_loop [simp]: "np_fault (snd (span_loop H j y b x n)) = np_fault n"
proof (induction H j y b x n rule: span_loop.induct)
  case (1 H j y b x n)
  then show ?case by (subst span_loop.simps) (auto simp: Let_def)
qed

lemma fault_next_row [simp]: "np_fault (snd (snd (next_row j block up y xn))) = np_fault (snd xn)"
  by (simp add: next_row_def split_def Let_def)

lemma fault_rows: "np_scalar H \<Longrightarrow> np_fault (snd (snd (rows_loop H j block stop_y up end_y xyn))) = np_fault (snd (snd xyn))"
proof (induction H j block stop_y up end_y xyn rule: rows_loop.induct)
  case (1 H j block stop_y up end_y x y n)
  have "\<not> use_fast H j" using 1(2) by (simp add: use_fast_def)
  then have "row_segment H (use_fast H j) j x y n = span_loop H j y 31 x n" by (simp add: row_segment_def)
  with 1 show ?case by (subst rows_loop.simps) (auto simp: Let_def)
qed

lemma fault_span_or_block: "np_scalar H \<Longrightarrow> np_fault (span_or_block H block n) = np_fault n"
  by (simp add: span_or_block_def Let_def split_def fault_rows)

lemma fault_line_plot [simp]: "np_fault (line_plot H sh c x y n) = np_fault n"
  by (simp add: line_plot_def Let_def)

lemma fault_line_run [simp]: "np_fault (snd (line_run H sh c bi i1 i2 k ln)) = np_fault (snd ln)"
  by (induction k arbitrary: ln) (simp_all add: split_def)

lemma fault_line_draw [simp]: "np_fault (line_draw H sh u v c bi i1 i2 loop l0 e n) = np_fault n"
  by (simp add: line_draw_def start_at_def Let_def split_def)

lemma fault_let:
  "(\<And>x. np_fault (f x) = q) \<Longrightarrow> np_fault (Let a f) = q" "(\<And>x y. np_fault (g x y) = q) \<Longrightarrow> np_fault (case_prod g p) = q"
  by (simp_all add: split_def)

lemma fault_lines [simp]: "np_fault (do_iline H c n) = np_fault n" "np_fault (do_fline H c n) = np_fault n"
  unfolding do_iline_def do_fline_def by (intro fault_let fault_line_draw)+

lemma fault_pixel_read [simp]: "np_fault (snd (do_pixel_read n)) = np_fault n"
proof -
  let ?x = "x_start_i (rex n) + x_window (rex n) - 0x1000" and ?y = "y_start_i (rex n) + y_window (rex n) - 0x1000"
  show ?thesis
    using fb_index_bound [of ?x ?y] by (auto simp: do_pixel_read_def rb_set_addr_def Let_def split_def)
qed

lemma fault_word_read [simp]: "np_fault (snd (word_read_loop bits shift m vn k)) = np_fault (snd vn)"
  by (induction k arbitrary: shift vn) (simp_all add: split_def Let_def)

lemma fault_copy_pixel [simp]: "np_fault (copy_pixel H x y n) = np_fault n"
proof -
  define sx where "sx = sint x + sint (x_window (rex n)) - 0x1000"
  define sy where "sy = sint y + sint (y_window (rex n)) - 0x1000"
  have "uint (word_of_int (sy * FB_W + sx) :: u32) < fb_words" if "0 \<le> sx" "0 \<le> sy" "sx < FB_W" "sy < FB_H"
  proof -
    have v: "0 \<le> sy * FB_W + sx" "sy * FB_W + sx < fb_words" using that by (simp_all add: FB_W_def FB_H_def)
    have "uint (word_of_int (sy * FB_W + sx) :: u32) = sy * FB_W + sx"
      by (rule uint32) (use v in \<open>simp_all add: FB_W_def FB_H_def\<close>)
    with v show ?thesis by simp
  qed
  then show ?thesis
    unfolding copy_pixel_def Let_def sx_def [symmetric] sy_def [symmetric]
    by (auto simp: rb_set_addr_def simp del: of_int_add of_int_mult)
qed

lemma fault_copy_loop [simp]: "np_fault (snd (copy_loop H l s e y x n)) = np_fault n"
proof (induction H l s e y x n rule: copy_loop.induct)
  case (1 H l s e y x n)
  then show ?case by (subst copy_loop.simps) (auto simp: Let_def)
qed

lemma fault_copy_rows [simp]: "np_fault (snd (snd (copy_rows H l s e u t f xyn))) = np_fault (snd (snd xyn))"
proof (induction H l s e u t f xyn rule: copy_rows.induct)
  case (1 H l s e u t f x y n)
  then show ?case by (subst copy_rows.simps) (auto simp: Let_def copy_next_def split_def)
qed

text \<open>C24.  With the pixel loop selected no drawing command leaves the framebuffer: whatever the registers
  hold, spans, blocks, lines, pixel reads and screen copies touch allocated words only, so that a command
  faults exactly when the board had faulted before.\<close>

theorem pixel_loop_in_bounds: "np_fault (do_command (H\<lparr>np_scalar := True\<rparr>) n) = np_fault n"
proof -
  have "np_fault (setup_if m) = np_fault m" for m by (simp add: setup_if_def)
  then show ?thesis
    by (simp add: do_command_def do_command_body_def fault_span_or_block do_pixel_word_read_def scr2scr_def Let_def split_def)
qed

end
