(* ===== verification/Newport_Fill.thy ===== *)
theory Newport_Fill
  imports Newport_Properties
begin

text \<open>
  Solid blocks: what a block command of the Newport board leaves in the framebuffer when the pixels do
  not depend on the iterators, the host or a pattern.
\<close>

section \<open>Sets of written words\<close>

text \<open>The framebuffer after every word of A has been written once with the colour c.\<close>

definition fill_set :: "u32 set \<Rightarrow> u32 \<Rightarrow> rb2 \<Rightarrow> rb2" where
  "fill_set A c b = set_dest (\<lambda>a. if a \<in> A then lane_value b c (dest_of b a) else dest_of b a) b"

lemma set_dest_twice [simp]: "set_dest g (set_dest f b) = set_dest g b"
  by (simp add: set_dest_def)

lemma set_dest_self [simp]: "set_dest (dest_of b) b = b"
  by (simp add: set_dest_def dest_of_def)

lemma lane_value_set_dest [simp]: "lane_value (set_dest f b) = lane_value b"
  by (simp add: fun_eq_iff lane_value_def Let_def)

lemma fill_set_empty [simp]: "fill_set {} c b = b"
  by (simp add: fill_set_def)

lemma put_lane_fill: "put_lane a c b = fill_set {a} c b"
  by (simp add: put_lane_def fill_set_def fun_upd_def) (rule arg_cong [where f = "\<lambda>f. set_dest f b"], auto)

lemma fill_set_union:
  assumes "A \<inter> B = {}"
  shows "fill_set B c (fill_set A c b) = fill_set (A \<union> B) c b"
  using assms unfolding fill_set_def
  by (simp, intro arg_cong [where f = "\<lambda>f. set_dest f b"] ext) auto

lemma fill_set_wf [simp]: "rb_wf (fill_set A c b) = rb_wf b"
  by (simp add: fill_set_def rb_wf_def)

lemma write_lanes_fill:
  assumes "distinct ks" "inj_on adr {k \<in> set ks. ok k}"
  shows "write_lanes ok adr (map (\<lambda>k. (k, c)) ks) b = fill_set (adr ` {k \<in> set ks. ok k}) c b"
  using assms
proof (induction ks rule: rev_induct)
  case (snoc k ks)
  have "inj_on adr {k \<in> set ks. ok k}" by (rule inj_on_subset [OF snoc.prems(2)]) auto
  with snoc have ih: "write_lanes ok adr (map (\<lambda>k. (k, c)) ks) b = fill_set (adr ` {k \<in> set ks. ok k}) c b" by simp
  show ?case
  proof (cases "ok k")
    case True
    then have "adr k \<notin> adr ` {k \<in> set ks. ok k}" using snoc.prems by (auto simp: inj_on_def)
    moreover have "{l \<in> set (ks @ [k]). ok l} = insert k {k \<in> set ks. ok k}" using True by auto
    ultimately show ?thesis
      using True by (simp add: write_lanes_append ih put_lane_fill fill_set_union)
  next
    case False
    then have "{l \<in> set (ks @ [k]). ok l} = {k \<in> set ks. ok k}" by auto
    with False show ?thesis by (simp add: write_lanes_append ih)
  qed
qed simp

section \<open>One row\<close>

text \<open>The place of a pixel in the framebuffer, and the visible ones of a run of w pixels.\<close>

definition pixel_addr :: "rex3 \<Rightarrow> u16 \<Rightarrow> u16 \<Rightarrow> u32" where
  "pixel_addr r x y = fb_index (x + x_window r - 0x1000) (y + y_window r - 0x1000)"

lemma pitch_unique: "v * 1344 + u = v' * 1344 + u' \<Longrightarrow> 0 \<le> u \<Longrightarrow> u < 1344 \<Longrightarrow> 0 \<le> u' \<Longrightarrow> u' < 1344 \<Longrightarrow> v = v' \<and> u = u'"
  for u u' v v' :: int
  by (cases "v < v'"; cases "v' < v") linarith+

lemma fb_index_inj:
  assumes "fb_index x y = fb_index x' y'" "0 \<le> sint x" "sint x < FB_W" "0 \<le> sint y" "sint y < FB_H"
    "0 \<le> sint x'" "sint x' < FB_W" "0 \<le> sint y'" "sint y' < FB_H"
  shows "x = x' \<and> y = y'"
proof -
  have u: "uint (fb_index u v) = sint v * FB_W + sint u"
    if "0 \<le> sint u" "sint u < FB_W" "0 \<le> sint v" "sint v < FB_H" for u v
    unfolding fb_index_int by (rule uint32) (use that in \<open>simp_all add: FB_W_def FB_H_def\<close>)
  have "sint y * FB_W + sint x = sint y' * FB_W + sint x'"
    using u [OF assms(2-5)] u [OF assms(6-9)] assms(1) by simp
  then have "sint y = sint y' \<and> sint x = sint x'" using assms(2,3,6,7) unfolding FB_W_def by (intro pitch_unique) simp_all
  then show ?thesis by (auto intro: signed_word_eqI)
qed

lemma pixel_addr_inj:
  assumes "pixel_addr r x y = pixel_addr r x' y'" "clip_pass x y r" "clip_pass x' y' r"
  shows "x = x' \<and> y = y'"
proof -
  have "DISP_H < FB_H" by (simp add: DISP_H_def FB_H_def)
  then have "x + x_window r - 0x1000 = x' + x_window r - 0x1000 \<and> y + y_window r - 0x1000 = y' + y_window r - 0x1000"
    using assms(1) clip_window [OF assms(2)] clip_window [OF assms(3)]
    by (intro fb_index_inj) (simp_all add: pixel_addr_def)
  then show ?thesis by simp
qed

text \<open>The words that the visible pixels of a run of w pixels occupy.\<close>

definition row_cells :: "rex3 \<Rightarrow> u16 \<Rightarrow> nat \<Rightarrow> u16 \<Rightarrow> u32 set" where
  "row_cells r x w y = (\<lambda>k. pixel_addr r (x + of_nat k) y) ` {k. k < w \<and> clip_pass (x + of_nat k) y r}"

definition solid_job :: "span_job \<Rightarrow> bool" where
  "solid_job j \<longleftrightarrow> \<not> sj_left j \<and> \<not> sj_abort j \<and> sj_stop j \<and> sj_prim_end j = sj_end j \<and> \<not> sj_shade j \<and>
     (\<not> sj_rgb j \<or> sj_fastclear j) \<and> sj_pattern j = 0xffffffff"

definition solid_ok :: "newport \<Rightarrow> bool" where
  "solid_ok n \<longleftrightarrow> \<not> color_host (rex n) \<and> \<not> bit (draw_mode1 (rex n)) 18 \<and> rb_wf (rb n)"

lemma of_nat_16_inj: "k < 65536 \<Longrightarrow> l < 65536 \<Longrightarrow> (of_nat k :: u16) = of_nat l \<Longrightarrow> k = l"
  by (simp add: of_nat_eq_iff word_of_nat_eq_iff take_bit_nat_eq_self)

lemma solid_lanes:
  assumes "solid_job j"
  shows "lane_pat j k" "lane_wr j k" "seg_len j x = steps_to False x (sj_end j)"
proof -
  have m: "(0xffffffff :: u32) = mask 32" by (simp add: mask_eq_exp_minus_1)
  have "sj_pattern j = 0xffffffff" "nat ((31 - int k) mod 32) < 32" using assms by (simp_all add: solid_job_def)
  then show "lane_pat j k" unfolding lane_pat_def m by (simp only: bit_mask_iff) simp
  then show "lane_wr j k" by (simp add: lane_wr_def)
  show "seg_len j x = steps_to False x (sj_end j)"
    using assms by (simp add: seg_len_steps seg_steps_def solid_job_def)
qed

lemma solid_row:
  assumes "solid_job j" "solid_ok n"
  shows "span_loop H j y 31 x n =
    (sj_end j, n\<lparr>go_pixels := go_pixels n + of_nat (steps_to False x (sj_end j)),
       rb := fill_set (row_cells (rex n) x (steps_to False x (sj_end j)) y) (sj_color j) (rb n)\<rparr>)"
proof -
  let ?w = "steps_to False x (sj_end j)" and ?r = "rex n"
  have j: "\<not> sj_left j" "\<not> sj_abort j" using assms(1) by (simp_all add: solid_job_def)
  have cols: "scalar_colors j y x [0..<?w] ?r = (map (\<lambda>k. sj_color j) [0..<?w], ?r)"
    using assms by (subst plain_lanes_scalar) (simp_all add: solid_job_def solid_ok_def solid_lanes(1))
  have zip: "zip [0..<?w] (map (\<lambda>k. sj_color j) [0..<?w]) = map (\<lambda>k. (k, sj_color j)) [0..<?w]"
    by (intro nth_equalityI) simp_all
  let ?ok = "\<lambda>k. lane_wr j k \<and> clip_pass (x + of_nat k) y ?r"
  let ?adr = "\<lambda>k. fb_index (x + of_nat k + x_window ?r - 0x1000) (y + y_window ?r - 0x1000)"
  have "inj_on ?adr {k \<in> set [0..<?w]. ?ok k}"
  proof (rule inj_onI, clarsimp)
    fix k l assume k: "k < ?w" "l < ?w" "clip_pass (x + of_nat k) y ?r" "clip_pass (x + of_nat l) y ?r" "?adr k = ?adr l"
    then have "x + of_nat k = x + of_nat l" using pixel_addr_inj [of ?r "x + of_nat k" y "x + of_nat l" y] by (simp add: pixel_addr_def)
    with k steps_to_le [of False x "sj_end j"] show "k = l" by (intro of_nat_16_inj) simp_all
  qed
  moreover have "?adr ` {k \<in> set [0..<?w]. ?ok k} = row_cells ?r x ?w y"
    using assms(1) by (simp add: row_cells_def pixel_addr_def solid_lanes(2))
  ultimately have "write_lanes ?ok ?adr (map (\<lambda>k. (k, sj_color j)) [0..<?w]) (rb n) =
      fill_set (row_cells ?r x ?w y) (sj_color j) (rb n)"
    by (subst write_lanes_fill) simp_all
  moreover have "x + of_nat ?w = sj_end j" using steps_to_end [of x False "sj_end j"] by (simp add: dir_def)
  ultimately show ?thesis
    using lanes_fold [OF j(1), of n H y x "[0..<?w]"] assms(2)
    by (simp add: span_loop_lanes [OF j(2,1)] solid_lanes [OF assms(1)] cols zip solid_ok_def)
qed

section \<open>The block\<close>

lemma reset_ctx [simp]: "clip_ctx (reset_color r) = clip_ctx r" "x_save (reset_color r) = x_save r"
  "reset_color (reset_color r) = reset_color r"
  by (simp_all add: clip_ctx_def reset_color_def)

lemma row_cells_ctx:
  assumes "clip_ctx r1 = clip_ctx r"
  shows "row_cells r1 x w y = row_cells r x w y"
  by (simp only: row_cells_def pixel_addr_def clip_ctx_eqD(1-3) [OF assms])

lemma rows_disjoint:
  assumes "y \<noteq> y'"
  shows "row_cells r x w y \<inter> row_cells r x w y' = {}"
proof -
  have "y = y'" if "clip_pass (x + of_nat k) y r" "clip_pass (x + of_nat l) y' r"
    "pixel_addr r (x + of_nat k) y = pixel_addr r (x + of_nat l) y'" for k l
    using pixel_addr_inj [OF that(3,1,2)] by simp
  with assms show ?thesis by (auto simp: row_cells_def)
qed

text \<open>The board after h rows of w pixels.\<close>

definition after_rows :: "u16 \<Rightarrow> u16 \<Rightarrow> nat \<Rightarrow> nat \<Rightarrow> u32 \<Rightarrow> newport \<Rightarrow> newport" where
  "after_rows x y w h c n =
     n\<lparr>rex := reset_color (rex n), go_pixels := go_pixels n + of_nat (h * w),
       rb := fill_set (\<Union>i<h. row_cells (rex n) x w (y + of_nat i)) c (rb n)\<rparr>"

lemma after_rows_step:
  assumes "h < 65536"
  shows "after_rows x (y + 1) w h c
      (n\<lparr>rex := reset_color (rex n), go_pixels := go_pixels n + of_nat w, rb := fill_set (row_cells (rex n) x w y) c (rb n)\<rparr>) =
    after_rows x y w (Suc h) c n"
proof -
  let ?R = "\<lambda>i. row_cells (rex n) x w (y + of_nat i)"
  have cells: "row_cells (reset_color (rex n)) x w v = row_cells (rex n) x w v" for v by (rule row_cells_ctx) simp
  have "y \<noteq> y + of_nat (Suc i)" if "i < h" for i
  proof
    assume "y = y + of_nat (Suc i)"
    then have "(of_nat (Suc i) :: u16) = of_nat 0" by simp
    with that assms show False using of_nat_16_inj [of "Suc i" 0] by simp
  qed
  then have "?R 0 \<inter> (\<Union>i<h. ?R (Suc i)) = {}"
    using rows_disjoint [of "y + of_nat 0"] by (simp only: disjoint_iff) auto
  from fill_set_union [OF this, of c "rb n"]
  have "fill_set (\<Union>i<h. ?R (Suc i)) c (fill_set (?R 0) c (rb n)) = fill_set (?R 0 \<union> (\<Union>i<h. ?R (Suc i))) c (rb n)" .
  moreover have "?R 0 \<union> (\<Union>i<h. ?R (Suc i)) = (\<Union>i<Suc h. ?R i)" by (auto simp: lessThan_Suc_eq_insert_0)
  ultimately show ?thesis by (simp add: after_rows_def cells add.assoc)
qed

lemma solid_rows:
  assumes "np_scalar H" "solid_job j" "solid_ok n" "x_save (rex n) = x"
  shows "rows_loop H j True True False end_y (x, y, n) =
    (x, end_y, after_rows x y (steps_to False x (sj_end j)) (steps_to False y end_y) (sj_color j) n)"
  using assms(3,4)
proof (induction "steps_to False y end_y" arbitrary: y n)
  case 0
  then show ?case by (simp add: steps_to_def)
next
  case (Suc h)
  let ?w = "steps_to False x (sj_end j)" and ?c = "sj_color j"
  let ?n = "n\<lparr>rex := reset_color (rex n), go_pixels := go_pixels n + of_nat ?w, rb := fill_set (row_cells (rex n) x ?w y) ?c (rb n)\<rparr>"
  have "row_segment H (use_fast H j) j x y n = span_loop H j y 31 x n"
    using assms(1) by (simp add: row_segment_def use_fast_def)
  moreover have "row_done j (sj_end j)" using assms(2) by (simp add: row_done_def solid_job_def word_sle_eq)
  ultimately have nr: "next_row j True False y (row_segment H (use_fast H j) j x y n) = (x, y + 1, ?n)"
    using solid_row [OF assms(2) Suc.prems(1), of H y x] Suc.prems(2)
    by (simp add: next_row_def upd_rex_def dir_def Let_def)
  have ok: "solid_ok ?n" "x_save (rex ?n) = x"
    using Suc.prems clip_ctx_eqD(4,5) [of "reset_color (rex n)" "rex n"] by (simp_all add: solid_ok_def)
  show ?case
  proof (cases "y + 1 = end_y")
    case True
    then have h: "steps_to False y end_y = Suc 0" by (simp add: steps_to_def dir_def)
    have "after_rows x (y + 1) ?w 0 ?c ?n = ?n" by (simp add: after_rows_def)
    with True nr h after_rows_step [of 0 x y ?w ?c n] show ?thesis by (subst rows_loop.simps) simp
  next
    case False
    then have h: "steps_to False y end_y = Suc (steps_to False (y + 1) end_y)"
      using steps_to_step [of y False end_y] by (simp add: dir_def)
    then have "h = steps_to False (y + 1) end_y" using Suc.hyps(2) by simp
    from Suc.hyps(1) [OF this ok] False nr h
    show ?thesis using after_rows_step [of "steps_to False (y + 1) end_y" x y ?w ?c n] steps_to_le [of False y end_y]
      by (subst rows_loop.simps) simp
  qed
qed

text \<open>Signed intervals of coordinates as runs of steps to the right.\<close>

lemma uint16: "0 \<le> v \<Longrightarrow> v < 65536 \<Longrightarrow> uint (word_of_int v :: u16) = v"
  by (simp add: unsigned_of_int take_bit_int_eq_self)

lemma interval_steps:
  assumes "a <=s b"
  shows "steps_to False a (b + 1) = nat (sint b - sint a + 1)"
proof -
  have le: "sint a \<le> sint b" using assms by (simp add: word_sle_eq)
  have d: "b + 1 - a = word_of_int (sint b - sint a + 1)" by (simp add: of_int_sint)
  have rng: "sint b - sint a + 1 \<le> 65536" using sint_lt [of b] sint_ge [of a] by simp
  show ?thesis
  proof (cases "sint b - sint a + 1 = 65536")
    case True
    then have "b + 1 - a = word_of_int 65536" using d by simp
    also have "\<dots> = 0" by simp
    finally have "b + 1 = a" by (simp only: right_minus_eq)
    with True show ?thesis by (simp add: steps_right)
  next
    case False
    then have "uint (b + 1 - a) = sint b - sint a + 1"
      unfolding d using rng le by (intro uint16) simp_all
    moreover from this have "b + 1 \<noteq> a" using le by auto
    ultimately show ?thesis by (simp add: steps_right unat_eq_nat_uint)
  qed
qed

lemma interval_run:
  assumes "a <=s b"
  shows "(\<exists>k < steps_to False a (b + 1). x = a + of_nat k) \<longleftrightarrow> inside a b x"
proof
  assume "\<exists>k < steps_to False a (b + 1). x = a + of_nat k"
  then obtain k where k: "k < nat (sint b - sint a + 1)" "x = a + of_nat k" using interval_steps [OF assms] by auto
  then have "sint x = sint a + int k" unfolding k(2) coord_add using sint_lt [of b] sint_ge [of a] by (intro sint16) simp_all
  with k(1) show "inside a b x" by (simp add: inside_sint)
next
  assume i: "inside a b x"
  then have "x = a + of_nat (nat (sint x - sint a))" by (simp add: inside_sint of_int_sint)
  moreover have "nat (sint x - sint a) < steps_to False a (b + 1)" using i by (simp add: interval_steps [OF assms] inside_sint)
  ultimately show "\<exists>k < steps_to False a (b + 1). x = a + of_nat k" by blast
qed

section \<open>The command\<close>

text \<open>A block command whose pixels all have one colour: opcode and address mode of a block, both stop
  flags, no pattern, no length limit, no shading, no host data, no blending, drawn to the right and down
  from the saved start column.\<close>

definition solid_block :: "newport \<Rightarrow> bool" where
  "solid_block n \<longleftrightarrow>
     (let r = rex n; m0 = draw_mode0 r; m1 = draw_mode1 r; oct = octant (rex (setup_if n)) in
      m0 AND 3 = 2 \<and> drop_bit 2 m0 AND 7 = 1 \<and> bit m0 8 \<and> bit m0 9 \<and>
      \<not> bit m0 12 \<and> \<not> bit m0 13 \<and> \<not> bit m0 15 \<and> \<not> bit m0 18 \<and> \<not> color_host r \<and> \<not> bit m1 18 \<and>
      (\<not> bit m1 15 \<or> bit m1 17) \<and> \<not> bit oct 0 \<and> \<not> bit oct 1 \<and>
      x_save r = x_start_i r \<and> x_start_i r <=s x_end_i r \<and> y_start_i r <=s y_end_i r)"

text \<open>The words of the framebuffer under the visible pixels of the block.\<close>

definition block_cells :: "rex3 \<Rightarrow> u32 set" where
  "block_cells r = {pixel_addr r x y | x y. inside (x_start_i r) (x_end_i r) x \<and>
     inside (y_start_i r) (y_end_i r) y \<and> clip_pass x y r}"

lemma block_rows:
  assumes "x_start_i r <=s x_end_i r" "y_start_i r <=s y_end_i r"
  shows "(\<Union>i < steps_to False (y_start_i r) (y_end_i r + 1).
     row_cells r (x_start_i r) (steps_to False (x_start_i r) (x_end_i r + 1)) (y_start_i r + of_nat i)) = block_cells r"
  unfolding row_cells_def block_cells_def
  by (auto simp: interval_run [OF assms(1), symmetric] interval_run [OF assms(2), symmetric])

lemma fill_set_dest:
  assumes "rb_wf b"
  shows "dest_of (fill_set A c b) a = (if a \<in> A then dest_of (rb_write a c b) a else dest_of b a)"
  using assms by (simp add: fill_set_def rb_write_lane put_lane_def)

lemma setup_if_rex:
  "rex (setup_if n) = (if bit (draw_mode0 (rex n)) 5 then do_setup (rex n) else rex n)"
  "go_pixels (setup_if n) = go_pixels n"
  by (simp_all add: setup_if_def upd_rex_def)

lemma shl11_back: "ucast (signed_drop_bit 11 (shl11 c)) = c"
  unfolding shl11_def
  by (intro bit_word_eqI) (auto simp: bit_simps)

lemma start_coords [simp]:
  "x_start_i (write_x_start (shl11 c) r) = c" "y_start_i (write_y_start (shl11 c) r) = c"
  "x_start_i (write_y_start v r) = x_start_i r"
  by (simp_all add: write_x_start_def write_y_start_def shl11_back Let_def)

lemma do_setup_frame:
  "draw_mode0 (do_setup r) = draw_mode0 r" "draw_mode1 (do_setup r) = draw_mode1 r" "color_host (do_setup r) = color_host r"
  "x_save (do_setup r) = x_save r" "x_start_i (do_setup r) = x_start_i r" "y_start_i (do_setup r) = y_start_i r"
  "x_end_i (do_setup r) = x_end_i r" "y_end_i (do_setup r) = y_end_i r" "rwpacked (do_setup r) = rwpacked r"
  "clip_mode (do_setup r) = clip_mode r" "smask_x (do_setup r) = smask_x r" "smask_y (do_setup r) = smask_y r"
  "x_window (do_setup r) = x_window r" "y_window (do_setup r) = y_window r" "color_i (do_setup r) = color_i r"
  "color_vram (do_setup r) = color_vram r" "plane_depth (do_setup r) = plane_depth r"
  by (simp_all add: do_setup_def Let_def)

lemma setup_frame:
  "draw_mode0 (rex (setup_if n)) = draw_mode0 (rex n)" "draw_mode1 (rex (setup_if n)) = draw_mode1 (rex n)"
  "color_host (rex (setup_if n)) = color_host (rex n)" "x_save (rex (setup_if n)) = x_save (rex n)"
  "x_start_i (rex (setup_if n)) = x_start_i (rex n)" "y_start_i (rex (setup_if n)) = y_start_i (rex n)"
  "x_end_i (rex (setup_if n)) = x_end_i (rex n)" "y_end_i (rex (setup_if n)) = y_end_i (rex n)"
  "rwpacked (rex (setup_if n)) = rwpacked (rex n)" "color_i (rex (setup_if n)) = color_i (rex n)"
  by (simp_all add: setup_if_rex do_setup_frame)

lemma setup_clip: "clip_ctx (rex (setup_if n)) = clip_ctx (rex n)"
  by (simp add: setup_if_rex clip_ctx_def do_setup_frame)

lemma setup_color: "default_color (rex (setup_if n)) c = default_color (rex n) c"
proof -
  have "default_color (do_setup r) c = default_color r c" for r by (simp only: default_color_def do_setup_frame)
  then show ?thesis by (simp add: setup_if_rex)
qed

lemma solid_block_count [simp]: "solid_block (n\<lparr>go_pixels := v\<rparr>) = solid_block n"
  by (simp add: solid_block_def setup_if_rex)

text \<open>The job of such a command, and its run by the pixel loop.\<close>

lemma solid_block_job:
  assumes "solid_block n"
  defines "j \<equiv> span_job_of (rex (setup_if n)) True"
  shows "solid_job j" "sj_end j = x_end_i (rex n) + 1" "sj_color j = default_color (rex n) (color_i (rex n))"
  using assms(1) unfolding j_def solid_block_def Let_def solid_job_def span_job_of_def prim_end_def
  by (simp_all add: setup_frame setup_color dir_def)

definition filled :: "newport \<Rightarrow> newport" where
  "filled n = (let r = rex n in after_rows (x_start_i r) (y_start_i r) (steps_to False (x_start_i r) (x_end_i r + 1))
     (steps_to False (y_start_i r) (y_end_i r + 1)) (default_color r (color_i r)) (setup_if (n\<lparr>go_pixels := 0\<rparr>)))"

lemma solid_command:
  assumes "solid_block n" "rb_wf (rb n)" "np_scalar H"
  shows "do_command H n = upd_rex (\<lambda>r. write_y_start (shl11 (y_end_i (rex n) + 1)) (write_x_start (shl11 (x_start_i (rex n))) r)) (filled n)"
proof -
  let ?n = "n\<lparr>go_pixels := 0\<rparr>" and ?r = "rex n"
  let ?m = "setup_if ?n"
  let ?j = "span_job_of (rex ?m) True"
  have b: "solid_block ?n" using assms(1) by simp
  note job = solid_block_job [OF b] and fr = setup_frame setup_color
  have oct: "\<not> bit (octant (rex ?m)) 0" "bit (draw_mode0 ?r) 9" "x_save ?r = x_start_i ?r"
    using b by (simp_all add: solid_block_def Let_def)
  have "solid_ok ?m" using b assms(2) by (simp add: solid_ok_def fr solid_block_def Let_def)
  from solid_rows [OF assms(3) job(1) this, of "x_start_i ?r" "y_end_i ?r + 1" "y_start_i ?r"]
  have rows: "rows_loop H ?j True True False (y_end_i ?r + 1) (x_start_i ?r, y_start_i ?r, ?m) = (x_start_i ?r, y_end_i ?r + 1, filled n)"
    using oct(3) by (simp add: fr job filled_def Let_def)
  have "do_command H n = span_or_block H True ?m"
    using b by (simp add: do_command_def do_command_body_def solid_block_def Let_def)
  then show ?thesis
    using oct rows by (simp add: span_or_block_def fr dir_def Let_def upd_rex_def)
qed

lemma filled_rb:
  assumes "solid_block n"
  shows "rb (filled n) = fill_set (block_cells (rex n)) (default_color (rex n) (color_i (rex n))) (rb n)"
proof -
  have "clip_ctx (rex (setup_if (n\<lparr>go_pixels := 0\<rparr>))) = clip_ctx (rex n)" using setup_clip [of "n\<lparr>go_pixels := 0\<rparr>"] by simp
  note cells = row_cells_ctx [OF this]
  show ?thesis
    using block_rows [of "rex n"] assms by (simp add: filled_def after_rows_def cells solid_block_def Let_def)
qed

text \<open>C6.  A solid block is drawn exactly: after the command every word under a visible pixel of the rectangle
  holds what one write of the colour leaves there (plane masks and logic operation included), every other
  word of the buffer and the whole other buffer are as before, and the start registers stand on the first
  column of the row below.  It holds for the pixel loop without further conditions, and for the vector kernel
  provided that the kernel does not leave the framebuffer, as it does on a block that starts left of the
  framebuffer's first row; the framebuffer state is one the registers can set (a write mask of 24 bits).\<close>

theorem block_fill:
  assumes "solid_block n" "rb_wf (rb n)" "np_scalar H \<or> \<not> np_fault (do_command H n)"
  defines "b \<equiv> rb (do_command H n)" and "c \<equiv> default_color (rex n) (color_i (rex n))"
  shows "dest_of b a = (if a \<in> block_cells (rex n) then dest_of (rb_write a c (rb n)) a else dest_of (rb n) a) \<and>
    (if dest_aux (rb n) then rgbci b = rgbci (rb n) else cidaux b = cidaux (rb n)) \<and>
    x_start_i (rex (do_command H n)) = x_start_i (rex n) \<and> y_start_i (rex (do_command H n)) = y_end_i (rex n) + 1"
proof -
  have "\<not> shade_ignored (rex n)" using assms(1) by (simp add: shade_ignored_def solid_block_def Let_def)
  from assms(3) command_exact [OF assms(2) this, of H] solid_command [OF assms(1,2), of "H\<lparr>np_scalar := True\<rparr>"]
    solid_command [OF assms(1,2), of H]
  have d: "do_command H n = upd_rex (\<lambda>r. write_y_start (shl11 (y_end_i (rex n) + 1)) (write_x_start (shl11 (x_start_i (rex n))) r)) (filled n)"
    by auto
  have "b = fill_set (block_cells (rex n)) c (rb n)" unfolding b_def c_def d by (simp add: upd_rex_def filled_rb [OF assms(1)])
  moreover from this have "if dest_aux (rb n) then rgbci b = rgbci (rb n) else cidaux b = cidaux (rb n)"
    by (simp add: fill_set_def set_dest_def)
  ultimately show ?thesis unfolding d by (simp add: fill_set_dest [OF assms(2)] upd_rex_def)
qed

lemma fill_board_cell: "1346 \<in> block_cells (rex fill_board)"
proof -
  have "pixel_addr (rex fill_board) 2 1 = 1346 \<and> inside (x_start_i (rex fill_board)) (x_end_i (rex fill_board)) 2 \<and>
      inside (y_start_i (rex fill_board)) (y_end_i (rex fill_board)) 1 \<and> clip_pass 2 1 (rex fill_board)"
    by code_simp
  then show ?thesis unfolding block_cells_def by (intro CollectI exI [of _ "2 :: u16"] exI [of _ "1 :: u16"]) simp
qed

theorem block_fill_witness:
  "dest_of (rb (do_command plain_host fill_board)) 1346 =
     dest_of (rb_write 1346 (default_color (rex fill_board) (color_i (rex fill_board))) (rb fill_board)) 1346 \<and>
   y_start_i (rex (do_command plain_host fill_board)) = 3"
proof -
  have "solid_block fill_board" "rb_wf (rb fill_board)" "y_end_i (rex fill_board) + 1 = 3" by code_simp+
  moreover have "\<not> np_fault (do_command plain_host fill_board)" by code_simp
  ultimately show ?thesis using block_fill [of fill_board plain_host 1346] fill_board_cell by simp
qed

end
