(* ===== verification/MC.thy ===== *)
theory MC
  imports Indy_State
begin

text \<open>
  The memory controller (src/sgi_mc.cc): its configuration registers, the bit-banged serial
  EEPROM, and the graphics DMA engine with its four-entry TLB.

  The DMA engine reaches memory and devices through \<^verbatim>\<open>sparse_mem::get\<close> and \<^verbatim>\<open>set\<close>, that is
  through the router that calls the memory controller.  The bus it uses is the argument \<open>B\<close>;
  the theory Indy ties the knot with a depth.  The access log of the environment is left out.
\<close>

section \<open>DMA registers\<close>

definition sys_id :: u32 where "sys_id = 0x13000000"
definition DMA_MODE_TO_HOST :: u32 where "DMA_MODE_TO_HOST = 0x2"
definition DMA_MODE_FILL :: u32 where "DMA_MODE_FILL = 0x8"
definition DMA_MODE_DIR :: u32 where "DMA_MODE_DIR = 0x10"

definition mc_dma_read :: "u32 \<Rightarrow> sgi_mc \<Rightarrow> u32 option" where
  "mc_dma_read offs c =
     (let r = offs AND NOT 4 in
      if 0x180 \<le> r \<and> r \<le> 0x1b8
      then (let i = unat (drop_bit 4 (r - 0x180))
            in Some (if flag (r - 0x180) 8 then dma_tlb_lo c i else dma_tlb_hi c i))
      else if r = 0x150 then Some (dma_gio_mask c)
      else if r = 0x158 then Some (dma_gio_sub c)
      else if r = 0x160 then Some (dma_cause c)
      else if r = 0x168 then Some (dma_ctl c)
      else if r = 0x2000 \<or> r = 0x2008 then Some (dma_memadr c)
      else if r = 0x2010 then Some (dma_size c)
      else if r = 0x2018 then Some (dma_stride c)
      else if r = 0x2020 \<or> r = 0x2028 then Some (dma_gio_adr c)
      else if r = 0x2030 then Some (dma_mode c)
      else if r = 0x2038 then Some (dma_count c)
      else if r = 0x2040 then Some 0
      else if r = 0x2048 then Some (dma_run c)
      else None)"

section \<open>Translation and the graphics port\<close>

definition pte_addr :: "sgi_mc \<Rightarrow> nat \<Rightarrow> u32 \<Rightarrow> u32" where
  "pte_addr c e va = push_bit 6 (dma_tlb_lo c e AND 0x003fffc0) + push_bit 2 (drop_bit 12 (va AND 0x003ff000))"

definition tlb_hit :: "sgi_mc \<Rightarrow> nat \<Rightarrow> u32 \<Rightarrow> bool" where
  "tlb_hit c e va \<longleftrightarrow> va AND 0xffc00000 = dma_tlb_hi c e AND 0xffc00000"

definition pte_page :: "u32 \<Rightarrow> u32 \<Rightarrow> u32" where
  "pte_page pte va = push_bit 6 (pte AND 0x03ffffc0) + (va AND 0xfff)"

definition dma_translate :: "'n indy dev_ops \<Rightarrow> dev_view \<Rightarrow> u32 \<Rightarrow> 'n iio \<Rightarrow> u32 \<times> 'n iio" where
  "dma_translate B vw va io0 =
     (let c = mc (dev io0) in
      case find (\<lambda>e. tlb_hit c e va) [0, 1, 2, 3] of
        Some e \<Rightarrow> (let (v, io1) = get_T B vw 4 (pte_addr c e va) io0
                    in (pte_page (bswap32 (ucast v)) va, io1))
      | None \<Rightarrow> (va, io0))"

definition in_newport :: "u32 \<Rightarrow> bool" where
  "in_newport gio \<longleftrightarrow> NEWPORT_BASE \<le> gio \<and> gio < NEWPORT_BASE + NEWPORT_SIZE"

definition dma_gio_read64 ::
    "'n np_ops \<Rightarrow> 'n indy dev_ops \<Rightarrow> dev_view \<Rightarrow> u32 \<Rightarrow> 'n iio \<Rightarrow> u64 \<times> 'n iio" where
  "dma_gio_read64 N B vw gio io0 =
     (case np (dev io0) of
        Some n \<Rightarrow>
          if in_newport gio
          then (let (v, n') = newport_read N (v_icnt vw) (gio - NEWPORT_BASE) 8 n
                in (bswap64 v, put_np n' io0))
          else (let (v, io1) = get_T B vw 8 gio io0 in (bswap64 v, io1))
      | None \<Rightarrow> (let (v, io1) = get_T B vw 8 gio io0 in (bswap64 v, io1)))"

definition dma_gio_write64 ::
    "'n np_ops \<Rightarrow> 'n indy dev_ops \<Rightarrow> dev_view \<Rightarrow> u32 \<Rightarrow> u64 \<Rightarrow> 'n iio \<Rightarrow> 'n iio" where
  "dma_gio_write64 N B vw gio v io0 =
     (case np (dev io0) of
        Some n \<Rightarrow>
          if in_newport gio
          then put_np (newport_write N (v_icnt vw) (gio - NEWPORT_BASE) (bswap64 v) 8 n) io0
          else set_T B vw 8 gio (bswap64 v) io0
      | None \<Rightarrow> set_T B vw 8 gio (bswap64 v) io0)"

section \<open>The transfer\<close>

text \<open>The constants \<^verbatim>\<open>dma_perform\<close> computes before its loops.\<close>

record dma_job =
  j_to_host :: bool
  j_fill :: bool
  j_up :: bool
  j_width :: nat
  j_zoom :: nat
  j_stride :: u32

definition job_of :: "sgi_mc \<Rightarrow> dma_job" where
  "job_of c = \<lparr>j_to_host = flag (dma_mode c) DMA_MODE_TO_HOST, j_fill = flag (dma_mode c) DMA_MODE_FILL,
     j_up = flag (dma_mode c) DMA_MODE_DIR, j_width = unat (dma_size c AND 0xffff),
     j_zoom = unat (drop_bit 16 (dma_stride c) AND 0x3ff), j_stride = scast (ucast (dma_stride c) :: u16)\<rparr>"

definition bump :: "dma_job \<Rightarrow> u32 \<Rightarrow> u32 \<Rightarrow> u32" where
  "bump j k m = (if j_up j then m + k else m - k)"

text \<open>\<^verbatim>\<open>for(i = 0; i < len; i++) set<uint8_t>(dma_translate(mem), d >> (56 - 8*i))\<close>, from byte i on.\<close>

fun dma_put_bytes ::
    "'n indy dev_ops \<Rightarrow> dev_view \<Rightarrow> dma_job \<Rightarrow> u64 \<Rightarrow> nat list \<Rightarrow> u32 \<Rightarrow> 'n iio \<Rightarrow> u32 \<times> 'n iio" where
  "dma_put_bytes B vw j d [] m io0 = (m, io0)"
| "dma_put_bytes B vw j d (i # is) m io0 =
     (let (pa, io1) = dma_translate B vw m io0;
          io2 = set_T B vw 1 pa (ucast (ucast (drop_bit (56 - 8 * i) d) :: u8)) io1
      in dma_put_bytes B vw j d is (bump j 1 m) io2)"

fun dma_get_bytes ::
    "'n indy dev_ops \<Rightarrow> dev_view \<Rightarrow> dma_job \<Rightarrow> u64 \<Rightarrow> nat list \<Rightarrow> u32 \<Rightarrow> 'n iio \<Rightarrow> u64 \<times> u32 \<times> 'n iio" where
  "dma_get_bytes B vw j d [] m io0 = (d, m, io0)"
| "dma_get_bytes B vw j d (i # is) m io0 =
     (let (pa, io1) = dma_translate B vw m io0;
          (v, io2) = get_T B vw 1 pa io1
      in dma_get_bytes B vw j (d OR push_bit (56 - 8 * i) (ucast (ucast v :: u8))) is (bump j 1 m) io2)"

text \<open>One iteration of the innermost \<^verbatim>\<open>while(bytes > 0)\<close>.\<close>

definition dma_chunk ::
    "'n np_ops \<Rightarrow> 'n indy dev_ops \<Rightarrow> dev_view \<Rightarrow> dma_job \<Rightarrow> nat \<Rightarrow> u32 \<Rightarrow> 'n iio \<Rightarrow> u32 \<times> 'n iio" where
  "dma_chunk N B vw j bytes m io0 =
     (let len = min bytes 8 in
      if j_to_host j \<and> j_fill j
      then (let (pa, io1) = dma_translate B vw m io0
            in (bump j 4 m, set_T B vw 4 pa (ucast (bswap32 (dma_gio_adr (mc (dev io1))))) io1))
      else if j_to_host j
      then (let (d, io1) = dma_gio_read64 N B vw (dma_gio_adr (mc (dev io0))) io0
            in dma_put_bytes B vw j d [0..<len] m io1)
      else (let (d, m', io1) = dma_get_bytes B vw j 0 [0..<len] m io0
            in (m', dma_gio_write64 N B vw (dma_gio_adr (mc (dev io1))) d io1)))"

text \<open>Each iteration takes 4 (fill) or up to 8 bytes off the count.\<close>

function dma_row ::
    "'n np_ops \<Rightarrow> 'n indy dev_ops \<Rightarrow> dev_view \<Rightarrow> dma_job \<Rightarrow> nat \<Rightarrow> u32 \<Rightarrow> 'n iio \<Rightarrow> u32 \<times> 'n iio" where
  "dma_row N B vw j bytes m io0 =
     (if bytes = 0 then (m, io0)
      else (let (m', io1) = dma_chunk N B vw j bytes m io0
            in dma_row N B vw j (bytes - (if j_to_host j \<and> j_fill j then 4 else 8)) m' io1))"
  by auto
termination
  by (relation "measure (\<lambda>(_, _, _, _, bytes, _, _). bytes)") auto

declare dma_row.simps [simp del]

primrec dma_zooms ::
    "'n np_ops \<Rightarrow> 'n indy dev_ops \<Rightarrow> dev_view \<Rightarrow> dma_job \<Rightarrow> nat \<Rightarrow> nat \<Rightarrow> u32 \<Rightarrow> 'n iio \<Rightarrow> nat \<times> u32 \<times> 'n iio" where
  "dma_zooms N B vw j 0 bytes m io0 = (bytes, m, io0)"
| "dma_zooms N B vw j (Suc z) bytes m io0 =
     (let (m1, io1) = dma_row N B vw j bytes m io0;
          w = of_nat (j_width j);
          m2 = (if 0 < z then (if j_up j then m1 - w else m1 + w) else m1)
      in dma_zooms N B vw j z (j_width j) m2 io1)"

primrec dma_lines ::
    "'n np_ops \<Rightarrow> 'n indy dev_ops \<Rightarrow> dev_view \<Rightarrow> dma_job \<Rightarrow> nat \<Rightarrow> nat \<Rightarrow> nat \<Rightarrow> u32 \<Rightarrow> 'n iio \<Rightarrow> u32 \<times> 'n iio" where
  "dma_lines N B vw j 0 zoom bytes m io0 = (m, io0)"
| "dma_lines N B vw j (Suc l) zoom bytes m io0 =
     (let (bytes1, m1, io1) = dma_zooms N B vw j zoom bytes m io0
      in dma_lines N B vw j l (j_zoom j) bytes1 (m1 + j_stride j) io1)"

definition np_in_dma :: "'n np_ops \<Rightarrow> bool \<Rightarrow> 'n iio \<Rightarrow> 'n iio" where
  "np_in_dma N on io0 = (case np (dev io0) of None \<Rightarrow> io0 | Some n \<Rightarrow> put_np (set_in_dma N on n) io0)"

definition dma_finish :: "u32 \<Rightarrow> sgi_mc \<Rightarrow> sgi_mc" where
  "dma_finish m c =
     (let c1 = c\<lparr>dma_memadr := m, dma_run := (dma_run c OR 0x8) AND NOT 0x40\<rparr>
      in if flag (dma_ctl c1) 0x10 then c1\<lparr>dma_cause := dma_cause c1 OR 0x8, dma_irq := True\<rparr> else c1)"

definition dma_perform :: "'n np_ops \<Rightarrow> 'n indy dev_ops \<Rightarrow> dev_view \<Rightarrow> 'n iio \<Rightarrow> 'n iio" where
  "dma_perform N B vw io0 =
     (let c = mc (dev io0);
          io1 = upd_mc (\<lambda>c. c\<lparr>dma_size := dma_size c AND 0x0000ffff, dma_count := 0\<rparr>) (np_in_dma N True io0);
          (m, io2) = dma_lines N B vw (job_of c) (unat (drop_bit 16 (dma_size c)))
                       (unat (drop_bit 16 (dma_count c) AND 0x3ff)) (unat (dma_count c AND 0xffff))
                       (dma_memadr c) io1;
          io3 = np_in_dma N False io2
      in poke (flag (dma_ctl (mc (dev io3))) 0x10) (upd_mc (dma_finish m) io3))"

text \<open>\<open>None\<close> when the offset is no DMA register.\<close>

definition mc_dma_write ::
    "'n np_ops \<Rightarrow> 'n indy dev_ops \<Rightarrow> dev_view \<Rightarrow> u32 \<Rightarrow> u32 \<Rightarrow> 'n iio \<Rightarrow> 'n iio option" where
  "mc_dma_write N B vw offs x io0 =
     (let r = offs AND NOT 4 in
      if 0x180 \<le> r \<and> r \<le> 0x1b8
      then (let i = unat (drop_bit 4 (r - 0x180)) in
            Some (upd_mc (\<lambda>c. if flag (r - 0x180) 8 then c\<lparr>dma_tlb_lo := (dma_tlb_lo c)(i := x)\<rparr>
                              else c\<lparr>dma_tlb_hi := (dma_tlb_hi c)(i := x)\<rparr>) io0))
      else if r = 0x150 then Some (upd_mc (\<lambda>c. c\<lparr>dma_gio_mask := x\<rparr>) io0)
      else if r = 0x158 then Some (upd_mc (\<lambda>c. c\<lparr>dma_gio_sub := x\<rparr>) io0)
      else if r = 0x160
      then Some (upd_mc (\<lambda>c. c\<lparr>dma_cause := x, dma_irq := (if x = 0 then False else dma_irq c)\<rparr>) io0)
      else if r = 0x168 then Some (upd_mc (\<lambda>c. c\<lparr>dma_ctl := x\<rparr>) io0)
      else if r = 0x2000 \<or> r = 0x2008 then Some (upd_mc (\<lambda>c. c\<lparr>dma_memadr := x\<rparr>) io0)
      else if r = 0x2010
      then Some (upd_mc (\<lambda>c. c\<lparr>dma_count := (dma_count c AND 0xffff0000) OR (x AND 0xffff), dma_size := x\<rparr>) io0)
      else if r = 0x2018
      then Some (upd_mc (\<lambda>c. c\<lparr>dma_count := (dma_count c AND 0x0000ffff) OR (x AND 0x03ff0000), dma_stride := x\<rparr>) io0)
      else if r = 0x2020 then Some (upd_mc (\<lambda>c. c\<lparr>dma_gio_adr := x\<rparr>) io0)
      else if r = 0x2028 then Some (dma_perform N B vw (upd_mc (\<lambda>c. c\<lparr>dma_gio_adr := x\<rparr>) io0))
      else if r = 0x2030 then Some (upd_mc (\<lambda>c. c\<lparr>dma_mode := x\<rparr>) io0)
      else if r = 0x2038 then Some (upd_mc (\<lambda>c. c\<lparr>dma_count := x\<rparr>) io0)
      else if r = 0x2040 then Some (if flag x 1 then dma_perform N B vw io0 else io0)
      else if r = 0x2070
      then Some (dma_perform N B vw (upd_mc (\<lambda>c. c\<lparr>dma_gio_adr := x, dma_size := 0x0001000c,
             dma_stride := 0x00010000, dma_count := 0x0001000c, dma_mode := 0x00000028\<rparr>) io0))
      else None)"

section \<open>Registers\<close>

definition mc_reg_read :: "u64 \<Rightarrow> u32 \<Rightarrow> sgi_mc \<Rightarrow> u32" where
  "mc_reg_read icnt offs c =
     (if offs \<in> {0x0, 0x4, 0x8, 0xc} then cpu_control c (bit offs 3)
      else if offs \<in> {0xc4, 0xcc} then memcfg c (bit offs 3)
      else if offs = 0x84 then gio64_arb_param c
      else if offs = 0xd4 then cpu_mem_access_config c
      else if offs = 0xdc then gio_mem_access_config c
      else if offs = 0x1c then sys_id
      else if offs = 0x30 then 0x10
      else if offs = 0x1004 then ucast (icnt div 10)
      else 0)"

definition sgi_mc_read :: "dev_view \<Rightarrow> u32 \<Rightarrow> nat \<Rightarrow> 'n iio \<Rightarrow> u32 \<times> 'n iio" where
  "sgi_mc_read vw offs sz io0 =
     ((case mc_dma_read offs (mc (dev io0)) of
         Some x \<Rightarrow> x
       | None \<Rightarrow> mc_reg_read (v_icnt vw) offs (mc (dev io0))), io0)"

text \<open>The EEPROM register: a data bit is shifted in when clock and select are high; the eighth
  stores the byte, past the end of the array once 256 bytes have been sent.\<close>

definition eeprom_write :: "u32 \<Rightarrow> sgi_mc \<Rightarrow> sgi_mc option" where
  "eeprom_write x c0 =
     (let c = c0\<lparr>eeprom_ctrl := x\<rparr> in
      if drop_bit 1 x AND 3 = 3
      then (let b = push_bit 1 (ee_byte c) OR ucast (drop_bit 3 x AND 1); n = ee_nbits c + 1 in
            if n = 8
            then (if unat (cbyte c) < 256
                  then Some (c\<lparr>eerom := (eerom c)[unat (cbyte c) := b], cbyte := cbyte c + 1,
                               ee_nbits := 0, ee_byte := 0\<rparr>)
                  else None)
            else Some (c\<lparr>ee_byte := b, ee_nbits := n\<rparr>))
      else Some c)"

definition mc_reg_write :: "u32 \<Rightarrow> u32 \<Rightarrow> sgi_mc \<Rightarrow> sgi_mc option" where
  "mc_reg_write offs x c =
     (if offs \<in> {0x0, 0x4, 0xc} then Some (c\<lparr>cpu_control := (cpu_control c)(bit offs 3 := x)\<rparr>)
      else if offs = 0x2c then Some (c\<lparr>rpss_divider := x\<rparr>)
      else if offs = 0x84 then Some (c\<lparr>gio64_arb_param := x\<rparr>)
      else if offs \<in> {0xc4, 0xcc} then Some (c\<lparr>memcfg := (memcfg c)(bit offs 3 := x)\<rparr>)
      else if offs = 0xd4 then Some (c\<lparr>cpu_mem_access_config := x\<rparr>)
      else if offs = 0xdc then Some (c\<lparr>gio_mem_access_config := x\<rparr>)
      else if offs = 0xec then Some (c\<lparr>cpu_error_status := 0\<rparr>)
      else if offs = 0xfc then Some (c\<lparr>gio_error_status := 0\<rparr>)
      else if offs = 0x30 then eeprom_write x c
      else Some c)"

definition sgi_mc_write ::
    "'n np_ops \<Rightarrow> 'n indy dev_ops \<Rightarrow> dev_view \<Rightarrow> u32 \<Rightarrow> u32 \<Rightarrow> nat \<Rightarrow> 'n iio \<Rightarrow> 'n iio" where
  "sgi_mc_write N B vw offs x sz io0 =
     (case mc_dma_write N B vw offs x io0 of
        Some io1 \<Rightarrow> io1
      | None \<Rightarrow> (case mc_reg_write offs x (mc (dev io0)) of
                   Some c \<Rightarrow> upd_mc (\<lambda>_. c) io0
                 | None \<Rightarrow> halt io0))"

section \<open>Quiet memory\<close>

text \<open>The view of memory the DMA engine has when neither the page table entries nor the data lie in
  the device window and the cache is out of the way: translation and loads are pure.\<close>

definition uncached :: "'d io \<Rightarrow> bool" where
  "uncached io0 \<longleftrightarrow> g_cmodel io0 = None \<or> \<not> cache_active io0"

definition dma_pa :: "'n iio \<Rightarrow> u32 \<Rightarrow> u32" where
  "dma_pa io0 va =
     (let c = mc (dev io0) in
      case find (\<lambda>e. tlb_hit c e va) [0, 1, 2, 3] of
        Some e \<Rightarrow> pte_page (bswap32 (ucast (mem_load 4 (mem io0) (get_raw_ptr (route_devices io0) (pte_addr c e va))))) va
      | None \<Rightarrow> va)"

definition dma_byte :: "'n iio \<Rightarrow> u32 \<Rightarrow> u8" where
  "dma_byte io0 va = raw_get (dma_pa io0 va) io0"

definition dma_plain :: "'n iio \<Rightarrow> u32 \<Rightarrow> bool" where
  "dma_plain io0 va \<longleftrightarrow> uncached io0 \<and> \<not> in_device_window (dma_pa io0 va) \<and>
     (\<forall>e\<in>{0, 1, 2, 3}. \<not> in_device_window (pte_addr (mc (dev io0)) e va))"

lemma find_in: "find P xs = Some x \<Longrightarrow> x \<in> set xs"
  by (induction xs) (auto split: if_splits)

lemma dma_translate_plain:
  assumes "dma_plain io0 va"
  shows "dma_translate B vw va io0 = (dma_pa io0 va, io0)"
proof (cases "find (\<lambda>e. tlb_hit (mc (dev io0)) e va) [0, 1, 2, 3]")
  case None
  then show ?thesis by (simp add: dma_translate_def dma_pa_def)
next
  case (Some e)
  then have "e \<in> {0, 1, 2, 3}" using find_in by fastforce
  then have "plain_access (pte_addr (mc (dev io0)) e va) io0"
    using assms unfolding dma_plain_def plain_access_def by blast
  with assms Some show ?thesis
    by (simp add: dma_translate_def dma_pa_def get_T_uncached dma_plain_def uncached_def)
qed

lemma get_byte_plain:
  assumes "dma_plain io0 va"
  shows "get_T B vw 1 (dma_pa io0 va) io0 = (ucast (dma_byte io0 va), io0)"
  using assms
  by (simp add: dma_plain_def uncached_def plain_access_def get_T_uncached mem_load_def dma_byte_def raw_get_def)

text \<open>Replacing the graphics board changes nothing of this.\<close>

lemma put_np_frame [simp]:
  "np (dev (put_np n io0)) = Some n" "mc (dev (put_np n io0)) = mc (dev io0)" "mem (put_np n io0) = mem io0"
  "put_np n (put_np n' io0) = put_np n io0" "route_devices (put_np n io0) = route_devices io0"
  "uncached (put_np n io0) = uncached io0" "irq_poke (put_np n io0) = irq_poke io0"
  by (simp_all add: put_np_def upd_dev_def uncached_def)

lemma put_np_pa [simp]: "dma_pa (put_np n io0) = dma_pa io0"
  by (rule ext) (simp only: dma_pa_def put_np_frame)

lemma put_np_dma [simp]:
  "dma_byte (put_np n io0) = dma_byte io0" "dma_plain (put_np n io0) = dma_plain io0"
  by (simp_all add: dma_byte_def raw_get_def dma_plain_def fun_eq_iff)

section \<open>Memory to graphics\<close>

text \<open>The bytes of a row in groups of eight, and the 64-bit word the port receives for a group:
  the bytes in memory order, zero-padded.\<close>

fun chunks8 :: "'a list \<Rightarrow> 'a list list" where
  "chunks8 [] = []"
| "chunks8 (x # xs) = take 8 (x # xs) # chunks8 (drop 8 (x # xs))"

definition port_word :: "u8 list \<Rightarrow> u64" where
  "port_word bs = le_val (bs @ replicate (8 - length bs) 0)"

definition row_bytes :: "'n iio \<Rightarrow> u32 \<Rightarrow> nat \<Rightarrow> u8 list" where
  "row_bytes io0 m n = map (\<lambda>i. dma_byte io0 (m + of_nat i)) [0..<n]"

definition row_words :: "'n iio \<Rightarrow> u32 \<Rightarrow> nat \<Rightarrow> u64 list" where
  "row_words io0 m n = map port_word (chunks8 (row_bytes io0 m n))"

lemma bit_le_val_nth:
  "length bs \<le> 8 \<Longrightarrow> bit (le_val bs) n \<longleftrightarrow> n < 8 * length bs \<and> bit (bs ! (n div 8)) (n mod 8)"
proof (induction bs arbitrary: n)
  case (Cons b bs)
  show ?case
  proof (cases "n < 8")
    case True
    then show ?thesis by (auto simp: bit_simps)
  next
    case False
    then obtain k where n: "n = 8 + k" using le_Suc_ex [of 8 n] by auto
    have "n div 8 = Suc (k div 8)" "n mod 8 = k mod 8" by (simp_all add: n div_add_self1 mod_add_self1)
    moreover have "bit (le_val (b # bs)) n \<longleftrightarrow> bit (le_val bs) k"
    proof -
      have "bit (le_val bs) k \<Longrightarrow> 8 + k < 64"
        using bit_le_val_bound [of bs k] Cons.prems by simp
      then show ?thesis by (auto simp: n bit_simps dest: bit_imp_le_length)
    qed
    ultimately show ?thesis using Cons n by simp
  qed
qed simp

text \<open>The word the inner loop assembles.\<close>

definition or_bytes :: "u8 list \<Rightarrow> u64" where
  "or_bytes bs = fold (\<lambda>(i, b) d. d OR push_bit (56 - 8 * i) (ucast b)) (zip [0..<length bs] bs) 0"

lemma fold_or_bits:
  "bit (fold (\<lambda>(i, b) d. d OR push_bit (56 - 8 * i) (ucast b)) xs (d :: u64)) n \<longleftrightarrow>
   bit d n \<or> n < 64 \<and> (\<exists>(i, b :: u8) \<in> set xs. 56 - 8 * i \<le> n \<and> bit b (n - (56 - 8 * i)))"
proof (induction xs arbitrary: d)
  case (Cons x xs)
  then show ?case
    by (cases x) (auto simp: bit_simps)
qed simp

lemma or_bytes_port_word:
  assumes "length bs \<le> 8"
  shows "bswap64 (or_bytes bs) = port_word bs"
proof -
  let ?ps = "bs @ replicate (8 - length bs) 0"
  have len: "length ?ps = 8" using assms by simp
  have "or_bytes bs = le_val (rev ?ps)"
  proof (rule bit_word_eqI)
    fix n assume "n < LENGTH(64)"
    then have n: "n < 64" by simp
    define q r where "q = n div 8" and "r = n mod 8"
    have nq: "n = 8 * q + r" "r < 8" "q < 8" using n by (simp_all add: q_def r_def)
    define k where "k = 7 - q"
    have k: "k < 8" "8 - Suc q = k" "56 - 8 * k = 8 * q" "n - (56 - 8 * k) = r"
      using nq by (auto simp: k_def)
    have rv: "bit (le_val (rev ?ps)) n \<longleftrightarrow> bit (?ps ! k) r"
      using bit_le_val_nth [of "rev ?ps" n] n len k(2) rev_nth [of q ?ps] nq(3)
      by (simp add: q_def [symmetric] r_def [symmetric])
    have "(\<exists>(i, b) \<in> set (zip [0..<length bs] bs). 56 - 8 * i \<le> n \<and> bit b (n - (56 - 8 * i))) \<longleftrightarrow>
        k < length bs \<and> bit (bs ! k) r" (is "?L \<longleftrightarrow> ?R")
    proof
      assume ?L
      then obtain i where i: "i < length bs" "56 - 8 * i \<le> n" "bit (bs ! i) (n - (56 - 8 * i))"
        by (auto simp: set_zip)
      have "n - (56 - 8 * i) < 8" using i(3) bit_imp_le_length [OF i(3)] by simp
      then have "i = k" using i assms nq unfolding k_def by linarith
      with i k show ?R by simp
    next
      assume ?R
      then have "(k, bs ! k) \<in> set (zip [0..<length bs] bs)"
        unfolding set_zip by (intro CollectI exI [of _ k]) simp
      with \<open>?R\<close> k nq show ?L by (intro bexI [of _ "(k, bs ! k)"]) auto
    qed
    then have "bit (or_bytes bs) n \<longleftrightarrow> k < length bs \<and> bit (bs ! k) r"
      using n by (simp add: or_bytes_def fold_or_bits)
    also have "\<dots> \<longleftrightarrow> bit (?ps ! k) r"
      using k(1) assms by (auto simp: nth_append)
    finally show "bit (or_bytes bs) n = bit (le_val (rev ?ps)) n" using rv by simp
  qed
  moreover have "le_bytes 8 (le_val (rev ?ps)) = rev ?ps"
    using le_bytes_le_val [of "rev ?ps"] len by simp
  ultimately show ?thesis by (simp add: bswap64_def bswap_def port_word_def)
qed

lemma ucast_byte [simp]: "(ucast (ucast (b :: u8) :: u64) :: u8) = b"
  by (rule bit_word_eqI) (auto simp: bit_simps dest: bit_imp_le_length)

lemma get_bytes_run:
  assumes "j_up j"
  shows "\<forall>t<length is. dma_plain io0 (m + of_nat t) \<Longrightarrow>
    dma_get_bytes B vw j d is m io0 =
      (fold (\<lambda>(i, b) d. d OR push_bit (56 - 8 * i) (ucast b)) (zip is (row_bytes io0 m (length is))) d,
       m + of_nat (length is), io0)"
proof (induction "is" arbitrary: d m)
  case (Cons i "is")
  have p: "dma_plain io0 m" using Cons.prems by auto
  have "\<forall>t<length is. dma_plain io0 (m + 1 + of_nat t)"
    using Cons.prems by (auto simp: add.assoc dest: spec [of _ "Suc _"])
  note ih = Cons.IH [OF this]
  have r: "row_bytes io0 m (Suc (length is)) = dma_byte io0 m # row_bytes io0 (m + 1) (length is)"
    unfolding row_bytes_def upt_conv_Cons [OF zero_less_Suc] map_Suc_upt [symmetric]
    by (simp add: o_def add.assoc)
  show ?case
    using assms
    by (simp add: dma_translate_plain [OF p] get_byte_plain [OF p, unfolded One_nat_def] bump_def ih r add.assoc)
qed (simp add: row_bytes_def)

lemma chunk_run:
  assumes "j_up j" "\<not> j_to_host j" "np (dev io0) = Some n" "in_newport (dma_gio_adr (mc (dev io0)))"
    and "\<forall>t<len. dma_plain io0 (m + of_nat t)" "len = min bytes 8"
  shows "dma_chunk N B vw j bytes m io0 =
    (m + of_nat len, put_np (newport_write N (v_icnt vw) (dma_gio_adr (mc (dev io0)) - NEWPORT_BASE)
       (port_word (row_bytes io0 m len)) 8 n) io0)"
proof -
  have "dma_get_bytes B vw j 0 [0..<len] m io0 = (or_bytes (row_bytes io0 m len), m + of_nat len, io0)"
    using get_bytes_run [OF assms(1), of "[0..<len]" io0 m B vw 0] assms(5)
    by (simp add: or_bytes_def row_bytes_def)
  moreover have "bswap64 (or_bytes (row_bytes io0 m len)) = port_word (row_bytes io0 m len)"
    using assms(6) by (intro or_bytes_port_word) (simp add: row_bytes_def)
  ultimately show ?thesis
    using assms by (simp add: dma_chunk_def dma_gio_write64_def)
qed

text \<open>The board after a sequence of words has been written to its port.\<close>

definition port_writes :: "'n np_ops \<Rightarrow> dev_view \<Rightarrow> u32 \<Rightarrow> u64 list \<Rightarrow> 'n \<Rightarrow> 'n" where
  "port_writes N vw gio ws n = fold (\<lambda>w. newport_write N (v_icnt vw) (gio - NEWPORT_BASE) w 8) ws n"

lemma port_writes_append: "port_writes N vw g (xs @ ys) n = port_writes N vw g ys (port_writes N vw g xs n)"
  by (simp add: port_writes_def)

lemma row_words_step:
  assumes "n \<noteq> 0"
  shows "row_words io0 m n = port_word (row_bytes io0 m (min n 8)) # row_words io0 (m + of_nat (min n 8)) (n - 8)"
proof -
  obtain k where n: "n = Suc k" using assms by (cases n) auto
  have "chunks8 (row_bytes io0 m n) = take 8 (row_bytes io0 m n) # chunks8 (drop 8 (row_bytes io0 m n))"
    by (simp add: n row_bytes_def upt_conv_Cons del: upt_Suc)
  moreover have "take 8 (row_bytes io0 m n) = row_bytes io0 m (min n 8)"
    by (rule nth_equalityI) (auto simp: row_bytes_def)
  moreover have "drop 8 (row_bytes io0 m n) = row_bytes io0 (m + of_nat (min n 8)) (n - 8)"
    by (rule nth_equalityI) (auto simp: row_bytes_def add.assoc)
  ultimately show ?thesis by (simp add: row_words_def)
qed

lemma row_run:
  assumes "j_up j" "\<not> j_to_host j" "np (dev io0) = Some n" "in_newport (dma_gio_adr (mc (dev io0)))"
    and "\<forall>t<bytes. dma_plain io0 (m + of_nat t)"
  shows "dma_row N B vw j bytes m io0 =
    (m + of_nat bytes, put_np (port_writes N vw (dma_gio_adr (mc (dev io0))) (row_words io0 m bytes) n) io0)"
  using assms
proof (induction bytes arbitrary: m io0 n rule: less_induct)
  case (less bytes)
  have self: "put_np n io0 = io0" using less.prems(3) by (simp add: put_np_def upd_dev_def)
  show ?case
  proof (cases "bytes = 0")
    case True
    then show ?thesis
      by (subst dma_row.simps) (simp add: row_words_def row_bytes_def port_writes_def self)
  next
    case False
    let ?len = "min bytes 8"
    let ?g = "dma_gio_adr (mc (dev io0))"
    let ?n = "newport_write N (v_icnt vw) (?g - NEWPORT_BASE) (port_word (row_bytes io0 m ?len)) 8 n"
    have c: "dma_chunk N B vw j bytes m io0 = (m + of_nat ?len, put_np ?n io0)"
      using less.prems by (intro chunk_run) auto
    have "dma_row N B vw j (bytes - 8) (m + of_nat ?len) (put_np ?n io0) =
        (m + of_nat ?len + of_nat (bytes - 8),
         put_np (port_writes N vw ?g (row_words io0 (m + of_nat ?len) (bytes - 8)) ?n) io0)"
    proof (subst less.IH)
      show "\<forall>t<bytes - 8. dma_plain (put_np ?n io0) (m + of_nat ?len + of_nat t)"
      proof (intro allI impI)
        fix t assume "t < bytes - 8"
        then have "8 + t < bytes" "?len = 8" by simp_all
        then show "dma_plain (put_np ?n io0) (m + of_nat ?len + of_nat t)"
          using less.prems(5) by (auto simp: add.assoc dest: spec [of _ "8 + t"])
      qed
    qed (use less.prems False in \<open>simp_all add: row_words_def row_bytes_def\<close>)
    moreover have "(of_nat ?len + of_nat (bytes - 8) :: u32) = of_nat bytes"
      by (simp only: of_nat_add [symmetric]) (simp add: min_def)
    ultimately show ?thesis
      using False less.prems(2) by (subst dma_row.simps)
        (simp add: c row_words_step [OF False] port_writes_def add.assoc)
  qed
qed

lemma zooms_run:
  assumes "j_up j" "\<not> j_to_host j" "np (dev io0) = Some n" "in_newport (dma_gio_adr (mc (dev io0)))"
    and "\<forall>t<j_width j. dma_plain io0 (m + of_nat t)"
  shows "dma_zooms N B vw j (Suc z) (j_width j) m io0 =
    (j_width j, m + of_nat (j_width j), put_np (port_writes N vw (dma_gio_adr (mc (dev io0)))
       (concat (replicate (Suc z) (row_words io0 m (j_width j)))) n) io0)"
  using assms
proof (induction z arbitrary: io0 n)
  case 0
  then show ?case using row_run [OF 0] by simp
next
  case (Suc z)
  let ?n = "port_writes N vw (dma_gio_adr (mc (dev io0))) (row_words io0 m (j_width j)) n"
  have w: "row_words (put_np k io0) m' b = row_words io0 m' b" for k m' b
    by (simp add: row_words_def row_bytes_def)
  have "dma_zooms N B vw j (Suc (Suc z)) (j_width j) m io0 = dma_zooms N B vw j (Suc z) (j_width j) m (put_np ?n io0)"
    using row_run [OF Suc.prems] Suc.prems(1) by (subst dma_zooms.simps) simp
  also have "\<dots> = (j_width j, m + of_nat (j_width j), put_np (port_writes N vw (dma_gio_adr (mc (dev io0)))
       (concat (replicate (Suc z) (row_words io0 m (j_width j)))) ?n) io0)"
    using Suc.prems by (subst Suc.IH) (simp_all add: w)
  finally show ?case by (simp add: port_writes_append)
qed

text \<open>The words of a whole transfer: line by line, every line as often as the zoom says, the lines a
  width and a stride apart.\<close>

definition line_adr :: "dma_job \<Rightarrow> u32 \<Rightarrow> nat \<Rightarrow> u32" where
  "line_adr j m l = m + of_nat l * (of_nat (j_width j) + j_stride j)"

definition transfer_words :: "dma_job \<Rightarrow> 'n iio \<Rightarrow> u32 \<Rightarrow> nat \<Rightarrow> u64 list" where
  "transfer_words j io0 m lines =
     concat (map (\<lambda>l. concat (replicate (j_zoom j) (row_words io0 (line_adr j m l) (j_width j)))) [0..<lines])"

lemma line_adr_Suc: "line_adr j m (Suc l) = line_adr j (m + of_nat (j_width j) + j_stride j) l"
  by (simp add: line_adr_def algebra_simps)

lemma transfer_words_Suc:
  "transfer_words j io0 m (Suc l) =
     concat (replicate (j_zoom j) (row_words io0 m (j_width j))) @
     transfer_words j io0 (m + of_nat (j_width j) + j_stride j) l"
  unfolding transfer_words_def upt_conv_Cons [OF zero_less_Suc] map_Suc_upt [symmetric]
  by (simp add: o_def line_adr_Suc) (simp add: line_adr_def)

lemma lines_run:
  assumes "j_up j" "\<not> j_to_host j" "np (dev io0) = Some n" "in_newport (dma_gio_adr (mc (dev io0)))"
    and "\<forall>l<lines. \<forall>t<j_width j. dma_plain io0 (line_adr j m l + of_nat t)" "j_zoom j \<noteq> 0"
  shows "dma_lines N B vw j lines (j_zoom j) (j_width j) m io0 =
    (line_adr j m lines, put_np (port_writes N vw (dma_gio_adr (mc (dev io0))) (transfer_words j io0 m lines) n) io0)"
  using assms
proof (induction lines arbitrary: m io0 n)
  case 0
  then show ?case by (simp add: line_adr_def transfer_words_def port_writes_def put_np_def upd_dev_def)
next
  case (Suc l)
  obtain z where z: "j_zoom j = Suc z" using Suc.prems(6) by (cases "j_zoom j") auto
  let ?g = "dma_gio_adr (mc (dev io0))"
  let ?n = "port_writes N vw ?g (concat (replicate (j_zoom j) (row_words io0 m (j_width j)))) n"
  let ?m = "m + of_nat (j_width j) + j_stride j"
  have "\<forall>t<j_width j. dma_plain io0 (m + of_nat t)"
    using Suc.prems(5) by (auto simp: line_adr_def dest: spec [of _ 0])
  note zr = zooms_run [OF Suc.prems(1-4) this, of N B vw z]
  have w: "transfer_words j (put_np k io0) m' b = transfer_words j io0 m' b" for k m' b
    by (simp add: transfer_words_def row_words_def row_bytes_def)
  have "dma_lines N B vw j (Suc l) (j_zoom j) (j_width j) m io0 =
      dma_lines N B vw j l (j_zoom j) (j_width j) ?m (put_np ?n io0)"
    using zr by (simp add: z)
  also have "\<dots> = (line_adr j ?m l, put_np (port_writes N vw ?g (transfer_words j io0 ?m l) ?n) io0)"
  proof (subst Suc.IH)
    show "\<forall>la<l. \<forall>t<j_width j. dma_plain (put_np ?n io0) (line_adr j ?m la + of_nat t)"
      using Suc.prems(5) by (auto simp: line_adr_Suc [symmetric])
  qed (use Suc.prems in \<open>simp_all add: w\<close>)
  finally show ?case by (simp add: line_adr_Suc transfer_words_Suc port_writes_append)
qed

section \<open>Properties\<close>

lemma np_in_dma_Some: "np (dev io0) = Some n \<Longrightarrow> np_in_dma N on io0 = put_np (set_in_dma N on n) io0"
  by (simp add: np_in_dma_def)

lemma upd_mc_frame [simp]:
  "np (dev (upd_mc f io0)) = np (dev io0)" "mem (upd_mc f io0) = mem io0"
  "mc (dev (upd_mc f io0)) = f (mc (dev io0))" "route_devices (upd_mc f io0) = route_devices io0"
  "uncached (upd_mc f io0) = uncached io0" "hpc (dev (upd_mc f io0)) = hpc (dev io0)"
  by (simp_all add: upd_mc_def upd_dev_def uncached_def)

lemma poke_frame [simp]:
  "dev (poke b io0) = dev io0" "mem (poke b io0) = mem io0" "irq_poke (poke b io0) = (b \<or> irq_poke io0)"
  by (simp_all add: poke_def)

text \<open>C12.  The graphics DMA engine sends the picture the registers describe: for a transfer from memory to
  the Newport port, upwards, with the count registers as the width and zoom registers leave them, the port
  receives exactly the words of the reference, line by line with the zoom applied, each group of eight bytes
  in memory order and the last one zero-padded, every byte fetched through the DMA TLB; memory is unchanged,
  the address register ends behind the last line, the done bit is set, and the interrupt is raised when it is
  enabled.\<close>

theorem graphics_dma_sends_picture:
  fixes io0 :: "'n iio"
  assumes "np (dev io0) = Some n" "c = mc (dev io0)" "j = job_of c" "lines = unat (drop_bit 16 (dma_size c))"
    and "j_up j" "\<not> j_to_host j" "in_newport (dma_gio_adr c)"
    and "drop_bit 16 (dma_count c) AND 0x3ff = drop_bit 16 (dma_stride c) AND 0x3ff" "j_zoom j \<noteq> 0"
    and "dma_count c AND 0xffff = dma_size c AND 0xffff"
    and "\<forall>l<lines. \<forall>t<j_width j. dma_plain io0 (line_adr j (dma_memadr c) l + of_nat t)"
    and "io' = dma_perform N B vw io0"
  shows "np (dev io') = Some (set_in_dma N False
      (port_writes N vw (dma_gio_adr c) (transfer_words j io0 (dma_memadr c) lines) (set_in_dma N True n))) \<and>
    mem io' = mem io0 \<and> dma_memadr (mc (dev io')) = line_adr j (dma_memadr c) lines \<and>
    flag (dma_run (mc (dev io'))) 0x8 \<and>
    (flag (dma_ctl c) 0x10 \<longrightarrow> dma_irq (mc (dev io')) \<and> irq_poke io')"
proof -
  let ?f = "\<lambda>c. c\<lparr>dma_size := dma_size c AND 0x0000ffff, dma_count := 0\<rparr>"
  let ?n = "set_in_dma N True n"
  define io1 where "io1 = upd_mc ?f (put_np ?n io0)"
  have same: "tlb_hit (mc (dev io1)) = tlb_hit c" "pte_addr (mc (dev io1)) = pte_addr c" "mem io1 = mem io0"
    "route_devices io1 = route_devices io0" "uncached io1 = uncached io0"
    by (simp_all add: io1_def fun_eq_iff tlb_hit_def pte_addr_def assms(2))
  have pa: "dma_pa io1 = dma_pa io0"
    by (rule ext) (simp only: dma_pa_def same Let_def assms(2) [symmetric])
  have pl: "dma_plain io1 = dma_plain io0" "dma_byte io1 = dma_byte io0"
    by (rule ext, simp only: dma_plain_def dma_byte_def raw_get_def pa same assms(2) [symmetric])+
  have np1: "np (dev io1) = Some ?n" by (simp add: io1_def)
  have g1: "dma_gio_adr (mc (dev io1)) = dma_gio_adr c" by (simp add: io1_def assms(2))
  have tw: "transfer_words j io1 m l = transfer_words j io0 m l" for m l
    by (simp add: transfer_words_def row_words_def row_bytes_def pl)
  have "dma_lines N B vw j lines (j_zoom j) (j_width j) (dma_memadr c) io1 =
      (line_adr j (dma_memadr c) lines,
       put_np (port_writes N vw (dma_gio_adr c) (transfer_words j io0 (dma_memadr c) lines) ?n) io1)"
    using lines_run [OF assms(5,6) np1, of lines "dma_memadr c" N B vw] assms(7,9,11) by (simp add: pl g1 tw)
  moreover have "unat (drop_bit 16 (dma_count c) AND 0x3ff) = j_zoom j" "unat (dma_count c AND 0xffff) = j_width j"
    using assms(3,8,10) by (simp_all add: job_of_def)
  ultimately have io': "io' = (let io3 = np_in_dma N False
       (put_np (port_writes N vw (dma_gio_adr c) (transfer_words j io0 (dma_memadr c) lines) ?n) io1)
     in poke (flag (dma_ctl (mc (dev io3))) 0x10) (upd_mc (dma_finish (line_adr j (dma_memadr c) lines)) io3))"
    unfolding assms(12) dma_perform_def Let_def np_in_dma_Some [OF assms(1)] assms(2) [symmetric]
      assms(3) [symmetric] assms(4) [symmetric] io1_def [symmetric]
    by simp
  have b8: "flag ((x OR 0x8) AND - 65) 0x8" for x :: u32
    by (rule bit_flagI [of _ 3]) (simp_all add: bit_simps bit_numeral_rec)
  show ?thesis
    unfolding io' Let_def
    by (simp add: np_in_dma_Some dma_finish_def b8 Let_def) (simp add: io1_def assms(2))
qed

text \<open>A board that only records the words written to it.\<close>

definition recorder :: "u64 list np_ops" where
  "recorder = \<lparr>newport_read = (\<lambda>_ _ _ n. (0, n)), newport_write = (\<lambda>_ _ v _ n. n @ [v]),
     newport_vblank = (\<lambda>t n. (t + 1000000, False, n)), set_in_dma = (\<lambda>_ n. n), local1_bits = (\<lambda>_. 0)\<rparr>"

definition picture_io :: "u64 list iio" where
  "picture_io = upd_mc (\<lambda>c. c\<lparr>dma_memadr := 0x08001000, dma_size := 0x0001000c, dma_stride := 0x00020000,
       dma_count := 0x0002000c, dma_mode := 0x10, dma_gio_adr := 0x1f0f0230, dma_ctl := 0x10,
       dma_tlb_hi := (\<lambda>_. 0xffc00000)\<rparr>)
     ((io_init (indy_new None None (Some []) None))
        \<lparr>route_devices := True, mem := put_bytes [1,2,3,4,5,6,7,8,9,10,11,12] (\<lambda>_. 0) 0x08001000\<rparr>)"

lemma picture_regs:
  "np (dev picture_io) = Some []" "dma_memadr (mc (dev picture_io)) = 0x08001000" "dma_gio_adr (mc (dev picture_io)) = 0x1f0f0230"
  "dma_size (mc (dev picture_io)) = 0x0001000c" "dma_stride (mc (dev picture_io)) = 0x00020000"
  "dma_count (mc (dev picture_io)) = 0x0002000c" "dma_mode (mc (dev picture_io)) = 0x10"
  "dma_ctl (mc (dev picture_io)) = 0x10" "dma_tlb_hi (mc (dev picture_io)) = (\<lambda>_. 0xffc00000)"
  "dma_tlb_lo (mc (dev picture_io)) = (\<lambda>_. 0)" "route_devices picture_io" "uncached picture_io"
  "mem picture_io = put_bytes [1,2,3,4,5,6,7,8,9,10,11,12] (\<lambda>_. 0) 0x08001000"
  by (simp_all add: picture_io_def indy_new_def sgi_mc_new_def Let_def) (simp_all add: io_init_def uncached_def)

lemma picture_job:
  "job_of (mc (dev picture_io)) = \<lparr>j_to_host = False, j_fill = False, j_up = True, j_width = 12, j_zoom = 2, j_stride = 0\<rparr>"
  by (simp add: job_of_def picture_regs flag_def DMA_MODE_TO_HOST_def DMA_MODE_FILL_def DMA_MODE_DIR_def)

lemma picture_identity:
  assumes "va < 0x10000000"
  shows "dma_pa picture_io va = va"
proof -
  have "va AND 0xffc00000 \<le> va" by (rule word_and_le2)
  then have "va AND 0xffc00000 < 0x10000000" using assms by (rule le_less_trans)
  then have "\<not> va AND 0xffc00000 = 0xffc00000" by auto
  then show ?thesis by (simp add: dma_pa_def tlb_hit_def picture_regs)
qed

lemma picture_plain:
  assumes "va < 0x10000000"
  shows "dma_plain picture_io va"
proof -
  have "push_bit 2 (drop_bit 12 va) AND 0xffc \<le> (0xffc :: u32)" by (rule word_and_le1)
  then have "unat (push_bit 2 (drop_bit 12 va) AND 0xffc) \<le> 0xffc" by (simp only: word_le_nat_alt) simp
  then have "push_bit 2 (drop_bit 12 (va AND 0x003ff000)) < (0x1f000000 :: u32)"
    unfolding word_less_nat_alt by simp
  then show ?thesis
    using assms
    by (simp add: dma_plain_def picture_identity picture_regs pte_addr_def in_device_window_def word_less_nat_alt word_le_nat_alt)
qed

lemma picture_words:
  "transfer_words (job_of (mc (dev picture_io))) picture_io 0x08001000 1 =
     [0x0807060504030201, 0x0c0b0a09, 0x0807060504030201, 0x0c0b0a09]"
proof -
  have "[0..<12] = [0, 1, 2, 3, 4, 5, 6, 7, 8, 9, 10, 11]" by (simp add: upt_conv_Cons)
  then have "row_bytes picture_io 0x08001000 12 = [1,2,3,4,5,6,7,8,9,10,11,12]"
    by (simp add: row_bytes_def dma_byte_def picture_identity raw_get_def picture_regs
      get_raw_ptr_def mc_alias_def)
  then have "row_words picture_io 0x08001000 12 = [0x0807060504030201, 0x0c0b0a09]"
    unfolding row_words_def by (simp only:) code_simp
  then show ?thesis
    by (simp add: transfer_words_def picture_job line_adr_def numeral_2_eq_2)
qed

theorem graphics_dma_sends_picture_witness:
  "np (dev (dma_perform recorder no_bus \<lparr>v_icnt = 0, v_count = 0\<rparr> picture_io)) =
     Some [0x0807060504030201, 0x0c0b0a09, 0x0807060504030201, 0x0c0b0a09]"
proof -
  have p: "\<forall>l<1. \<forall>t<j_width (job_of (mc (dev picture_io))).
      dma_plain picture_io (line_adr (job_of (mc (dev picture_io))) 0x08001000 l + of_nat t)"
  proof (intro allI impI)
    fix l t :: nat assume "l < 1" "t < j_width (job_of (mc (dev picture_io)))"
    then show "dma_plain picture_io (line_adr (job_of (mc (dev picture_io))) 0x08001000 l + of_nat t)"
      by (intro picture_plain) (simp add: picture_job line_adr_def word_less_nat_alt unat_word_ariths unat_of_nat)
  qed
  from graphics_dma_sends_picture [OF picture_regs(1) refl refl refl, of _ recorder no_bus "\<lparr>v_icnt = 0, v_count = 0\<rparr>"] p
  show ?thesis
    by (simp add: picture_regs picture_job in_newport_def NEWPORT_BASE_def NEWPORT_SIZE_def picture_words [unfolded picture_job One_nat_def])
      (simp add: recorder_def port_writes_def)
qed

end
