(* ===== verification/HPC.thy ===== *)
theory HPC
  imports Indy_State MC
begin

text \<open>
  The peripheral controller HPC3 with the IOC2 interrupt controller (src/sgi_hpc.cc): the
  descriptor-walk engines of SCSI and Ethernet DMA, the timer that calibrates the CPU clock,
  the interrupt status registers with their live inputs, and the register decoder.

  A descriptor chain is walked with fuel (\<open>chain_fuel\<close>): a chain in guest memory need not end,
  and the program then hangs; the walk sets \<open>halted\<close> when the fuel is used up.  The lemmas show
  how much fuel a chain that ends needs.  The debug output of the environment knobs is left out.
\<close>

section \<open>Timer\<close>

definition T2_RATIO :: u32 where "T2_RATIO = 50"

definition t2_value :: "dev_view \<Rightarrow> sgi_hpc \<Rightarrow> u16" where
  "t2_value vw h =
     (let elapsed = ucast (ucast (v_count vw) - t2_count_at_load h) :: u32; dc = elapsed div T2_RATIO
      in if t2_load h \<le> dc then 0 else ucast (t2_load h - dc))"

section \<open>SCSI DMA\<close>

definition sdma :: "bool \<Rightarrow> 'n iio \<Rightarrow> scsi_dma_t" where
  "sdma ch io0 = scsi_dma (hpc (dev io0)) ch"

definition upd_sdma :: "bool \<Rightarrow> (scsi_dma_t \<Rightarrow> scsi_dma_t) \<Rightarrow> 'n iio \<Rightarrow> 'n iio" where
  "upd_sdma ch f = upd_hpc (\<lambda>h. h\<lparr>scsi_dma := (scsi_dma h)(ch := f (scsi_dma h ch))\<rparr>)"

definition scsi_fetch_chain :: "bool \<Rightarrow> 'n iio \<Rightarrow> 'n iio" where
  "scsi_fetch_chain ch io0 =
     (let desc = nbdp (sdma ch io0); b = rd_be32 (desc + 4) io0 in
      upd_sdma ch (\<lambda>d. d\<lparr>cbp := rd_be32 desc io0, bc := b, nbdp := rd_be32 (desc + 8) io0,
                         count := b AND 0x3fff\<rparr>) io0)"

definition spec_fill_io :: "u32 \<Rightarrow> 'd io \<Rightarrow> 'd io" where
  "spec_fill_io pa io0 =
     (case g_cmodel io0 of
        None \<Rightarrow> io0
      | Some c \<Rightarrow> (let (c', m') = spec_fill (route_devices io0) pa (c, mem io0)
                    in io0\<lparr>g_cmodel := Some c', mem := m'\<rparr>))"

definition snoop_inval_io :: "u32 \<Rightarrow> 'd io \<Rightarrow> 'd io" where
  "snoop_inval_io pa io0 =
     (case g_cmodel io0 of None \<Rightarrow> io0 | Some c \<Rightarrow> io0\<lparr>g_cmodel := Some (snoop_inval pa c)\<rparr>)"

text \<open>One byte between memory and the WD33C93.\<close>

definition scsi_move :: "indy_env \<Rightarrow> bool \<Rightarrow> sgi_scsi \<Rightarrow> 'n iio \<Rightarrow> 'n iio" where
  "scsi_move V ch c io0 =
     (let pa = cbp (sdma ch io0) in
      if to_device (sdma ch io0) then put_scsi (scsi_dma_w (raw_get pa io0) c) io0
      else
        (let io1 = (if SPEC_DMA V then spec_fill_io pa io0 else io0);
             (b, c') = scsi_dma_r c;
             io2 = raw_put pa b (put_scsi c' io1)
         in if COHERENT_DMA V then snoop_inval_io pa io2 else io2))"

primrec scsi_xfer :: "indy_env \<Rightarrow> bool \<Rightarrow> nat \<Rightarrow> 'n iio \<Rightarrow> 'n iio" where
  "scsi_xfer V ch 0 io0 = io0"
| "scsi_xfer V ch (Suc n) io0 =
     (case scsi (dev io0) of
        None \<Rightarrow> io0
      | Some c \<Rightarrow>
          if drq c
          then scsi_xfer V ch n
                 (upd_sdma ch (\<lambda>d. d\<lparr>cbp := cbp d + 1, count := count d - 1\<rparr>) (scsi_move V ch c io0))
          else io0)"

definition chan_irq :: "bool \<Rightarrow> u32" where
  "chan_irq ch = (if ch then 0x200 else 0x100)"

definition pause_if_residual :: "'n iio \<Rightarrow> 'n iio" where
  "pause_if_residual io0 =
     (case scsi (dev io0) of
        None \<Rightarrow> io0
      | Some c \<Rightarrow> if 0 < residual c then put_scsi (pause_transfer c) io0 else io0)"

text \<open>One iteration of the loop, with the flag \<^verbatim>\<open>progress\<close>.\<close>

definition scsi_fsm_step :: "indy_env \<Rightarrow> bool \<Rightarrow> 'n iio \<Rightarrow> bool \<times> 'n iio" where
  "scsi_fsm_step V ch io0 =
     (let d = sdma ch io0 in
      case ch_state d of
        CH_IDLE \<Rightarrow> (False, io0)
      | CH_FETCH \<Rightarrow> (True, upd_sdma ch (\<lambda>d. d\<lparr>ch_state := CH_XFER\<rparr>) (scsi_fetch_chain ch io0))
      | CH_XFER \<Rightarrow>
          (let io1 = scsi_xfer V ch (unat (count d)) io0 in
           if count (sdma ch io1) = 0
           then (True, upd_sdma ch (\<lambda>d. d\<lparr>ch_state := CH_DESC_DONE\<rparr>) io1) else (False, io1))
      | CH_DESC_DONE \<Rightarrow>
          (let io1 = (if flag (bc d) 0x20000000
                      then upd_hpc (\<lambda>h. h\<lparr>intstat := intstat h OR chan_irq ch\<rparr>) io0 else io0)
           in if flag (bc d) 0x80000000
              then (True, upd_sdma ch (\<lambda>d. d\<lparr>active := False, d_ctrl := d_ctrl d AND NOT 0x10, ch_state := CH_IDLE\<rparr>)
                            (pause_if_residual io1))
              else (True, upd_sdma ch (\<lambda>d. d\<lparr>ch_state := CH_FETCH\<rparr>) io1)))"

primrec scsi_run_loop :: "indy_env \<Rightarrow> bool \<Rightarrow> nat \<Rightarrow> 'n iio \<Rightarrow> 'n iio" where
  "scsi_run_loop V ch 0 io0 = (if active (sdma ch io0) then halt io0 else io0)"
| "scsi_run_loop V ch (Suc n) io0 =
     (if active (sdma ch io0)
      then (let (progress, io1) = scsi_fsm_step V ch io0
            in if progress then scsi_run_loop V ch n io1 else io1)
      else io0)"

definition scsi_run_dma :: "indy_env \<Rightarrow> bool \<Rightarrow> 'n iio \<Rightarrow> 'n iio" where
  "scsi_run_dma V ch io0 = scsi_run_loop V ch (chain_fuel V) io0"

section \<open>Ethernet DMA\<close>

definition HPCDMA_EOX :: u32 where "HPCDMA_EOX = 0x80000000"
definition HPCDMA_EOR :: u32 where "HPCDMA_EOR = 0x80000000"
definition HPCDMA_XIE :: u32 where "HPCDMA_XIE = 0x20000000"
definition HPCDMA_ETXD :: u32 where "HPCDMA_ETXD = 0x00008000"
definition HPCDMA_OWN :: u32 where "HPCDMA_OWN = 0x00004000"
definition HPCDMA_BCNT :: u32 where "HPCDMA_BCNT = 0x00003fff"

definition edma :: "bool \<Rightarrow> 'n iio \<Rightarrow> scsi_dma_t" where
  "edma ch io0 = enet_dma (hpc (dev io0)) ch"

definition upd_edma :: "bool \<Rightarrow> (scsi_dma_t \<Rightarrow> scsi_dma_t) \<Rightarrow> 'n iio \<Rightarrow> 'n iio" where
  "upd_edma ch f = upd_hpc (\<lambda>h. h\<lparr>enet_dma := (enet_dma h)(ch := f (enet_dma h ch))\<rparr>)"

definition upd_seeq :: "(sgi_seeq \<Rightarrow> sgi_seeq) \<Rightarrow> 'n iio \<Rightarrow> 'n iio" where
  "upd_seeq f io0 = (case seeq (dev io0) of None \<Rightarrow> io0 | Some e \<Rightarrow> put_seeq (f e) io0)"

definition packet_end :: "u32 \<Rightarrow> bool" where
  "packet_end cntinfo = flag cntinfo (HPCDMA_EOX OR 0x40000000)"

text \<open>The bytes \<^verbatim>\<open>pbuf .. pbuf + n - 1\<close> of guest memory.\<close>

definition raw_bytes :: "u32 \<Rightarrow> nat \<Rightarrow> 'd io \<Rightarrow> u8 list" where
  "raw_bytes pbuf n io0 = map (\<lambda>i. raw_get (pbuf + of_nat i) io0) [0..<n]"

text \<open>The write-back of the descriptor: the head is remembered, and with \<^verbatim>\<open>ENET_HEADETXD\<close> it is
  marked only when its packet ends.\<close>

definition tx_writeback :: "indy_env \<Rightarrow> u32 \<Rightarrow> u32 \<Rightarrow> 'n iio \<Rightarrow> 'n iio" where
  "tx_writeback V desc cntinfo io0 =
     (let io1 = (if s_head (hpc (dev io0)) = 0 then upd_hpc (\<lambda>h. h\<lparr>s_head := desc\<rparr>) io0 else io0);
          head = s_head (hpc (dev io1));
          io2 = (if \<not> g_headetxd V \<or> desc \<noteq> head
                 then wr_be32 (desc + 4) (cntinfo OR HPCDMA_ETXD) io1 else io1)
      in if packet_end cntinfo
         then upd_hpc (\<lambda>h. h\<lparr>s_head := 0\<rparr>)
                (if g_headetxd V then wr_be32 (head + 4) (rd_be32 (head + 4) io2 OR HPCDMA_ETXD) io2 else io2)
         else io2)"

text \<open>One descriptor of the transmit chain; the flag says whether the loop goes on.\<close>

definition enet_tx_desc :: "indy_env \<Rightarrow> 'n iio \<Rightarrow> bool \<times> 'n iio" where
  "enet_tx_desc V io0 =
     (let desc = nbdp (edma True io0); pbuf = rd_be32 desc io0; cntinfo = rd_be32 (desc + 4) io0;
          pnext = rd_be32 (desc + 8) io0; cnt = unat (cntinfo AND HPCDMA_BCNT);
          io1 = (if \<not> g_tx_crbdp_armlike V \<and> (\<not> g_crbdp_pkt V \<or> \<not> s_pkt_open (hpc (dev io0)))
                 then upd_hpc (\<lambda>h. h\<lparr>enet_tx_crbdp := desc\<rparr>) io0 else io0);
          io2 = upd_hpc (\<lambda>h. h\<lparr>s_pkt_open := \<not> packet_end cntinfo\<rparr>) io1;
          io3 = upd_seeq (fold tx_dma_w (raw_bytes pbuf cnt io2)) io2;
          io4 = tx_writeback V desc cntinfo io3;
          io5 = (if flag cntinfo HPCDMA_XIE then upd_hpc (\<lambda>h. h\<lparr>intstat := intstat h OR 0x800\<rparr>) io4 else io4);
          io6 = upd_edma True (\<lambda>d. d\<lparr>cbp := pbuf, nbdp := pnext\<rparr>) io5
      in if flag cntinfo HPCDMA_EOX
         then (let io7 = upd_seeq tx_flush io6;
                   io8 = (if g_tx_crbdp_armlike V then upd_hpc (\<lambda>h. h\<lparr>enet_tx_crbdp := pnext\<rparr>) io7 else io7)
               in (False, if g_tx_lat V = 0 then upd_edma True (\<lambda>d. d\<lparr>active := False\<rparr>) io8
                          else upd_hpc (\<lambda>h. h\<lparr>enet_tx_hold := g_tx_lat V\<rparr>) io8))
         else (g_tx_lat V = 0, io6))"

primrec enet_tx_loop :: "indy_env \<Rightarrow> nat \<Rightarrow> 'n iio \<Rightarrow> 'n iio" where
  "enet_tx_loop V 0 io0 = (if active (edma True io0) then halt io0 else io0)"
| "enet_tx_loop V (Suc n) io0 =
     (if active (edma True io0)
      then (let (go, io1) = enet_tx_desc V io0 in if go then enet_tx_loop V n io1 else io1)
      else io0)"

text \<open>The inner loop of reception: bytes of the staged stream into the buffer, at most n.\<close>

primrec rx_fill :: "nat \<Rightarrow> u32 \<Rightarrow> nat \<Rightarrow> 'n iio \<Rightarrow> nat \<times> 'n iio" where
  "rx_fill 0 pbuf written io0 = (written, io0)"
| "rx_fill (Suc n) pbuf written io0 =
     (case seeq (dev io0) of
        None \<Rightarrow> (written, io0)
      | Some e \<Rightarrow>
          (let (av, e1) = rx_avail e in
           if \<not> av then (written, put_seeq e1 io0)
           else (let ((b, last), e2) = rx_dma_r e1;
                     io1 = raw_put (pbuf + of_nat written) b (put_seeq e2 io0)
                 in if last then (Suc written, io1) else rx_fill n pbuf (Suc written) io1)))"

definition rx_ready :: "'n iio \<Rightarrow> bool \<times> 'n iio" where
  "rx_ready io0 =
     (case seeq (dev io0) of
        None \<Rightarrow> (False, io0)
      | Some e \<Rightarrow> (let (av, e1) = rx_avail e in (av, put_seeq e1 io0)))"

definition enet_rx_desc :: "'n iio \<Rightarrow> bool \<times> 'n iio" where
  "enet_rx_desc io0 =
     (let desc = nbdp (edma False io0); cntinfo = rd_be32 (desc + 4) io0 in
      if \<not> flag cntinfo HPCDMA_OWN then (False, io0)
      else
        (let io1 = upd_hpc (\<lambda>h. h\<lparr>enet_crbdp := desc\<rparr>) io0;
             pbuf = rd_be32 desc io1; pnext = rd_be32 (desc + 8) io1;
             bufsz = unat (cntinfo AND HPCDMA_BCNT);
             (written, io2) = rx_fill bufsz pbuf 0 io1;
             resid = of_nat (bufsz - written) :: u32;
             io3 = wr_be32 (desc + 4)
                     ((cntinfo AND NOT HPCDMA_OWN AND NOT HPCDMA_BCNT) OR (resid AND HPCDMA_BCNT)) io2;
             io4 = (if flag cntinfo HPCDMA_XIE then upd_hpc (\<lambda>h. h\<lparr>intstat := intstat h OR 0x400\<rparr>) io3 else io3);
             io5 = upd_edma False (\<lambda>d. d\<lparr>cbp := pbuf, nbdp := pnext\<rparr>) io4
         in (\<not> flag cntinfo HPCDMA_EOR, io5)))"

primrec enet_rx_loop :: "nat \<Rightarrow> 'n iio \<Rightarrow> 'n iio" where
  "enet_rx_loop 0 io0 = (if active (edma False io0) then halt io0 else io0)"
| "enet_rx_loop (Suc n) io0 =
     (if active (edma False io0)
      then (let (av, io1) = rx_ready io0 in
            if \<not> av then io1
            else (let (go, io2) = enet_rx_desc io1 in if go then enet_rx_loop n io2 else io2))
      else io0)"

definition enet_run_dma :: "indy_env \<Rightarrow> bool \<Rightarrow> 'n iio \<Rightarrow> 'n iio" where
  "enet_run_dma V ch io0 =
     (if seeq (dev io0) = None then io0
      else if ch
      then (let io1 = enet_tx_loop V (chain_fuel V) io0 in
            if active (edma True io1) then io1
            else upd_edma True (\<lambda>d. d\<lparr>d_ctrl := d_ctrl d AND NOT 0x200\<rparr>) io1)
      else enet_rx_loop (chain_fuel V) io0)"

definition hpc_enet_poll :: "indy_env \<Rightarrow> 'n iio \<Rightarrow> 'n iio" where
  "hpc_enet_poll V io0 =
     (if seeq (dev io0) = None then io0
      else
        (let io1 = upd_hpc (\<lambda>h. h\<lparr>enet_poll_ctr := enet_poll_ctr h + 1\<rparr>) io0 in
         if enet_poll_ctr (hpc (dev io1)) AND 0x3ff \<noteq> 0 then io1
         else
           (let io2 = upd_seeq seeq_poll io1;
                io3 = (if active (edma False io2) then enet_run_dma V False io2 else io2)
            in if g_tx_lat V \<noteq> 0 \<and> active (edma True io3)
               then (if enet_tx_hold (hpc (dev io3)) \<noteq> 0
                     then (let io4 = upd_hpc (\<lambda>h. h\<lparr>enet_tx_hold := enet_tx_hold h - 1\<rparr>) io3
                           in if enet_tx_hold (hpc (dev io4)) = 0
                              then upd_edma True (\<lambda>d. d\<lparr>active := False, d_ctrl := d_ctrl d AND NOT 0x200\<rparr>) io4
                              else io4)
                     else enet_run_dma V True io3)
               else io3)))"

section \<open>Interrupt controller\<close>

definition set_if :: "bool \<Rightarrow> u8 \<Rightarrow> u8 \<Rightarrow> u8" where
  "set_if b m st = (if b then st OR m else st AND NOT m)"

definition ioc2_vmeistat_live :: "'n indy \<Rightarrow> u8" where
  "ioc2_vmeistat_live d =
     (if scc_int_pending (scc d) then 0x20 else 0)
     OR (case ps2 d of None \<Rightarrow> 0 | Some k \<Rightarrow> if ps2_irq k then 0x10 else 0)"

definition scsi_intrq :: "'n indy \<Rightarrow> bool" where
  "scsi_intrq d = (case scsi d of None \<Rightarrow> False | Some c \<Rightarrow> intrq c)"

definition ioc2_local0_live :: "'n indy \<Rightarrow> u8" where
  "ioc2_local0_live d =
     (let st0 = ioc2_local_status (hpc d) False;
          st1 = set_if (scsi_intrq d) 0x02 st0;
          st2 = set_if (flag (intstat (hpc d)) 0xc00) 0x08 st1;
          st3 = (if dma_irq (mc d) then st2 OR 0x10 else st2)
      in set_if (flag (ioc2_vmeistat_live d) (ioc2_cmeimask (hpc d) False)) 0x80 st3)"

definition ioc2_local1_live :: "'n np_ops \<Rightarrow> 'n indy \<Rightarrow> u8" where
  "ioc2_local1_live N d =
     (let st = ioc2_local_status (hpc d) True OR (case np d of None \<Rightarrow> 0 | Some n \<Rightarrow> local1_bits N n)
      in if ioc2_cmeimask (hpc d) True \<noteq> 0 \<and> flag (ioc2_vmeistat_live d) (ioc2_cmeimask (hpc d) True)
         then st OR 0x08 else st)"

definition hpc_ip2_pending :: "'n indy \<Rightarrow> bool" where
  "hpc_ip2_pending d = flag (ioc2_local0_live d) (ioc2_local_mask (hpc d) False)"

definition hpc_ip3_pending :: "'n np_ops \<Rightarrow> 'n indy \<Rightarrow> bool" where
  "hpc_ip3_pending N d \<longleftrightarrow>
     ioc2_local_mask (hpc d) True \<noteq> 0 \<and> flag (ioc2_local1_live N d) (ioc2_local_mask (hpc d) True)"

section \<open>Reads\<close>

definition bcd :: "nat \<Rightarrow> u8" where
  "bcd n = of_nat ((n div 10) * 16 + n mod 10)"

definition hi_byte :: "u8 \<Rightarrow> u32" where
  "hi_byte v = push_bit 24 (ucast v)"

definition rtc_read :: "indy_env \<Rightarrow> u64 \<Rightarrow> u32 \<Rightarrow> u8" where
  "rtc_read V icnt offs =
     (if DETTIME V
      then (if offs = 0x60018 \<or> offs = 0x60020 \<or> offs = 0x60024 then 0x01
            else if offs = 0x60028 then 0x90 else 0x00)
      else
        (let lt = host_time V icnt in
         if offs = 0x60004 then bcd (tm_sec lt)
         else if offs = 0x60008 then bcd (tm_min lt)
         else if offs = 0x60010 then bcd (tm_hour lt)
         else if offs = 0x60018 then bcd (tm_wday lt + 1)
         else if offs = 0x60020 then bcd (tm_mday lt)
         else if offs = 0x60024 then bcd (tm_mon lt + 1)
         else if offs = 0x60028 then bcd (tm_year lt mod 100)
         else 0x00))"

definition mac_addr :: "u8 list" where
  "mac_addr = [0x08, 0x00, 0x69, 0x12, 0x34, 0x56]"

definition dma_count_reg :: "scsi_dma_t \<Rightarrow> u32" where
  "dma_count_reg d = (count d AND 0x3fff) OR (bc d AND NOT 0x3fff)"

definition scsi_reg_read :: "bool \<Rightarrow> u32 \<Rightarrow> 'n iio \<Rightarrow> u32 \<times> 'n iio" where
  "scsi_reg_read ch n io0 =
     (let d = sdma ch io0 in
      if n = 0x10000 then (cbp d, io0)
      else if n = 0x10004 then (nbdp d, io0)
      else if n = 0x11000 then (dma_count_reg d, io0)
      else if n = 0x11004
      then (if flag (intstat (hpc (dev io0))) (chan_irq ch)
            then (d_ctrl d OR 0x01, upd_hpc (\<lambda>h. h\<lparr>intstat := intstat h AND NOT (chan_irq ch)\<rparr>) io0)
            else (d_ctrl d, io0))
      else if n = 0x11010 then (dmacfg d, io0)
      else if n = 0x11014 then (piocfg d, io0)
      else (0, io0))"

definition enet_reg_read :: "bool \<Rightarrow> u32 \<Rightarrow> 'n indy \<Rightarrow> u32" where
  "enet_reg_read ch n d0 =
     (let d = enet_dma (hpc d0) ch in
      if n = 0x14000 then cbp d
      else if n = 0x14004 then nbdp d
      else if n = 0x15000 then dma_count_reg d
      else if n = 0x15004
      then (d_ctrl d AND 0x200)
             OR (case seeq d0 of None \<Rightarrow> 0 | Some e \<Rightarrow> ucast (if ch then tx_stat e else rx_stat e))
      else if n = 0x15014 then (if flag (intstat (hpc d0)) 0xc00 then 0x2 else 0x0)
      else if n = 0x15018 then dmacfg d
      else if n = 0x18000 \<or> n = 0x18004
      then (if ch then enet_tx_crbdp (hpc d0) else if n = 0x18000 then enet_crbdp (hpc d0) else 0)
      else 0)"

definition hpc_read_impl :: "indy_env \<Rightarrow> 'n np_ops \<Rightarrow> dev_view \<Rightarrow> u32 \<Rightarrow> nat \<Rightarrow> 'n iio \<Rightarrow> u32 \<times> 'n iio" where
  "hpc_read_impl V N vw offs sz io0 =
     (let d = dev io0; h = hpc d in
      if offs = 0x598bb
      then (ucast (if t2_rd_phase h then ucast (drop_bit 8 (t2_latch h)) else ucast (t2_latch h) :: u8),
            upd_hpc (\<lambda>h. h\<lparr>t2_rd_phase := \<not> t2_rd_phase h\<rparr>) io0)
      else if offs \<le> 0xffff then (0, io0)
      else if 0x10000 \<le> offs \<and> offs \<le> 0x13fff
      then (let (r, io1) = scsi_reg_read (flag offs 0x2000) (offs AND NOT 0x2000) io0 in (bswap32 r, io1))
      else if 0x14000 \<le> offs \<and> offs \<le> 0x1ffff
      then (bswap32 (enet_reg_read (flag offs 0x2000) (offs AND NOT 0x2000) d), io0)
      else if 0x54000 \<le> offs \<and> offs \<le> 0x5401f
      then (case seeq d of
              None \<Rightarrow> (0, io0)
            | Some e \<Rightarrow> (let (v, e') = seeq_pio_r (drop_bit 2 (offs - 0x54000) AND 7) e
                          in (if sz = 1 then ucast v else hi_byte v, put_seeq e' io0)))
      else if 0x40000 \<le> offs \<and> offs \<le> 0x47fff
      then (case scsi d of
              None \<Rightarrow> (0, io0)
            | Some c \<Rightarrow> (let (v, c') = scsi_pio_r (drop_bit 2 (offs - 0x40000) AND 1) c
                          in (ucast v, put_scsi c' io0)))
      else if offs = 0x30000 then (intstat h, io0)
      else if offs = 0x30004 then (misc h, io0)
      else if offs = 0x59858 then (0x26000000, io0)
      else if offs = 0x59883 then (ucast (ioc2_local0_live d), io0)
      else if offs = 0x59887 then (ucast (ioc2_local_mask h False), io0)
      else if offs = 0x5988b then (ucast (ioc2_local1_live N d), io0)
      else if offs = 0x5988f then (ucast (ioc2_local_mask h True), io0)
      else if offs = 0x59893 then (ucast (ioc2_vmeistat_live d), io0)
      else if offs = 0x59897 then (ucast (ioc2_cmeimask h False), io0)
      else if offs = 0x5989b then (ucast (ioc2_cmeimask h True), io0)
      else if offs = 0x5989f then (ucast (ioc2_cmepol h), io0)
      else if 0x60000 \<le> offs \<and> offs \<le> 0x6002f then (hi_byte (rtc_read V (v_icnt vw) offs), io0)
      else if 0x604e8 \<le> offs \<and> offs \<le> 0x604fc \<and> offs AND 3 = 0
      then (hi_byte (mac_addr ! unat (drop_bit 2 (offs - 0x604e8))), io0)
      else (0, io0))"

definition ps2_window :: "u32 \<Rightarrow> bool" where
  "ps2_window offs \<longleftrightarrow> offs AND NOT 7 = 0x59840"

definition sgi_hpc_read :: "indy_env \<Rightarrow> 'n np_ops \<Rightarrow> dev_view \<Rightarrow> u32 \<Rightarrow> nat \<Rightarrow> 'n iio \<Rightarrow> u32 \<times> 'n iio" where
  "sgi_hpc_read V N vw offs sz io0 =
     (case ps2 (dev io0) of
        Some k \<Rightarrow>
          if ps2_window offs
          then (let (v, k') = ps2_read (flag offs 4) k
                in (if sz = 1 then ucast v else hi_byte v, put_ps2 k' io0))
          else hpc_read_impl V N vw offs sz io0
      | None \<Rightarrow> hpc_read_impl V N vw offs sz io0)"

section \<open>Writes\<close>

text \<open>The control register of a SCSI DMA channel: write-protect, direction, start, reset, flush, and
  the run of an active channel.\<close>

definition scsi_ctrl_bits :: "u32 \<Rightarrow> scsi_dma_t \<Rightarrow> scsi_dma_t" where
  "scsi_ctrl_bits x d =
     (let was_active = active d;
          d1 = (if flag x 0x20
                then d\<lparr>d_ctrl := (x AND NOT 0x01 AND NOT 0x10 AND NOT 0x20) OR (if was_active then 0x10 else 0)\<rparr>
                else d\<lparr>d_ctrl := x AND NOT 0x01 AND NOT 0x20, active := flag (x AND NOT 0x01 AND NOT 0x20) 0x10\<rparr>);
          d2 = d1\<lparr>to_device := flag (d_ctrl d1) 0x04\<rparr>
      in if \<not> was_active \<and> active d2 then d2\<lparr>ch_state := CH_FETCH\<rparr> else d2)"

definition scsi_ctrl_write :: "indy_env \<Rightarrow> bool \<Rightarrow> u32 \<Rightarrow> 'n iio \<Rightarrow> 'n iio" where
  "scsi_ctrl_write V ch x io0 =
     (let io1 = upd_sdma ch (scsi_ctrl_bits x) io0;
          io2 = (case scsi (dev io1) of
                   Some c \<Rightarrow> if flag x 0x40 then put_scsi (scsi_reset c) io1 else io1
                 | None \<Rightarrow> io1);
          io3 = (if flag x 0x08
                 then upd_sdma ch (\<lambda>d. d\<lparr>active := False, d_ctrl := d_ctrl d AND NOT 0x10, ch_state := CH_IDLE\<rparr>) io2
                 else io2)
      in if active (sdma ch io3) then scsi_run_dma V ch io3 else io3)"

definition scsi_reg_write :: "indy_env \<Rightarrow> bool \<Rightarrow> u32 \<Rightarrow> u32 \<Rightarrow> 'n iio \<Rightarrow> 'n iio" where
  "scsi_reg_write V ch n x io0 =
     (if n = 0x10004 then upd_sdma ch (\<lambda>d. d\<lparr>nbdp := x\<rparr>) io0
      else if n = 0x11000 then upd_sdma ch (\<lambda>d. d\<lparr>bc := x\<rparr>) io0
      else if n = 0x11010 then upd_sdma ch (\<lambda>d. d\<lparr>dmacfg := x\<rparr>) io0
      else if n = 0x11014 then upd_sdma ch (\<lambda>d. d\<lparr>piocfg := x\<rparr>) io0
      else if n = 0x11004 then scsi_ctrl_write V ch x io0
      else io0)"

definition enet_ctrl_write :: "indy_env \<Rightarrow> bool \<Rightarrow> u32 \<Rightarrow> 'n iio \<Rightarrow> 'n iio" where
  "enet_ctrl_write V ch x io0 =
     (let was_active = active (edma ch io0);
          io1 = upd_edma ch (\<lambda>d. d\<lparr>d_ctrl := x, active := flag x 0x200\<rparr>) io0;
          io2 = (if ch \<and> active (edma ch io1) \<noteq> was_active then upd_hpc (\<lambda>h. h\<lparr>enet_tx_hold := 0\<rparr>) io1 else io1)
      in if active (edma ch io2) \<and> \<not> was_active then enet_run_dma V ch io2 else io2)"

definition clear_enet_irq :: "'n iio \<Rightarrow> 'n iio" where
  "clear_enet_irq = upd_hpc (\<lambda>h. h\<lparr>intstat := intstat h AND NOT 0xc00\<rparr>)"

definition enet_reset_write :: "u32 \<Rightarrow> 'n iio \<Rightarrow> 'n iio" where
  "enet_reset_write x io0 =
     (let io1 = (if flag x 0x2 then clear_enet_irq io0 else io0) in
      if flag x 0x1
      then upd_seeq seeq_reset (clear_enet_irq
             (upd_edma True (\<lambda>d. d\<lparr>active := False, d_ctrl := 0\<rparr>)
             (upd_edma False (\<lambda>d. d\<lparr>active := False, d_ctrl := 0\<rparr>) io1)))
      else io1)"

definition enet_reg_write :: "indy_env \<Rightarrow> bool \<Rightarrow> u32 \<Rightarrow> u32 \<Rightarrow> 'n iio \<Rightarrow> 'n iio" where
  "enet_reg_write V ch n x io0 =
     (if n = 0x14000 then upd_edma ch (\<lambda>d. d\<lparr>cbp := x\<rparr>) io0
      else if n = 0x14004 then upd_edma ch (\<lambda>d. d\<lparr>nbdp := x\<rparr>) io0
      else if n = 0x15000 then upd_edma ch (\<lambda>d. d\<lparr>bc := x\<rparr>) io0
      else if n = 0x15018 then upd_edma ch (\<lambda>d. d\<lparr>dmacfg := x\<rparr>) io0
      else if n = 0x18000 then upd_hpc (\<lambda>h. h\<lparr>enet_crbdp := x\<rparr>) io0
      else if n = 0x15004 then enet_ctrl_write V ch x io0
      else if n = 0x15014 then enet_reset_write x io0
      else io0)"

definition t2_control_write :: "dev_view \<Rightarrow> u32 \<Rightarrow> sgi_hpc \<Rightarrow> sgi_hpc" where
  "t2_control_write vw x h =
     (if drop_bit 4 x AND 0x3 = 0 then h\<lparr>t2_latch := t2_value vw h, t2_rd_phase := False\<rparr>
      else h\<lparr>t2_loading := True, t2_wr_phase := False\<rparr>)"

definition t2_load_write :: "dev_view \<Rightarrow> u32 \<Rightarrow> sgi_hpc \<Rightarrow> sgi_hpc" where
  "t2_load_write vw x h =
     (if \<not> t2_loading h then h
      else if \<not> t2_wr_phase h then h\<lparr>t2_load := (t2_load h AND 0xff00) OR (x AND 0xff), t2_wr_phase := True\<rparr>
      else h\<lparr>t2_load := (t2_load h AND 0x00ff) OR push_bit 8 (x AND 0xff), t2_wr_phase := False,
             t2_loading := False, t2_count_at_load := ucast (v_count vw)\<rparr>)"

definition hpc_write_impl :: "indy_env \<Rightarrow> dev_view \<Rightarrow> u32 \<Rightarrow> u32 \<Rightarrow> nat \<Rightarrow> 'n iio \<Rightarrow> 'n iio" where
  "hpc_write_impl V vw offs x sz io0 =
     (if offs = 0x598bf then upd_hpc (t2_control_write vw x) io0
      else if offs = 0x598bb then upd_hpc (t2_load_write vw x) io0
      else if offs \<le> 0xffff then io0
      else if 0x10000 \<le> offs \<and> offs \<le> 0x13fff
      then scsi_reg_write V (flag offs 0x2000) (offs AND NOT 0x2000) (bswap32 x) io0
      else if 0x14000 \<le> offs \<and> offs \<le> 0x1ffff
      then enet_reg_write V (flag offs 0x2000) (offs AND NOT 0x2000) (bswap32 x) io0
      else if 0x54000 \<le> offs \<and> offs \<le> 0x5401f
      then upd_seeq (seeq_pio_w (drop_bit 2 (offs - 0x54000) AND 7)
                       (if sz = 1 then ucast x else ucast (drop_bit 24 x))) io0
      else if offs = 0x30004 then upd_hpc (\<lambda>h. h\<lparr>misc := x AND 3\<rparr>) io0
      else if offs = 0x59887 then upd_hpc (\<lambda>h. h\<lparr>ioc2_local_mask := (ioc2_local_mask h)(False := ucast x)\<rparr>) io0
      else if offs = 0x5988f then upd_hpc (\<lambda>h. h\<lparr>ioc2_local_mask := (ioc2_local_mask h)(True := ucast x)\<rparr>) io0
      else if offs = 0x59897 then upd_hpc (\<lambda>h. h\<lparr>ioc2_cmeimask := (ioc2_cmeimask h)(False := ucast x)\<rparr>) io0
      else if offs = 0x5989b then upd_hpc (\<lambda>h. h\<lparr>ioc2_cmeimask := (ioc2_cmeimask h)(True := ucast x)\<rparr>) io0
      else if offs = 0x5989f then upd_hpc (\<lambda>h. h\<lparr>ioc2_cmepol := ucast x\<rparr>) io0
      else if 0x40000 \<le> offs \<and> offs \<le> 0x47fff
      then (case scsi (dev io0) of
              None \<Rightarrow> io0
            | Some c \<Rightarrow>
                (let c' = scsi_pio_w (drop_bit 2 (offs - 0x40000) AND 1) (ucast x) c; io1 = put_scsi c' io0
                 in if active (sdma False io1) \<and> drq c' then scsi_run_dma V False io1 else io1))
      else if 0x58000 \<le> offs \<and> offs \<le> 0x5bfff then io0
      else if 0x5c000 \<le> offs \<and> offs \<le> 0x5cfff
      then upd_hpc (\<lambda>h. h\<lparr>pbus_dma_config := (pbus_dma_config h)(unat (drop_bit 1 (drop_bit 8 offs AND 0xf)) := x)\<rparr>) io0
      else if 0x5d000 \<le> offs \<and> offs \<le> 0x5dfff
      then (let id = unat (drop_bit 8 offs AND 0xf) in
            if id < 10 then upd_hpc (\<lambda>h. h\<lparr>pbus_pio_config := (pbus_pio_config h)(id := x)\<rparr>) io0
            else halt io0)
      else io0)"

definition sgi_hpc_write :: "indy_env \<Rightarrow> dev_view \<Rightarrow> u32 \<Rightarrow> u32 \<Rightarrow> nat \<Rightarrow> 'n iio \<Rightarrow> 'n iio" where
  "sgi_hpc_write V vw offs x sz io0 =
     (case ps2 (dev io0) of
        Some k \<Rightarrow>
          if ps2_window offs
          then put_ps2 (ps2_write (flag offs 4) (if sz = 1 then ucast x else ucast (drop_bit 24 x)) k) io0
          else hpc_write_impl V vw offs x sz io0
      | None \<Rightarrow> hpc_write_impl V vw offs x sz io0)"

end
