(* ===== verification/HPC_Properties.thy ===== *)
theory HPC_Properties
  imports HPC
begin

text \<open>
  Properties of the peripheral controller: what a SCSI descriptor chain does to memory, and
  how device interrupts reach the CPU.
\<close>

section \<open>Frames\<close>

lemma upd_hpc_frame [simp]:
  "mem (upd_hpc f io0) = mem io0" "route_devices (upd_hpc f io0) = route_devices io0"
  "dev (upd_hpc f io0) = (dev io0)\<lparr>hpc := f (hpc (dev io0))\<rparr>"
  "irq_poke (upd_hpc f io0) = irq_poke io0"
  by (simp_all add: upd_hpc_def upd_dev_def)

lemma upd_sdma_frame [simp]:
  "mem (upd_sdma ch f io0) = mem io0" "route_devices (upd_sdma ch f io0) = route_devices io0"
  "dev (upd_sdma ch f io0) = (dev io0)\<lparr>hpc := (hpc (dev io0))\<lparr>scsi_dma := (scsi_dma (hpc (dev io0)))(ch := f (sdma ch io0))\<rparr>\<rparr>"
  "sdma ch (upd_sdma ch f io0) = f (sdma ch io0)"
  by (simp_all add: upd_sdma_def sdma_def)

lemma put_scsi_frame [simp]:
  "mem (put_scsi c io0) = mem io0" "route_devices (put_scsi c io0) = route_devices io0"
  "dev (put_scsi c io0) = (dev io0)\<lparr>scsi := Some (c\<lparr>scsi_poke := False\<rparr>)\<rparr>"
  "irq_poke (put_scsi c io0) = (scsi_poke c \<or> irq_poke io0)"
  by (simp_all add: put_scsi_def poke_def upd_dev_def)

lemma raw_put_frame [simp]:
  "mem (raw_put pa v io0) = (mem io0)(get_raw_ptr (route_devices io0) pa := v)"
  "route_devices (raw_put pa v io0) = route_devices io0" "dev (raw_put pa v io0) = dev io0"
  by (simp_all add: raw_put_def)

lemma snoop_frame [simp]:
  "mem (snoop_inval_io pa io0) = mem io0" "route_devices (snoop_inval_io pa io0) = route_devices io0"
  "dev (snoop_inval_io pa io0) = dev io0"
  by (simp_all add: snoop_inval_io_def split: option.split)

lemma rd_be32_cong: "mem io' = mem io0 \<Longrightarrow> route_devices io' = route_devices io0 \<Longrightarrow> rd_be32 pa io' = rd_be32 pa io0"
  by (simp add: rd_be32_def)

section \<open>One descriptor\<close>

text \<open>Consecutive guest addresses receive the bytes of a list.\<close>

primrec scatter :: "bool \<Rightarrow> u8 list \<Rightarrow> u32 \<Rightarrow> bytes \<Rightarrow> bytes" where
  "scatter rd [] pa m = m"
| "scatter rd (b # bs) pa m = scatter rd bs (pa + 1) (m(get_raw_ptr rd pa := b))"

text \<open>A controller whose poke has been handed on.\<close>

definition clean :: "sgi_scsi \<Rightarrow> sgi_scsi" where
  "clean c = c\<lparr>scsi_poke := False\<rparr>"

lemma moved_clean:
  "phase c = PH_DATA_IN \<Longrightarrow> clean (moved p (clean c)) = clean (moved p c)"
  by (simp add: clean_def moved_def finish_def Let_def scsi_complete_def reg_defs)

lemma moved_moved:
  "p < length (buf c) \<Longrightarrow> moved q (moved p c) = moved q c"
  by (simp add: moved_def)

lemma dma_r_moved:
  "phase c = PH_DATA_IN \<Longrightarrow> pos c < length (buf c) \<Longrightarrow>
   scsi_dma_r c = (buf c ! pos c, moved (Suc (pos c)) c)"
  by (simp add: scsi_dma_r_def moved_def not_less)

text \<open>The part of a state a data-in transfer fixes: memory, the controller and the channel.\<close>

definition received :: "bool \<Rightarrow> nat \<Rightarrow> sgi_scsi \<Rightarrow> 'n iio \<Rightarrow> 'n iio \<Rightarrow> bool" where
  "received ch n c io0 io' \<longleftrightarrow>
     mem io' = scatter (route_devices io0) (take n (drop (pos c) (buf c))) (cbp (sdma ch io0)) (mem io0) \<and>
     route_devices io' = route_devices io0 \<and>
     dev io' = (dev io0)\<lparr>scsi := Some (clean (moved (pos c + n) c)),
       hpc := (hpc (dev io0))\<lparr>scsi_dma := (scsi_dma (hpc (dev io0)))(ch :=
         (sdma ch io0)\<lparr>cbp := cbp (sdma ch io0) + of_nat n, count := count (sdma ch io0) - of_nat n\<rparr>)\<rparr>\<rparr>"

lemma move_in:
  assumes "\<not> SPEC_DMA V" "\<not> to_device (sdma ch io0)" "phase c = PH_DATA_IN" "pos c < length (buf c)"
    and "io' = upd_sdma ch (\<lambda>d. d\<lparr>cbp := cbp d + 1, count := count d - 1\<rparr>) (scsi_move V ch c io0)"
  shows "received ch 1 c io0 io'"
proof -
  have t: "take (Suc 0) (drop (pos c) (buf c)) = [buf c ! pos c]"
    using assms(4) by (simp add: Cons_nth_drop_Suc [symmetric])
  have s: "sdma ch (raw_put pa b (put_scsi c' io0)) = sdma ch io0"
    "sdma ch (snoop_inval_io pa' (raw_put pa b (put_scsi c' io0))) = sdma ch io0" for pa pa' b c'
    by (simp_all add: sdma_def)
  show ?thesis
    using assms
    by (auto simp: received_def t scsi_move_def Let_def dma_r_moved clean_def s)
qed

lemma received_step:
  assumes "received ch 1 c io0 io1" "phase c = PH_DATA_IN" "Suc (pos c) < length (buf c)"
    and "received ch n (clean (moved (Suc (pos c)) c)) io1 io'"
  shows "received ch (Suc n) c io0 io'"
proof -
  have d: "drop (pos c) (buf c) = buf c ! pos c # drop (Suc (pos c)) (buf c)"
    using assms(3) by (intro Cons_nth_drop_Suc [symmetric]) simp
  have m: "moved (Suc (pos c)) c = c\<lparr>pos := Suc (pos c)\<rparr>" using assms(3) by (simp add: moved_def)
  have "clean (moved (Suc (pos c) + n) (clean (c\<lparr>pos := Suc (pos c)\<rparr>))) = clean (moved (pos c + Suc n) c)"
    using moved_clean [of "c\<lparr>pos := Suc (pos c)\<rparr>"] assms(2) by (simp add: moved_def)
  then show ?thesis
    using assms(1,4) by (simp add: received_def m d sdma_def clean_def add.assoc diff_diff_add)
qed

lemma xfer_in:
  assumes "\<not> SPEC_DMA V" "\<not> to_device (sdma ch io0)" "scsi (dev io0) = Some c" "drq c" "phase c = PH_DATA_IN"
    and "pos c + Suc n \<le> length (buf c)"
  shows "received ch (Suc n) c io0 (scsi_xfer V ch (Suc n) io0)"
  using assms
proof (induction n arbitrary: io0 c)
  case 0
  then show ?case using move_in [OF 0(1,2,5), of _ ] by simp
next
  case (Suc n)
  define io1 where "io1 = upd_sdma ch (\<lambda>d. d\<lparr>cbp := cbp d + 1, count := count d - 1\<rparr>) (scsi_move V ch c io0)"
  have r: "received ch 1 c io0 io1"
    using Suc.prems by (intro move_in [OF _ _ _ _ io1_def]) simp_all
  let ?c = "clean (moved (Suc (pos c)) c)"
  have c': "drq ?c" "phase ?c = PH_DATA_IN" "pos ?c = Suc (pos c)" "buf ?c = buf c"
    using Suc.prems by (simp_all add: clean_def moved_def)
  have s1: "scsi (dev io1) = Some ?c" "\<not> to_device (sdma ch io1)"
    using r Suc.prems(2) by (simp_all add: received_def sdma_def)
  have "received ch (Suc n) ?c io1 (scsi_xfer V ch (Suc n) io1)"
    using Suc.prems c' s1 by (intro Suc.IH) simp_all
  moreover have "scsi_xfer V ch (Suc (Suc n)) io0 = scsi_xfer V ch (Suc n) io1"
    unfolding scsi_xfer.simps(2) [of V ch "Suc n" io0] using Suc.prems(3,4) by (simp add: io1_def)
  ultimately show ?case
    using received_step [OF r Suc.prems(5), of "Suc n"] Suc.prems(6) by simp
qed

section \<open>The chain\<close>

text \<open>A descriptor: its address in guest memory, its buffer address, its flag and count word.
  \<open>chain_at\<close> says that memory holds these descriptors, linked in this order, and that exactly the last
  one has the end-of-chain flag.\<close>

type_synonym descriptor = "u32 \<times> u32 \<times> u32"

definition d_adr :: "descriptor \<Rightarrow> u32" where "d_adr d = fst d"
definition d_buf :: "descriptor \<Rightarrow> u32" where "d_buf d = fst (snd d)"
definition d_word :: "descriptor \<Rightarrow> u32" where "d_word d = snd (snd d)"

definition desc_len :: "descriptor \<Rightarrow> nat" where
  "desc_len d = unat (d_word d AND 0x3fff)"

fun chain_at :: "'d io \<Rightarrow> descriptor list \<Rightarrow> bool" where
  "chain_at io0 [] \<longleftrightarrow> False"
| "chain_at io0 (d # ds) \<longleftrightarrow> rd_be32 (d_adr d) io0 = d_buf d \<and> rd_be32 (d_adr d + 4) io0 = d_word d \<and>
     (if ds = [] then flag (d_word d) 0x80000000
      else \<not> flag (d_word d) 0x80000000 \<and> rd_be32 (d_adr d + 8) io0 = d_adr (hd ds) \<and> chain_at io0 ds)"

definition chain_len :: "descriptor list \<Rightarrow> nat" where
  "chain_len ds = sum_list (map desc_len ds)"

fun scatter_chain :: "bool \<Rightarrow> descriptor list \<Rightarrow> u8 list \<Rightarrow> bytes \<Rightarrow> bytes" where
  "scatter_chain rd [] bs m = m"
| "scatter_chain rd (d # ds) bs m =
     scatter_chain rd ds (drop (desc_len d) bs) (scatter rd (take (desc_len d) bs) (d_buf d) m)"

text \<open>The cells of memory the buffers of a chain occupy; a chain is stable when nothing written there
  changes it, that is when its descriptors lie outside its buffers.\<close>

definition buffer_cells :: "bool \<Rightarrow> descriptor list \<Rightarrow> u32 set" where
  "buffer_cells rd ds = {x. \<exists>d\<in>set ds. \<exists>i<desc_len d. x = get_raw_ptr rd (d_buf d + of_nat i)}"

definition stable_chain :: "descriptor list \<Rightarrow> 'd io \<Rightarrow> descriptor list \<Rightarrow> bool" where
  "stable_chain full io0 ds \<longleftrightarrow>
     (\<forall>m. (\<forall>x. x \<notin> buffer_cells (route_devices io0) full \<longrightarrow> m x = mem io0 x) \<longrightarrow>
        chain_at (io0\<lparr>mem := m\<rparr>) ds)"

lemma chain_at_cong:
  assumes "mem io' = mem io0" "route_devices io' = route_devices io0"
  shows "chain_at io' ds = chain_at io0 ds"
proof -
  have "rd_be32 pa io' = rd_be32 pa io0" for pa by (rule rd_be32_cong [OF assms])
  then show ?thesis by (induction ds) simp_all
qed

lemma scatter_outside:
  "(\<And>i. i < length bs \<Longrightarrow> x \<noteq> get_raw_ptr rd (pa + of_nat i)) \<Longrightarrow> scatter rd bs pa m x = m x"
proof (induction bs arbitrary: pa m)
  case (Cons b bs)
  have "x \<noteq> get_raw_ptr rd pa" using Cons.prems [of 0] by simp
  moreover have "x \<noteq> get_raw_ptr rd (pa + 1 + of_nat i)" if "i < length bs" for i
    using Cons.prems [of "Suc i"] that by (simp add: add.assoc)
  ultimately show ?case using Cons.IH by simp
qed simp

lemma stable_next:
  assumes "stable_chain full io0 (d # ds)" "ds \<noteq> []" "d \<in> set full" "route_devices io' = route_devices io0"
    and "mem io' = scatter (route_devices io0) bs (d_buf d) (mem io0)" "length bs \<le> desc_len d"
  shows "stable_chain full io' ds"
  unfolding stable_chain_def
proof (intro allI impI)
  fix m assume m: "\<forall>x. x \<notin> buffer_cells (route_devices io') full \<longrightarrow> m x = mem io' x"
  have "m x = mem io0 x" if "x \<notin> buffer_cells (route_devices io0) full" for x
  proof -
    have "mem io' x = mem io0 x"
      unfolding assms(5) using that assms(3,6) by (intro scatter_outside) (auto simp: buffer_cells_def)
    with m that assms(4) show ?thesis by simp
  qed
  then have "chain_at (io0\<lparr>mem := m\<rparr>) (d # ds)" using assms(1) unfolding stable_chain_def by blast
  then have "chain_at (io0\<lparr>mem := m\<rparr>) ds" using assms(2) by simp
  then show "chain_at (io'\<lparr>mem := m\<rparr>) ds"
    using chain_at_cong [of "io'\<lparr>mem := m\<rparr>" "io0\<lparr>mem := m\<rparr>"] assms(4) by simp
qed

lemma stable_now: "stable_chain full io0 ds \<Longrightarrow> chain_at io0 ds"
proof -
  assume "stable_chain full io0 ds"
  then have "chain_at (io0\<lparr>mem := mem io0\<rparr>) ds" unfolding stable_chain_def by blast
  then show ?thesis by simp
qed

text \<open>The channel as the fetch state leaves it for the next descriptor.\<close>

definition fetching :: "bool \<Rightarrow> u32 \<Rightarrow> sgi_scsi \<Rightarrow> 'n iio \<Rightarrow> bool" where
  "fetching ch a c io0 \<longleftrightarrow> active (sdma ch io0) \<and> \<not> to_device (sdma ch io0) \<and> ch_state (sdma ch io0) = CH_FETCH \<and>
     nbdp (sdma ch io0) = a \<and> scsi (dev io0) = Some c"

text \<open>What a data-in phase looks like to the walk: data left and requested, or done.\<close>

definition supplies :: "sgi_scsi \<Rightarrow> nat \<Rightarrow> bool" where
  "supplies c n \<longleftrightarrow> n = 0 \<or> drq c \<and> phase c = PH_DATA_IN \<and> pos c + n \<le> length (buf c)"

lemma desc_walk:
  assumes "\<not> SPEC_DMA V" "fetching ch a c io0" "supplies c (desc_len d)"
    and "rd_be32 a io0 = d_buf d" "rd_be32 (a + 4) io0 = d_word d"
  shows "\<exists>io3. scsi_run_loop V ch (Suc (Suc n)) io0 = scsi_run_loop V ch n io3 \<and>
     mem io3 = scatter (route_devices io0) (take (desc_len d) (drop (pos c) (buf c))) (d_buf d) (mem io0) \<and>
     route_devices io3 = route_devices io0 \<and> ch_state (sdma ch io3) = CH_DESC_DONE \<and> bc (sdma ch io3) = d_word d \<and>
     active (sdma ch io3) \<and> \<not> to_device (sdma ch io3) \<and> nbdp (sdma ch io3) = rd_be32 (a + 8) io0 \<and>
     scsi (dev io3) = Some (if desc_len d = 0 then c else clean (moved (pos c + desc_len d) c)) \<and>
     halted (dev io3) = halted (dev io0) \<and> d_ctrl (sdma ch io3) = d_ctrl (sdma ch io0) \<and>
     intstat (hpc (dev io3)) = intstat (hpc (dev io0))"
proof -
  let ?n = "desc_len d"
  define io1 where "io1 = upd_sdma ch (\<lambda>d. d\<lparr>ch_state := CH_XFER\<rparr>) (scsi_fetch_chain ch io0)"
  have f: "scsi_fsm_step V ch io0 = (True, io1)"
    using assms(2) by (simp add: scsi_fsm_step_def fetching_def io1_def Let_def)
  have d1: "sdma ch io1 = (sdma ch io0)\<lparr>cbp := d_buf d, bc := d_word d, nbdp := rd_be32 (a + 8) io0,
      count := d_word d AND 0x3fff, ch_state := CH_XFER\<rparr>"
    and m1: "mem io1 = mem io0" "route_devices io1 = route_devices io0" "scsi (dev io1) = Some c"
      "halted (dev io1) = halted (dev io0)" "intstat (hpc (dev io1)) = intstat (hpc (dev io0))"
    using assms by (simp_all add: io1_def scsi_fetch_chain_def fetching_def Let_def)
  define io2 where "io2 = scsi_xfer V ch ?n io1"
  have u: "unat (count (sdma ch io1)) = ?n" by (simp add: d1 desc_len_def)
  have r: "mem io2 = scatter (route_devices io0) (take ?n (drop (pos c) (buf c))) (d_buf d) (mem io0) \<and>
      route_devices io2 = route_devices io0 \<and> count (sdma ch io2) = 0 \<and>
      sdma ch io2 = (sdma ch io1)\<lparr>cbp := cbp (sdma ch io2), count := 0\<rparr> \<and>
      scsi (dev io2) = Some (if ?n = 0 then c else clean (moved (pos c + ?n) c)) \<and>
      halted (dev io2) = halted (dev io0) \<and> intstat (hpc (dev io2)) = intstat (hpc (dev io0))"
  proof (cases "?n = 0")
    case True
    then have "count (sdma ch io1) = 0" using u by (simp add: unat_eq_0)
    then show ?thesis using True m1 by (simp add: io2_def)
  next
    case False
    then obtain k where k: "?n = Suc k" by (cases ?n) auto
    have "received ch ?n c io1 io2"
      unfolding io2_def k using assms k m1 d1 by (intro xfer_in) (simp_all add: fetching_def supplies_def)
    moreover have "count (sdma ch io1) - of_nat ?n = 0" by (simp add: u [symmetric])
    ultimately show ?thesis
      using False m1 d1 by (simp add: received_def sdma_def)
  qed
  define io3 where "io3 = upd_sdma ch (\<lambda>d. d\<lparr>ch_state := CH_DESC_DONE\<rparr>) io2"
  have x: "scsi_fsm_step V ch io1 = (True, io3)"
    using r by (simp add: scsi_fsm_step_def d1 io2_def io3_def Let_def u [symmetric])
  have "scsi_run_loop V ch (Suc (Suc n)) io0 = scsi_run_loop V ch n io3"
    using assms(2) d1 by (simp add: f x fetching_def)
  moreover have "sdma ch io3 = (sdma ch io1)\<lparr>cbp := cbp (sdma ch io2), count := 0, ch_state := CH_DESC_DONE\<rparr>"
    using r by (simp add: io3_def)
  ultimately show ?thesis
    using r d1 assms(2) by (intro exI [of _ io3]) (simp add: io3_def fetching_def)
qed

text \<open>The controller after \<open>n\<close> bytes, and after the end of the chain.\<close>

definition after_in :: "nat \<Rightarrow> sgi_scsi \<Rightarrow> sgi_scsi" where
  "after_in n c = (if n = 0 then c else clean (moved (pos c + n) c))"

definition chain_end :: "sgi_scsi \<Rightarrow> sgi_scsi" where
  "chain_end c = (if 0 < residual c then clean (pause_transfer c) else c)"

lemma after_in_view: "buf (after_in n c) = buf c" "pos (after_in n c) = pos c + n"
  by (simp_all add: after_in_def clean_def moved_def)

lemma after_in_supplies:
  assumes "supplies c (n + k)"
  shows "supplies (after_in n c) k" "phase c = PH_DATA_IN \<Longrightarrow> after_in k (after_in n c) = after_in (n + k) c"
proof -
  show "supplies (after_in n c) k"
    using assms by (auto simp: supplies_def after_in_def clean_def moved_def)
  assume "phase c = PH_DATA_IN"
  with assms show "after_in k (after_in n c) = after_in (n + k) c"
    using moved_clean [of "moved (pos c + n) c" "pos c + n + k"]
    by (auto simp: after_in_def supplies_def clean_def moved_def add.assoc)
qed

definition xie :: "bool \<Rightarrow> descriptor \<Rightarrow> u32" where
  "xie ch d = (if flag (d_word d) 0x20000000 then chan_irq ch else 0)"

text \<open>The state a finished walk leaves.\<close>

definition walked :: "bool \<Rightarrow> descriptor list \<Rightarrow> sgi_scsi \<Rightarrow> 'n iio \<Rightarrow> 'n iio \<Rightarrow> bool" where
  "walked ch ds c io0 io' \<longleftrightarrow>
     mem io' = scatter_chain (route_devices io0) ds (drop (pos c) (buf c)) (mem io0) \<and>
     \<not> active (sdma ch io') \<and> ch_state (sdma ch io') = CH_IDLE \<and> halted (dev io') = halted (dev io0) \<and>
     scsi (dev io') = Some (chain_end (after_in (chain_len ds) c)) \<and>
     intstat (hpc (dev io')) = intstat (hpc (dev io0)) OR fold (\<lambda>d v. v OR xie ch d) ds 0"

lemma fold_or_acc: "fold (\<lambda>d v. v OR f d) ds (a OR b) = a OR fold (\<lambda>d v. v OR f d) ds (b :: u32)"
  by (induction ds arbitrary: b) (simp_all add: or.assoc)

lemma done_last:
  assumes "ch_state (sdma ch io3) = CH_DESC_DONE" "active (sdma ch io3)" "flag (bc (sdma ch io3)) 0x80000000"
    and "scsi (dev io3) = Some c1"
  shows "let io' = scsi_run_loop V ch (Suc n) io3 in
    mem io' = mem io3 \<and> \<not> active (sdma ch io') \<and> ch_state (sdma ch io') = CH_IDLE \<and> halted (dev io') = halted (dev io3) \<and>
    scsi (dev io') = Some (chain_end c1) \<and>
    intstat (hpc (dev io')) = intstat (hpc (dev io3)) OR (if flag (bc (sdma ch io3)) 0x20000000 then chan_irq ch else 0)"
proof -
  have stop: "scsi_run_loop V ch n io0 = io0" if "\<not> active (sdma ch io0)" for io0 :: "'a iio"
    using that by (cases n) simp_all
  show ?thesis
    using assms by (auto simp: Let_def scsi_fsm_step_def stop pause_if_residual_def chain_end_def clean_def)
qed

lemma done_next:
  assumes "ch_state (sdma ch io3) = CH_DESC_DONE" "active (sdma ch io3)" "\<not> flag (bc (sdma ch io3)) 0x80000000"
    and "\<not> to_device (sdma ch io3)" "nbdp (sdma ch io3) = a" "scsi (dev io3) = Some c1"
  shows "\<exists>io4. scsi_run_loop V ch (Suc n) io3 = scsi_run_loop V ch n io4 \<and> fetching ch a c1 io4 \<and>
    mem io4 = mem io3 \<and> route_devices io4 = route_devices io3 \<and> halted (dev io4) = halted (dev io3) \<and>
    intstat (hpc (dev io4)) = intstat (hpc (dev io3)) OR (if flag (bc (sdma ch io3)) 0x20000000 then chan_irq ch else 0)"
proof -
  let ?io1 = "if flag (bc (sdma ch io3)) 0x20000000
     then upd_hpc (\<lambda>h. h\<lparr>intstat := intstat h OR chan_irq ch\<rparr>) io3 else io3"
  have s: "sdma ch ?io1 = sdma ch io3" by (simp add: sdma_def)
  show ?thesis
    using assms by (intro exI [of _ "upd_sdma ch (\<lambda>d. d\<lparr>ch_state := CH_FETCH\<rparr>) ?io1"])
      (auto simp: scsi_fsm_step_def Let_def fetching_def s)
qed

lemma chain_walk:
  assumes "\<not> SPEC_DMA V" "fetching ch (d_adr (hd ds)) c io0" "stable_chain full io0 ds" "set ds \<subseteq> set full"
    and "phase c = PH_DATA_IN \<or> chain_len ds = 0" "supplies c (chain_len ds)"
  shows "walked ch ds c io0 (scsi_run_loop V ch (3 * length ds + n) io0)"
  using assms
proof (induction ds arbitrary: c io0)
  case Nil
  then show ?case using stable_now [of full io0 "[]"] by simp
next
  case (Cons d ds)
  note ch = stable_now [OF Cons.prems(3)]
  let ?k = "desc_len d" and ?fuel = "Suc (3 * length ds + n)"
  let ?c1 = "after_in ?k c"
  have sup: "supplies c ?k" using Cons.prems(6) by (auto simp: supplies_def chain_len_def)
  obtain io3 where run: "scsi_run_loop V ch (Suc (Suc ?fuel)) io0 = scsi_run_loop V ch ?fuel io3"
    and w: "mem io3 = scatter (route_devices io0) (take ?k (drop (pos c) (buf c))) (d_buf d) (mem io0)"
     "route_devices io3 = route_devices io0" "ch_state (sdma ch io3) = CH_DESC_DONE" "bc (sdma ch io3) = d_word d"
     "active (sdma ch io3)" "\<not> to_device (sdma ch io3)" "nbdp (sdma ch io3) = rd_be32 (d_adr d + 8) io0"
     "scsi (dev io3) = Some ?c1" "halted (dev io3) = halted (dev io0)" "intstat (hpc (dev io3)) = intstat (hpc (dev io0))"
    using desc_walk [OF Cons.prems(1), of ch "d_adr d" c io0 d ?fuel] Cons.prems(2) sup ch
    by (auto simp: after_in_def)
  have fu: "3 * length (d # ds) + n = Suc (Suc ?fuel)" by simp
  have len: "chain_len (d # ds) = ?k + chain_len ds" by (simp add: chain_len_def)
  have after: "after_in (chain_len ds) ?c1 = after_in (chain_len (d # ds)) c"
    using after_in_supplies(2) [of c ?k "chain_len ds"] Cons.prems(5,6) by (auto simp: len after_in_def)
  have bufs: "drop (pos ?c1) (buf ?c1) = drop ?k (drop (pos c) (buf c))"
    by (simp add: after_in_view add.commute)
  show ?case
  proof (cases "ds = []")
    case True
    then have "flag (bc (sdma ch io3)) 0x80000000" using ch w(4) by simp
    from done_last [OF w(3,5) this w(8), of V n]
    have "walked ch [d] c io0 (scsi_run_loop V ch ?fuel io3)"
      using True w by (simp add: walked_def Let_def chain_len_def xie_def)
    then show ?thesis unfolding fu run using True by simp
  next
    case False
    then have nf: "\<not> flag (bc (sdma ch io3)) 0x80000000" and nx: "nbdp (sdma ch io3) = d_adr (hd ds)"
      using ch w(4,7) by simp_all
    obtain io4 where r4: "scsi_run_loop V ch ?fuel io3 = scsi_run_loop V ch (3 * length ds + n) io4"
      and f4: "fetching ch (d_adr (hd ds)) ?c1 io4" and m4: "mem io4 = mem io3" "route_devices io4 = route_devices io3"
       "halted (dev io4) = halted (dev io3)" "intstat (hpc (dev io4)) = intstat (hpc (dev io3)) OR xie ch d"
      using done_next [OF w(3,5) nf w(6) nx w(8), of V "3 * length ds + n"] w(4) by (auto simp: xie_def)
    have "stable_chain full io4 ds"
      using Cons.prems(3,4) False w m4 by (intro stable_next [of full io0 d ds io4]) auto
    then have "walked ch ds ?c1 io4 (scsi_run_loop V ch (3 * length ds + n) io4)"
      using Cons.prems f4 after_in_supplies(1) [of c ?k "chain_len ds"]
      by (intro Cons.IH) (auto simp: len after_in_def supplies_def clean_def moved_def)
    then have "walked ch (d # ds) c io0 (scsi_run_loop V ch (3 * length ds + n) io4)"
      using m4 w after bufs fold_or_acc [of "xie ch" ds "xie ch d" 0] by (simp add: walked_def or.assoc)
    then show ?thesis unfolding fu run r4 .
  qed
qed

section \<open>Interrupt bits\<close>

lemma bit_set_if:
  "k < 8 \<Longrightarrow> m = 2 ^ k \<Longrightarrow> bit (set_if b m st) n \<longleftrightarrow> (if n = k then b else bit st n)"
  by (auto simp: set_if_def bit_simps dest: bit_imp_le_length)

lemma ex_less_8: "(\<exists>n<8. P n) \<longleftrightarrow> P 0 \<or> P 1 \<or> P 2 \<or> P 3 \<or> P 4 \<or> P 5 \<or> P 6 \<or> P (7::nat)"
  by (auto simp: numeral_eq_Suc less_Suc_eq)

lemma flag_bits8:
  "flag (a :: u8) b \<longleftrightarrow> bit a 0 \<and> bit b 0 \<or> bit a 1 \<and> bit b 1 \<or> bit a 2 \<and> bit b 2 \<or> bit a 3 \<and> bit b 3 \<or>
     bit a 4 \<and> bit b 4 \<or> bit a 5 \<and> bit b 5 \<or> bit a 6 \<and> bit b 6 \<or> bit a 7 \<and> bit b 7"
proof -
  have "a AND b \<noteq> 0 \<longleftrightarrow> (\<exists>n<8. bit a n \<and> bit b n)"
    by (auto simp: bit_eq_iff bit_and_iff dest: bit_imp_le_length)
  then show ?thesis by (simp only: flag_def ex_less_8)
qed

lemma local0_bit:
  "bit (ioc2_local0_live d) n \<longleftrightarrow>
     (if n = 1 then scsi_intrq d else if n = 3 then flag (intstat (hpc d)) 0xc00
      else if n = 4 then dma_irq (mc d) \<or> bit (ioc2_local_status (hpc d) False) 4
      else if n = 7 then flag (ioc2_vmeistat_live d) (ioc2_cmeimask (hpc d) False)
      else bit (ioc2_local_status (hpc d) False) n)"
proof -
  have c: "(0x02 :: u8) = 2 ^ 1" "(0x08 :: u8) = 2 ^ 3" "(0x80 :: u8) = 2 ^ 7" by simp_all
  have m: "bit (0x10 :: u8) n \<longleftrightarrow> n = 4" by (rule bit_of_exp) simp_all
  have o: "bit (if b then st OR 0x10 else st) n \<longleftrightarrow> bit st n \<or> b \<and> n = 4" for b and st :: u8
    using m by (cases b) (simp_all only: bit_or_iff if_True if_False, auto)
  have s: "bit (set_if b 0x02 st) n \<longleftrightarrow> (if n = 1 then b else bit st n)"
    "bit (set_if b 0x08 st) n \<longleftrightarrow> (if n = 3 then b else bit st n)"
    "bit (set_if b 0x80 st) n \<longleftrightarrow> (if n = 7 then b else bit st n)" for b and st :: u8
    by (rule bit_set_if [OF _ c(1)] bit_set_if [OF _ c(2)] bit_set_if [OF _ c(3)], simp)+
  show ?thesis
    unfolding ioc2_local0_live_def Let_def by (simp only: s o) auto
qed

lemma vmeistat_bit:
  "bit (ioc2_vmeistat_live d) n \<longleftrightarrow>
     n = 5 \<and> scc_int_pending (scc d) \<or> n = 4 \<and> (case ps2 d of None \<Rightarrow> False | Some k \<Rightarrow> ps2_irq k)"
proof -
  have "bit (0x20 :: u8) n \<longleftrightarrow> n = 5" by (rule bit_of_exp) simp_all
  moreover have "bit (0x10 :: u8) n \<longleftrightarrow> n = 4" by (rule bit_of_exp) simp_all
  ultimately show ?thesis
    by (auto simp: ioc2_vmeistat_live_def bit_or_iff split: option.splits)
qed

lemma cascade_flag:
  "flag (ioc2_vmeistat_live d) m \<longleftrightarrow> bit m 5 \<and> scc_int_pending (scc d) \<or>
     bit m 4 \<and> (case ps2 d of None \<Rightarrow> False | Some k \<Rightarrow> ps2_irq k)"
  unfolding flag_bits8 vmeistat_bit by auto

lemma ip2_sources:
  assumes "ioc2_local_status (hpc d) False = 0"
  shows "hpc_ip2_pending d \<longleftrightarrow>
     bit (ioc2_local_mask (hpc d) False) 1 \<and> scsi_intrq d \<or>
     bit (ioc2_local_mask (hpc d) False) 3 \<and> flag (intstat (hpc d)) 0xc00 \<or>
     bit (ioc2_local_mask (hpc d) False) 4 \<and> dma_irq (mc d) \<or>
     bit (ioc2_local_mask (hpc d) False) 7 \<and>
       (bit (ioc2_cmeimask (hpc d) False) 5 \<and> scc_int_pending (scc d) \<or>
        bit (ioc2_cmeimask (hpc d) False) 4 \<and> (case ps2 d of None \<Rightarrow> False | Some k \<Rightarrow> ps2_irq k))"
  unfolding hpc_ip2_pending_def flag_bits8 [of "ioc2_local0_live d" "ioc2_local_mask (hpc d) False"] local0_bit cascade_flag
  using assms by auto

section \<open>Properties\<close>

lemma ctrl_start:
  assumes "\<not> active (sdma ch io0)" "scsi (dev io0) = Some c"
  shows "scsi_ctrl_write V ch 0x10 io0 = scsi_run_dma V ch (upd_sdma ch (scsi_ctrl_bits 0x10) io0)"
    and "fetching ch (nbdp (sdma ch io0)) c (upd_sdma ch (scsi_ctrl_bits 0x10) io0)"
proof -
  have b: "active (scsi_ctrl_bits 0x10 d)" "\<not> to_device (scsi_ctrl_bits 0x10 d)"
    "ch_state (scsi_ctrl_bits 0x10 d) = CH_FETCH" "nbdp (scsi_ctrl_bits 0x10 d) = nbdp d" if "\<not> active d" for d
    using that by (simp_all add: scsi_ctrl_bits_def Let_def flag_def)
  show "scsi_ctrl_write V ch 0x10 io0 = scsi_run_dma V ch (upd_sdma ch (scsi_ctrl_bits 0x10) io0)"
    using assms b by (simp add: scsi_ctrl_write_def Let_def flag_def)
  show "fetching ch (nbdp (sdma ch io0)) c (upd_sdma ch (scsi_ctrl_bits 0x10) io0)"
    using assms b by (simp add: fetching_def)
qed

lemma chain_end_status:
  assumes "phase c = PH_DATA_IN" "n \<noteq> 0" "pos c + n \<le> length (buf c)" "c' = chain_end (after_in n c)"
  shows "intrq c' \<and> \<not> drq c' \<and>
    (if pos c + n = length (buf c) then phase c' = PH_IDLE \<and> wd_regs c' WD_SCSI_STATUS = ST_SELECT_TRANSFER_SUCCESS
     else phase c' = PH_DATA_IN \<and> wd_regs c' WD_SCSI_STATUS = 0x49 \<and> pos c' = pos c + n \<and> buf c' = buf c)"
proof (cases "pos c + n = length (buf c)")
  case True
  then have "c' = clean (finish (c\<lparr>pos := pos c + n\<rparr>))"
    using assms by (simp add: chain_end_def after_in_def moved_def residual_def clean_def)
  with True finish_done [of "c\<lparr>pos := pos c + n\<rparr>"] show ?thesis by (simp add: clean_def command_done_def)
next
  case False
  then have "c' = clean (pause_transfer (clean (c\<lparr>pos := pos c + n\<rparr>)))"
    using assms by (simp add: chain_end_def after_in_def moved_def residual_def clean_def)
  with False assms(1) show ?thesis by (simp add: clean_def pause_transfer_def reg_defs wd_defs)
qed

text \<open>C3.  SCSI DMA: when the driver arms a channel on a descriptor chain that ends and lies outside its own
  buffers, while a data-in phase holds at least as many bytes as the chain takes, the walk terminates within
  three steps per descriptor, scatters exactly the bytes of the device over the buffers in order, changes no
  other memory, leaves the channel inactive, posts the channel interrupts the descriptors ask for, and
  interrupts the CPU with the completion status when the command is done and with the pause status, its
  cursor kept, when data is left over.\<close>

theorem scsi_dma_scatters:
  fixes io0 :: "'n iio"
  assumes "\<not> SPEC_DMA V" "scsi (dev io0) = Some c" "drq c" "phase c = PH_DATA_IN" "\<not> active (sdma ch io0)"
    and "nbdp (sdma ch io0) = d_adr (hd ds)" "stable_chain ds io0 ds" "chain_len ds \<noteq> 0"
    and "pos c + chain_len ds \<le> length (buf c)" "3 * length ds \<le> chain_fuel V"
    and "io' = scsi_ctrl_write V ch 0x10 io0"
  shows "mem io' = scatter_chain (route_devices io0) ds (drop (pos c) (buf c)) (mem io0) \<and>
    \<not> active (sdma ch io') \<and> halted (dev io') = halted (dev io0) \<and>
    intstat (hpc (dev io')) = intstat (hpc (dev io0)) OR fold (\<lambda>d v. v OR xie ch d) ds 0 \<and>
    (\<exists>c'. scsi (dev io') = Some c' \<and> intrq c' \<and>
      (if pos c + chain_len ds = length (buf c)
       then phase c' = PH_IDLE \<and> wd_regs c' WD_SCSI_STATUS = ST_SELECT_TRANSFER_SUCCESS
       else phase c' = PH_DATA_IN \<and> wd_regs c' WD_SCSI_STATUS = 0x49 \<and> pos c' = pos c + chain_len ds))"
proof -
  define io1 where "io1 = upd_sdma ch (scsi_ctrl_bits 0x10) io0"
  have same: "mem io1 = mem io0" "route_devices io1 = route_devices io0" "halted (dev io1) = halted (dev io0)"
    "intstat (hpc (dev io1)) = intstat (hpc (dev io0))" by (simp_all add: io1_def)
  have st: "stable_chain ds io1 ds"
  proof -
    have "chain_at (io1\<lparr>mem := m\<rparr>) ds = chain_at (io0\<lparr>mem := m\<rparr>) ds" for m
      by (rule chain_at_cong) (simp_all add: same)
    with assms(7) show ?thesis by (simp only: stable_chain_def same)
  qed
  obtain n where n: "chain_fuel V = 3 * length ds + n" using assms(10) le_Suc_ex by blast
  have "walked ch ds c io1 (scsi_run_loop V ch (3 * length ds + n) io1)"
    using assms st ctrl_start(2) [OF assms(5,2)]
    by (intro chain_walk [of V ch ds c io1 ds]) (simp_all add: io1_def supplies_def)
  then have w: "walked ch ds c io1 io'"
    using ctrl_start(1) [OF assms(5,2), of V] assms(11) by (simp add: scsi_run_dma_def io1_def n)
  then have "scsi (dev io') = Some (chain_end (after_in (chain_len ds) c))" by (simp add: walked_def)
  with chain_end_status [OF assms(4,8,9) refl] w same show ?thesis by (simp add: walked_def)
qed

text \<open>Two descriptors for the eight bytes of READ CAPACITY.\<close>

definition chain2_io :: "unit iio" where
  "chain2_io =
     upd_sdma False (\<lambda>d. d\<lparr>nbdp := 0x08000100\<rparr>)
     (wr_be32 0x08000204 0xa0000003 (wr_be32 0x08000200 0x08002000
     (wr_be32 0x08000108 0x08000200 (wr_be32 0x08000104 5 (wr_be32 0x08000100 0x08001000
     ((io_init (indy_new (Some (scsi_issue (rw10 0x25 0 0) (sgi_scsi_new False 100 (\<lambda>_. []) Map.empty)))
        None None None))\<lparr>route_devices := True\<rparr>))))))"

definition chain2 :: "descriptor list" where
  "chain2 = [(0x08000100, 0x08001000, 5), (0x08000200, 0x08002000, 0xa0000003)]"

lemma chain2_cells: "x \<in> buffer_cells rd chain2 \<Longrightarrow> 0x08001000 \<le> x"
proof -
  have r: "get_raw_ptr rd (b + of_nat i) = b + of_nat i \<and> 0x08001000 \<le> b + of_nat i"
    if "b \<in> {0x08001000, 0x08002000}" "i < 5" for b :: u32 and i :: nat
  proof -
    have "unat (b + of_nat i) = unat b + i" using that by (auto simp: unat_word_ariths unat_of_nat)
    then have "0x08001000 \<le> unat (b + of_nat i)" using that by auto
    then have "0x08001000 \<le> b + of_nat i" by (simp add: word_le_nat_alt)
    moreover from this have "\<not> b + of_nat i < 0x00080000" by (simp add: word_le_nat_alt word_less_nat_alt)
    ultimately show ?thesis by (simp add: get_raw_ptr_def mc_alias_def)
  qed
  assume "x \<in> buffer_cells rd chain2"
  then consider i where "i < 5" "x = get_raw_ptr rd (0x08001000 + of_nat i)"
    | i where "i < 3" "x = get_raw_ptr rd (0x08002000 + of_nat i)"
    by (auto simp: buffer_cells_def chain2_def d_buf_def desc_len_def d_word_def)
  then show ?thesis by cases (use r in auto)
qed

lemma chain2_stable: "stable_chain chain2 chain2_io chain2"
  unfolding stable_chain_def
proof (intro allI impI)
  fix m assume m: "\<forall>x. x \<notin> buffer_cells (route_devices chain2_io) chain2 \<longrightarrow> m x = mem chain2_io x"
  have "m x = mem chain2_io x" if "x < 0x08001000" for x
    using m chain2_cells that leD by blast
  then have a: "rd_be32 p (chain2_io\<lparr>mem := m\<rparr>) = rd_be32 p chain2_io"
    if "p \<in> {0x08000100, 0x08000104, 0x08000108, 0x08000200, 0x08000204}" for p
    using that by (auto simp: rd_be32_def get_raw_ptr_def mc_alias_def Let_def)
  have "rd_be32 0x08000100 chain2_io = 0x08001000" "rd_be32 0x08000104 chain2_io = 5"
    "rd_be32 0x08000108 chain2_io = 0x08000200" "rd_be32 0x08000200 chain2_io = 0x08002000"
    "rd_be32 0x08000204 chain2_io = 0xa0000003" by code_simp+
  with a show "chain_at (chain2_io\<lparr>mem := m\<rparr>) chain2"
    by (simp add: chain2_def d_adr_def d_buf_def d_word_def flag_def)
qed

theorem scsi_dma_scatters_witness:
  "map (mem (scsi_ctrl_write default_env False 0x10 chain2_io))
     [0x08001000, 0x08001001, 0x08001002, 0x08001003, 0x08001004, 0x08002000, 0x08002001, 0x08002002] =
   [0, 0, 0, 99, 0, 0, 2, 0] \<and> \<not> active (sdma False (scsi_ctrl_write default_env False 0x10 chain2_io))"
proof -
  define c where "c = the (scsi (dev chain2_io))"
  have h: "scsi (dev chain2_io) = Some c" "drq c" "phase c = PH_DATA_IN" "\<not> active (sdma False chain2_io)"
    "nbdp (sdma False chain2_io) = d_adr (hd chain2)" "chain_len chain2 \<noteq> 0"
    "pos c + chain_len chain2 \<le> length (buf c)" "drop (pos c) (buf c) = [0, 0, 0, 99, 0, 0, 2, 0]"
    unfolding c_def by (simp add: chain2_io_def wr_be32_def io_init_def indy_new_def Let_def, code_simp+)
  have "3 * length chain2 \<le> chain_fuel default_env" "\<not> SPEC_DMA default_env"
    by (simp_all add: chain2_def default_env_def)
  from scsi_dma_scatters [OF this(2) h(1-5) chain2_stable h(6,7) this(1) refl]
  have "mem (scsi_ctrl_write default_env False 0x10 chain2_io) =
      scatter_chain (route_devices chain2_io) chain2 [0, 0, 0, 99, 0, 0, 2, 0] (mem chain2_io)"
    "\<not> active (sdma False (scsi_ctrl_write default_env False 0x10 chain2_io))"
    unfolding h(8) by blast+
  then show ?thesis
    by (simp add: chain2_def desc_len_def d_word_def d_buf_def get_raw_ptr_def mc_alias_def
      take_Cons' drop_Cons')
qed

text \<open>C20.  Interrupt routing: the IP2 line of the CPU is asserted exactly when an unmasked source asks for it:
  SCSI (mask bit 1), the Ethernet DMA channels (bit 3), the graphics DMA (bit 4), or through the mappable
  cascade (bit 7) the serial port (map bit 5) or the keyboard controller (map bit 4); nothing else, and no
  masked source, reaches it.\<close>

theorem ip2_exactly_unmasked_sources:
  assumes "ioc2_local_status (hpc d) False = 0"
  shows "hpc_ip2_pending d \<longleftrightarrow>
     bit (ioc2_local_mask (hpc d) False) 1 \<and> scsi_intrq d \<or>
     bit (ioc2_local_mask (hpc d) False) 3 \<and> flag (intstat (hpc d)) 0xc00 \<or>
     bit (ioc2_local_mask (hpc d) False) 4 \<and> dma_irq (mc d) \<or>
     bit (ioc2_local_mask (hpc d) False) 7 \<and>
       (bit (ioc2_cmeimask (hpc d) False) 5 \<and> scc_int_pending (scc d) \<or>
        bit (ioc2_cmeimask (hpc d) False) 4 \<and> (case ps2 d of None \<Rightarrow> False | Some k \<Rightarrow> ps2_irq k))"
  using assms by (rule ip2_sources)

theorem ip2_exactly_unmasked_sources_witness:
  "hpc_ip2_pending ((indy_new (Some ((sgi_scsi_new False 0 (\<lambda>_. []) Map.empty)\<lparr>intrq := True\<rparr>)) None (Some ()) None)
     \<lparr>hpc := sgi_hpc_new\<lparr>ioc2_local_mask := (\<lambda>_. 0x02)\<rparr>\<rparr>)"
proof -
  have "bit (0x02 :: u8) 1" by simp
  then show ?thesis
    by (subst ip2_exactly_unmasked_sources)
      (simp_all add: indy_new_def sgi_hpc_new_def scsi_intrq_def)
qed

end
