(* ===== verification/ALU_Properties.thy ===== *)
theory ALU_Properties
  imports ALU
begin

text \<open>
  Correctness of the arithmetic: the sign-bit tests are exactly signed overflow, HI and LO
  hold the full product, and quotient and remainder satisfy the division law.
\<close>

section \<open>Signed overflow\<close>

lemma signed_wrap:
  fixes s :: int
  assumes "- (2 ^ Suc n) \<le> s" "s < 2 ^ Suc n"
  shows "signed_take_bit n s =
    (if s < - (2 ^ n) then s + 2 ^ Suc n else if s < 2 ^ n then s else s - 2 ^ Suc n)"
proof -
  have *: "signed_take_bit n s = (s + 2 ^ n) mod 2 ^ Suc n - 2 ^ n"
    by (simp add: signed_take_bit_eq_take_bit_shift take_bit_eq_mod)
  consider "s < - (2 ^ n)" | "- (2 ^ n) \<le> s" "s < 2 ^ n" | "2 ^ n \<le> s" by linarith
  then show ?thesis
  proof cases
    case 1
    then have "(s + 2 ^ n) mod 2 ^ Suc n = (s + 2 ^ n + 2 ^ Suc n) mod 2 ^ Suc n"
      by (simp only: mod_add_self2)
    also have "\<dots> = s + 2 ^ n + 2 ^ Suc n" using 1 assms by (intro mod_pos_pos_trivial) auto
    finally show ?thesis using 1 * by simp
  next
    case 2
    then show ?thesis using * by simp
  next
    case 3
    then have "(s + 2 ^ n) mod 2 ^ Suc n = (s + 2 ^ n - 2 ^ Suc n) mod 2 ^ Suc n"
      by (simp only: minus_mod_self2)
    also have "\<dots> = s + 2 ^ n - 2 ^ Suc n" using 3 assms by (intro mod_pos_pos_trivial) auto
    finally have "(s + 2 ^ n) mod 2 ^ Suc n = s + 2 ^ n - 2 ^ Suc n" .
    moreover have "\<not> s < - (2 ^ n)" using 3 zero_less_power [of "2 :: int" n] by linarith
    ultimately show ?thesis using 3 * by simp
  qed
qed

lemma add_overflow_iff:
  fixes a b :: "'a::len word"
  assumes n: "LENGTH('a) = Suc n"
  shows "bit (a + b) n \<noteq> bit b n \<and> bit a n = bit b n \<longleftrightarrow>
    \<not> (- (2 ^ n) \<le> sint a + sint b \<and> sint a + sint b < 2 ^ n)"
proof -
  have neg: "bit w n \<longleftrightarrow> sint w < 0" for w :: "'a word"
    using bit_last_iff [of w] n by simp
  have r: "- (2 ^ n) \<le> sint w" "sint w < 2 ^ n" for w :: "'a word"
    using sint_greater_eq [of w] sint_less [of w] n by simp_all
  have s: "sint (a + b) = signed_take_bit n (sint a + sint b)"
    using n by (simp add: signed_take_bit_add sint_word_ariths)
  show ?thesis
    unfolding neg s using r [of a] r [of b] by (subst signed_wrap; auto)+
qed

lemma sub_overflow_iff:
  fixes a b :: "'a::len word"
  assumes n: "LENGTH('a) = Suc n"
  shows "bit (a - b) n \<noteq> bit a n \<and> bit a n \<noteq> bit b n \<longleftrightarrow>
    \<not> (- (2 ^ n) \<le> sint a - sint b \<and> sint a - sint b < 2 ^ n)"
proof -
  have neg: "bit w n \<longleftrightarrow> sint w < 0" for w :: "'a word"
    using bit_last_iff [of w] n by simp
  have r: "- (2 ^ n) \<le> sint w" "sint w < 2 ^ n" for w :: "'a word"
    using sint_greater_eq [of w] sint_less [of w] n by simp_all
  have s: "sint (a - b) = signed_take_bit n (sint a - sint b)"
    using n by (simp add: sint_word_ariths)
  show ?thesis
    unfolding neg s using r [of a] r [of b] by (subst signed_wrap; auto)+
qed

lemma top_bit_gen:
  fixes x y :: "'a::len word"
  assumes "LENGTH('a) = Suc n"
  shows "drop_bit n x = drop_bit n y \<longleftrightarrow> bit x n = bit y n"
proof -
  have "bit w m \<longleftrightarrow> m = n \<and> bit w n" if "n \<le> m" for w :: "'a word" and m
    using that bit_imp_le_length [of w m] assms by (auto simp: le_less_Suc_eq)
  then show ?thesis unfolding drop_bit_eq_iff by blast
qed

lemma top_bit_eq:
  "drop_bit 31 (x :: u32) = drop_bit 31 y \<longleftrightarrow> bit x 31 = bit y 31"
  "drop_bit 63 (u :: u64) = drop_bit 63 v \<longleftrightarrow> bit u 63 = bit v 63"
  by (simp_all add: top_bit_gen)

lemmas overflow_defs = add32_overflows_def sub32_overflows_def add64_overflows_def sub64_overflows_def

text \<open>C39.  The sign-bit tests of ADD, ADDI, SUB, DADD, DADDI and DSUB hold exactly when the
  signed result leaves the 32-bit or 64-bit range.\<close>

theorem overflow_exact:
  "(add32_overflows a b \<longleftrightarrow> \<not> (- (2 ^ 31) \<le> sint a + sint b \<and> sint a + sint b < 2 ^ 31)) \<and>
   (sub32_overflows a b \<longleftrightarrow> \<not> (- (2 ^ 31) \<le> sint a - sint b \<and> sint a - sint b < 2 ^ 31)) \<and>
   (add64_overflows c d \<longleftrightarrow> \<not> (- (2 ^ 63) \<le> sint c + sint d \<and> sint c + sint d < 2 ^ 63)) \<and>
   (sub64_overflows c d \<longleftrightarrow> \<not> (- (2 ^ 63) \<le> sint c - sint d \<and> sint c - sint d < 2 ^ 63))"
  unfolding overflow_defs Let_def top_bit_eq
  using add_overflow_iff [of 31 a b] sub_overflow_iff [of 31 a b] add_overflow_iff [of 63 c d]
    sub_overflow_iff [of 63 c d]
  by simp

section \<open>Products\<close>

lemma hi_lo_join:
  fixes y :: int
  assumes "LENGTH('a::len) = n" "- (2 ^ (n - 1)) \<le> y div 2 ^ n" "y div 2 ^ n < 2 ^ (n - 1)"
  shows "sint (word_of_int (y div 2 ^ n) :: 'a word) * 2 ^ n + uint (word_of_int y :: 'a word) = y"
proof -
  have "sint (word_of_int (y div 2 ^ n) :: 'a word) = y div 2 ^ n"
    using assms by (simp add: signed_of_int signed_take_bit_int_eq_self)
  moreover have "uint (word_of_int y :: 'a word) = y mod 2 ^ n"
    using assms(1) by (simp add: unsigned_of_int take_bit_eq_mod)
  ultimately show ?thesis by (simp add: div_mult_mod_eq)
qed

lemma product_bound:
  fixes a b :: int
  assumes "- k \<le> a" "a \<le> k" "- k \<le> b" "b \<le> k"
  shows "- (k * k) \<le> a * b" "a * b \<le> k * k"
proof -
  have "\<bar>a * b\<bar> \<le> k * k"
    unfolding abs_mult using assms by (intro mult_mono) auto
  then show "- (k * k) \<le> a * b" "a * b \<le> k * k" by auto
qed

lemma sint_bounds:
  "- (2 ^ 31) \<le> sint (x :: u32)" "sint x \<le> 2 ^ 31" "- (2 ^ 63) \<le> sint (w :: u64)" "sint w \<le> 2 ^ 63"
  using sint_greater_eq [of x] sint_less [of x] sint_greater_eq [of w] sint_less [of w] by simp_all

lemma signed_product_div:
  "- (2 ^ 31) \<le> (sint (x :: u32) * sint (y :: u32)) div 2 ^ 32 \<and> (sint x * sint y) div 2 ^ 32 < 2 ^ 31"
  "- (2 ^ 63) \<le> (sint (w :: u64) * sint (z :: u64)) div 2 ^ 64 \<and> (sint w * sint z) div 2 ^ 64 < 2 ^ 63"
proof -
  have "- (2 ^ 62) \<le> sint x * sint y" "sint x * sint y \<le> 2 ^ 62"
    using product_bound [OF sint_bounds(1,2) [of x] sint_bounds(1,2) [of y]] by simp_all
  from zdiv_mono1 [OF this(1), of "2 ^ 32"] zdiv_mono1 [OF this(2), of "2 ^ 32"]
  show "- (2 ^ 31) \<le> (sint x * sint y) div 2 ^ 32 \<and> (sint x * sint y) div 2 ^ 32 < 2 ^ 31" by simp
  have "- (2 ^ 126) \<le> sint w * sint z" "sint w * sint z \<le> 2 ^ 126"
    using product_bound [OF sint_bounds(3,4) [of w] sint_bounds(3,4) [of z]] by simp_all
  from zdiv_mono1 [OF this(1), of "2 ^ 64"] zdiv_mono1 [OF this(2), of "2 ^ 64"]
  show "- (2 ^ 63) \<le> (sint w * sint z) div 2 ^ 64 \<and> (sint w * sint z) div 2 ^ 64 < 2 ^ 63" by simp
qed

lemma unsigned_product_div: "uint (w :: u64) * uint (z :: u64) div 2 ^ 64 < 2 ^ 64"
proof -
  let ?y = "uint w * uint z"
  have w: "uint w < 2 ^ 64" "uint z < 2 ^ 64" using uint_lt2p [of w] uint_lt2p [of z] by simp_all
  have "?y < 2 ^ 64 * 2 ^ 64" using w by (intro mult_strict_mono) auto
  moreover have "?y div 2 ^ 64 * 2 ^ 64 \<le> ?y"
  proof -
    have "0 \<le> ?y mod 2 ^ 64" by simp
    then show ?thesis using div_mult_mod_eq [of ?y "2 ^ 64"] by linarith
  qed
  ultimately have "?y div 2 ^ 64 * 2 ^ 64 < 2 ^ 64 * 2 ^ 64" by (rule le_less_trans [rotated])
  then show ?thesis by (simp only: mult_less_cancel_right_pos zero_less_power zero_less_numeral)
qed

lemma hi_lo_join_unsigned:
  fixes y :: int
  assumes "LENGTH('a::len) = n" "0 \<le> y div 2 ^ n" "y div 2 ^ n < 2 ^ n"
  shows "uint (word_of_int (y div 2 ^ n) :: 'a word) * 2 ^ n + uint (word_of_int y :: 'a word) = y"
  using assms by (simp add: unsigned_of_int take_bit_eq_mod div_mult_mod_eq)

lemma multu_join:
  fixes x y :: u32
  defines "p \<equiv> (ucast x :: u64) * ucast y"
  shows "uint (lo32 (drop_bit 32 p)) * 2 ^ 32 + uint (lo32 p) = uint x * uint y"
proof -
  have xy: "uint x < 2 ^ 32" "uint y < 2 ^ 32" using uint_lt2p [of x] uint_lt2p [of y] by simp_all
  then have "uint x * uint y < 2 ^ 32 * 2 ^ 32" by (intro mult_strict_mono) auto
  then have p: "uint p = uint x * uint y"
    unfolding p_def by (simp add: uint_word_ariths unsigned_ucast_eq take_bit_eq_mod mod_simps)
  have "uint (lo32 (drop_bit 32 p)) = uint p div 2 ^ 32"
  proof -
    have l: "0 \<le> uint p" "uint p < 2 ^ 64" using uint_lt2p [of p] by simp_all
    have "uint (drop_bit 32 p) = uint p div 2 ^ 32" by (simp add: uint_div drop_bit_eq_div)
    moreover have "uint p div 2 ^ 32 < 2 ^ 32" "0 \<le> uint p div 2 ^ 32"
      using zdiv_mono1 [of "uint p" "2 ^ 64 - 1" "2 ^ 32"] l by (simp_all add: pos_imp_zdiv_nonneg_iff)
    ultimately show ?thesis by (simp only: unsigned_ucast_eq take_bit_eq_mod) simp
  qed
  moreover have "uint (lo32 p) = uint p mod 2 ^ 32"
    by (simp add: unsigned_ucast_eq take_bit_eq_mod)
  ultimately show ?thesis using p by (simp add: div_mult_mod_eq)
qed

text \<open>HI and LO together are the full product: signed for MULT and DMULT, unsigned for
  MULTU and DMULTU; the 32-bit forms sign-extend both halves.\<close>

theorem products_exact:
  "(let (hi, lo) = mult a b in
      sint (lo32 hi) * 2 ^ 32 + uint (lo32 lo) = sint (lo32 a) * sint (lo32 b) \<and>
      hi = sext32 (lo32 hi) \<and> lo = sext32 (lo32 lo)) \<and>
   (let (hi, lo) = multu a b in
      uint (lo32 hi) * 2 ^ 32 + uint (lo32 lo) = uint (lo32 a) * uint (lo32 b) \<and>
      hi = sext32 (lo32 hi) \<and> lo = sext32 (lo32 lo)) \<and>
   (let (hi, lo) = dmult a b in sint hi * 2 ^ 64 + uint lo = sint a * sint b) \<and>
   (let (hi, lo) = dmultu a b in uint hi * 2 ^ 64 + uint lo = uint a * uint b)"
proof (intro conjI)
  show "let (hi, lo) = mult a b in
      sint (lo32 hi) * 2 ^ 32 + uint (lo32 lo) = sint (lo32 a) * sint (lo32 b) \<and>
      hi = sext32 (lo32 hi) \<and> lo = sext32 (lo32 lo)"
    using hi_lo_join [where 'a = 32, of 32 "sint (lo32 a) * sint (lo32 b)"]
      signed_product_div(1) [of "lo32 a" "lo32 b"]
    by (simp add: mult_def Let_def)
  show "let (hi, lo) = dmult a b in sint hi * 2 ^ 64 + uint lo = sint a * sint b"
    using hi_lo_join [where 'a = 64, of 64 "sint a * sint b"] signed_product_div(2) [of a b]
    by (simp add: dmult_def Let_def)
  have "0 \<le> uint a * uint b div 2 ^ 64" by (simp add: pos_imp_zdiv_nonneg_iff)
  then show "let (hi, lo) = dmultu a b in uint hi * 2 ^ 64 + uint lo = uint a * uint b"
    using unsigned_product_div [of a b] hi_lo_join_unsigned [where 'a = 64, of 64 "uint a * uint b"]
    by (simp add: dmultu_def Let_def)
  show "let (hi, lo) = multu a b in
      uint (lo32 hi) * 2 ^ 32 + uint (lo32 lo) = uint (lo32 a) * uint (lo32 b) \<and>
      hi = sext32 (lo32 hi) \<and> lo = sext32 (lo32 lo)"
    using multu_join [of "lo32 a" "lo32 b"] by (simp add: multu_def Let_def sext64_eq_sext32)
qed

section \<open>Quotients\<close>

lemma sdiv_in_range:
  fixes x y N :: int
  assumes "- N \<le> x" "x < N" "- N \<le> y" "y < N" "y \<noteq> 0" "\<not> (x = - N \<and> y = - 1)"
  shows "- N \<le> x sdiv y" "x sdiv y < N" "- N \<le> x smod y" "x smod y < N"
proof -
  have q: "- \<bar>x\<bar> \<le> x sdiv y" "x sdiv y \<le> \<bar>x\<bar>" using sdiv_int_range [of x y] by auto
  have r: "- \<bar>y\<bar> < x smod y" "x smod y < \<bar>y\<bar>" using smod_int_range [OF assms(5), of x] by auto
  show "- N \<le> x sdiv y" using q assms by linarith
  show "- N \<le> x smod y" "x smod y < N" using r assms by linarith+
  have "x sdiv y \<noteq> N"
  proof
    assume n: "x sdiv y = N"
    then have "x = - N" using q assms by linarith
    moreover have "x \<noteq> 0" using calculation assms by auto
    ultimately have "x sdiv y = - x" using n by simp
    then have "y = - 1" using \<open>x \<noteq> 0\<close> by simp
    then show False using assms(6) \<open>x = - N\<close> by simp
  qed
  then show "x sdiv y < N" using q assms by linarith
qed

lemma sint_of_int_small:
  "- (2 ^ 31) \<le> q \<Longrightarrow> q < 2 ^ 31 \<Longrightarrow> sint (sext64 (word_of_int q)) = q"
  "- (2 ^ 63) \<le> k \<Longrightarrow> k < 2 ^ 63 \<Longrightarrow> sint (word_of_int k :: u64) = k"
  by (simp_all add: sext64_eq_sext32 sext32_def signed_scast_eq signed_of_int signed_take_bit_int_eq_self)

lemma sint_zero: "sint (w :: 'a::len word) = 0 \<longleftrightarrow> w = 0"
  by (metis signed_eq_0_iff)

text \<open>DIV and DDIV satisfy the truncating division law for every operand pair with a
  nonzero divisor and a representable quotient, the remainder being smaller than the divisor
  in absolute value; DIVU and DDIVU are unsigned quotient and remainder.\<close>

theorem division_law:
  assumes "lo32 b \<noteq> 0" "\<not> (sint (lo32 a) = - (2 ^ 31) \<and> sint (lo32 b) = - 1)"
    and "d \<noteq> 0" "\<not> (sint c = - (2 ^ 63) \<and> sint d = - 1)"
  shows "(\<exists>hi lo. div_hilo a b = Some (hi, lo) \<and> sint (lo32 a) = sint lo * sint (lo32 b) + sint hi \<and>
      \<bar>sint hi\<bar> < \<bar>sint (lo32 b)\<bar>) \<and>
    (\<exists>hi lo. ddiv_hilo c d = Inr (Some (hi, lo)) \<and> sint c = sint lo * sint d + sint hi \<and>
      \<bar>sint hi\<bar> < \<bar>sint d\<bar>) \<and>
    (\<exists>hi lo. divu_hilo a b = Inr (Some (sext32 hi, sext32 lo)) \<and>
      lo32 a = lo * lo32 b + hi \<and> hi < lo32 b) \<and>
    (\<exists>hi lo. ddivu_hilo c d = Some (hi, lo) \<and> c = lo * d + hi \<and> hi < d)"
proof (intro conjI)
  let ?x = "sint (lo32 a)" and ?y = "sint (lo32 b)"
  have y: "?y \<noteq> 0" using assms(1) by (simp add: sint_zero)
  have r: "- (2 ^ 31) \<le> ?x" "?x < 2 ^ 31" "- (2 ^ 31) \<le> ?y" "?y < 2 ^ 31"
    using sint_greater_eq [of "lo32 a"] sint_less [of "lo32 a"] sint_greater_eq [of "lo32 b"]
      sint_less [of "lo32 b"] by simp_all
  have q: "\<bar>?x smod ?y\<bar> < \<bar>?y\<bar>" using smod_int_range [OF y, of ?x] by auto
  show "\<exists>hi lo. div_hilo a b = Some (hi, lo) \<and> ?x = sint lo * ?y + sint hi \<and> \<bar>sint hi\<bar> < \<bar>?y\<bar>"
    using assms(1) sdiv_in_range [OF r y assms(2)] q
    by (simp add: div_hilo_def Let_def sint_of_int_small sdiv_mult_smod_eq)
  have y': "sint d \<noteq> 0" using assms(3) by (simp add: sint_zero)
  have r': "- (2 ^ 63) \<le> sint c" "sint c < 2 ^ 63" "- (2 ^ 63) \<le> sint d" "sint d < 2 ^ 63"
    using sint_greater_eq [of c] sint_less [of c] sint_greater_eq [of d] sint_less [of d] by simp_all
  have q': "\<bar>sint c smod sint d\<bar> < \<bar>sint d\<bar>" using smod_int_range [OF y', of "sint c"] by auto
  show "\<exists>hi lo. ddiv_hilo c d = Inr (Some (hi, lo)) \<and> sint c = sint lo * sint d + sint hi \<and>
      \<bar>sint hi\<bar> < \<bar>sint d\<bar>"
    using assms(3,4) sdiv_in_range [OF r' y' assms(4)] q'
    by (auto simp: ddiv_hilo_def sint_of_int_small sdiv_mult_smod_eq)
  have "b \<noteq> 0" using assms(1) by auto
  then show "\<exists>hi lo. divu_hilo a b = Inr (Some (sext32 hi, sext32 lo)) \<and> lo32 a = lo * lo32 b + hi \<and> hi < lo32 b"
    using assms(1) by (auto simp: divu_hilo_def sext64_eq_sext32 div_mult_mod_eq word_mod_less_divisor
        word_neq_0_conv)
  show "\<exists>hi lo. ddivu_hilo c d = Some (hi, lo) \<and> c = lo * d + hi \<and> hi < d"
    using assms(3) by (auto simp: ddivu_hilo_def div_mult_mod_eq word_mod_less_divisor word_neq_0_conv)
qed

theorem division_law_witness:
  "\<exists>hi lo. div_hilo 0xfffffff9 2 = Some (hi, lo) \<and> - 7 = sint lo * 2 + sint hi \<and> \<bar>sint hi\<bar> < 2"
  using division_law [of 2 "0xfffffff9" 5 9] by simp

lemma rtype_returns:
  "shift_rtype i s = Some r \<Longrightarrow> \<exists>t. r = Inr t"
  "arith_rtype i s = Some r \<Longrightarrow> \<exists>t. r = Inr t"
  "f_funct i \<notin> {0x08, 0x09} \<Longrightarrow> control_rtype ex i s = Some r \<Longrightarrow> \<exists>t. r = Inr t"
  by (auto simp: shift_rtype_def arith_rtype_def control_rtype_def Let_def ret_gpr_def trap_if_def split: if_splits)

lemma rtype_divisions:
  assumes "f_funct i = 0x1B \<or> f_funct i = 0x1E"
  shows "shift_rtype i s = None" "control_rtype ex i s = None"
  using assms by (auto simp: shift_rtype_def control_rtype_def Let_def)

lemma hilo_stops:
  "hilo_rtype i s = Some (Inl e) \<longleftrightarrow>
     f_funct i = 0x1B \<and> divu_hilo (gpr s (f_rs i)) (gpr s (f_rt i)) = Inl e \<or>
     f_funct i = 0x1E \<and> ddiv_hilo (gpr s (f_rs i)) (gpr s (f_rt i)) = Inl e"
  by (auto simp: hilo_rtype_def Let_def ret_gpr_def put_hilo_def put_div_def
      split: if_splits sum.splits option.splits)

text \<open>An R-type instruction other than a jump always completes or raises a guest exception,
  with two exceptions, divisions that C++ leaves undefined: DIVU tests the whole 64-bit divisor
  against zero but divides by its low word, so that a divisor such as 2^32 divides by zero
  on the host, and DDIV of the least integer by -1 overflows.\<close>

theorem rtype_host_stops:
  assumes "f_funct i \<notin> {0x08, 0x09}"
  shows "exec_rtype ex i s = Inl e \<longleftrightarrow> e = Host_division \<and>
    (f_funct i = 0x1B \<and> gpr s (f_rt i) \<noteq> 0 \<and> lo32 (gpr s (f_rt i)) = 0 \<or>
     f_funct i = 0x1E \<and> sint (gpr s (f_rs i)) = - (2 ^ 63) \<and> sint (gpr s (f_rt i)) = - 1)"
proof -
  have "exec_rtype ex i s = Inl e \<longleftrightarrow> hilo_rtype i s = Some (Inl e) \<and> shift_rtype i s = None \<and>
      control_rtype ex i s = None"
    using rtype_returns(1) [of i s] rtype_returns(2) [of i s] rtype_returns(3) [OF assms, of ex s]
    by (auto simp: exec_rtype_def split: option.splits) 
  also have "\<dots> \<longleftrightarrow> hilo_rtype i s = Some (Inl e)"
    using rtype_divisions(1) [of i s] rtype_divisions(2) [of i ex s] unfolding hilo_stops by blast
  finally show ?thesis
    unfolding hilo_stops by (auto simp: divu_hilo_def ddiv_hilo_def)
qed

theorem rtype_host_stops_witness:
  "exec_rtype Inr 0x0085001b ((state_zero (io_init ()))\<lparr>gpr := (\<lambda>_. 0)(5 := 0x100000000)\<rparr>) = Inl Host_division"
  using rtype_host_stops [of "0x0085001b" Inr "(state_zero (io_init ()))\<lparr>gpr := (\<lambda>_. 0)(5 := 0x100000000)\<rparr>"
      Host_division]
  by (simp add: f_funct_def f_rt_def drop_bit_eq_div)

end
