(* ===== verification/Exec_Faults.thy ===== *)
theory Exec_Faults
  imports Interpreter ALU_Properties
begin

text \<open>
  Every exception of one instruction is precise about where it happened.  For each handler of the
  executor: when Status.EXL goes from 0 to 1, EPC and Cause.BD name the instruction (or the branch
  before it), and control is at an exception vector.  The one instruction that can set EXL
  otherwise is a CP0 move to Status.  The delay-slot protocol of \<^verbatim>\<open>run_delay_slot\<close>, which watches
  EXL, rests on this.
\<close>

section \<open>Taking an exception\<close>

definition took :: "'d state_t \<Rightarrow> 'd state_t \<Rightarrow> bool" where
  "took s t \<longleftrightarrow> exl t \<and> \<not> erl t \<and>
     cpr0_64 t CPR0_EPC = (if in_delay_slot s then pc s - 4 else pc s) \<and>
     bit (cpr0 t CPR0_CAUSE) 31 = in_delay_slot s \<and>
     pc t \<in> {general_vector s, refill_vector True s, refill_vector False s}"

definition clean :: "'d state_t \<Rightarrow> 'd state_t \<Rightarrow> bool" where
  "clean s t \<longleftrightarrow> (\<not> exl s \<longrightarrow> exl t \<longrightarrow> took s t)"

definition clean_res :: "'d state_t \<Rightarrow> 'd result \<Rightarrow> bool" where
  "clean_res s r \<longleftrightarrow> (\<forall>t. r = Inr t \<longrightarrow> clean s t)"

definition clean_opt :: "'d state_t \<Rightarrow> 'd result option \<Rightarrow> bool" where
  "clean_opt s r \<longleftrightarrow> (\<forall>q. r = Some q \<longrightarrow> clean_res s q)"

lemma clean_res_simps [simp]:
  "clean_res s (Inl e)" "clean_res s (Inr t) = clean s t"
  "clean_opt s None" "clean_opt s (Some q) = clean_res s q"
  by (simp_all add: clean_res_def clean_opt_def)

named_theorems clean_simps

lemma clean_keep [clean_simps]: "cpr0 t CPR0_SR = cpr0 s CPR0_SR \<Longrightarrow> clean s t"
  by (simp add: clean_def exl_def)

lemma took_entered:
  assumes "entered t c s" "pc t \<in> {general_vector s, refill_vector True s, refill_vector False s}" "\<not> exl s"
  shows "took s t"
  using assms by (simp add: took_def entered_def)

lemma clean_raisers:
  assumes "(raise, code) \<in> set (raisers ce)"
  shows "clean s (raise s)"
  using raisers_entered [OF assms, of s] took_entered [of "raise s" code s] by (simp add: clean_def)

lemma clean_raise [clean_simps]:
  "clean s (raise_adel s)" "clean s (raise_ades s)" "clean s (raise_syscall s)" "clean s (raise_break s)"
  "clean s (raise_ri s)" "clean s (take_exception_ri s)" "clean s (take_exception_cpu ce s)"
  "clean s (raise_overflow s)" "clean s (raise_trap s)" "clean s (take_exception_fpe s)"
proof -
  have "list_all (\<lambda>(raise, code). clean s (raise s)) (raisers ce)"
    by (auto simp: list_all_iff intro: clean_raisers)
  then show "clean s (raise_adel s)" "clean s (raise_ades s)" "clean s (raise_syscall s)" "clean s (raise_break s)"
    "clean s (raise_ri s)" "clean s (take_exception_ri s)" "clean s (take_exception_cpu ce s)"
    "clean s (raise_overflow s)" "clean s (raise_trap s)" "clean s (take_exception_fpe s)"
    by (simp_all add: raisers_def)
qed

lemma clean_raise_tlb:
  assumes "c \<in> {1, 2, 3}"
  shows "clean s (raise_tlb va c r x s)"
  using took_entered [OF raise_tlb_entered [OF assms], of va r x s]
  by (cases x) (simp_all add: clean_def raise_tlb_parts)

lemma clean_cong:
  assumes "clean s1 t" "cpr0 s1 = cpr0 s" "pc s1 = pc s" "in_delay_slot s1 = in_delay_slot s"
  shows "clean s t"
  using assms by (simp add: clean_def took_def exl_def general_vector_def refill_vector_def bev_def)

lemma clean_after [clean_simps]:
  "clean s (t\<lparr>ll_armed := b\<rparr>) = clean s t" "clean s (set_fp_state r k t) = clean s t"
  by (simp_all add: clean_def took_def exl_def erl_def set_fp_state_def)

section \<open>Memory accesses\<close>

lemma mem_keep [clean_simps]:
  "cpr0 (snd (mem_get E n a s)) = cpr0 s" "cpr0 (mem_set E n a v s) = cpr0 s"
  by (simp_all add: mem_get_def mem_set_def split_def Let_def)

lemma reg_keep [clean_simps]:
  "cpr0 (pc4 s) = cpr0 s" "cpr0 (set_gpr r v s) = cpr0 s" "cpr0 (set_cpr1 r v s) = cpr0 s"
  "cpr0 (set_fpr_hw r w s) = cpr0 s" "cpr0 (wr_fp d r v s) = cpr0 s" "cpr0 (set_fp_state r k s) = cpr0 s"
  "cpr0 (set_fcr1 c w s) = cpr0 s" "cpr0 (setConditionCode w w' s) = cpr0 s"
  "cpr0 (fcc_mirror_to_fccr s) = cpr0 s" "cpr0 (fcc_mirror_from_fccr s) = cpr0 s"
  by (simp_all add: reg_defs set_cpr1_def set_fpr_hw_def wr_fp_def set_fp_state_def setConditionCode_def
      fcc_mirror_to_fccr_def fcc_mirror_from_fccr_def Let_def)

lemma clean_with_ea:
  assumes "\<not> tlb_fault s" "\<And>pa t. clean t (h pa t)"
  shows "clean s (with_ea op va h s)"
proof -
  obtain pa s1 where t: "va_translate va op s = (pa, s1)" by (cases "va_translate va op s")
  note tc = translate_cases [OF t assms(1)]
  show ?thesis
  proof (cases "tlb_fault s1")
    case True
    then obtain c r x where c: "c \<in> {1, 2, 3}" "s1 = raise_tlb va c r x (set_cache_active False s)"
      using tc by auto
    have "clean s s1" unfolding c(2) by (rule clean_cong [OF clean_raise_tlb [OF c(1)]]) simp_all
    then show ?thesis using True by (simp add: with_ea_def t)
  next
    case False
    then show ?thesis using tc clean_cong [OF assms(2) [of s1 pa]] by (simp add: with_ea_def t)
  qed
qed

lemma clean_loads:
  assumes "\<not> tlb_fault s"
  shows "clean s (lb E i s)" "clean s (lbu E i s)" "clean s (lh E i s)" "clean s (lhu E i s)" "clean s (lw E i s)"
    "clean s (lwu E i s)" "clean s (ld E i s)" "clean s (lwl E i s)" "clean s (lwr E i s)" "clean s (ldl E i s)"
    "clean s (ldr E i s)" "clean s (lwc1 E i s)" "clean s (ldc1 E i s)" "clean s (lxc1 E d i s)"
  unfolding lb_def lbu_def lh_def lhu_def lw_def lwu_def ld_def lwl_def lwr_def ldl_def ldr_def lwc1_def ldc1_def
    lxc1_def
  by (rule clean_with_ea [OF assms], simp add: clean_simps Let_def split_def)+

lemma clean_stores:
  assumes "\<not> tlb_fault s"
  shows "clean s (sb E i s)" "clean s (sh E i s)" "clean s (sw E i s)" "clean s (sd E i s)" "clean s (sc E i s)"
    "clean s (scd E i s)" "clean s (swl E i s)" "clean s (swr E i s)" "clean s (sdl E i s)" "clean s (sdr E i s)"
    "clean s (swc1 E i s)" "clean s (sdc1 E i s)" "clean s (sxc1 E d i s)"
  unfolding sb_def sh_def sw_def sd_def sc_def scd_def swl_def swr_def sdl_def sdr_def swc1_def sdc1_def sxc1_def
  by (rule clean_with_ea [OF assms], simp add: clean_simps Let_def split_def)+

lemma clean_linked:
  assumes "\<not> tlb_fault s"
  shows "clean s (ll_exec E i s)" "clean s (lld_exec E i s)" "clean s (sc_exec E i s)" "clean s (scd_exec E i s)"
  using clean_loads(5,7) [OF assms, of E i] clean_stores(5,6) [OF assms, of E i]
  by (simp_all add: ll_exec_def lld_exec_def sc_exec_def scd_exec_def Let_def clean_simps)

section \<open>The other instructions\<close>

lemma clean_cache_op: "clean s (cache_op E i s)"
proof -
  have t: "cpr0 (sc_tag_ops E c va s) CPR0_SR = cpr0 s CPR0_SR" for c va
    by (simp add: sc_tag_ops_def Let_def set_cpr0_def set_cpr0_64_def split: option.split)
  have m: "cpr0 (with_cmodel f u) = cpr0 u" for f and u :: "'a state_t"
    by (simp add: with_cmodel_def split_def Let_def split: option.split)
  show ?thesis
    by (rule clean_keep) (simp add: cache_op_def Let_def reg_keep t m split: option.split)
qed

lemma clean_rtype:
  assumes "f_funct i \<notin> {0x08, 0x09}"
  shows "clean_res s (exec_rtype ex i s)"
proof -
  have ret: "clean_res s (ret_gpr r v s)" "clean_res s (put_hilo hl s)" "clean_res s (put_div d s)"
    "clean_res s (trap_if c s)" for r v hl d c
    by (simp_all add: ret_gpr_def put_hilo_def put_div_def trap_if_def set_hilo_def clean_simps
        split: sum.split option.split)
  have "clean_opt s (shift_rtype i s)"
    by (simp add: shift_rtype_def Let_def ret)
  moreover have "clean_opt s (control_rtype ex i s)"
    using assms by (simp add: control_rtype_def Let_def ret clean_simps)
  moreover have "clean_opt s (hilo_rtype i s)"
    by (simp add: hilo_rtype_def Let_def ret clean_simps)
  moreover have "clean_opt s (arith_rtype i s)"
    by (simp add: arith_rtype_def Let_def ret clean_simps movci_def)
  ultimately show ?thesis
    by (auto simp: exec_rtype_def clean_simps split: option.split)
qed

lemma clean_imm: "clean_opt s (exec_imm i s)"
  by (simp add: exec_imm_def Let_def ret_gpr_def clean_simps)

lemma clean_mem_imm:
  assumes "\<not> tlb_fault s" "exec_mem_imm E i s = Some t"
  shows "clean s t"
  using assms(2) clean_loads [OF assms(1), where E = E and i = i] clean_stores [OF assms(1), where E = E and i = i] clean_cache_op [of s E i]
  unfolding exec_mem_imm_def Let_def by (auto simp: clean_simps split: if_splits)

lemma clean_fp_computational: "clean_res s (fp_computational E i s)"
proof -
  have m: "clean_res s (c_cond i s)" "clean_res s (fp2int E i l rnd s)" "clean_res s (truncl E i s)"
    "clean_res s (truncw E i s)" "clean_res s (cvts E i s)" "clean_res s (cvtd E i s)" "clean_res s (fmovn i s)"
    "clean_res s (fmovz i s)" "clean_res s (fmovc i s)" for l rnd
    by (simp_all add: c_cond_def fp2int_def truncl_def truncw_def cvts_def cvtd_def fmovn_def fmovz_def fmovc_def
        fpCmp_def movns_def movnd_def movzs_def movzd_def movcs_def movcd_def move_fp_def Let_def clean_simps
        split: option.split)
  have d: "clean_res s (do_fp_op E op i s)" for op
    by (simp add: do_fp_op_def execFP_def Let_def clean_simps)
  show ?thesis
    by (simp add: fp_computational_def Let_def m d clean_simps)
qed

lemma clean_coproc1:
  assumes "f_fmt i \<noteq> 0x8"
  shows "clean_res s (execCoproc1 E ex i s)"
  using assms clean_fp_computational [of s E i]
  by (simp add: execCoproc1_def Let_def mfc1_def mtc1_def dmfc1_def dmtc1_def cfc1_def ctc1_def clean_simps)

lemma clean_coproc1x:
  assumes "\<not> tlb_fault s"
  shows "clean_res s (execCoproc1x E i s)"
  using clean_loads(14) [OF assms, of E] clean_stores(13) [OF assms, of E]
  by (simp add: execCoproc1x_def c1xExec_def Let_def clean_simps)

text \<open>The CP0 moves to Status.\<close>

definition status_move :: "u32 \<Rightarrow> bool" where
  "status_move i \<longleftrightarrow> f_op i = 0x10 \<and> f_rs i \<in> {4, 5} \<and> f_rd i = CPR0_SR"

lemma exl_bit: "exl s \<longleftrightarrow> bit (cpr0 s CPR0_SR) 1"
  by (simp add: exl_def flag_bits)

lemma cop0_co_exl:
  assumes "cop0_co i s = Inr t" "\<not> exl s"
  shows "\<not> exl t"
proof -
  have w: "tlb_write k s = Inr u \<Longrightarrow> cpr0 u = cpr0 s" for k u
    by (auto simp: tlb_write_def split: if_splits)
  have "tlbwr s = Inr u \<Longrightarrow> cpr0 u CPR0_SR = cpr0 s CPR0_SR" for u
    using w by (auto simp: tlbwr_def on_next_Inr set_cpr0_def)
  moreover have "tlbwi s = Inr u \<Longrightarrow> cpr0 u = cpr0 s" for u using w by (simp add: tlbwi_def)
  moreover have "cpr0 (tlbr s) CPR0_SR = cpr0 s CPR0_SR" "cpr0 (tlbp s) CPR0_SR = cpr0 s CPR0_SR"
    by (simp_all add: tlbr_def tlbp_def Let_def set_cpr0_def split: option.split)
  moreover have "bit (cpr0 (eret s) CPR0_SR) 1 \<longrightarrow> bit (cpr0 s CPR0_SR) 1"
    by (simp add: eret_def Let_def set_cpr0_def bit_and_iff)
  ultimately show ?thesis
    using assms unfolding cop0_co_def Let_def exl_bit by (auto split: if_splits)
qed

lemma write_cp0_sr: "rd \<noteq> CPR0_SR \<Longrightarrow> cpr0 (write_cp0 rd v s) CPR0_SR = cpr0 s CPR0_SR"
  by (simp add: write_cp0_def Let_def reg_defs)

lemma clean_cop0:
  assumes "\<not> status_move i" "f_op i = 0x10"
  shows "clean_res s (exec_cop0 i s)"
proof -
  have c: "cpr0 (console_port rd v u) = cpr0 u" for rd v and u :: "'a state_t"
    by (simp add: console_port_def putchar_def console_watch_def Let_def)
  have p: "exl (pc4 u) = exl u" for u :: "'a state_t" by (simp add: exl_def reg_defs)
  have "\<not> exl (mfc0 i s)" "\<not> exl (dmfc0 i s)" "\<not> exl (di_ei b i s)" if "\<not> exl s" for b
    using that by (simp_all add: exl_bit mfc0_def dmfc0_def di_ei_def Let_def reg_defs bit_and_iff bit_or_iff bit_not_iff bit_1_iff)
  moreover have "\<not> exl (mtc0 i s)" "\<not> exl (dmtc0 i s)" if "\<not> exl s" "f_rs i = 4 \<or> f_rs i = 5"
    using that assms
    by (auto simp: exl_bit mtc0_def dmtc0_def Let_def c set_cpr0_def write_cp0_sr status_move_def)
  ultimately show ?thesis
    using cop0_co_exl [of i s]
    by (auto simp: exec_cop0_def clean_res_def clean_def on_next_Inr p split: if_splits)
qed

section \<open>One instruction\<close>

text \<open>The instructions with a delay slot.\<close>

definition has_delay_slot :: "u32 \<Rightarrow> bool" where
  "has_delay_slot i \<longleftrightarrow>
     f_op i = 0 \<and> f_funct i \<in> {0x08, 0x09} \<or> drop_bit 1 (f_op i) = 1 \<or>
     f_op i = 1 \<and> f_rt i \<in> {0, 1, 2, 3, 16, 17, 18, 19} \<or>
     f_op i \<in> {0x04, 0x05, 0x06, 0x07, 0x14, 0x15, 0x16, 0x17} \<or> f_op i = 0x11 \<and> f_fmt i = 0x8"

lemma clean_dispatch:
  assumes "\<not> has_delay_slot i" "\<not> status_move i" "\<not> tlb_fault s"
  shows "clean_res s (dispatch E ex i s)"
proof -
  note d = assms(1) [unfolded has_delay_slot_def]
  have r: "f_op i = 0 \<Longrightarrow> clean_res s (exec_rtype ex i s)" using d by (intro clean_rtype) auto
  have c1: "f_op i = 0x11 \<Longrightarrow> clean_res s (execCoproc1 E ex i s)" using d by (intro clean_coproc1) auto
  have c0: "f_op i = 0x10 \<Longrightarrow> clean_res s (exec_cop0 i s)" using assms(2) by (intro clean_cop0)
  have b: "clean_opt s (exec_branch_imm E ex i s)"
    using d by (auto simp: exec_branch_imm_def bgez_bltz_def Let_def clean_simps)
  have it: "clean_res s (exec_itype E ex i s)"
    using b clean_imm [of s i] clean_mem_imm [OF assms(3), of E i]
    by (auto simp: exec_itype_def clean_simps split: option.split)
  show ?thesis
    using d r c1 c0 it clean_coproc1x [OF assms(3), of E i] clean_linked [OF assms(3), of E i]
    by (simp add: dispatch_def Let_def clean_simps)
qed

lemma fetch_cases:
  assumes "fetch E v = (f, s1)"
  shows "f = None \<Longrightarrow> clean v s1"
    and "f = Some i \<Longrightarrow> cpr0 s1 = cpr0 v \<and> pc s1 = pc v \<and> in_delay_slot s1 = in_delay_slot v \<and> \<not> tlb_fault s1"
proof -
  let ?u = "(set_gpr 0 0 v)\<lparr>tlb_fault := False\<rparr>"
  have u: "\<not> tlb_fault ?u" "cpr0 ?u = cpr0 v" "pc ?u = pc v" "in_delay_slot ?u = in_delay_slot v"
    by (simp_all add: reg_defs)
  obtain pa s2 where t: "va_translate (pc ?u) op_fetch ?u = (pa, s2)" by fastforce
  note tc = translate_cases [OF t u(1)]
  show "clean v s1" if "f = None"
  proof -
    have s: "tlb_fault s2" "s1 = s2" using assms that t by (auto simp: fetch_def Let_def split: if_splits prod.splits)
    then obtain c r x where c: "c \<in> {1, 2, 3}" "s1 = raise_tlb (pc ?u) c r x (set_cache_active False ?u)"
      using tc by auto
    show ?thesis
      unfolding c(2) by (rule clean_cong [OF clean_raise_tlb [OF c(1)]]) (simp_all add: u)
  qed
  show "cpr0 s1 = cpr0 v \<and> pc s1 = pc v \<and> in_delay_slot s1 = in_delay_slot v \<and> \<not> tlb_fault s1" if "f = Some i"
  proof -
    have f: "\<not> tlb_fault s2" "s1 = snd (mem_get E 4 pa s2)"
      using assms that t by (auto simp: fetch_def Let_def split: if_splits prod.splits)
    then show ?thesis using tc u by (simp add: mem_get_def split_def Let_def)
  qed
qed

text \<open>The instruction at the pc of v is neither a branch nor a move to Status.\<close>

definition plain_instruction :: "'d env \<Rightarrow> 'd state_t \<Rightarrow> bool" where
  "plain_instruction E v =
     (case fetch E v of (Some i, _) \<Rightarrow> \<not> has_delay_slot i \<and> \<not> status_move i | (None, _) \<Rightarrow> True)"

lemma exec_took:
  assumes "execMips E (Suc n) v = Inr w" "plain_instruction E v" "\<not> exl v" "exl w"
  shows "took v w"
proof -
  obtain f s1 where f: "fetch E v = (f, s1)" by fastforce
  have "clean v w"
  proof (cases f)
    case None
    then show ?thesis using fetch_cases(1) [OF f] f assms(1) by (simp add: exec_body_def)
  next
    case (Some i)
    let ?s = "s1\<lparr>icnt := icnt s1 + 1\<rparr>"
    have i: "\<not> has_delay_slot i" "\<not> status_move i" using assms(2) f Some by (simp_all add: plain_instruction_def)
    note s1 = fetch_cases(2) [OF f Some]
    have "\<not> tlb_fault ?s" using s1 by simp
    note d = clean_dispatch [OF i this, of E "execMips E n"]
    have "clean ?s w"
      using assms(1) f Some d by (auto simp: exec_body_def Let_def gate_def clean_res_def clean_simps split: if_splits)
    then show ?thesis by (rule clean_cong) (use s1 in simp_all)
  qed
  then show ?thesis using assms(3,4) by (simp add: clean_def)
qed

end
