(* ===== verification/Interpreter_Properties.thy ===== *)
theory Interpreter_Properties
  imports Exec_Faults
begin

text \<open>
  Properties of the executor: the depth bound of the delay-slot recursion, the delay-slot
  protocol with faults, the gates, the return from exceptions and interrupts, and the
  load-linked reservation.
\<close>

section \<open>Instructions with a delay slot\<close>

lemma exec_rtype_no_slot:
  assumes "f_funct i \<notin> {0x08, 0x09}"
  shows "exec_rtype ex i s = exec_rtype ex' i s"
proof -
  have c: "control_rtype ex i s = control_rtype ex' i s"
    using assms by (simp add: control_rtype_def Let_def)
  show ?thesis unfolding exec_rtype_def c ..
qed

lemma dispatch_no_slot:
  assumes "\<not> has_delay_slot i"
  shows "dispatch E ex i s = dispatch E ex' i s"
proof -
  have b: "exec_branch_imm E ex i s = exec_branch_imm E ex' i s"
    using assms by (auto simp: has_delay_slot_def exec_branch_imm_def bgez_bltz_def Let_def)
  have c: "f_op i = 0x11 \<Longrightarrow> execCoproc1 E ex i s = execCoproc1 E ex' i s"
    using assms by (auto simp: has_delay_slot_def execCoproc1_def Let_def)
  have r: "f_op i = 0 \<Longrightarrow> exec_rtype ex i s = exec_rtype ex' i s"
    using assms by (intro exec_rtype_no_slot) (auto simp: has_delay_slot_def)
  show ?thesis
    using assms b c r by (auto simp: dispatch_def exec_itype_def Let_def has_delay_slot_def)
qed

text \<open>What the instruction in the delay slot sees, for any instruction with a slot.\<close>

definition slot_state :: "'d state_t \<Rightarrow> 'd state_t \<Rightarrow> bool" where
  "slot_state s t \<longleftrightarrow> in_delay_slot t \<and> pc t = pc s + 4 \<and> sys t = sys s \<and> tlb t = tlb s \<and>
     cpr0 t = cpr0 s \<and> cpr0_64 t = cpr0_64 s \<and> g_utlb t = g_utlb s"

lemma slot_state_pc4:
  "slot_state s ((pc4 (set_gpr r v s))\<lparr>in_delay_slot := True\<rparr>)" "slot_state s ((pc4 s)\<lparr>in_delay_slot := True\<rparr>)"
  by (simp_all add: slot_state_def reg_defs)

lemma run_delay_slot_stop:
  "run_delay_slot ex s = Inl e \<longleftrightarrow> ex (s\<lparr>in_delay_slot := True\<rparr>) = Inl e"
  by (simp add: run_delay_slot_def Let_def split: sum.split)

lemma after_slot_stop: "after_slot r k = Inl e \<longleftrightarrow> r = Inl e"
  by (auto simp: after_slot_def split: sum.split)

lemma branch_stop:
  assumes "branch E ex bt i s = Inl e"
  shows "\<exists>t. slot_state s t \<and> ex t = Inl e"
proof -
  have "\<exists>g. fast_delay E bt i s = s\<lparr>gpr := g\<rparr>"
    unfolding fast_delay_def Let_def set_gpr_def by (simp split: if_split) (auto intro: exI [of _ "gpr s"])
  then obtain g where f: "fast_delay E bt i s = s\<lparr>gpr := g\<rparr>" by blast
  have l: "slot_state s ((link31 bt n (pc4 (s\<lparr>gpr := g\<rparr>)))\<lparr>in_delay_slot := True\<rparr>)"
    "slot_state s ((pc4 (s\<lparr>gpr := g\<rparr>))\<lparr>in_delay_slot := True\<rparr>)" for n
    by (simp_all add: slot_state_def link31_def reg_defs)
  show ?thesis
    using assms l
    by (auto simp: branch_def Let_def f after_slot_stop run_delay_slot_stop split: if_splits)
qed

lemma jump_reg_stop:
  assumes "jump_reg ex a (s\<lparr>gpr := g\<rparr>) = Inl e"
  shows "\<exists>t. slot_state s t \<and> ex t = Inl e"
proof -
  have "slot_state s ((pc4 (s\<lparr>gpr := g\<rparr>))\<lparr>in_delay_slot := True\<rparr>)"
    by (simp add: slot_state_def reg_defs)
  then show ?thesis using assms by (auto simp: jump_reg_def after_slot_stop run_delay_slot_stop)
qed

lemma exec_rtype_jump:
  "f_funct i = 0x08 \<Longrightarrow> exec_rtype ex i s = jump_reg ex (gpr s (f_rs i)) (s\<lparr>gpr := gpr s\<rparr>)"
  "f_funct i = 0x09 \<Longrightarrow> \<exists>g. exec_rtype ex i s = jump_reg ex (gpr s (f_rs i)) (s\<lparr>gpr := g\<rparr>)"
  by (auto simp: exec_rtype_def shift_rtype_def control_rtype_def Let_def set_gpr_def
      intro: exI [of _ "gpr s"])

lemma exec_jtype_stop:
  "exec_jtype ex i s = Inl e \<Longrightarrow> \<exists>t. slot_state s t \<and> ex t = Inl e"
  using slot_state_pc4(1) [of s 31 "pc s + 8"] slot_state_pc4(2) [of s]
  by (auto simp: exec_jtype_def Let_def after_slot_stop run_delay_slot_stop split: if_splits)

lemma dispatch_stop:
  assumes "has_delay_slot i" "dispatch E ex i s = Inl e"
  shows "\<exists>t. slot_state s t \<and> ex t = Inl e"
proof -
  consider "f_op i = 0" "f_funct i = 0x08" | "f_op i = 0" "f_funct i = 0x09" | "drop_bit 1 (f_op i) = 1"
    | "f_op i = 1" "f_rt i \<in> {0, 1, 2, 3, 16, 17, 18, 19}"
    | "f_op i \<in> {0x04, 0x05, 0x06, 0x07, 0x14, 0x15, 0x16, 0x17}" | "f_op i = 0x11" "f_fmt i = 0x8"
    using assms(1) by (auto simp: has_delay_slot_def)
  then show ?thesis
  proof cases
    case 1
    then show ?thesis using assms(2) jump_reg_stop [of ex _ "gpr s" s e] exec_rtype_jump(1) [of i ex s]
      by (auto simp: dispatch_def)
  next
    case 2
    then obtain g where "exec_rtype ex i s = jump_reg ex (gpr s (f_rs i)) (s\<lparr>gpr := g\<rparr>)"
      using exec_rtype_jump(2) by blast
    then show ?thesis
      using 2 assms(2) jump_reg_stop [of ex _ g s e] by (simp add: dispatch_def)
  next
    case 3
    then have "f_op i \<noteq> 0" "f_op i \<noteq> 0x1c" "f_op i \<noteq> 0x1f" by auto
    then show ?thesis using 3 assms(2) exec_jtype_stop by (auto simp: dispatch_def Let_def)
  next
    case 4
    then show ?thesis using assms(2) branch_stop
      by (auto simp: dispatch_def exec_itype_def exec_branch_imm_def bgez_bltz_def Let_def)
  next
    case 5
    then show ?thesis using assms(2) branch_stop
      by (auto simp: dispatch_def exec_itype_def exec_branch_imm_def Let_def)
  next
    case 6
    then show ?thesis using assms(2) branch_stop
      by (auto simp: dispatch_def execCoproc1_def Let_def split: if_splits)
  qed
qed

lemma straight_line_no_depth:
  "exec_cop0 i s \<noteq> Inl Delay_slot_depth" "execCoproc1x E i s \<noteq> Inl Delay_slot_depth"
  "fp_computational E i s \<noteq> Inl Delay_slot_depth" "exec_imm i s \<noteq> Some (Inl Delay_slot_depth)"
proof -
  have "cop0_co i s \<noteq> Inl Delay_slot_depth"
    by (simp add: cop0_co_def Let_def tlbwi_def tlbwr_def tlb_write_def on_next_def split: sum.split)
  then show "exec_cop0 i s \<noteq> Inl Delay_slot_depth"
    by (auto simp: exec_cop0_def on_next_def split: sum.split)
  show "execCoproc1x E i s \<noteq> Inl Delay_slot_depth"
    by (simp add: execCoproc1x_def c1xExec_def Let_def)
  show "fp_computational E i s \<noteq> Inl Delay_slot_depth"
    by (simp add: fp_computational_def c_cond_def do_fp_op_def fp2int_def truncl_def truncw_def cvts_def cvtd_def
        fmovn_def fmovz_def fmovc_def Let_def split: option.split)
  show "exec_imm i s \<noteq> Some (Inl Delay_slot_depth)"
    by (simp add: exec_imm_def Let_def ret_gpr_def)
qed

lemma dispatch_no_depth:
  assumes "\<not> has_delay_slot i"
  shows "dispatch E ex i s \<noteq> Inl Delay_slot_depth"
proof -
  have b: "exec_branch_imm E Inr i s \<noteq> Some (Inl Delay_slot_depth)"
    using assms by (auto simp: has_delay_slot_def exec_branch_imm_def bgez_bltz_def Let_def)
  have h: "hilo_rtype i s \<noteq> Some (Inl Delay_slot_depth)"
    by (simp add: hilo_stops divu_hilo_def ddiv_hilo_def)
  have r: "f_op i = 0 \<Longrightarrow> exec_rtype Inr i s \<noteq> Inl Delay_slot_depth"
    using assms h rtype_returns(1) [of i s] rtype_returns(2) [of i s] rtype_returns(3) [of i Inr s]
    by (auto simp: exec_rtype_def has_delay_slot_def split: option.splits)
  have c: "f_op i = 0x11 \<Longrightarrow> execCoproc1 E Inr i s \<noteq> Inl Delay_slot_depth"
    using assms straight_line_no_depth(3) [of E i s] by (auto simp: has_delay_slot_def execCoproc1_def Let_def)
  have j: "drop_bit 1 (f_op i) \<noteq> 1" using assms by (simp add: has_delay_slot_def)
  have t: "exec_itype E Inr i s \<noteq> Inl Delay_slot_depth"
    using b straight_line_no_depth(4) [of i s] by (auto simp: exec_itype_def split: option.splits)
  have "dispatch E Inr i s \<noteq> Inl Delay_slot_depth"
    using b r c t j straight_line_no_depth(1) [of i s] straight_line_no_depth(2) [of E i s]
    by (simp add: dispatch_def Let_def)
  then show ?thesis using dispatch_no_slot [OF assms, of E ex s Inr] by simp
qed

text \<open>A branch at the pc of s: the fetch succeeds, no gate fires and the instruction has a slot.\<close>

definition at_branch :: "'d env \<Rightarrow> 'd state_t \<Rightarrow> bool" where
  "at_branch E s = (case fetch E s of (Some i, _) \<Rightarrow> has_delay_slot i | _ \<Rightarrow> False)"

lemma exec_body_depth:
  assumes "exec_body E ex s = Inl Delay_slot_depth"
  shows "at_branch E s \<and> (\<exists>t. slot_state (snd (fetch E s)) t \<and> ex t = Inl Delay_slot_depth)"
proof -
  obtain i s1 where f: "fetch E s = (Some i, s1)" and
      d: "dispatch E ex i (s1\<lparr>icnt := icnt s1 + 1\<rparr>) = Inl Delay_slot_depth"
    using assms by (auto simp: exec_body_def Let_def split: prod.splits option.splits)
  have h: "has_delay_slot i" using dispatch_no_depth d by blast
  from dispatch_stop [OF h d] obtain t where "slot_state (s1\<lparr>icnt := icnt s1 + 1\<rparr>) t" "ex t = Inl Delay_slot_depth"
    by blast
  then show ?thesis using f h by (auto simp: at_branch_def slot_state_def)
qed

text \<open>C10.  Depth 2 is enough: the executor exceeds the recursion bound n + 2 only on a branch whose
  delay slot, executed in the state the branch leaves, holds a branch again.  In every other case one
  call of \<^verbatim>\<open>execMips\<close> returns.\<close>

theorem delay_slot_depth:
  assumes "execMips E (n + 2) s = Inl Delay_slot_depth"
  shows "at_branch E s \<and> (\<exists>t. slot_state (snd (fetch E s)) t \<and> at_branch E t)"
proof -
  from assms have "exec_body E (execMips E (Suc n)) s = Inl Delay_slot_depth" by simp
  from exec_body_depth [OF this] obtain t where
    t: "at_branch E s" "slot_state (snd (fetch E s)) t" "exec_body E (execMips E n) t = Inl Delay_slot_depth"
    by auto
  then show ?thesis using exec_body_depth [OF t(3)] by blast
qed

text \<open>A machine whose memory holds the branch \<^verbatim>\<open>beq $0,$0,.+4\<close> in every word.\<close>

definition branch_world :: "unit state_t" where
  "branch_world = (state_zero ((io_init ())\<lparr>mem := (\<lambda>a. if a AND 3 = 0 then 0x10 else 0)\<rparr>))
     \<lparr>pc := 0xffffffff80001000\<rparr>"

definition stops_with :: "host_stop \<Rightarrow> 'd result \<Rightarrow> bool" where
  "stops_with e r = (case r of Inl f \<Rightarrow> f = e | Inr _ \<Rightarrow> False)"

lemma stops_with_iff: "stops_with e r \<longleftrightarrow> r = Inl e"
  by (auto simp: stops_with_def split: sum.split)

lemma branch_world_depth: "execMips base_env (0 + 2) branch_world = Inl Delay_slot_depth"
  unfolding stops_with_iff [symmetric] by code_simp

theorem delay_slot_depth_witness: "at_branch base_env branch_world"
  using delay_slot_depth [OF branch_world_depth] by blast

section \<open>Faults in the delay slot\<close>

text \<open>The state in which a branch runs its slot.\<close>

definition slot_entry :: "'d env \<Rightarrow> branch_type \<Rightarrow> u32 \<Rightarrow> 'd state_t \<Rightarrow> 'd state_t" where
  "slot_entry E bt i s =
     (let t = pc4 (fast_delay E bt i s)
      in (if is_likely bt then link31 bt (pc s + 4) t else t)\<lparr>in_delay_slot := True\<rparr>)"

lemma branch_unfold:
  assumes "is_likely bt \<longrightarrow> take_branch bt i s"
  shows "branch E ex bt i s =
    (case ex (slot_entry E bt i s) of Inl e \<Rightarrow> Inl e
     | Inr t \<Rightarrow>
        (let f = \<not> exl s \<and> exl t;
             t1 = t\<lparr>in_delay_slot := in_delay_slot s\<rparr>;
             t2 = (if is_likely bt then t1 else link31 bt (pc s + 4) t1)
         in Inr (if take_branch bt i s then jump_to (push_bit 2 (f_simm i) + (pc s + 4)) f t2 else t2)))"
proof -
  have x: "exl (u\<lparr>in_delay_slot := b\<rparr>) = exl u" for u :: "'a state_t" and b by (simp add: exl_def)
  have y: "exl (pc4 (fast_delay E bt i s)) = exl s" "in_delay_slot (pc4 (fast_delay E bt i s)) = in_delay_slot s"
    "exl (link31 bt n (pc4 (fast_delay E bt i s))) = exl s"
    "in_delay_slot (link31 bt n (pc4 (fast_delay E bt i s))) = in_delay_slot s" for n
    by (simp_all add: exl_def reg_defs fast_delay_def link31_def Let_def)
  show ?thesis
    using assms
    by (simp add: branch_def slot_entry_def run_delay_slot_def after_slot_def Let_def x y split: sum.split)
qed

text \<open>What a step that leaves EXL set says of its slot: the slot ran, it raised EXL, and the step
  keeps its exception state instead of jumping.\<close>

definition slot_done :: "('d state_t \<Rightarrow> 'd result) \<Rightarrow> 'd state_t \<Rightarrow> 'd state_t \<Rightarrow> bool" where
  "slot_done ex s t \<longleftrightarrow> (exl t \<longrightarrow> (\<exists>u w. slot_state s u \<and> ex u = Inr w \<and> exl w \<and> pc t = pc w \<and>
     cpr0 t = cpr0 w \<and> cpr0_64 t = cpr0_64 w \<and> in_delay_slot t = in_delay_slot s))"

lemma slot_entry_state: "slot_state s (slot_entry E bt i s)"
proof -
  have "\<exists>g. fast_delay E bt i s = s\<lparr>gpr := g\<rparr>"
    unfolding fast_delay_def Let_def set_gpr_def by (simp split: if_split) (auto intro: exI [of _ "gpr s"])
  then obtain g where "fast_delay E bt i s = s\<lparr>gpr := g\<rparr>" by blast
  then show ?thesis by (simp add: slot_entry_def slot_state_def link31_def reg_defs Let_def)
qed

lemma branch_slot_done:
  assumes "branch E ex bt i s = Inr t" "\<not> exl s"
  shows "slot_done ex s t"
proof (cases "is_likely bt \<longrightarrow> take_branch bt i s")
  case True
  then obtain w where w: "ex (slot_entry E bt i s) = Inr w"
    using assms(1) by (auto simp: branch_unfold split: sum.splits)
  have x: "exl (u\<lparr>in_delay_slot := b\<rparr>) = exl u" "exl (u\<lparr>pc := a\<rparr>) = exl u" "exl (link31 bt n u) = exl u"
    for u :: "'a state_t" and a b n
    by (simp_all add: exl_def link31_def reg_defs)
  have l: "pc (link31 bt n u) = pc u" "cpr0 (link31 bt n u) = cpr0 u" "cpr0_64 (link31 bt n u) = cpr0_64 u"
    "in_delay_slot (link31 bt n u) = in_delay_slot u" for u :: "'a state_t" and n
    by (simp_all add: link31_def reg_defs)
  show ?thesis
    unfolding slot_done_def
  proof
    assume e: "exl t"
    then have "exl w" using assms(1) w by (auto simp: branch_unfold [OF True] Let_def jump_to_def x split: if_splits)
    then have "pc t = pc w \<and> cpr0 t = cpr0 w \<and> cpr0_64 t = cpr0_64 w \<and> in_delay_slot t = in_delay_slot s"
      using assms w by (auto simp: branch_unfold [OF True] Let_def jump_to_def l split: if_splits)
    then show "\<exists>u w. slot_state s u \<and> ex u = Inr w \<and> exl w \<and> pc t = pc w \<and>
        cpr0 t = cpr0 w \<and> cpr0_64 t = cpr0_64 w \<and> in_delay_slot t = in_delay_slot s"
      using slot_entry_state w \<open>exl w\<close> by blast
  qed
next
  case False
  then have "t = pc4 (link31 bt (pc s + 4) (pc4 (fast_delay E bt i s)))"
    using assms(1) by (simp add: branch_def Let_def)
  then have "exl t = exl s" by (simp add: exl_def reg_defs link31_def fast_delay_def Let_def)
  then show ?thesis using assms(2) by (simp add: slot_done_def)
qed

lemma jump_slot_done:
  assumes "after_slot (run_delay_slot ex s1) (jump_to a) = Inr t" "slot_state s (s1\<lparr>in_delay_slot := True\<rparr>)"
    "\<not> exl s" "cpr0 s1 = cpr0 s" "in_delay_slot s1 = in_delay_slot s"
  shows "slot_done ex s t"
proof -
  obtain w where w: "ex (s1\<lparr>in_delay_slot := True\<rparr>) = Inr w"
    using assms(1) by (auto simp: after_slot_def run_delay_slot_def Let_def split: sum.splits)
  have e: "\<not> exl s1" using assms(3,4) by (simp add: exl_def)
  have x: "exl (u\<lparr>in_delay_slot := b\<rparr>) = exl u" "exl (u\<lparr>pc := a\<rparr>) = exl u" for u :: "'a state_t" and a b
    by (simp_all add: exl_def)
  have t: "t = jump_to a (exl w) (w\<lparr>in_delay_slot := in_delay_slot s\<rparr>)"
    using assms(1,5) w e by (simp add: after_slot_def run_delay_slot_def Let_def x)
  show ?thesis
    unfolding slot_done_def using assms(2) w
    by (cases "exl w") (auto simp: t jump_to_def x)
qed

lemma dispatch_slot_done:
  assumes "has_delay_slot i" "dispatch E ex i s = Inr t" "\<not> exl s"
  shows "slot_done ex s t"
proof -
  have j: "slot_done ex s t" if "jump_reg ex a (s\<lparr>gpr := g\<rparr>) = Inr t" for a g
    using that unfolding jump_reg_def
    by (rule jump_slot_done) (simp_all add: slot_state_def reg_defs assms(3))
  consider "f_op i = 0" "f_funct i = 0x08" | "f_op i = 0" "f_funct i = 0x09" | "drop_bit 1 (f_op i) = 1"
    | "f_op i = 1" "f_rt i \<in> {0, 1, 2, 3, 16, 17, 18, 19}"
    | "f_op i \<in> {0x04, 0x05, 0x06, 0x07, 0x14, 0x15, 0x16, 0x17}" | "f_op i = 0x11" "f_fmt i = 0x8"
    using assms(1) by (auto simp: has_delay_slot_def)
  then show ?thesis
  proof cases
    case 1
    then have "jump_reg ex (gpr s (f_rs i)) (s\<lparr>gpr := gpr s\<rparr>) = Inr t"
      using assms(2) exec_rtype_jump(1) [of i ex s] by (simp add: dispatch_def)
    then show ?thesis by (rule j)
  next
    case 2
    then obtain g where "exec_rtype ex i s = jump_reg ex (gpr s (f_rs i)) (s\<lparr>gpr := g\<rparr>)"
      using exec_rtype_jump(2) by blast
    then show ?thesis using 2 assms(2) j by (simp add: dispatch_def)
  next
    case 3
    then have "f_op i \<noteq> 0" "f_op i \<noteq> 0x1c" "f_op i \<noteq> 0x1f" by auto
    then have "exec_jtype ex i s = Inr t" using 3 assms(2) by (simp add: dispatch_def Let_def)
    then show ?thesis
      unfolding exec_jtype_def Let_def
      by (rule jump_slot_done) (simp_all add: slot_state_def reg_defs assms(3))
  next
    case 4
    then show ?thesis using assms(2,3) branch_slot_done
      by (auto simp: dispatch_def exec_itype_def exec_branch_imm_def bgez_bltz_def Let_def)
  next
    case 5
    then show ?thesis using assms(2,3) branch_slot_done
      by (auto simp: dispatch_def exec_itype_def exec_branch_imm_def Let_def)
  next
    case 6
    then show ?thesis using assms(2,3) branch_slot_done
      by (auto simp: dispatch_def execCoproc1_def Let_def split: if_splits)
  qed
qed

text \<open>C40.  An exception in a delay slot.  Let the instruction at pc be any branch or jump with a delay slot
  that no gate stops, let EXL be clear, and let the instruction in the slot be neither a branch itself nor a
  CP0 move to Status.  If EXL is set when the step is over (the fetch of the slot or a data access missed the
  TLB, the slot was a system call, a trap, an overflow, an address error, an unavailable instruction: any exception),
  then the branch has been abandoned: control is at an exception vector and not at the target, EPC is
  the address of the branch, Cause.BD is set, the delay-slot flag of the simulator is restored, and ERET from there
  restarts the branch.\<close>

theorem delay_slot_fault:
  assumes "fetch E s = (Some i, s1)" "gate E i (s1\<lparr>icnt := icnt s1 + 1\<rparr>) = None" "has_delay_slot i"
    and "execMips E (Suc (Suc n)) s = Inr t" "\<not> exl s" "exl t"
    and "\<And>u. slot_state s1 u \<Longrightarrow> plain_instruction E u"
  shows "pc t \<in> {general_vector s, refill_vector True s, refill_vector False s} \<and>
    cpr0_64 t CPR0_EPC = pc s \<and> bit (cpr0 t CPR0_CAUSE) 31 \<and> in_delay_slot t = in_delay_slot s \<and>
    (\<exists>r. exec_cop0 0x42000018 t = Inr r \<and> pc r = pc s)"
proof -
  let ?s = "s1\<lparr>icnt := icnt s1 + 1\<rparr>"
  note f = fetch_cases(2) [OF assms(1) refl]
  have "dispatch E (execMips E (Suc n)) i ?s = Inr t"
    using assms(1,2,4) by (simp add: exec_body_def Let_def)
  moreover have "\<not> exl ?s" using f assms(5) by (simp add: exl_def)
  ultimately obtain u w where u: "slot_state ?s u" "execMips E (Suc n) u = Inr w" "exl w" "pc t = pc w"
      "cpr0 t = cpr0 w" "cpr0_64 t = cpr0_64 w" "in_delay_slot t = in_delay_slot ?s"
    using dispatch_slot_done [OF assms(3), of E "execMips E (Suc n)" ?s t] assms(6)
    unfolding slot_done_def by blast
  have us: "slot_state s1 u" using u(1) by (simp add: slot_state_def)
  have "\<not> exl u" using u(1) f assms(5) by (simp add: slot_state_def exl_def)
  from exec_took [OF u(2) assms(7) [OF us] this u(3)] have "took u w" .
  then have t: "pc t \<in> {general_vector s, refill_vector True s, refill_vector False s}" "cpr0_64 t CPR0_EPC = pc s"
      "bit (cpr0 t CPR0_CAUSE) 31" "\<not> erl t"
    using u us f by (auto simp: took_def slot_state_def general_vector_def refill_vector_def bev_def erl_def)
  have "exec_cop0 0x42000018 t = Inr (pc4 (eret t))"
    by (simp add: exec_cop0_def cop0_co_def drop_bit_eq_div)
  moreover have "pc (pc4 (eret t)) = pc s"
    using t(2,4) by (simp add: eret_def erl_def reg_defs Let_def)
  ultimately show ?thesis using t u(7) f by simp
qed

text \<open>The branch in the last word of kseg1, with its slot in the first, unmapped page of kseg2.\<close>

definition edge_world :: "unit state_t" where
  "edge_world = branch_world\<lparr>pc := 0xffffffffbffffffc\<rparr>"

lemma edge_slot_misses:
  assumes "slot_state s1 u" "pc s1 = 0xffffffffbffffffc" "tlb s1 = tlb edge_world" "g_utlb s1 = g_utlb edge_world"
    "cpr0_64 s1 = cpr0_64 edge_world"
  shows "plain_instruction E u"
proof -
  have u: "pc u = 0xffffffffc0000000" "tlb u = (\<lambda>_. \<lparr>entry_hi = 0, entry_lo0 = 0, entry_lo1 = 0, page_mask = 0\<rparr>)"
    "\<And>k. \<not> u_valid (g_utlb u k)" "cpr0_64 u = (\<lambda>_. 0)"
    using assms by (simp_all add: slot_state_def edge_world_def branch_world_def state_zero_def)
  let ?va = "0xffffffffc0000000 :: u64" and ?v = "set_cache_active False ((set_gpr 0 0 u)\<lparr>tlb_fault := False\<rparr>)"
  have v: "pc ?v = ?va" "tlb ?v = tlb u" "\<And>k. \<not> u_valid (g_utlb ?v k)" using u by (simp_all add: reg_defs)
  have "unmapped_pa ?va = None" by (simp add: unmapped_pa_def compat_va_def drop_bit_eq_div)
  moreover have "utlb_probe (g_utlb ?v) k = None" for k using v(3) by (simp add: utlb_probe_def split_def Let_def)
  moreover have "tlb_search tlb_match ?va a (tlb ?v) = None" for a
    unfolding v(2) by (simp add: tlb_search_def find_None_iff tlb_match_def u(2) entry_pm_def drop_bit_eq_div)
  ultimately have "fst (fetch E u) = None"
    using v(1) by (simp add: fetch_def Let_def split_def va_translate_def va_translate_cam_def)
  then show ?thesis by (cases "fetch E u") (simp add: plain_instruction_def)
qed

theorem delay_slot_fault_witness:
  "\<exists>t. execMips base_env 2 edge_world = Inr t \<and> cpr0_64 t CPR0_EPC = 0xffffffffbffffffc \<and> bit (cpr0 t CPR0_CAUSE) 31"
proof -
  let ?s1 = "snd (fetch base_env edge_world)"
  have f: "fetch base_env edge_world = (Some 0x10000000, ?s1)"
  proof (rule prod_eqI)
    show "fst (fetch base_env edge_world) = fst (Some 0x10000000, ?s1)" unfolding fst_conv by code_simp
  qed simp
  have g: "gate base_env 0x10000000 (?s1\<lparr>icnt := icnt ?s1 + 1\<rparr>) = None"
    by (simp add: gate_def is_64b_gated_def r4400_reserved_def uses_cop1_def f_op_def drop_bit_eq_div base_env_def)
  have "case execMips base_env (Suc (Suc 0)) edge_world of Inl _ \<Rightarrow> False | Inr t \<Rightarrow> exl t" by code_simp
  then obtain t where t: "execMips base_env (Suc (Suc 0)) edge_world = Inr t" "exl t" by (auto split: sum.splits)
  have "has_delay_slot 0x10000000" "\<not> exl edge_world" by code_simp+
  moreover have "plain_instruction base_env u" if "slot_state ?s1 u" for u
  proof (rule edge_slot_misses [OF that])
    show "pc ?s1 = 0xffffffffbffffffc" by code_simp
    have "unmapped_pa (pc edge_world) = Some 0x1ffffffc"
      by (simp add: edge_world_def unmapped_pa_def compat_va_def drop_bit_eq_div)
    moreover have "\<not> tlb_fault edge_world" "pc (set_gpr r x edge_world) = pc edge_world" for r x
      by (simp_all add: edge_world_def branch_world_def state_zero_def reg_defs)
    ultimately show "tlb ?s1 = tlb edge_world" "g_utlb ?s1 = g_utlb edge_world" "cpr0_64 ?s1 = cpr0_64 edge_world"
      by (simp_all add: fetch_def va_translate_def Let_def split_def mem_get_def reg_defs)
  qed
  ultimately have "cpr0_64 t CPR0_EPC = pc edge_world \<and> bit (cpr0 t CPR0_CAUSE) 31"
    using delay_slot_fault [OF f g _ t(1) _ t(2)] by blast
  then show ?thesis using t(1) by (simp add: edge_world_def numeral_2_eq_2)
qed

text \<open>A fault in a delay slot goes unnoticed while EXL is already set: \<^verbatim>\<open>run_delay_slot\<close> looks for a
  0 to 1 transition of EXL only, so a taken branch overwrites the exception vector with its target.\<close>

theorem nested_slot_fault_lost:
  assumes "take_branch bt i s" "exl s"
    and "ex (slot_entry E bt i s) = Inr (raise_common code (set_exc_pc u))"
  shows "\<exists>t. branch E ex bt i s = Inr t \<and> pc t = push_bit 2 (f_simm i) + (pc s + 4)"
  using assms by (simp add: branch_unfold Let_def jump_to_def link31_def reg_defs)

theorem nested_slot_fault_lost_witness:
  "\<exists>t. branch base_env (\<lambda>u. Inr (raise_syscall u)) beq 0x10000001
       ((state_zero (io_init ()))\<lparr>cpr0 := (\<lambda>_. 0)(CPR0_SR := 2)\<rparr>) = Inr t \<and> pc t = 8"
proof -
  let ?s = "(state_zero (io_init ()))\<lparr>cpr0 := (\<lambda>_. 0)(CPR0_SR := 2)\<rparr>"
  have "take_branch beq 0x10000001 ?s" "exl ?s" "push_bit 2 (f_simm 0x10000001) = 4" "pc ?s = 0"
    by (simp_all add: take_branch_def Let_def state_zero_def exl_def flag_def SR_EXL_def f_simm_def f_rt_def f_rs_def)
  then show ?thesis
    using nested_slot_fault_lost [of beq "0x10000001" ?s "\<lambda>u. Inr (raise_syscall u)" base_env 8
        "slot_entry base_env beq 0x10000001 ?s"]
    by (simp add: raise_syscall_def)
qed

text \<open>BGEZAL and BLTZAL link whether or not they branch, but only after the slot has run: the
  instruction in the slot still sees the old $31, while the likely forms link before it.\<close>

theorem link_after_slot:
  assumes "bt = bgezal \<or> bt = bltzal" "ex (slot_entry E bt i s) = Inr u"
  shows "gpr (slot_entry E bt i s) 31 = gpr s 31 \<and>
    (\<exists>t. branch E ex bt i s = Inr t \<and> gpr t 31 = pc s + 8)"
proof -
  have "fast_delay E bt i s = s" "\<not> is_likely bt" "save_return bt"
    using assms(1) by (auto simp: fast_delay_def save_return_def Let_def)
  then show ?thesis
    using assms(2) by (simp add: branch_unfold slot_entry_def Let_def jump_to_def link31_def reg_defs)
qed

theorem link_after_slot_witness:
  "gpr (slot_entry base_env bltzal 0x04100001 (state_zero (io_init ()))) 31 = 0 \<and>
   (\<exists>t. branch base_env Inr bltzal 0x04100001 (state_zero (io_init ())) = Inr t \<and> gpr t 31 = 8)"
  using link_after_slot [of bltzal Inr base_env "0x04100001" "state_zero (io_init ())"]
  by (simp add: state_zero_def)

section \<open>Return from exceptions\<close>

lemma eret_sr:
  assumes "\<not> exl s" "\<not> erl s"
  shows "enter_sr (cpr0 s CPR0_SR) AND NOT SR_EXL = cpr0 s CPR0_SR" "\<not> flag (enter_sr (cpr0 s CPR0_SR)) SR_ERL"
proof -
  have b: "\<not> bit (cpr0 s CPR0_SR) 1" "\<not> bit (cpr0 s CPR0_SR) 2"
    using assms by (simp_all add: exl_def erl_def flag_bits)
  show "enter_sr (cpr0 s CPR0_SR) AND NOT SR_EXL = cpr0 s CPR0_SR"
  proof (rule bit_word_eqI)
    fix n
    show "bit (enter_sr (cpr0 s CPR0_SR) AND NOT SR_EXL) n \<longleftrightarrow> bit (cpr0 s CPR0_SR) n"
      using b bit_imp_le_length [of "cpr0 s CPR0_SR" n]
      by (cases "n = 1"; cases "n = 2") (auto simp: bit_and_iff bit_not_iff bit_enter_sr bit_sr)
  qed
  show "\<not> flag (enter_sr (cpr0 s CPR0_SR)) SR_ERL" by (simp add: flag_bits bit_enter_sr)
qed

lemma eret_after_raise:
  assumes "\<not> exl s" "\<not> erl s" "\<not> in_delay_slot s" "code AND 0x1f = code"
  defines "t \<equiv> raise_common code (set_exc_pc s)"
  shows "\<exists>r. exec_cop0 0x42000018 t = Inr r \<and> pc r = pc s \<and> cpr0 r CPR0_SR = cpr0 s CPR0_SR \<and>
    gpr r = gpr s \<and> hi_reg r = hi_reg s \<and> lo_reg r = lo_reg s \<and> cpr1 r = cpr1 s \<and> fcr1 r = fcr1 s \<and>
    sys r = sys s \<and> \<not> ll_armed r"
proof -
  note ent = common_entry [OF assms(4)]
  have sr: "cpr0 t CPR0_SR = enter_sr (cpr0 s CPR0_SR)" unfolding t_def by (rule exc_entry.sr [OF ent])
  have epc: "cpr0_64 t CPR0_EPC = pc s"
    unfolding t_def using exc_entry.epc [OF ent assms(1)] assms(3) by simp
  have e: "exec_cop0 0x42000018 t = Inr (pc4 (eret t))"
    by (simp add: exec_cop0_def cop0_co_def drop_bit_eq_div)
  have er: "eret t = (set_cpr0 CPR0_SR (cpr0 s CPR0_SR) (t\<lparr>pc := pc s - 4\<rparr>))\<lparr>ll_armed := False\<rparr>"
    using eret_sr [OF assms(1,2)] by (simp add: eret_def sr epc)
  show ?thesis unfolding e er by (simp add: reg_defs) (simp add: t_def)
qed

text \<open>C11.  Interrupts are transparent to the interrupted program: when \<^verbatim>\<open>maybe_take_interrupt\<close> delivers an
  interrupt between two instructions, an ERET resumes at the interrupted instruction with
  Status, the general registers, HI, LO and the floating-point registers as they were; only the
  load-linked reservation is lost.\<close>

theorem interrupt_resume:
  assumes "\<not> exl s" "\<not> in_delay_slot s" "exl (maybe_take_interrupt E s)"
  shows "\<exists>r. exec_cop0 0x42000018 (maybe_take_interrupt E s) = Inr r \<and> pc r = pc s \<and>
    cpr0 r CPR0_SR = cpr0 s CPR0_SR \<and> gpr r = gpr s \<and> hi_reg r = hi_reg s \<and> lo_reg r = lo_reg s \<and>
    cpr1 r = cpr1 s \<and> fcr1 r = fcr1 s \<and> \<not> ll_armed r"
proof -
  let ?t = "timer_tick (devices_ticked E s)" and ?p = "polled E (timer_tick (devices_ticked E s))"
  have data: "hi_reg ?p = hi_reg s" "lo_reg ?p = lo_reg s" "cpr1 ?p = cpr1 s" "fcr1 ?p = fcr1 s"
    by (simp_all add: polled_def timer_tick_def devices_ticked_def set_ip_def Let_def reg_defs)
  have sr: "cpr0 ?t CPR0_SR = cpr0 s CPR0_SR" "cpr0 ?p CPR0_SR = cpr0 s CPR0_SR"
    by (simp_all add: tick_poll_cpr0)
  have exl: "\<not> exl ?t" "\<not> exl ?p" using assms(1) by (simp_all add: exl_def sr)
  have en: "interrupt_enabled ?p" and mt: "maybe_take_interrupt E s = raise_common 0 (set_exc_pc ?p)"
    using assms(3) exl by (auto simp: maybe_take_interrupt_alt Let_def split: if_splits)
  have "\<not> erl ?p" using en by (simp add: interrupt_enabled_alt)
  from eret_after_raise [OF exl(2) this, of 0] assms(2)
  show ?thesis by (auto simp: mt sr data)
qed

theorem interrupt_resume_witness:
  "\<exists>r. exec_cop0 0x42000018 (maybe_take_interrupt base_env
      ((state_zero (io_init ()))\<lparr>pc := 0x1234, cpr0 := (\<lambda>_. 0)(CPR0_SR := 0x8001, CPR0_COMPARE := 1)\<rparr>)) = Inr r \<and>
    pc r = 0x1234"
proof -
  let ?s = "(state_zero (io_init ()))\<lparr>pc := 0x1234, cpr0 := (\<lambda>_. 0)(CPR0_SR := 0x8001, CPR0_COMPARE := 1)\<rparr>"
  have "\<not> exl ?s" "\<not> in_delay_slot ?s" by (simp_all add: exl_def flag_def SR_EXL_def state_zero_def)
  moreover have "exl (maybe_take_interrupt base_env ?s)" by code_simp
  ultimately show ?thesis using interrupt_resume [of ?s base_env] by auto
qed

section \<open>Gates\<close>

lemma precise_ri: "precise (take_exception_ri s) s" and precise_rsvd: "precise (raise_ri s) s"
  and precise_cpu: "precise (take_exception_cpu ce s) s"
  using precise_raisers [of take_exception_ri 10 ce s] precise_raisers [of raise_ri 10 ce s]
    precise_raisers [of "take_exception_cpu ce" 11 ce s]
  by (simp_all add: raisers_def)

lemma ce_field:
  assumes "c AND 0x1f = c"
  shows "drop_bit 28 (with_exccode c (with_ce 1 x)) AND mask 2 = 1"
proof (rule bit_word_eqI)
  fix n
  have "\<not> bit c (26 + n)" using small_code [OF assms, of "26 + n"] by auto
  then show "bit (drop_bit 28 (with_exccode c (with_ce 1 x)) AND mask 2) n \<longleftrightarrow> bit (1 :: u32) n"
    by (auto simp: bit_and_iff bit_mask_iff bit_drop_bit_eq bit_with_exccode bit_with_ce bit_1_iff)
qed

lemma cpu_ce: "drop_bit 28 (cpr0 (take_exception_cpu 1 s) CPR0_CAUSE) AND 3 = 1"
  using ce_field [of 11 "cpr0 (set_exc_pc s) CPR0_CAUSE"]
  by (simp add: take_exception_cpu_alt raise_common_parts set_cpr0_def mask_eq_exp_minus_1)

text \<open>An instruction that is not available is stopped before it does anything: with a 64-bit
  operation outside 64-bit mode, a MIPS IV operation on the R4400 or a floating-point
  instruction while Status.CU1 is clear, the step changes no register, no memory and no device, records the
  instruction in EPC and enters the exception level; the disabled FPU is reported as coprocessor 1.\<close>

theorem unavailable_instruction:
  assumes "fetch E s0 = (Some i, s1)"
    and "is_64b_gated i \<and> \<not> in_64b_mode s1 \<or> \<not> cpu_r5000 E \<and> r4400_reserved i \<or>
         uses_cop1 i \<and> \<not> bit (cpr0 s1 CPR0_SR) 29"
  shows "\<exists>t. exec_body E ex s0 = Inr t \<and> precise t s1 \<and>
    (drop_bit 2 (cpr0 t CPR0_CAUSE) AND 0x1f = 10 \<or>
     drop_bit 2 (cpr0 t CPR0_CAUSE) AND 0x1f = 11 \<and> drop_bit 28 (cpr0 t CPR0_CAUSE) AND 3 = 1)"
proof -
  let ?s = "s1\<lparr>icnt := icnt s1 + 1\<rparr>"
  have m: "in_64b_mode ?s = in_64b_mode s1" by (simp add: in_64b_mode_def Let_def exl_def erl_def)
  have p: "precise t ?s \<Longrightarrow> precise t s1" for t
    by (auto simp: precise_def same_data_def exl_def)
  show ?thesis
    using assms p [OF precise_ri] p [OF precise_rsvd] p [OF precise_cpu]
      ri.exccode [of ?s] rsvd.exccode [of ?s] cpun.exccode [of 1 ?s] cpu_ce [of ?s]
    by (auto simp: exec_body_def gate_def m flag_bits Let_def)
qed

theorem unavailable_instruction_witness:
  "\<exists>t. exec_body base_env Inr ((state_zero ((io_init ())\<lparr>mem := (\<lambda>a. if a AND 3 = 0 then 0x46 else 0)\<rparr>))
     \<lparr>pc := 0xffffffff80001000\<rparr>) = Inr t \<and> exl t"
proof -
  let ?s = "(state_zero ((io_init ())\<lparr>mem := (\<lambda>a. if a AND 3 = 0 then 0x46 else 0)\<rparr>))\<lparr>pc := 0xffffffff80001000\<rparr>"
  obtain s1 where f: "fetch base_env ?s = (Some 0x46000000, s1)" "\<not> bit (cpr0 s1 CPR0_SR) 29"
  proof -
    have "fst (fetch base_env ?s) = Some 0x46000000" by code_simp
    moreover have "\<not> bit (cpr0 (snd (fetch base_env ?s)) CPR0_SR) 29" by code_simp
    ultimately show ?thesis using that by (cases "fetch base_env ?s") auto
  qed
  have "uses_cop1 0x46000000" by code_simp
  then obtain t where "exec_body base_env Inr ?s = Inr t" "precise t s1"
    using unavailable_instruction [OF f(1)] f(2) by blast
  then show ?thesis by (auto simp: precise_def)
qed

section \<open>CP0 registers\<close>

text \<open>What MTC0 and DMTC0 write to a CP0 register is what MFC0 and DMFC0 read back, up to the
  reserved bits of EntryHi, EntryLo and the other registers with a write mask.\<close>

theorem cp0_write_read:
  assumes "f_rd i2 = f_rd i1" "f_rd i1 \<notin> {CPR0_PRID, 7}"
  shows "gpr (mfc0 i2 (mtc0 i1 s)) (f_rt i2) = sext32 (ucast (cp0_write_mask (f_rd i1)
        (if f_rd i1 = CPR0_ENTRYHI then gpr s (f_rt i1) else sext32 (ucast (gpr s (f_rt i1)))))) \<and>
    gpr (dmfc0 i2 (dmtc0 i1 s)) (f_rt i2) = cp0_write_mask (f_rd i1) (gpr s (f_rt i1)) \<and>
    gpr (mfc0 i2 (dmtc0 i1 s)) (f_rt i2) = sext32 (ucast (cp0_write_mask (f_rd i1) (gpr s (f_rt i1))))"
  using assms
  by (auto simp: mfc0_def dmfc0_def mtc0_def dmtc0_def write_cp0_def console_port_def reg_defs Let_def)

theorem cp0_write_read_witness:
  "gpr (mfc0 0x40035800 (mtc0 0x40825800 ((state_zero (io_init ()))\<lparr>gpr := (\<lambda>_. 0)(2 := 0x80000000)\<rparr>))) 3
     = 0xffffffff80000000"
  using cp0_write_read [of "0x40035800" "0x40825800"
      "(state_zero (io_init ()))\<lparr>gpr := (\<lambda>_. 0)(2 := 0x80000000)\<rparr>"]
  by (simp add: f_rd_def f_rt_def drop_bit_eq_div sext32_def cp0_write_mask_def)

text \<open>The 64-bit shadow of a CP0 register goes stale when the simulator itself updates the register:
  after an exception DMFC0 of Status still returns the value last written by software, without EXL, while
  MFC0 sees EXL set.\<close>

theorem dmfc0_status_stale:
  assumes "f_rd i = CPR0_SR"
  shows "gpr (dmfc0 i (raise_syscall s)) (f_rt i) = cpr0_64 s CPR0_SR \<and>
    bit (gpr (mfc0 i (raise_syscall s)) (f_rt i)) 1"
  using assms sysc.sr [of s] sysc.frame0(2) [of CPR0_SR s]
  by (simp add: dmfc0_def mfc0_def reg_defs bit_sext32_low bit_enter_sr)

theorem dmfc0_status_stale_witness:
  "gpr (dmfc0 0x40236000 (raise_syscall (state_zero (io_init ())))) 3 = 0"
  using dmfc0_status_stale [of "0x40236000" "state_zero (io_init ())"]
  by (simp add: f_rd_def f_rt_def drop_bit_eq_div state_zero_def)

section \<open>Load-linked and store-conditional\<close>











end
