(* ===== verification/Indy.thy ===== *)
theory Indy
  imports HPC_Properties Interpreter_Properties
begin

text \<open>
  The whole machine: the devices of \<^verbatim>\<open>main\<close> plugged into the router of src/sparse_mem.cc and
  into the interrupt poll of src/interpret.cc.  \<open>indy_ops\<close> instantiates the device operations over
  which the CPU is parametrised.  The memory controller's DMA engine goes through the router
  itself; such an access may reach the controller again, so the operations are built by
  levels, and a nesting deeper than the level ends the run.

  The lemmas show that an interrupt line, once up, stays up while the devices tick, and the
  properties follow an interrupt from its device into the CPU and a store of the CPU to the console.
\<close>

section \<open>The device operations\<close>

text \<open>\<^verbatim>\<open>newport_retrace\<close> with the part of \<^verbatim>\<open>sgi_newport::vblank\<close> that concerns the rest of
  the machine: the time of the next retrace, the interrupt, and the service of the keyboard.\<close>

definition indy_retrace :: "'n np_ops \<Rightarrow> u64 \<Rightarrow> 'n iio \<Rightarrow> 'n iio" where
  "indy_retrace N icnt0 io0 =
     (case np (dev io0) of
        None \<Rightarrow> io0
      | Some n \<Rightarrow>
          (let (next_vblank, irq, n') = newport_vblank N icnt0 n;
               io1 = poke irq ((put_np n' io0)\<lparr>gfx_next_icnt := next_vblank\<rparr>)
           in case ps2 (dev io1) of None \<Rightarrow> io1 | Some k \<Rightarrow> put_ps2 (ps2_service icnt0 k) io1))"

definition indy_np_read :: "'n np_ops \<Rightarrow> dev_view \<Rightarrow> u32 \<Rightarrow> nat \<Rightarrow> 'n iio \<Rightarrow> u64 \<times> 'n iio" where
  "indy_np_read N vw offs sz io0 =
     (case np (dev io0) of
        None \<Rightarrow> (0, io0)
      | Some n \<Rightarrow> (let (v, n') = newport_read N (v_icnt vw) offs sz n in (v, put_np n' io0)))"

definition indy_np_write :: "'n np_ops \<Rightarrow> dev_view \<Rightarrow> u32 \<Rightarrow> u64 \<Rightarrow> nat \<Rightarrow> 'n iio \<Rightarrow> 'n iio" where
  "indy_np_write N vw offs v sz io0 =
     (case np (dev io0) of
        None \<Rightarrow> io0 | Some n \<Rightarrow> put_np (newport_write N (v_icnt vw) offs v sz n) io0)"

primrec indy_ops :: "indy_env \<Rightarrow> 'n np_ops \<Rightarrow> nat \<Rightarrow> 'n indy dev_ops" where
  "indy_ops V N 0 = no_bus"
| "indy_ops V N (Suc k) =
     \<lparr>has_np = (\<lambda>d. np d \<noteq> None), has_hpc = (\<lambda>_. True), has_scc = (\<lambda>_. True),
      scc_read = (\<lambda>offs io0. let (v, c) = sgi_scc_read offs (scc (dev io0)) in (v, put_scc c io0)),
      scc_write = (\<lambda>offs b io0. put_scc (sgi_scc_write offs b (scc (dev io0))) io0),
      scc_tick = (\<lambda>n io0. put_scc (sgi_scc_tick n (scc (dev io0))) io0),
      np_read = indy_np_read N, np_write = indy_np_write N,
      newport_retrace = (\<lambda>vw. indy_retrace N (v_icnt vw)),
      mc_read = sgi_mc_read, mc_write = sgi_mc_write N (indy_ops V N k),
      hpc_read = sgi_hpc_read V N, hpc_write = sgi_hpc_write V,
      enet_poll = (\<lambda>_. hpc_enet_poll V),
      ioc2_ip2_pending = (\<lambda>io0. hpc_ip2_pending (dev io0)),
      ioc2_ip3_pending = (\<lambda>io0. hpc_ip3_pending N (dev io0))\<rparr>"

text \<open>A run of the machine for at most k iterations; \<open>None\<close> when the process ends in the middle,
  by the CPU's doing or by a device's.\<close>

definition indy_run ::
    "'n indy env \<Rightarrow> nat \<Rightarrow> u64 \<Rightarrow> nat \<Rightarrow> 'n indy state_t \<Rightarrow> (bool \<times> 'n indy state_t) option" where
  "indy_run E n maxicnt k s =
     (case run_loop E n maxicnt k s of
        Inl _ \<Rightarrow> None
      | Inr (stopped, t) \<Rightarrow> if halted (dev (sys t)) then None else Some (stopped, t))"

section \<open>Interrupt lines are levels\<close>

text \<open>What the interrupt controller relies on from a device that ticks on its own: a raised
  line stays up until the CPU acknowledges it.\<close>

locale irq_level =
  fixes raised :: "'s \<Rightarrow> bool"
    and step :: "'s \<Rightarrow> 's"
  assumes level: "raised s \<Longrightarrow> raised (step s)"
begin

lemma stays_raised: "raised s \<Longrightarrow> raised ((step ^^ n) s)"
  by (induction n) (simp_all add: level)

end

lemma feed_grows: "rx_count s \<le> rx_count (snd (feed rx_room rx_push cs s))"
  and feed_regs: "wr1 (snd (feed rx_room rx_push cs s)) = wr1 s" "tx_ip (snd (feed rx_room rx_push cs s)) = tx_ip s"
proof -
  have "rx_count s \<le> rx_count (snd (feed rx_room rx_push cs s)) \<and>
    wr1 (snd (feed rx_room rx_push cs s)) = wr1 s \<and> tx_ip (snd (feed rx_room rx_push cs s)) = tx_ip s"
  proof (induction cs arbitrary: s)
    case (Cons c cs)
    show ?case using Cons [of "rx_push c s"] by (simp add: rx_push_def)
  qed simp
  then show "rx_count s \<le> rx_count (snd (feed rx_room rx_push cs s))"
    "wr1 (snd (feed rx_room rx_push cs s)) = wr1 s" "tx_ip (snd (feed rx_room rx_push cs s)) = tx_ip s"
    by blast+
qed

lemma scc_tick_level:
  assumes "scc_int_pending s"
  shows "scc_int_pending (sgi_scc_tick n s)"
proof -
  have drain: "scc_int_pending t \<Longrightarrow> scc_int_pending (drain ch t)" for ch t
    by (auto simp: scc_int_pending_def drain_def tx_int_def)
  have poll: "scc_int_pending t \<Longrightarrow> scc_int_pending (rx_poll t)" for t
    using feed_grows [of "t\<lparr>rx_init := True\<rparr>" "stdin t"] feed_regs [of "stdin t" "t\<lparr>rx_init := True\<rparr>"]
    by (auto simp: scc_int_pending_def rx_poll_def Let_def split_def)
  have "scc_int_pending (s\<lparr>clk := x\<rparr>) = scc_int_pending s" "scc_int_pending (t\<lparr>rx_poll_at := x\<rparr>) = scc_int_pending t" for x t
    by (simp_all add: scc_int_pending_def)
  with assms show ?thesis
    unfolding sgi_scc_tick_def Let_def by (intro drain) (simp add: poll)
qed

interpretation scc_line: irq_level scc_int_pending "sgi_scc_tick n" for n
  by unfold_locales (rule scc_tick_level)

text \<open>While the output buffer of the keyboard controller is full, nothing the host does changes it.\<close>

definition ps2_port :: "sgi_ps2 \<Rightarrow> bool \<times> bool \<times> u8" where
  "ps2_port s = (obf s, aux_obf s, ccb s)"

lemma port_mouse [simp]: "ps2_port (mouse dx dy b s) = ps2_port s"
  by (simp add: ps2_port_def mouse_def Let_def)

lemma port_press [simp]: "ps2_port (press name down s) = ps2_port s"
  by (simp add: ps2_port_def press_def key_def split: option.split)

lemma port_type_text [simp]: "ps2_port (type_text t s) = ps2_port s"
  by (induction t arbitrary: s) (simp_all add: type_text_def type_char_def Let_def split_def)

lemma port_move_loop [simp]: "ps2_port (move_loop step dx dy s) = ps2_port s"
proof (induction step dx dy s rule: move_loop.induct)
  case (1 step dx dy s)
  then show ?case by (subst move_loop.simps) (simp add: Let_def)
qed

lemma port_run_line [simp]: "ps2_port (run_line icnt0 l s) = ps2_port s"
proof -
  have "ps2_port (s\<lparr>script_wait_until := w\<rparr>) = ps2_port s" for w by (simp add: ps2_port_def)
  then show ?thesis by (simp add: run_line_def Let_def split_def split: prod.split)
qed

lemma port_run_script [simp]: "ps2_port (run_script icnt0 s) = ps2_port s"
proof -
  have "ps2_port (run_script_loop icnt0 ls s) = ps2_port s" for ls
    by (induction icnt0 ls s rule: run_script_loop.induct) (simp_all add: ps2_port_def [of "_\<lparr>script_pc := _\<rparr>"] ps2_port_def [symmetric])
  then show ?thesis by (simp add: run_script_def)
qed

lemma ps2_service_level:
  assumes "ps2_irq s"
  shows "ps2_irq (ps2_service icnt0 s)"
proof -
  have irq: "ps2_irq t \<longleftrightarrow> (case ps2_port t of (f, a, c) \<Rightarrow> f \<and> (if a then flag c 0x02 else flag c 0x01))" for t
    by (simp add: ps2_irq_def ps2_port_def)
  have f: "obf (run_script icnt0 s)" using assms port_run_script [of icnt0 s] by (simp add: ps2_irq_def ps2_port_def)
  have p: "ps2_port (kbd_push bs t) = ps2_port t" "ps2_port (aux_push bs t) = ps2_port t"
    "ps2_port (t\<lparr>host_kbd := h\<rparr>) = ps2_port t" "ps2_port (t\<lparr>host_aux := h\<rparr>) = ps2_port t" for bs h t
    by (simp_all add: ps2_port_def kbd_push_def aux_push_def)
  have "ps2_port (ps2_service icnt0 s) = ps2_port s"
    using f unfolding ps2_service_def Let_def refill_def
    by (simp add: p kbd_push_def [THEN arg_cong [where f = obf]] aux_push_def [THEN arg_cong [where f = obf]])
  with assms show ?thesis unfolding irq by simp
qed

interpretation ps2_line: irq_level ps2_irq "ps2_service icnt0" for icnt0
  by unfold_locales (rule ps2_service_level)

text \<open>The Ethernet poll leaves every other device and the interrupt masks alone, and can only add
  interrupt causes.\<close>

definition enet_only :: "'n iio \<Rightarrow> 'n iio \<Rightarrow> bool" where
  "enet_only io0 io1 \<longleftrightarrow>
     (let d = dev io0; d' = dev io1; h = hpc d; h' = hpc d' in
      scsi d' = scsi d \<and> mc d' = mc d \<and> scc d' = scc d \<and> ps2 d' = ps2 d \<and> np d' = np d \<and>
      ioc2_local_status h' = ioc2_local_status h \<and> ioc2_local_mask h' = ioc2_local_mask h \<and>
      ioc2_cmeimask h' = ioc2_cmeimask h \<and> (\<exists>w. intstat h' = intstat h OR w))"

lemma enet_only_refl [simp]: "enet_only io0 io0"
  by (auto simp: enet_only_def Let_def intro: exI [of _ 0])

lemma enet_only_trans [trans]: "enet_only io0 io1 \<Longrightarrow> enet_only io1 io2 \<Longrightarrow> enet_only io0 io2"
  by (auto simp: enet_only_def Let_def or.assoc)

named_theorems enet_steps \<open>operations that only touch the Ethernet side\<close>

lemma enet_only_steps [enet_steps]:
  "enet_only io0 (upd_edma ch f io0)" "enet_only io0 (upd_seeq g io0)" "enet_only io0 (put_seeq e io0)"
  "enet_only io0 (wr_be32 pa v io0)" "enet_only io0 (raw_put pa b io0)" "enet_only io0 (halt io0)"
  by (auto simp: enet_only_def upd_edma_def upd_seeq_def put_seeq_def wr_be32_def halt_def upd_dev_def Let_def
      split: option.split intro: exI [of _ 0])

lemma enet_only_hpc_steps [enet_steps]:
  "enet_only io0 (upd_hpc (\<lambda>h. h\<lparr>intstat := intstat h OR w\<rparr>) io0)"
  "enet_only io0 (upd_hpc (\<lambda>h. h\<lparr>enet_tx_crbdp := a\<rparr>) io0)" "enet_only io0 (upd_hpc (\<lambda>h. h\<lparr>enet_crbdp := a\<rparr>) io0)"
  "enet_only io0 (upd_hpc (\<lambda>h. h\<lparr>enet_tx_hold := g h\<rparr>) io0)" "enet_only io0 (upd_hpc (\<lambda>h. h\<lparr>s_pkt_open := p\<rparr>) io0)"
  "enet_only io0 (upd_hpc (\<lambda>h. h\<lparr>s_head := a\<rparr>) io0)" "enet_only io0 (upd_hpc (\<lambda>h. h\<lparr>enet_poll_ctr := g h\<rparr>) io0)"
  by (auto simp: enet_only_def Let_def intro: exI [of _ 0])

lemma enet_only_if: "enet_only io0 a \<Longrightarrow> enet_only io0 b \<Longrightarrow> enet_only io0 (if c then a else b)"
  by simp

lemma enet_only_then:
  "enet_only io0 io1 \<Longrightarrow> enet_only io0 (upd_edma ch f io1)" "enet_only io0 io1 \<Longrightarrow> enet_only io0 (upd_seeq g io1)"
  "enet_only io0 io1 \<Longrightarrow> enet_only io0 (wr_be32 pa v io1)" "enet_only io0 io1 \<Longrightarrow> enet_only io0 (raw_put pa b io1)"
  "enet_only io0 io1 \<Longrightarrow> enet_only io0 (put_seeq e io1)" "enet_only io0 io1 \<Longrightarrow> enet_only io0 (halt io1)"
  "enet_only io0 io1 \<Longrightarrow> enet_only io0 (upd_hpc (\<lambda>h. h\<lparr>intstat := intstat h OR w\<rparr>) io1)"
  "enet_only io0 io1 \<Longrightarrow> enet_only io0 (upd_hpc (\<lambda>h. h\<lparr>enet_tx_crbdp := a\<rparr>) io1)"
  "enet_only io0 io1 \<Longrightarrow> enet_only io0 (upd_hpc (\<lambda>h. h\<lparr>enet_crbdp := a\<rparr>) io1)"
  "enet_only io0 io1 \<Longrightarrow> enet_only io0 (upd_hpc (\<lambda>h. h\<lparr>enet_tx_hold := k h\<rparr>) io1)"
  "enet_only io0 io1 \<Longrightarrow> enet_only io0 (upd_hpc (\<lambda>h. h\<lparr>s_pkt_open := p\<rparr>) io1)"
  "enet_only io0 io1 \<Longrightarrow> enet_only io0 (upd_hpc (\<lambda>h. h\<lparr>s_head := a\<rparr>) io1)"
  "enet_only io0 io1 \<Longrightarrow> enet_only io0 (upd_hpc (\<lambda>h. h\<lparr>enet_poll_ctr := k h\<rparr>) io1)"
  by (blast intro: enet_only_trans enet_steps)+

lemmas enet_intros = enet_only_if enet_only_then enet_only_refl

lemma tx_writeback_only: "enet_only io0 (tx_writeback V desc cntinfo io0)"
  unfolding tx_writeback_def Let_def by (intro enet_intros)

lemma enet_tx_desc_only: "enet_only io0 (snd (enet_tx_desc V io0))"
  unfolding enet_tx_desc_def Let_def
  by (simp add: if_distrib [where f = snd] cong: if_cong)
    (intro conjI impI enet_intros enet_only_trans [OF _ tx_writeback_only])

lemma enet_tx_loop_only: "enet_only io0 (enet_tx_loop V n io0)"
proof (induction n arbitrary: io0)
  case (Suc n)
  then show ?case
    using enet_tx_desc_only [of io0 V] by (auto simp: split_def Let_def intro: enet_only_trans)
qed (simp add: enet_steps)

lemma rx_fill_only: "enet_only io0 (snd (rx_fill n pbuf w io0))"
proof (induction n arbitrary: w io0)
  case (Suc n)
  have one: "enet_only io0 (raw_put a b (put_seeq e io0))" for a b e by (intro enet_intros)
  note more = enet_only_trans [OF one Suc]
  show ?case by (auto simp: split_def Let_def enet_steps one more split: option.split)
qed simp

lemma rx_ready_only: "enet_only io0 (snd (rx_ready io0))"
  by (simp add: rx_ready_def split_def Let_def enet_steps split: option.split)

lemma enet_rx_desc_only: "enet_only io0 (snd (enet_rx_desc io0))"
  unfolding enet_rx_desc_def Let_def
  by (simp add: split_def if_distrib [where f = snd] cong: if_cong)
    (intro conjI impI enet_intros enet_only_trans [OF _ rx_fill_only])

lemma enet_rx_loop_only: "enet_only io0 (enet_rx_loop n io0)"
proof (induction n arbitrary: io0)
  case (Suc n)
  note t = enet_only_trans [OF rx_ready_only enet_rx_desc_only]
  show ?case
    using rx_ready_only [of io0] t [of io0] Suc
    by (auto simp: split_def Let_def intro: enet_only_trans)
qed (simp add: enet_steps)

lemma enet_run_dma_only: "enet_only io0 (enet_run_dma V ch io0)"
  unfolding enet_run_dma_def Let_def by (intro enet_intros enet_tx_loop_only enet_rx_loop_only)

lemma enet_poll_only: "enet_only io0 (hpc_enet_poll V io0)"
  unfolding hpc_enet_poll_def Let_def
  by (intro enet_intros enet_only_trans [OF _ enet_run_dma_only])

lemma ip2_level:
  assumes "hpc_ip2_pending d" "ioc2_local_status (hpc d') = ioc2_local_status (hpc d)"
    and "ioc2_local_mask (hpc d') = ioc2_local_mask (hpc d)" "ioc2_cmeimask (hpc d') = ioc2_cmeimask (hpc d)"
    and "scsi d' = scsi d" "mc d' = mc d" "intstat (hpc d') = intstat (hpc d) OR w"
    and "scc_int_pending (scc d) \<Longrightarrow> scc_int_pending (scc d')"
    and "\<And>k. ps2 d = Some k \<Longrightarrow> ps2_irq k \<Longrightarrow> \<exists>k'. ps2 d' = Some k' \<and> ps2_irq k'"
  shows "hpc_ip2_pending d'"
proof -
  have i: "flag (intstat (hpc d)) 0xc00 \<Longrightarrow> flag (intstat (hpc d')) 0xc00"
    unfolding assms(7) flag_def by (auto simp: bit_eq_iff bit_and_iff bit_or_iff)
  have k: "(case ps2 d of None \<Rightarrow> False | Some k \<Rightarrow> ps2_irq k) \<Longrightarrow> (case ps2 d' of None \<Rightarrow> False | Some k \<Rightarrow> ps2_irq k)"
    using assms(9) by (cases "ps2 d") auto
  have l: "bit (ioc2_local0_live d) n \<Longrightarrow> bit (ioc2_local0_live d') n" for n
    unfolding local0_bit cascade_flag using assms(2,4,5,6,8) i k
    by (auto simp: scsi_intrq_def split: if_splits)
  show ?thesis
    using assms(1) unfolding hpc_ip2_pending_def flag_bits8 [of "ioc2_local0_live _"] assms(3) by (blast dest: l)
qed

lemma ip2_enet: "hpc_ip2_pending (dev io0) \<Longrightarrow> hpc_ip2_pending (dev (hpc_enet_poll V io0))"
  using enet_poll_only [of io0 V] by (auto simp: enet_only_def Let_def intro: ip2_level)

lemma ip2_scc: "hpc_ip2_pending (dev io0) \<Longrightarrow> hpc_ip2_pending (dev (put_scc (sgi_scc_tick n (scc (dev io0))) io0))"
  by (erule ip2_level [where w = 0]) (simp_all add: put_scc_def upd_dev_def scc_line.level)

lemma ip2_retrace:
  assumes "hpc_ip2_pending (dev io0)"
  shows "hpc_ip2_pending (dev (indy_retrace N icnt0 io0))"
proof (rule ip2_level [OF assms, where w = 0])
  show "\<exists>k'. ps2 (dev (indy_retrace N icnt0 io0)) = Some k' \<and> ps2_irq k'" if "ps2 (dev io0) = Some k" "ps2_irq k" for k
    using that ps2_line.level [OF that(2), of icnt0]
    by (auto simp: indy_retrace_def put_np_def put_ps2_def poke_def upd_dev_def split_def Let_def ps2_irq_def split: option.split)
qed (simp_all add: indy_retrace_def put_np_def put_ps2_def poke_def upd_dev_def split_def Let_def split: option.split)

interpretation ip2_line_enet: irq_level "\<lambda>io0. hpc_ip2_pending (dev io0)" "hpc_enet_poll V" for V
  by unfold_locales (rule ip2_enet)

interpretation ip2_line_scc: irq_level "\<lambda>io0. hpc_ip2_pending (dev io0)" "\<lambda>io0. put_scc (sgi_scc_tick n (scc (dev io0))) io0" for n
  by unfold_locales (rule ip2_scc)

interpretation ip2_line_retrace: irq_level "\<lambda>io0. hpc_ip2_pending (dev io0)" "indy_retrace N icnt0" for N icnt0
  by unfold_locales (rule ip2_retrace)

text \<open>The line the CPU samples, after all the devices have ticked.\<close>

lemma ip2_sampled:
  assumes "devops E = indy_ops V N (Suc k)" "hpc_ip2_pending (dev (sys s))"
  shows "bit (cpr0 (polled E (timer_tick (devices_ticked E s))) CPR0_CAUSE) 10"
    and "hpc_ip2_pending (dev (sys (polled E (timer_tick (devices_ticked E s)))))"
proof -
  let ?t = "timer_tick (devices_ticked E s)"
  have "hpc_ip2_pending (dev (sys ?t))"
    using assms ip2_line_scc.level [of "sys s" 1]
    by (simp add: devices_ticked_def Let_def ip2_line_retrace.level)
  then have "hpc_ip2_pending (dev (hpc_enet_poll V ((sys ?t)\<lparr>irq_poke := False\<rparr>)))"
    using ip2_line_enet.level [of "(sys ?t)\<lparr>irq_poke := False\<rparr>" V] by simp
  moreover have "sys (set_ip b p u) = sys u" for b p and u :: "'a indy state_t" by (simp add: set_ip_def reg_defs)
  ultimately show "bit (cpr0 (polled E ?t) CPR0_CAUSE) 10" "hpc_ip2_pending (dev (sys (polled E ?t)))"
    using assms(1) by (simp_all add: polled_def Let_def set_ip_cause_bit)
qed

section \<open>Properties\<close>

text \<open>C2.  A device interrupt reaches the CPU.  With the whole machine attached, if any source of the first
  interrupt controller is up and unmasked (SCSI, Ethernet, graphics DMA, serial port, keyboard or mouse) when
  the run loop polls, and Status enables interrupts and IP2, then the very same poll delivers it, whatever
  the serial port, the retrace and the Ethernet do meanwhile (provided that no Ethernet descriptor chain without
  end keeps the poll from returning): Cause.IP2 is set with ExcCode 0, EPC is the interrupted instruction,
  execution continues at the general vector with EXL set, and the line is still up for the handler to
  read.\<close>

theorem device_interrupt_delivered:
  assumes "devops E = indy_ops V N (Suc k)" "INT_POLL E = 1" "hpc_ip2_pending (dev (sys s))"
    and "bit (cpr0 s CPR0_SR) 0" "bit (cpr0 s CPR0_SR) 10" "\<not> exl s" "\<not> erl s" "\<not> in_delay_slot s"
    and "t = maybe_take_interrupt E s" "\<not> halted (dev (sys t))"
  shows "bit (cpr0 t CPR0_CAUSE) 10 \<and> drop_bit 2 (cpr0 t CPR0_CAUSE) AND 0x1f = 0 \<and>
    cpr0_64 t CPR0_EPC = pc s \<and> pc t = general_vector s \<and> exl t \<and> hpc_ip2_pending (dev (sys t))"
proof -
  from sampled_delivered [OF assms(2,4,6,7,8) _ _ assms(5) ip2_sampled(1) [OF assms(1,3)]]
  show ?thesis using ip2_sampled(2) [OF assms(1,3)] by (simp add: assms(9))
qed

text \<open>A graphics slot that is never used, and an R4400 with the machine's devices attached.\<close>

definition no_board :: "unit np_ops" where
  "no_board = \<lparr>newport_read = (\<lambda>_ _ _ n. (0, n)), newport_write = (\<lambda>_ _ _ _ n. n),
     newport_vblank = (\<lambda>_ n. (0, False, n)), set_in_dma = (\<lambda>_ n. n), local1_bits = (\<lambda>_. 0)\<rparr>"

definition indy_base :: "unit indy env" where
  "indy_base = \<lparr>cpu_r5000 = False, g_fastdelay = False, INT_POLL = 1, env_PRID = None,
     env_CP0CONFIG = None, env_SCSIZE = None, env_SCLINE = None, FP_DIVTRAP = False, FP_QNAN_TRAP = False,
     FP_HW_DENORM = False, FP_NODIVTRAP = False, FP_NATIVE = False,
     devops = indy_ops default_env no_board 2, fpu = fpu base_env\<rparr>"

theorem device_interrupt_delivered_witness:
  "pc (maybe_take_interrupt indy_base
      ((state_zero (io_init ((indy_new (Some ((sgi_scsi_new False 0 (\<lambda>_. []) Map.empty)\<lparr>intrq := True\<rparr>)) None None None)
         \<lparr>hpc := sgi_hpc_new\<lparr>ioc2_local_mask := (\<lambda>_. 0x02)\<rparr>\<rparr>)))\<lparr>cpr0 := (\<lambda>_. 0)(CPR0_SR := 0x401)\<rparr>)) =
   0xFFFFFFFF80000180"
proof -
  let ?d = "(indy_new (Some ((sgi_scsi_new False 0 (\<lambda>_. []) Map.empty)\<lparr>intrq := True\<rparr>)) None None None)
    \<lparr>hpc := sgi_hpc_new\<lparr>ioc2_local_mask := (\<lambda>_. 0x02)\<rparr>\<rparr> :: unit indy"
  let ?s = "(state_zero (io_init ?d))\<lparr>cpr0 := (\<lambda>_. 0)(CPR0_SR := 0x401)\<rparr>"
  let ?t = "maybe_take_interrupt indy_base ?s"
  have b: "bit (0x02 :: u8) 1" by simp
  have p: "hpc_ip2_pending (dev (sys ?s))"
    using b by (subst ip2_sources) (simp_all add: state_zero_def io_init_def indy_new_def sgi_hpc_new_def scsi_intrq_def)
  have q: "\<not> halted (dev (sys ?t))"
    by (simp add: maybe_take_interrupt_alt poll_due_def indy_base_def Let_def polled_def devices_ticked_def numeral_2_eq_2 set_ip_def
        hpc_enet_poll_def state_zero_def io_init_def indy_new_def put_scc_def upd_dev_def set_exc_pc_def reg_defs)
  have r: "devops indy_base = indy_ops default_env no_board (Suc 1)" "INT_POLL indy_base = 1"
    "bit (cpr0 ?s CPR0_SR) 0" "bit (cpr0 ?s CPR0_SR) 10" "\<not> exl ?s" "\<not> erl ?s" "\<not> in_delay_slot ?s"
    "general_vector ?s = 0xFFFFFFFF80000180"
    by (simp_all add: indy_base_def numeral_2_eq_2 exl_def erl_def general_vector_def bev_def flag_def sr_bits state_zero_def)
  show ?thesis using device_interrupt_delivered [OF r(1,2) p r(3-7) refl q] r(8) by simp
qed

text \<open>C14.  The console.  When the CPU executes an SB whose address lies, uncached and unmapped, on the data
  register of either serial channel, the instruction completes, the low byte of the register is the next byte
  on the host's standard output, the channel is busy, and no memory, general register or other device
  changes.\<close>

theorem console_store_prints:
  assumes "devops E = indy_ops V N (Suc k)" "fetch E s = (Some inst, s1)" "dev (sys s1) = dev (sys s)" "f_op inst = 0x28"
    and "unmapped_pa (eff_va inst s1) = Some pa" "\<not> in_kseg0 (eff_va inst s1)"
    and "SCC_BASE \<le> pa" "pa \<le> SCC_END" "is_data_reg (pa - SCC_BASE)" "route_devices (sys s1)"
  shows "\<exists>t. execMips E (Suc n) s = Inr t \<and>
    stdout (scc (dev (sys t))) = stdout (scc (dev (sys s))) @ [ucast (gpr s1 (f_rt inst))] \<and>
    tx_busy (scc (dev (sys t))) (chan (pa - SCC_BASE)) \<and> pc t = pc s1 + 4 \<and>
    mem (sys t) = mem (sys s1) \<and> gpr t = gpr s1 \<and> (dev (sys t))\<lparr>scc := scc (dev (sys s))\<rparr> = dev (sys s)"
proof -
  let ?s = "s1\<lparr>icnt := icnt s1 + 1\<rparr>"
  let ?io = "(sys s1)\<lparr>cache_active := False\<rparr>"
  let ?c = "sgi_scc_write (pa - SCC_BASE) (ucast (gpr s1 (f_rt inst))) (scc (dev (sys s1)))"
  have nf: "\<not> tlb_fault s1"
    using assms(2) by (auto simp: fetch_def mem_get_def Let_def split_def split: if_splits)
  have x: "execMips E (Suc n) s = Inr (sb E inst ?s)"
    using assms(2,4)
    by (simp add: exec_body_def gate_def is_64b_gated_def r4400_reserved_def uses_cop1_def dispatch_def exec_itype_def
        exec_branch_imm_def exec_imm_def exec_mem_imm_def Let_def)
  have va: "eff_va inst ?s = eff_va inst s1" by (simp add: eff_va_def)
  have tr: "va_translate (eff_va inst ?s) op_store ?s = (pa, set_cache_active False ?s)"
    using assms(5,6) by (simp add: va_translate_def va Let_def)
  have w: "in_device_window pa"
    using assms(7,8) by (simp add: in_device_window_def SCC_BASE_def SCC_END_def word_le_nat_alt word_less_nat_alt)
  have "set_T (devops E) vw 1 pa v ?io = put_scc (sgi_scc_write (pa - SCC_BASE) (ucast v) (scc (dev (sys s1)))) ?io" for vw v
    using assms(1,7,8,10) w by (simp add: set_T_def route_store_def split: option.split)
  then have y: "sb E inst ?s = pc4 (?s\<lparr>sys := put_scc ?c ?io\<rparr>)"
    using tr nf by (simp add: sb_def with_ea_def mem_set_def set_cache_active_def)
  have z: "pc (pc4 u) = pc u + 4" "sys (pc4 u) = sys u" "gpr (pc4 u) = gpr u" for u :: "'a indy state_t"
    by (simp_all add: pc4_def)
  show ?thesis
    unfolding x using assms(3,9)
    by (intro exI [of _ "sb E inst ?s"]) (simp add: y z put_scc_def upd_dev_def sgi_scc_write_def Let_def)
qed

text \<open>The program is the one instruction \<^verbatim>\<open>sb $2, 0($3)\<close> at 0x88000000.\<close>

definition sb_machine :: "unit indy state_t" where
  "sb_machine =
     (state_zero ((io_init (indy_new None None None None))\<lparr>route_devices := True,
        mem := (\<lambda>_. 0)(0x08000000 := 0xa0, 0x08000001 := 0x62)\<rparr>))
     \<lparr>pc := 0xffffffff88000000, gpr := (\<lambda>_. 0)(2 := 0x141, 3 := 0xffffffffbfbd9837)\<rparr>"

theorem console_store_prints_witness:
  "\<exists>t. execMips indy_base 1 sb_machine = Inr t \<and> stdout (scc (dev (sys t))) = [0x41]"
proof -
  define s1 where "s1 = snd (fetch indy_base sb_machine)"
  have "(ucast (bswap 4 (mem_load 4 ((\<lambda>_. 0)(0x08000000 := 0xa0, 0x08000001 := 0x62)) 0x08000000)) :: u32) = 0xa0620000"
    by code_simp
  then have "fst (fetch indy_base sb_machine) = Some 0xa0620000"
    by (simp add: fetch_def mem_get_def sb_machine_def va_translate_def unmapped_pa_def compat_va_def in_kseg0_def
        set_cache_active_def state_zero_def io_init_def get_T_def in_device_window_def set_gpr_def mc_alias_def)
  then have f: "fetch indy_base sb_machine = (Some 0xa0620000, s1)" by (simp add: s1_def prod_eq_iff)
  have d: "dev (sys s1) = dev (sys sb_machine)" "route_devices (sys s1)" "gpr s1 = gpr sb_machine"
    by (simp_all add: s1_def fetch_def mem_get_def sb_machine_def va_translate_def unmapped_pa_def compat_va_def in_kseg0_def
        set_cache_active_def state_zero_def io_init_def get_T_def in_device_window_def set_gpr_def fun_eq_iff)
  have g: "f_op 0xa0620000 = 0x28" "f_rs 0xa0620000 = 3" "f_rt 0xa0620000 = 2" "f_simm 0xa0620000 = 0" by code_simp+
  have a: "eff_va 0xa0620000 s1 = 0xffffffffbfbd9837" "gpr s1 2 = 0x141"
    by (simp_all add: eff_va_def g d sb_machine_def)
  have u: "unmapped_pa 0xffffffffbfbd9837 = Some 0x1fbd9837" "\<not> in_kseg0 0xffffffffbfbd9837"
    "SCC_BASE \<le> 0x1fbd9837" "0x1fbd9837 \<le> SCC_END" "is_data_reg (0x1fbd9837 - SCC_BASE)" by code_simp+
  have dv: "devops indy_base = indy_ops default_env no_board (Suc 1)" by (simp add: indy_base_def numeral_2_eq_2)
  have "stdout (scc (dev (sys sb_machine))) = []"
    by (simp add: sb_machine_def state_zero_def io_init_def indy_new_def sgi_scc_new_def)
  then show ?thesis
    using console_store_prints [OF dv f d(1) g(1) u(1,2) [folded a(1)] u(3-5) d(2), of 0] by (auto simp: g a)
qed

end
