(* ===== verification/Newport_Invariant.thy ===== *)
theory Newport_Invariant
  imports Newport_Properties Indy
begin

text \<open>
  What every access keeps of the Newport board: the decoded depths index their tables, the host shift is a
  shift of a 64-bit value that counts whole pixels, the store shift is one of a 32-bit word, the write mask
  has 24 bits, and the address of the VC2 memory stays inside it.  The locale \<open>graphics_board\<close> is what the
  machine relies on from whatever board is plugged in.
\<close>

section \<open>The invariant\<close>

definition rex_wf :: "rex3 \<Rightarrow> bool" where
  "rex_wf r \<longleftrightarrow> hostdepth r < 4 \<and> plane_depth r < 4 \<and> unat (host_shift r) < 64 \<and>
     unat (s_host_shifts ! unat (hostdepth r)) dvd unat (host_shift r)"

definition np_wf :: "newport \<Rightarrow> bool" where
  "np_wf n \<longleftrightarrow> rb_wf (rb n) \<and> src_shift (rb n) < 32 \<and> rex_wf (rex n) \<and> ram_addr (vc n) < 0x8000"

named_theorems board_frame

lemma rex_wf_key:
  assumes "hostdepth r' = hostdepth r" "plane_depth r' = plane_depth r" "host_shift r' = host_shift r"
  shows "rex_wf r' = rex_wf r"
  by (simp only: rex_wf_def assms)

lemma rex_wf_frame [board_frame]:
  "rex_wf (iterate_shade r) = rex_wf r" "rex_wf (reset_color r) = rex_wf r" "rex_wf (do_setup r) = rex_wf r"
  "rex_wf (write_x_start v r) = rex_wf r" "rex_wf (write_y_start v r) = rex_wf r"
  "rex_wf (write_x_end v r) = rex_wf r" "rex_wf (write_y_end v r) = rex_wf r" "rex_wf (save_x r) = rex_wf r"
  "rex_wf (set_iter i r) = rex_wf r"
  by (rule rex_wf_key; simp add: iterate_shade_def reset_color_def do_setup_def write_x_start_def write_y_start_def
      write_x_end_def write_y_end_def save_x_def set_iter_def Let_def split_def)+

lemma np_wf_upd [board_frame]:
  "(\<And>r. rex_wf (f r) = rex_wf r) \<Longrightarrow> np_wf (upd_rex f n) = np_wf n"
  "np_wf (n\<lparr>go_pixels := v\<rparr>) = np_wf n" "np_wf (n\<lparr>np_fault := w\<rparr>) = np_wf n"
  by (simp_all add: np_wf_def upd_rex_def)

section \<open>Host pixels\<close>

lemma s_host_shifts_cases:
  assumes "d < (4 :: u8)"
  shows "unat (s_host_shifts ! unat d) \<in> {8, 16, 32}"
proof -
  have "unat d < 4" using assms by (simp add: word_less_nat_alt)
  then have "unat d \<in> {0, 1, 2, 3}" by auto
  then show ?thesis by (auto simp: s_host_shifts_def)
qed

text \<open>The step of the host shift: down by one pixel while there is one, else back to the first.\<close>

lemma host_shift_step:
  fixes v s :: u32
  assumes "unat v < 64" "unat s dvd unat v" "unat s \<in> {8, 16, 32}"
  shows "unat (64 - s) < 64 \<and> unat s dvd unat (64 - s)"
    and "0 < v \<Longrightarrow> unat (v - s) < 64 \<and> unat s dvd unat (v - s)"
proof -
  have "s \<le> 64" using assms(3) by (auto simp: word_le_nat_alt)
  then have "unat (64 - s) = 64 - unat s" by (simp add: unat_sub)
  then show "unat (64 - s) < 64 \<and> unat s dvd unat (64 - s)" using assms(3) by auto
  assume "0 < v"
  then have "unat s \<le> unat v" using assms(2) by (intro dvd_imp_le) (simp_all add: unat_gt_0)
  then have "unat (v - s) = unat v - unat s" by (simp add: unat_sub word_le_nat_alt)
  then show "unat (v - s) < 64 \<and> unat s dvd unat (v - s)" using assms(1,2) by simp
qed

lemma rex_wf_host:
  assumes "rex_wf r"
  shows "rex_wf (snd (host_color r))"
proof -
  let ?s = "s_host_shifts ! unat (hostdepth r)" and ?v = "host_shift r"
  have w: "hostdepth r < 4" "plane_depth r < 4" "unat ?v < 64" "unat ?s dvd unat ?v" using assms by (simp_all add: rex_wf_def)
  note step = host_shift_step [OF w(3,4) s_host_shifts_cases [OF w(1)]]
  have "0 < ?v" if "(rwdouble r \<and> 0 < ?v) \<or> 32 < ?v" using that by (auto simp: word_less_nat_alt)
  with step assms w(1,2) show ?thesis by (auto simp: host_color_def rex_wf_def Let_def)
qed

section \<open>Drawing\<close>

lemma rb_write_shift [simp]: "src_shift (rb_write a c b) = src_shift b"
  by (simp add: rb_write_def rb_store_def Let_def)

lemma wf_rb [board_frame]: "np_wf (upd_rb (rb_write a c) n) = np_wf n" "np_wf (rb_set_addr a n) = np_wf n"
  by (simp_all add: np_wf_def upd_rb_def rb_set_addr_def)

lemma wf_output [board_frame]: "np_wf (output_pixel H x y c n) = np_wf n"
  by (simp add: output_pixel_def blend_pixel_def board_frame Let_def split_def)

lemma wf_host_pixel: "np_wf n \<Longrightarrow> np_wf (n\<lparr>rex := snd (host_color (rex n))\<rparr>)"
  by (simp add: np_wf_def rex_wf_host)

lemma wf_shade [board_frame]: "np_wf (upd_rex iterate_shade n) = np_wf n"
  by (intro np_wf_upd board_frame)

lemma wf_span_pixel:
  assumes "np_wf n"
  shows "np_wf (span_pixel H j y b x n)"
proof -
  define m where "m = (if sj_shade j then upd_rex iterate_shade n else n)"
  have "np_wf m" using assms by (simp add: m_def board_frame)
  with wf_host_pixel [OF this] show ?thesis
    unfolding span_pixel_def m_def [symmetric] Let_def split_def by (simp add: board_frame)
qed

lemma wf_span_loop: "np_wf n \<Longrightarrow> np_wf (snd (span_loop H j y b x n))"
proof (induction H j y b x n rule: span_loop.induct)
  case (1 H j y b x n)
  from wf_span_pixel [OF 1(2), of H j y b x] 1 show ?case by (subst span_loop.simps) (simp add: Let_def)
qed

text \<open>The vector kernel: its colours step the iterators or the host shift, its stores keep the control state.\<close>

lemma wf_host_lanes: "rex_wf r \<Longrightarrow> rex_wf (snd (host_lanes j ks r))"
  by (induction ks arbitrary: r) (simp_all add: split_def Let_def rex_wf_host)

lemma wf_clamped_lanes: "rex_wf (snd (clamped_lanes k r)) = rex_wf r"
  by (induction k arbitrary: r) (simp_all add: split_def Let_def board_frame)

lemma wf_span_colors: "rex_wf r \<Longrightarrow> rex_wf (snd (span_colors j len x y r))"
  by (auto simp: span_colors_def shade_lanes_def wf_host_lanes wf_clamped_lanes board_frame Let_def split_def)

lemma wf_lane_store [board_frame]: "np_wf (lane_store col ok base k n) = np_wf n"
  by (simp add: lane_store_def np_wf_def rb_wf_def Let_def)

lemma wf_lane_stores [board_frame]: "np_wf (fold (lane_store col ok base) ks n) = np_wf n"
  by (induction ks arbitrary: n) (simp_all add: board_frame)

lemma wf_span_fast:
  assumes "span_fast j x y n = Some (x1, n1)" "np_wf n"
  shows "np_wf n1"
proof -
  define r1 where "r1 = snd (span_colors j (seg_len j x) x y (rex n))"
  have "np_wf (n\<lparr>rex := r1, go_pixels := v\<rparr>)" for v
    using assms(2) wf_span_colors [of "rex n"] by (simp add: np_wf_def r1_def)
  with assms(1) show ?thesis
    by (auto simp: span_fast_def r1_def [symmetric] Let_def split_def board_frame split: if_splits)
qed

lemma wf_row_segment: "np_wf n \<Longrightarrow> np_wf (snd (row_segment H fast j x y n))"
  using wf_span_fast [of j x y n] by (auto simp: row_segment_def wf_span_loop split: option.split if_splits)

lemma wf_next_row [board_frame]: "np_wf (snd (snd (next_row j block up y xn))) = np_wf (snd xn)"
  by (simp add: next_row_def split_def Let_def board_frame)

lemma wf_rows: "np_wf (snd (snd xyn)) \<Longrightarrow> np_wf (snd (snd (rows_loop H j block stop_y up end_y xyn)))"
proof (induction H j block stop_y up end_y xyn rule: rows_loop.induct)
  case (1 H j block stop_y up end_y x y n)
  let ?next = "next_row j block up y (row_segment H (use_fast H j) j x y n)"
  have "np_wf (snd (snd ?next))" using 1(2) wf_row_segment [of n H "use_fast H j" j x y] by (simp add: board_frame)
  with 1(1) show ?case by (subst rows_loop.simps) (auto simp: Let_def)
qed

lemma wf_span_or_block: "np_wf n \<Longrightarrow> np_wf (span_or_block H block n)"
  by (simp add: span_or_block_def Let_def split_def board_frame wf_rows)

lemma wf_line_plot [board_frame]: "np_wf (line_plot H k0 c x y n) = np_wf n"
  by (simp add: line_plot_def Let_def board_frame)

lemma wf_line_run [board_frame]: "np_wf (snd (line_run H k0 c bi i1 i2 k ln)) = np_wf (snd ln)"
  by (induction k arbitrary: ln) (simp_all add: split_def board_frame)

lemma wf_line_draw [board_frame]: "np_wf (line_draw H k0 u v c bi i1 i2 loop l0 e n) = np_wf n"
  by (simp add: line_draw_def start_at_def Let_def split_def board_frame)

lemma wf_let:
  "(\<And>x. np_wf (f x) = q) \<Longrightarrow> np_wf (Let a f) = q" "(\<And>x y. np_wf (g x y) = q) \<Longrightarrow> np_wf (case_prod g p) = q"
  by (simp_all add: split_def)

lemma wf_lines [board_frame]: "np_wf (do_iline H c n) = np_wf n" "np_wf (do_fline H c n) = np_wf n"
  unfolding do_iline_def do_fline_def by (intro wf_let wf_line_draw)+

lemma wf_pixel_read [board_frame]: "np_wf (snd (do_pixel_read n)) = np_wf n"
  by (simp add: do_pixel_read_def Let_def split_def board_frame)

lemma wf_word_read [board_frame]: "np_wf (snd (word_read_loop bits shift m vn k)) = np_wf (snd vn)"
  by (induction k arbitrary: shift vn) (simp_all add: split_def Let_def board_frame)

lemma wf_copy_pixel [board_frame]: "np_wf (copy_pixel H x y n) = np_wf n"
  by (simp add: copy_pixel_def Let_def split_def board_frame)

lemma wf_copy_loop [board_frame]: "np_wf (snd (copy_loop H l s e y x n)) = np_wf n"
proof (induction H l s e y x n rule: copy_loop.induct)
  case (1 H l s e y x n)
  then show ?case by (subst copy_loop.simps) (auto simp: Let_def board_frame)
qed

lemma wf_copy_rows [board_frame]: "np_wf (snd (snd (copy_rows H l s e u t f xyn))) = np_wf (snd (snd xyn))"
proof (induction H l s e u t f xyn rule: copy_rows.induct)
  case (1 H l s e u t f x y n)
  then show ?case by (subst copy_rows.simps) (auto simp: Let_def copy_next_def split_def board_frame)
qed

lemma wf_command:
  assumes "np_wf n"
  shows "np_wf (do_command H n)"
proof -
  have s: "np_wf (setup_if m) = np_wf m" for m by (simp add: setup_if_def board_frame)
  have p: "np_wf (upd_rex (\<lambda>r. r\<lparr>host_dataport := v\<rparr>) m) = np_wf m" for v m
    by (rule np_wf_upd) (rule rex_wf_key, simp_all)
  show ?thesis
    using assms wf_span_or_block [of "setup_if (n\<lparr>go_pixels := 0\<rparr>)"]
    by (simp add: do_command_def do_command_body_def do_pixel_word_read_def scr2scr_def Let_def split_def s p board_frame)
qed

section \<open>The registers\<close>

lemma vc2_mask_less [simp]: "v AND vc2_mask < 0x8000"
  unfolding vc2_mask_def using word_and_le1 [of v "0x7fff :: u16"] by (rule order.strict_trans1) simp

lemma vc2_read_wf: "ram_addr v < 0x8000 \<Longrightarrow> ram_addr (snd (vc2_read a v)) < 0x8000"
  by (simp add: vc2_read_def Let_def)

lemma vc2_reg_write_wf: "ram_addr v < 0x8000 \<Longrightarrow> ram_addr (vc2_reg_write d v) < 0x8000"
  by (simp add: vc2_reg_write_def update_screen_size_def Let_def)

lemma vc2_write_wf: "ram_addr v < 0x8000 \<Longrightarrow> ram_addr (vc2_write a d m v) < 0x8000"
  by (simp add: vc2_write_def vc2_reg_write_wf)

lemma rex_wf_dcb [board_frame]:
  "rex_wf (r\<lparr>dcb_reg_select := v\<rparr>) = rex_wf r" "rex_wf (r\<lparr>rex_status := v\<rparr>) = rex_wf r"
  "rex_wf (r\<lparr>dcb_data_msw := v\<rparr>) = rex_wf r" "rex_wf (r\<lparr>dcb_data_lsw := v\<rparr>) = rex_wf r"
  by (simp_all add: rex_wf_def)

lemma wf_dcb_frame [board_frame]:
  "np_wf (dcb_next n) = np_wf n" "np_wf (dcb_timeout icnt0 n) = np_wf n" "np_wf (upd_xmap i f n) = np_wf n"
  "np_wf (upd_cmap i g n) = np_wf n" "np_wf (ramdac_write rs d n) = np_wf n"
  "np_wf (upd_rex (\<lambda>r. r\<lparr>dcb_data_msw := d\<rparr>) n) = np_wf n" "np_wf (upd_rex (\<lambda>r. r\<lparr>dcb_data_lsw := d\<rparr>) n) = np_wf n"
  by (simp_all add: dcb_next_def dcb_timeout_def upd_xmap_def upd_cmap_def ramdac_write_def np_wf_def upd_rex_def board_frame)

lemma wf_dcb_read: "np_wf n \<Longrightarrow> np_wf (snd (dcb_read icnt0 n))"
  by (simp add: dcb_read_def board_frame Let_def split_def) (simp add: np_wf_def vc2_read_wf)

lemma wf_upd_vc: "np_wf n \<Longrightarrow> np_wf (upd_vc (vc2_write a d m) n)"
  by (simp add: np_wf_def upd_vc_def vc2_write_wf)

lemma wf_dcb_write: "np_wf n \<Longrightarrow> np_wf (dcb_write icnt0 d n)"
  by (simp add: dcb_write_def board_frame wf_upd_vc Let_def)

lemma wf_status_read [board_frame]: "np_wf (snd (status_read icnt0 hi n)) = np_wf n"
  by (simp add: status_read_def np_wf_def upd_rex_def board_frame Let_def)

lemma wf_rex3_r:
  assumes "np_wf n"
  shows "np_wf (snd (rex3_r H icnt0 line hi lo n))"
  using assms wf_dcb_read [OF assms, of icnt0]
  by (auto simp: rex3_r_def Let_def split_def board_frame wf_command split: option.split)

lemma two_bits: "v AND 3 < (4 :: u32)"
  using word_and_le1 [of v "3 :: u32"] by (rule order.strict_trans1) simp

lemma depth_bits: "(ucast (v AND 3) :: u8) < 4" for v :: u32
proof -
  have "unat (v AND 3) < 4" using two_bits [of v] by (simp add: word_less_nat_alt)
  then show ?thesis by (simp add: word_less_nat_alt unsigned_ucast_eq take_bit_nat_eq_self)
qed

lemma mode1_write_wf: "rex_wf (mode1_write h r)"
proof -
  let ?d = "ucast (drop_bit 8 h AND 3) :: u8"
  have u: "unat (drop_bit 8 h AND 3) = unat ?d"
    using two_bits [of "drop_bit 8 h"] by (simp add: word_less_nat_alt unsigned_ucast_eq take_bit_nat_eq_self)
  have "unat (64 - s_host_shifts ! unat ?d) < 64 \<and> unat (s_host_shifts ! unat ?d) dvd unat (64 - s_host_shifts ! unat ?d)"
    by (rule host_shift_step(1) [of 0]) (simp_all only: s_host_shifts_cases [OF depth_bits], simp_all)
  then show ?thesis by (simp add: rex_wf_def mode1_write_def depth_bits u)
qed

lemma wf_half: "rex_wf r \<Longrightarrow> (\<And>q. rex_wf q \<Longrightarrow> rex_wf (f q)) \<Longrightarrow> rex_wf (on_half sel f r)"
  by (simp add: on_half_def)

lemma wf_if: "(c \<Longrightarrow> rex_wf a) \<Longrightarrow> (\<not> c \<Longrightarrow> rex_wf b) \<Longrightarrow> rex_wf (if c then a else b)"
  by simp

lemma wf_data_port:
  assumes "rex_wf r"
  shows "rex_wf (r\<lparr>host_dataport := v, host_shift := 64 - s_host_shifts ! unat (hostdepth r)\<rparr>)"
proof -
  have w: "hostdepth r < 4" "plane_depth r < 4" using assms by (simp_all add: rex_wf_def)
  have "unat (64 - s_host_shifts ! unat (hostdepth r)) < 64 \<and>
      unat (s_host_shifts ! unat (hostdepth r)) dvd unat (64 - s_host_shifts ! unat (hostdepth r))"
    by (rule host_shift_step(1) [of 0]) (simp_all only: s_host_shifts_cases [OF w(1)], simp_all)
  with w show ?thesis by (simp add: rex_wf_def)
qed

lemma wf_field_writes [board_frame]:
  "rex_wf (red_write h r) = rex_wf r" "rex_wf (color_i_write l r) = rex_wf r" "rex_wf (dcb_mode_write h r) = rex_wf r"
  "rex_wf (smask_write i hi h lo l r) = rex_wf r"
  by (simp_all add: red_write_def color_i_write_def dcb_mode_write_def smask_write_def on_half_def rex_wf_def Let_def)

lemma wf_reg_write:
  assumes "rex_wf r"
  shows "rex_wf (reg_write a dat m hi lo r)"
  unfolding reg_write_def Let_def
  by (intro wf_if wf_half; (rule assms mode1_write_wf wf_data_port [OF assms] | (simp add: assms board_frame; fail) |
      (simp add: rex_wf_def; fail) | (simp add: board_frame, simp add: rex_wf_def)))

text \<open>What a register write does to the framebuffer state.\<close>

lemma s_shift_small: "d < 4 \<Longrightarrow> p < 8 \<Longrightarrow> i < 2 \<Longrightarrow> s_shift ! p ! d ! i < 32"
proof -
  have "list_all (\<lambda>t. list_all (\<lambda>u. list_all (\<lambda>v. v < 32) u \<and> length u = 2) t \<and> length t = 4) s_shift \<and> length s_shift = 8"
    by (simp add: s_shift_def)
  then show "d < 4 \<Longrightarrow> p < 8 \<Longrightarrow> i < 2 \<Longrightarrow> s_shift ! p ! d ! i < 32" by (simp add: list_all_length)
qed

lemma set_flags_wf:
  assumes "rb_write_mask b AND NOT 0xffffff = 0"
  shows "rb_wf (rb_set_flags h b)" "src_shift (rb_set_flags h b) < 32"
proof -
  have "drop_bit 28 h AND 0xf < 16" "h AND 7 < 8" "drop_bit 3 h AND 3 < 4"
    by (rule order.strict_trans1 [OF word_and_le1]; simp)+
  then have u: "unat (drop_bit 28 h AND 0xf) < 16" "unat (h AND 7) < 8" "unat (drop_bit 3 h AND 3) < 4"
    by (simp_all add: word_less_nat_alt)
  then have "(ucast (drop_bit 28 h AND 0xf) :: u8) < 16"
    by (simp add: word_less_nat_alt unsigned_ucast_eq take_bit_nat_eq_self)
  then show "rb_wf (rb_set_flags h b)" using assms by (simp add: rb_wf_def rb_set_flags_def Let_def)
  show "src_shift (rb_set_flags h b) < 32"
    using s_shift_small [OF u(3,2), of "if bit h 5 then 1 else 0"] by (simp add: rb_set_flags_def Let_def)
qed

lemma wf_rex3_w:
  assumes "np_wf n"
  shows "np_wf (rex3_w H icnt0 line dat m hi lo n)"
proof -
  let ?a = "reg_of_line line" and ?h = "ucast (drop_bit 32 dat) :: u32"
  have r: "np_wf (upd_rex (reg_write ?a dat m hi lo) n)"
    using assms by (simp add: np_wf_def upd_rex_def wf_reg_write)
  have f: "np_wf (upd_rb (rb_set_flags ?h) k)" if "np_wf k" for k
    using that set_flags_wf [of "rb k" ?h] by (simp add: np_wf_def upd_rb_def rb_wf_def)
  have g: "np_wf (upd_rb (\<lambda>b. b\<lparr>rb_write_mask := ?h AND 0xffffff\<rparr>) k)" if "np_wf k" for k
    using that by (simp add: np_wf_def upd_rb_def rb_wf_def and.assoc)
  show ?thesis
    unfolding rex3_w_def Let_def using r f [OF r] g [OF r] assms wf_dcb_write [OF assms, of icnt0 ?h]
    by (auto simp: board_frame intro: wf_command)
qed

section \<open>The board as the machine sees it\<close>

text \<open>What the machine relies on from a graphics board: its accesses, the retrace and the DMA mark keep an
  invariant.\<close>

locale graphics_board =
  fixes N :: "'n np_ops"
    and good :: "'n \<Rightarrow> bool"
  assumes read_inv: "good n \<Longrightarrow> good (snd (newport_read N icnt0 offs sz n))"
    and write_inv: "good n \<Longrightarrow> good (newport_write N icnt0 offs v sz n)"
    and vblank_inv: "good n \<Longrightarrow> good (snd (snd (newport_vblank N icnt0 n)))"
    and in_dma_inv: "good n \<Longrightarrow> good (set_in_dma N on n)"
begin

lemma port_writes_inv: "good n \<Longrightarrow> good (port_writes N vw gio ws n)"
  by (induction ws arbitrary: n) (simp_all add: port_writes_def write_inv)

end

interpretation npb: graphics_board "newport_ops H" np_wf for H
proof
  fix n icnt0 offs sz v on
  assume n: "np_wf n"
  show "np_wf (snd (newport_read (newport_ops H) icnt0 offs sz n))"
    using wf_rex3_r [OF n] by (simp add: newport_ops_def board_read_def Let_def split_def)
  show "np_wf (newport_write (newport_ops H) icnt0 offs v sz n)"
    using wf_rex3_w [OF n] by (simp add: newport_ops_def board_write_def Let_def)
  show "np_wf (snd (snd (newport_vblank (newport_ops H) icnt0 n)))" "np_wf (set_in_dma (newport_ops H) on n)"
    using n by (simp_all add: newport_ops_def board_vblank_def np_wf_def upd_rex_def board_frame Let_def)
qed

lemma newport_new_wf: "np_wf (newport_new xl24 vb)"
proof -
  have "rb_wf (rb_set_flags 0x3002f001 b)" "src_shift (rb_set_flags 0x3002f001 b) < 32" if "rb_write_mask b = 0" for b
    using set_flags_wf [of b "0x3002f001"] that by simp_all
  moreover have "rex_wf (rex3_zero\<lparr>draw_mode1 := v, dcb_mode := w, x_window := x, y_window := y\<rparr>)" for v w x y
    by (simp add: rex_wf_def rex3_zero_def)
  ultimately show ?thesis by (simp add: np_wf_def newport_new_def vc2_new_def Let_def)
qed

end
