(* ===== verification/Newport_Machine.thy ===== *)
theory Newport_Machine
  imports Newport_Invariant
begin

text \<open>
  The graphics board inside the machine.  The locale \<open>device_bus\<close> is what the memory system relies on from
  the operations behind the device window when it is to keep a property of the devices; every
  \<open>graphics_board\<close> gives one, with the machine's own devices around it: the board's invariant survives
  every access the CPU and the DMA engines make, whatever they write.
\<close>

section \<open>What only one device changes\<close>

named_theorems np_frame

lemma np_put [np_frame]:
  "np (dev (upd_mc f io0)) = np (dev io0)" "np (dev (upd_hpc g io0)) = np (dev io0)" "np (dev (halt io0)) = np (dev io0)"
  "np (dev (poke b io0)) = np (dev io0)" "np (dev (put_scsi c io0)) = np (dev io0)" "np (dev (put_ps2 k io0)) = np (dev io0)"
  "np (dev (put_seeq e io0)) = np (dev io0)" "np (dev (put_scc s io0)) = np (dev io0)" "np (dev (put_np n io0)) = Some n"
  "np (dev (raw_put pa v io0)) = np (dev io0)" "np (dev (wr_be32 pa w io0)) = np (dev io0)"
  by (simp_all add: upd_mc_def upd_hpc_def upd_dev_def halt_def poke_def put_scsi_def put_ps2_def put_seeq_def put_scc_def
      put_np_def raw_put_def wr_be32_def Let_def)

lemma np_chan [np_frame]:
  "np (dev (upd_sdma ch f io0)) = np (dev io0)" "np (dev (upd_edma ch f io0)) = np (dev io0)"
  "np (dev (upd_seeq g io0)) = np (dev io0)" "np (dev (spec_fill_io pa io0)) = np (dev io0)"
  "np (dev (snoop_inval_io pa io0)) = np (dev io0)"
  by (simp_all add: upd_sdma_def upd_edma_def upd_seeq_def spec_fill_io_def snoop_inval_io_def np_frame Let_def split_def
      split: option.split)

lemma np_scsi_steps [np_frame]:
  "np (dev (scsi_fetch_chain ch io0)) = np (dev io0)" "np (dev (scsi_move V ch c io0)) = np (dev io0)"
  "np (dev (pause_if_residual io0)) = np (dev io0)"
  by (simp_all add: scsi_fetch_chain_def scsi_move_def pause_if_residual_def np_frame Let_def split_def split: option.split)

lemma np_scsi_xfer [np_frame]: "np (dev (scsi_xfer V ch n io0)) = np (dev io0)"
  by (induction n arbitrary: io0) (simp_all add: np_frame split: option.split)

lemma np_scsi_fsm [np_frame]: "np (dev (snd (scsi_fsm_step V ch io0))) = np (dev io0)"
  by (simp add: scsi_fsm_step_def np_frame Let_def split: dma_state_t.split)

lemma np_scsi_run [np_frame]: "np (dev (scsi_run_loop V ch n io0)) = np (dev io0)" "np (dev (scsi_run_dma V ch io0)) = np (dev io0)"
proof -
  show "np (dev (scsi_run_loop V ch n io0)) = np (dev io0)" for n io0
    by (induction n arbitrary: io0) (simp_all add: np_frame split_def Let_def)
  then show "np (dev (scsi_run_dma V ch io0)) = np (dev io0)" by (simp add: scsi_run_dma_def)
qed

lemma np_tx [np_frame]: "np (dev (tx_writeback V desc c io0)) = np (dev io0)" "np (dev (snd (enet_tx_desc V io0))) = np (dev io0)"
proof -
  show w: "np (dev (tx_writeback V desc c io0)) = np (dev io0)" for desc c io0
    by (simp add: tx_writeback_def np_frame Let_def)
  show "np (dev (snd (enet_tx_desc V io0))) = np (dev io0)" by (simp add: enet_tx_desc_def w np_frame Let_def)
qed

lemma np_tx_loop [np_frame]: "np (dev (enet_tx_loop V n io0)) = np (dev io0)"
  by (induction n arbitrary: io0) (simp_all add: np_frame split_def Let_def)

lemma np_rx_fill [np_frame]: "np (dev (snd (rx_fill n pbuf w io0))) = np (dev io0)"
  by (induction n arbitrary: w io0) (simp_all add: np_frame split_def Let_def split: option.split)

lemma np_rx [np_frame]: "np (dev (snd (rx_ready io0))) = np (dev io0)" "np (dev (snd (enet_rx_desc io0))) = np (dev io0)"
  by (simp_all add: rx_ready_def enet_rx_desc_def np_frame split_def Let_def split: option.split)

lemma np_rx_loop [np_frame]: "np (dev (enet_rx_loop n io0)) = np (dev io0)"
  by (induction n arbitrary: io0) (simp_all add: np_frame split_def Let_def)

lemma np_enet [np_frame]: "np (dev (enet_run_dma V ch io0)) = np (dev io0)" "np (dev (hpc_enet_poll V io0)) = np (dev io0)"
  by (simp_all add: enet_run_dma_def hpc_enet_poll_def np_frame Let_def)

lemma np_reg_read [np_frame]: "np (dev (snd (scsi_reg_read ch a io0))) = np (dev io0)"
  by (simp add: scsi_reg_read_def np_frame Let_def)

lemma np_reg_write [np_frame]:
  "np (dev (scsi_ctrl_write V ch x io0)) = np (dev io0)" "np (dev (scsi_reg_write V ch a x io0)) = np (dev io0)"
  "np (dev (enet_ctrl_write V ch x io0)) = np (dev io0)" "np (dev (enet_reset_write x io0)) = np (dev io0)"
  "np (dev (enet_reg_write V ch a x io0)) = np (dev io0)"
proof -
  show s: "np (dev (scsi_ctrl_write V ch x io0)) = np (dev io0)" "np (dev (enet_ctrl_write V ch x io0)) = np (dev io0)"
      "np (dev (enet_reset_write x io0)) = np (dev io0)"
    by (simp_all add: scsi_ctrl_write_def enet_ctrl_write_def enet_reset_write_def clear_enet_irq_def np_frame Let_def split: option.split)
  show "np (dev (scsi_reg_write V ch a x io0)) = np (dev io0)" "np (dev (enet_reg_write V ch a x io0)) = np (dev io0)"
    by (simp_all add: scsi_reg_write_def enet_reg_write_def s np_frame)
qed

text \<open>The decoders, one register at a time.\<close>

lemma np_if:
  "(c \<Longrightarrow> np (dev a) = q) \<Longrightarrow> (\<not> c \<Longrightarrow> np (dev b) = q) \<Longrightarrow> np (dev (if c then a else b)) = q"
  "(c \<Longrightarrow> np (dev (snd a')) = q) \<Longrightarrow> (\<not> c \<Longrightarrow> np (dev (snd b')) = q) \<Longrightarrow> np (dev (snd (if c then a' else b'))) = q"
  by simp_all

lemma np_read_impl [np_frame]: "np (dev (snd (hpc_read_impl V N vw offs sz io0))) = np (dev io0)"
  unfolding hpc_read_impl_def Let_def split_def
  by (intro np_if; simp add: np_frame split: option.split)

lemma np_write_impl [np_frame]: "np (dev (hpc_write_impl V vw offs x sz io0)) = np (dev io0)"
  unfolding hpc_write_impl_def Let_def
  by (intro np_if; simp add: np_frame split: option.split)

lemma np_hpc [np_frame]:
  "np (dev (snd (sgi_hpc_read V N vw offs sz io0))) = np (dev io0)" "np (dev (sgi_hpc_write V vw offs x sz io0)) = np (dev io0)"
  by (simp_all add: sgi_hpc_read_def sgi_hpc_write_def np_frame Let_def split_def split: option.split)

section \<open>The bus\<close>

locale device_bus =
  fixes D :: "'d dev_ops"
    and P :: "'d \<Rightarrow> bool"
  assumes scc_keeps: "P (dev io0) \<Longrightarrow> P (dev (snd (scc_read D offs io0)))" "P (dev io0) \<Longrightarrow> P (dev (scc_write D offs b io0))"
    and np_keeps: "P (dev io0) \<Longrightarrow> P (dev (snd (np_read D vw offs n io0)))" "P (dev io0) \<Longrightarrow> P (dev (np_write D vw offs v n io0))"
    and mc_keeps: "P (dev io0) \<Longrightarrow> P (dev (snd (mc_read D vw offs n io0)))" "P (dev io0) \<Longrightarrow> P (dev (mc_write D vw offs w n io0))"
    and hpc_keeps: "P (dev io0) \<Longrightarrow> P (dev (snd (hpc_read D vw offs n io0)))" "P (dev io0) \<Longrightarrow> P (dev (hpc_write D vw offs w n io0))"
    and clock_keeps: "P (dev io0) \<Longrightarrow> P (dev (scc_tick D t io0))" "P (dev io0) \<Longrightarrow> P (dev (newport_retrace D vw io0))"
      "P (dev io0) \<Longrightarrow> P (dev (enet_poll D vw io0))"
begin

lemma load_keeps:
  assumes "P (dev io0)"
  shows "P (dev (snd (get_T D vw n a io0)))"
proof -
  have "P (dev (snd (route_load D vw n a io0)))"
    using scc_keeps np_keeps mc_keeps hpc_keeps assms by (simp add: route_load_def split_def Let_def split: mem_range_t.split)
  with assms show ?thesis by (simp add: get_T_def split_def Let_def split: option.split bool.split)
qed

lemma store_keeps:
  assumes "P (dev io0)"
  shows "P (dev (set_T D vw n a v io0))"
proof -
  have "P (dev (route_store D vw n a v io0))"
    using scc_keeps np_keeps mc_keeps hpc_keeps assms by (simp add: route_store_def Let_def split: mem_range_t.split)
  with assms show ?thesis by (simp add: set_T_def split_def Let_def split: option.split bool.split)
qed

end

text \<open>The invariant of a board, when there is one.\<close>

definition board_inv :: "('n \<Rightarrow> bool) \<Rightarrow> 'n indy \<Rightarrow> bool" where
  "board_inv good d \<longleftrightarrow> (case np d of None \<Rightarrow> True | Some n \<Rightarrow> good n)"

lemma board_inv_frame: "np d' = np d \<Longrightarrow> board_inv good d' = board_inv good d"
  by (simp add: board_inv_def)

lemma board_inv_put [simp]: "board_inv good (dev (put_np n io0)) = good n"
  by (simp add: board_inv_def np_frame)

lemma board_invD: "board_inv good d \<Longrightarrow> np d = Some n \<Longrightarrow> good n"
  by (simp add: board_inv_def)

context graphics_board
begin

lemma retrace_keeps:
  assumes "board_inv good (dev io0)"
  shows "board_inv good (dev (indy_retrace N icnt0 io0))"
proof (cases "np (dev io0)")
  case (Some n)
  have "np (dev (indy_retrace N icnt0 io0)) = Some (snd (snd (newport_vblank N icnt0 n)))"
    using Some by (simp add: indy_retrace_def np_frame Let_def split_def split: option.split)
  then show ?thesis using assms Some by (simp add: board_inv_def vblank_inv)
qed (use assms in \<open>simp add: indy_retrace_def\<close>)

lemma access_keeps:
  assumes "board_inv good (dev io0)"
  shows "board_inv good (dev (snd (indy_np_read N vw offs n io0)))" "board_inv good (dev (indy_np_write N vw offs v n io0))"
  using assms by (auto simp: indy_np_read_def indy_np_write_def board_inv_def np_frame split_def Let_def read_inv write_inv split: option.splits)

text \<open>The graphics DMA, over any bus that keeps the invariant.\<close>

lemma dma_chunk_keeps:
  assumes "device_bus B (board_inv good)" "board_inv good (dev io0)"
  shows "board_inv good (dev (snd (dma_chunk N B vw j bytes m io0)))"
proof -
  note ld = device_bus.load_keeps [OF assms(1)] and st = device_bus.store_keeps [OF assms(1)]
  have tr: "board_inv good (dev (snd (dma_translate B vw va io1)))" if "board_inv good (dev io1)" for va io1
    using that ld [OF that] by (simp add: dma_translate_def Let_def split_def split: option.split)
  have put: "board_inv good (dev (snd (dma_put_bytes B vw j d is m io1)))" if "board_inv good (dev io1)" for d "is" m io1
    using that by (induction "is" arbitrary: m io1) (simp_all add: split_def Let_def st tr)
  have get: "board_inv good (dev (snd (snd (dma_get_bytes B vw j d is m io1))))" if "board_inv good (dev io1)" for d "is" m io1
    using that by (induction "is" arbitrary: d m io1) (simp_all add: split_def Let_def ld tr)
  have rd: "board_inv good (dev (snd (dma_gio_read64 N B vw g io1)))" if "board_inv good (dev io1)" for g io1
    using that ld [OF that, of vw 8 g] board_invD [OF that]
    by (simp add: dma_gio_read64_def split_def Let_def read_inv split: option.split)
  have wr: "board_inv good (dev (dma_gio_write64 N B vw g v io1))" if "board_inv good (dev io1)" for g v io1
    using that st [OF that] board_invD [OF that] by (simp add: dma_gio_write64_def write_inv split: option.split)
  show ?thesis
    using assms(2) by (simp add: dma_chunk_def Let_def split_def tr put get rd wr st)
qed

lemma dma_row_keeps:
  assumes "device_bus B (board_inv good)" "board_inv good (dev io0)"
  shows "board_inv good (dev (snd (dma_row N B vw j bytes m io0)))"
  using assms(2)
proof (induction bytes arbitrary: m io0 rule: less_induct)
  case (less bytes)
  then show ?case
    using dma_chunk_keeps [OF assms(1) less.prems, of vw j bytes m] by (subst dma_row.simps) (simp add: split_def Let_def)
qed

lemma dma_perform_keeps:
  assumes B: "device_bus B (board_inv good)" and "board_inv good (dev io0)"
  shows "board_inv good (dev (dma_perform N B vw io0))"
proof -
  have z: "board_inv good (dev (snd (snd (dma_zooms N B vw j k bytes m io1))))" if "board_inv good (dev io1)" for j k bytes m io1
    using that by (induction k arbitrary: bytes m io1) (simp_all add: split_def Let_def dma_row_keeps [OF B])
  have l: "board_inv good (dev (snd (dma_lines N B vw j k zoom bytes m io1)))" if "board_inv good (dev io1)" for j k zoom bytes m io1
    using that by (induction k arbitrary: zoom bytes m io1) (simp_all add: split_def Let_def z)
  have d: "board_inv good (dev (np_in_dma N on io1))" if "board_inv good (dev io1)" for on io1
    using that by (auto simp: np_in_dma_def board_inv_def np_frame in_dma_inv split: option.splits)
  have u: "board_inv good (dev (upd_mc f io1)) = board_inv good (dev io1)" "board_inv good (dev (poke b io1)) = board_inv good (dev io1)"
    for f b io1 by (rule board_inv_frame; simp add: np_frame)+
  show ?thesis using assms(2) by (simp add: dma_perform_def Let_def split_def d l u)
qed

lemma mc_write_keeps:
  assumes B: "device_bus B (board_inv good)" and "board_inv good (dev io0)"
  shows "board_inv good (dev (sgi_mc_write N B vw offs x sz io0))"
proof -
  have u: "board_inv good (dev (upd_mc f io1)) = board_inv good (dev io1)" "board_inv good (dev (halt io1)) = board_inv good (dev io1)"
    for f io1 by (rule board_inv_frame; simp add: np_frame)+
  have "board_inv good (dev io1)" if "mc_dma_write N B vw offs x io0 = Some io1" for io1
    using that assms(2) by (auto simp: mc_dma_write_def Let_def u dma_perform_keeps [OF B] split: if_splits)
  with assms(2) show ?thesis by (simp add: sgi_mc_write_def u split: option.split)
qed

lemma bus_levels: "device_bus (indy_ops V N k) (board_inv good)"
proof (induction k)
  case 0
  have u: "board_inv good (dev (halt io1)) = board_inv good (dev io1)" for io1 by (rule board_inv_frame) (simp add: np_frame)
  show ?case by unfold_locales (simp_all add: no_bus_def u)
next
  case (Suc k)
  have f: "board_inv good (dev (put_scc c io1)) = board_inv good (dev io1)"
    "board_inv good (dev (snd (sgi_hpc_read V N vw offs n io1))) = board_inv good (dev io1)"
    "board_inv good (dev (sgi_hpc_write V vw offs w n io1)) = board_inv good (dev io1)"
    "board_inv good (dev (hpc_enet_poll V io1)) = board_inv good (dev io1)" for c vw offs w n io1
    by (rule board_inv_frame; simp add: np_frame)+
  show ?case
    by unfold_locales (simp_all add: f access_keeps retrace_keeps mc_write_keeps [OF Suc] sgi_mc_read_def split_def Let_def)
qed

end

sublocale graphics_board \<subseteq> bus: device_bus "indy_ops V N k" "board_inv good" for V k
  by (rule bus_levels)

section \<open>The machine\<close>

text \<open>The states of the memory system and the devices behind it that a machine with this board can reach:
  loads and stores of any size and address, the clocks of the devices, and whatever else happens outside
  the devices.\<close>

inductive machine_reach :: "np_host \<Rightarrow> indy_env \<Rightarrow> nat \<Rightarrow> newport iio \<Rightarrow> bool" for H V k where
  power_on: "dev io0 = indy_new dsk eth (Some (newport_new xl24 vb)) kbd \<Longrightarrow> machine_reach H V k io0"
| load: "machine_reach H V k io0 \<Longrightarrow> machine_reach H V k (snd (get_T (indy_ops V (newport_ops H) k) vw n a io0))"
| store: "machine_reach H V k io0 \<Longrightarrow> machine_reach H V k (set_T (indy_ops V (newport_ops H) k) vw n a v io0)"
| retrace: "machine_reach H V k io0 \<Longrightarrow> machine_reach H V k (newport_retrace (indy_ops V (newport_ops H) k) vw io0)"
| tick: "machine_reach H V k io0 \<Longrightarrow> machine_reach H V k (scc_tick (indy_ops V (newport_ops H) k) t io0)"
| poll: "machine_reach H V k io0 \<Longrightarrow> machine_reach H V k (enet_poll (indy_ops V (newport_ops H) k) vw io0)"
| elsewhere: "machine_reach H V k io0 \<Longrightarrow> dev io1 = dev io0 \<Longrightarrow> machine_reach H V k io1"

lemma reach_np: "machine_reach H V k io0 \<Longrightarrow> board_inv np_wf (dev io0)"
proof (induction rule: machine_reach.induct)
  case (power_on io0 dsk eth xl24 vb kbd)
  then show ?case by (simp add: board_inv_def indy_new_def newport_new_wf)
qed (simp_all add: npb.bus.load_keeps npb.bus.store_keeps npb.bus.clock_keeps)

text \<open>C25.  In every state the machine reaches the graphics board is well formed: the decoded depths index
  their tables, shift amounts fit the shifted type, the write mask has 24 bits and the VC2 address stays
  inside its memory, whatever the guest stores to the board, directly or through the graphics DMA.\<close>

theorem board_invariant:
  assumes "machine_reach H V k io0" "np (dev io0) = Some n"
  shows "np_wf n"
  using reach_np [OF assms(1)] assms(2) by (simp add: board_inv_def)

text \<open>A machine with a board and no other optional device, and a store to DRAWMODE1 and DRAWMODE0.\<close>

definition board_io :: "newport iio" where
  "board_io = (io_init (indy_new None None (Some (newport_new False None)) None))\<lparr>route_devices := True\<rparr>"

lemma board_io_store:
  "np (dev (set_T (indy_ops default_env (newport_ops H) 1) vw 8 0x1f0f0000 v board_io)) =
     Some (board_write H (v_icnt vw) 0 (as_size 8 v) 8 (newport_new False None))"
  by (simp add: set_T_def board_io_def io_init_def in_device_window_def route_store_def indy_new_def SCC_BASE_def SCC_END_def
      NEWPORT_BASE_def NEWPORT_SIZE_def indy_np_write_def newport_ops_def np_frame)

theorem board_invariant_witness: "np_wf (board_write plain_host 0 0 (as_size 8 0x0603000009000030) 8 (newport_new False None))"
proof (rule board_invariant)
  have "machine_reach plain_host default_env 1 board_io" by (rule machine_reach.power_on) (simp add: board_io_def io_init_def)
  then show "machine_reach plain_host default_env 1
      (set_T (indy_ops default_env (newport_ops plain_host) 1) \<lparr>v_icnt = 0, v_count = 0\<rparr> 8 0x1f0f0000 0x0603000009000030 board_io)"
    by (rule machine_reach.store)
qed (simp only: board_io_store dev_view.simps)

end
