(* ===== verification/Spec2Isabelle.thy ===== *)
theory Spec2Isabelle
  imports Checkpoint Loader Gdb_Properties Cosim Newport_Fill Newport_Machine
begin

text \<open>
  Verification of interp_mips, an instruction-set simulator of a MIPS R4400 (or R5000) SGI Indy.

  \<^bold>\<open>The program.\<close>  \<^verbatim>\<open>main\<close> (src/main.cc) loads an image, builds the devices and runs
  \<^verbatim>\<open>while(s->brk == 0 && s->icnt < s->maxicnt) { maybe_take_interrupt(s); execMips(s); }\<close>.
  \<^verbatim>\<open>maybe_take_interrupt\<close> (src/interpret.cc) ticks the serial port and the graphics retrace,
  advances Count, polls the Ethernet and the interrupt controller and enters an interrupt.
  \<^verbatim>\<open>execMips\<close> translates the pc, fetches, decodes and executes one instruction, with its delay slot
  when it is a branch.  Addresses go through \<^verbatim>\<open>va_translate\<close> (segments, a micro-TLB, the 48-entry
  TLB); data go through \<^verbatim>\<open>sparse_mem\<close> (src/sparse_mem.hh), which sends an access to the optional
  write-back cache (src/cache_model.hh), to a device in the window 0x1f000000..0x1fffffff
  (src/sparse_mem.cc) or to the flat backing store behind the low-memory alias.  The devices
  (src/sgi_*.cc) raise interrupt lines that IOC2 gathers, and three of them move data to and from
  memory past the CPU: SCSI and Ethernet through the descriptor chains of HPC3, graphics through the
  DMA engine of the memory controller.

  \<^bold>\<open>The theories\<close>, in the order of their imports:

  \<^item> Prelude: machine integers, sign extension, byte order (src/helper.hh), object layout.
  \<^item> Memory_Map: \<^verbatim>\<open>mc_alias\<close>, \<^verbatim>\<open>get_raw_ptr\<close> and \<^verbatim>\<open>compute_mem_range_type\<close> (src/sgi_indy.hh).
  \<^item> Byte_Store: the locale \<open>byte_store\<close>, what the CPU relies on from whatever holds its bytes.
  \<^item> Cache_Model: \<^verbatim>\<open>class cache_model\<close>; it implements \<open>byte_store\<close>, as the bare backing store does;
    the refinement of the flat memory and what the CACHE operations promise to DMA (C1).
  \<^item> Bus: \<^verbatim>\<open>sparse_mem::get\<close>, \<^verbatim>\<open>set\<close> and the routing of the device window ().
  \<^item> Mips_State: \<^verbatim>\<open>state_t\<close>, \<^verbatim>\<open>initState\<close>, instruction fields, the environment of a run.
  \<^item> Exceptions and Interrupts: exception entry with the locale \<open>exc_entry\<close> that every raiser
    interprets, interrupt delivery.
  \<^item> TLB and TLB_Instructions: \<^verbatim>\<open>va_translate\<close>, the faults, TLBR, TLBWI, TLBWR, TLBP; the locale
    \<open>lookaside\<close> is the contract of the micro-TLB; what every exception, the TLB exceptions included, does on
    entry (C7 to C9, C32, C33).
  \<^item> Load_Store: the handlers \<^verbatim>\<open>_lw\<close> to \<^verbatim>\<open>_sdr\<close>, LL and SC.
  \<^item> Memory_View: the memory the CPU sees through the TLB, the cache and the low-memory alias, and what an
    aligned access reads and writes of it.
  \<^item> Unaligned and Access_Properties: the unaligned pairs, store and load, precise memory exceptions
    (C34 to C37).
  \<^item> FPU: registers in both FR modes, condition codes, compares, conversions and arithmetic.
  \<^item> Branch, ALU and ALU_Properties: branches with their slots, integer instructions (C39).
  \<^item> Cop0 and Interpreter: CP0 moves, ERET, CACHE, the dispatch of \<^verbatim>\<open>execMips\<close>, the run loop.
  \<^item> Exec_Faults: for every handler of the executor, an exception names its instruction.
  \<^item> Interpreter_Properties: delay slots and the exceptions in them, gates, the return from interrupts, the
    load-linked reservation as a history of steps (C10, C11, C38, C40).
  \<^item> SCC (src/sgi_scc.cc): the serial controller; its FIFO implements the locale \<open>byte_queue\<close>
    (C13).
  \<^item> PS2 (src/sgi_ps2.cc): the 8042 with keyboard, mouse and input scripts (C23).
  \<^item> Seeq (src/sgi_seeq.cc): the Ethernet controller over a tap (C21, C22).
  \<^item> SCSI (src/sgi_scsi.cc): the WD33C93 with its disk, the overlay and the delta file (C4, C15 to C17).
  \<^item> Indy_State: the registers of the memory controller and of HPC3 and the machine's device record.
  \<^item> MC (src/sgi_mc.cc): the memory controller and its graphics DMA (C12).
  \<^item> HPC and HPC_Properties (src/sgi_hpc.cc): register decoder, descriptor walks, interrupt status
    (C3, C20).
  \<^item> Indy: the devices plugged into the router and the interrupt poll; the locale \<open>irq_level\<close> is
    what the interrupt controller relies on from a device; end-to-end statements (C2, C14).
  \<^item> Checkpoint (src/saveState.cc): the checkpoint file, its writer and reader, and the points of the
    run loop that take one (C18).
  \<^item> Loader (src/loadelf.cc, src/pseudo_bios.cc): the ELF loader against the image its program headers
    describe, the boot vectors of the pseudo BIOS (C19).
  \<^item> Gdb and Gdb_Properties (src/gdbstub.cc): the remote debugging protocol and the hook of the run loop;
    the locale \<open>quiet_hook\<close> is what the run loop relies on from a hook (C28 to C31).
  \<^item> Cosim (src/cosim.cc, src/shmem.cc): the two processes of a lockstep co-simulation as interleaved steps on
    their shared segment; the locale \<open>process_pair\<close> is the contract of two processes that take turns (C26, C27).
  \<^item> Newport_State, Newport and Newport_Board (src/sgi_newport.cc): the graphics board; its state, the
    framebuffer and every drawing command, then the display control bus, the register file, the retrace
    and the picture; \<open>newport_ops\<close> is the board as the router, the memory controller and the interrupt
    controller call it.
  \<^item> Newport_Span and Newport_Properties: the vector kernel of spans and blocks against the pixel loop,
    and where the accesses to the framebuffer go (C5, C24).
  \<^item> Newport_Fill: what a solid block leaves in the framebuffer, word by word (C6).
  \<^item> Newport_Invariant and Newport_Machine: what every access keeps of the board.  The locale
    \<open>graphics_board\<close> is what the machine relies on from a board and gives, by sublocale, the contract
    \<open>device_bus\<close> of the operations behind the router; the board's invariant holds in every state the machine
    reaches, direct accesses and graphics DMA included (C25).

  \<^bold>\<open>How code becomes definitions.\<close>  A C++ function that mutates \<^verbatim>\<open>state_t\<close> is a function on the
  record \<open>state_t\<close>; one that may end the process (\<^verbatim>\<open>exit\<close>, a failed \<^verbatim>\<open>assert\<close>, an undefined
  division, \<^verbatim>\<open>UNREACHABLE\<close>) returns \<open>host_stop + state\<close>; a device that ends or hangs the process
  sets \<open>halted\<close>.  A device class is a record and its member functions are functions on it; effects
  on the host (standard input and output, the tap, the disk image) are fields of the record.
  \<^verbatim>\<open>reg_t\<close> and the unsigned types are words of their width; a signed comparison or division reads
  them through \<^const>\<open>sint\<close>.  A template parameter is an argument (the size of an access, single or
  double precision) and the endianness parameter \<^verbatim>\<open>EL\<close> is the value the program uses, where
  \<^verbatim>\<open>bswap\<close> swaps.

  \<^bold>\<open>Bounds and fuel.\<close>  The mutual recursion of \<^verbatim>\<open>execMips\<close> and \<^verbatim>\<open>branch\<close> is tied with a depth: C10
  shows that depth 2 always suffices unless a delay slot holds a branch again, which the
  architecture leaves undefined.  The run loop takes a number of iterations, since the program may
  run for ever.  A descriptor chain in guest memory need not end; the walks take \<open>chain_fuel\<close>
  steps and set \<open>halted\<close> when it is used up, and C3 shows that a chain that ends needs three steps
  per descriptor.  The graphics DMA engine reaches devices through the router that calls it;
  \<open>indy_ops\<close> unfolds that recursion to a given level.

  \<^bold>\<open>Parameters.\<close>  The theories on the CPU are universal in the record \<open>dev_ops\<close> of device operations,
  which Indy instantiates.  The theories on the machine are universal in the record \<open>np_ops\<close> of the
  graphics board, of which \<open>newport_ops\<close> is the instance.  SoftFloat and the host's
  floating-point arithmetic are the record \<open>fp_ops\<close>, the float operations of blending and the switch
  \<^verbatim>\<open>NEWPORT_SCALAR\<close> the record \<open>np_host\<close>; the host's clock is a field of \<open>indy_env\<close>.
  No theorem assumes anything of them.

  \<^bold>\<open>Not modelled.\<close>  The host window of the Newport board (src/newport_sdl.cc), the disassembler,
  the unused stack of src/shmem.cc and every trace or profiling hook.  The experiment knobs
  \<^verbatim>\<open>TIMER_SCALE\<close>, \<^verbatim>\<open>MTC0_IRQ_PC\<close> and \<^verbatim>\<open>TLBP_ZERO_ON_MISS\<close> are unset.

  \<^bold>\<open>Plan.\<close>  Functional statements of the line and copy commands of the graphics board.
\<close>

end
